(* ===== verification/Gost_Prelude.thy ===== *)
theory Gost_Prelude
  imports Complex_Main "HOL-Library.AList"
begin

text \<open>
  Shared ground of the development: the result type and the state-and-exception
  computations in which the stateful Python code is written, their weakest-precondition
  calculus (collection \<open>wp_simps\<close>), and the Python text operations the parsers use
  (character classes, \<open>str.splitlines\<close>, \<open>str.split\<close>, \<open>int\<close> and \<open>str\<close>), with the generic
  lemmas about them that the component theories share.

  A Python string is a list of characters; the characters of the model are the code points
  below 256, which covers the ASCII files the program accepts.
\<close>

named_theorems wp_simps \<open>weakest preconditions of the basic computations\<close>
named_theorems frame_simps \<open>which parts of the world an operation leaves alone\<close>


section \<open>Results: a value or an exception\<close>

type_synonym ('e, 'a) result = "'e + 'a"

definition bindR :: "('e, 'a) result \<Rightarrow> ('a \<Rightarrow> ('e, 'b) result) \<Rightarrow> ('e, 'b) result" where
  "bindR r f = (case r of Inl e \<Rightarrow> Inl e | Inr x \<Rightarrow> f x)"

fun mapR :: "('a \<Rightarrow> ('e, 'b) result) \<Rightarrow> 'a list \<Rightarrow> ('e, 'b list) result" where
  "mapR f [] = Inr []"
| "mapR f (x # xs) = bindR (f x) (\<lambda>y. bindR (mapR f xs) (\<lambda>ys. Inr (y # ys)))"

definition guardR :: "bool \<Rightarrow> 'e \<Rightarrow> ('e, unit) result" where
  "guardR b e = (if b then Inr () else Inl e)"

lemma bindR_simps [simp]:
  "bindR (Inl e) f = Inl e"
  "bindR (Inr x) f = f x"
  by (simp_all add: bindR_def)

lemma bindR_eq_Inr: "bindR r f = Inr y \<longleftrightarrow> (\<exists>x. r = Inr x \<and> f x = Inr y)"
  by (cases r) auto

lemma guardR_eq_Inr [simp]: "guardR b e = Inr u \<longleftrightarrow> b"
  by (simp add: guardR_def)

lemma guardR_True [simp]: "guardR True e = Inr ()" and guardR_False [simp]: "guardR False e = Inl e"
  by (simp_all add: guardR_def)


section \<open>Computations over a mutable state that may raise\<close>

text \<open>
  A Python method that mutates objects and may raise is a function from the state to an
  outcome and the state it leaves: an exception keeps the mutations made before it, as
  Python does.
\<close>

type_synonym ('s, 'e, 'a) act = "'s \<Rightarrow> ('e, 'a) result \<times> 's"

definition ret :: "'a \<Rightarrow> ('s, 'e, 'a) act" where
  "ret x = (\<lambda>s. (Inr x, s))"

definition raise :: "'e \<Rightarrow> ('s, 'e, 'a) act" where
  "raise e = (\<lambda>s. (Inl e, s))"

definition bindE :: "('s, 'e, 'a) act \<Rightarrow> ('a \<Rightarrow> ('s, 'e, 'b) act) \<Rightarrow> ('s, 'e, 'b) act" where
  "bindE m f = (\<lambda>s. case m s of (Inl e, s') \<Rightarrow> (Inl e, s') | (Inr x, s') \<Rightarrow> f x s')"

definition seqE :: "('s, 'e, 'a) act \<Rightarrow> ('s, 'e, 'b) act \<Rightarrow> ('s, 'e, 'b) act" where
  "seqE m n = bindE m (\<lambda>_. n)"

definition modify :: "('s \<Rightarrow> 's) \<Rightarrow> ('s, 'e, unit) act" where
  "modify f = (\<lambda>s. (Inr (), f s))"

definition gets :: "('s \<Rightarrow> 'a) \<Rightarrow> ('s, 'e, 'a) act" where
  "gets f = (\<lambda>s. (Inr (f s), s))"

definition handle :: "('s, 'e, 'a) act \<Rightarrow> ('e \<Rightarrow> ('s, 'e, 'a) act) \<Rightarrow> ('s, 'e, 'a) act" where
  "handle m h = (\<lambda>s. case m s of (Inl e, s') \<Rightarrow> h e s' | (Inr x, s') \<Rightarrow> (Inr x, s'))"

definition whenE :: "bool \<Rightarrow> ('s, 'e, unit) act \<Rightarrow> ('s, 'e, unit) act" where
  "whenE b m = (if b then m else ret ())"

definition liftR :: "('e, 'a) result \<Rightarrow> ('s, 'e, 'a) act" where
  "liftR r = (\<lambda>s. (r, s))"

fun forE :: "'a list \<Rightarrow> ('a \<Rightarrow> ('s, 'e, unit) act) \<Rightarrow> ('s, 'e, unit) act" where
  "forE [] f = ret ()"
| "forE (x # xs) f = seqE (f x) (forE xs f)"

fun block :: "('s, 'e, unit) act list \<Rightarrow> ('s, 'e, unit) act" where
  "block [] = ret ()"
| "block (m # ms) = seqE m (block ms)"


subsection \<open>Weakest preconditions\<close>

text \<open>
  \<open>wp m Q X s\<close>: run from \<open>s\<close>, the computation ends in a state satisfying \<open>Q\<close> of its value,
  or raises and leaves a state satisfying \<open>X\<close> of the exception. Every computation ends, so
  there is no third case.
\<close>

definition wp :: "('s, 'e, 'a) act \<Rightarrow> ('a \<Rightarrow> 's \<Rightarrow> bool) \<Rightarrow> ('e \<Rightarrow> 's \<Rightarrow> bool) \<Rightarrow> 's \<Rightarrow> bool" where
  "wp m Q X s = (case m s of (Inl e, s') \<Rightarrow> X e s' | (Inr x, s') \<Rightarrow> Q x s')"

lemma wp_ret [wp_simps]: "wp (ret x) Q X = Q x"
  by (simp add: fun_eq_iff wp_def ret_def)

lemma wp_raise [wp_simps]: "wp (raise e) Q X s = X e s"
  by (simp add: wp_def raise_def)

lemma wp_bindE [wp_simps]: "wp (bindE m f) Q X = wp m (\<lambda>x. wp (f x) Q X) X"
  by (simp add: fun_eq_iff wp_def bindE_def split: prod.splits sum.splits)

lemma wp_seqE [wp_simps]: "wp (seqE m n) Q X = wp m (\<lambda>_. wp n Q X) X"
  by (simp add: seqE_def wp_bindE)

lemma wp_block [wp_simps]:
  "wp (block []) Q X = Q ()"
  "wp (block (m # ms)) Q X = wp m (\<lambda>_. wp (block ms) Q X) X"
  by (simp_all add: wp_ret wp_seqE)

declare block.simps [simp del]

lemma wp_modify [wp_simps]: "wp (modify f) Q X s = Q () (f s)"
  by (simp add: wp_def modify_def)

lemma wp_gets [wp_simps]: "wp (gets f) Q X s = Q (f s) s"
  by (simp add: wp_def gets_def)

lemma wp_handle [wp_simps]: "wp (handle m h) Q X = wp m Q (\<lambda>e. wp (h e) Q X)"
  by (simp add: fun_eq_iff wp_def handle_def split: prod.splits sum.splits)

lemma wp_if [wp_simps]: "wp (if b then m else n) Q X s = (if b then wp m Q X s else wp n Q X s)"
  by simp

lemma wp_whenE [wp_simps]: "wp (whenE b m) Q X s = (if b then wp m Q X s else Q () s)"
  by (simp add: whenE_def wp_ret)

lemma wp_liftR [wp_simps]:
  "wp (liftR r) Q X s = (case r of Inl e \<Rightarrow> X e s | Inr x \<Rightarrow> Q x s)"
  by (simp add: wp_def liftR_def)

lemma wp_case_option [wp_simps]:
  "wp (case x of None \<Rightarrow> m | Some y \<Rightarrow> f y) Q X s =
     (case x of None \<Rightarrow> wp m Q X s | Some y \<Rightarrow> wp (f y) Q X s)"
  by (simp split: option.splits)

lemma wp_mono:
  assumes "wp m Q X s"
    and "\<And>x s'. m s = (Inr x, s') \<Longrightarrow> Q x s' \<Longrightarrow> Q' x s'"
    and "\<And>e s'. m s = (Inl e, s') \<Longrightarrow> X e s' \<Longrightarrow> X' e s'"
  shows "wp m Q' X' s"
  using assms by (auto simp: wp_def split: prod.splits sum.splits)

lemma wp_weaken:
  assumes "wp m Q X s" and "\<And>x s'. Q x s' \<Longrightarrow> Q' x s'" and "\<And>e s'. X e s' \<Longrightarrow> X' e s'"
  shows "wp m Q' X' s"
  using assms by (auto elim: wp_mono)

lemma wp_conj:
  "wp m Q X s \<Longrightarrow> wp m Q' X' s \<Longrightarrow> wp m (\<lambda>x s'. Q x s' \<and> Q' x s') (\<lambda>e s'. X e s' \<and> X' e s') s"
  by (auto simp: wp_def split: prod.splits sum.splits)

lemma wp_forE:
  assumes "I s" and "\<And>x t. x \<in> set xs \<Longrightarrow> I t \<Longrightarrow> wp (f x) (\<lambda>_. I) X t"
  shows "wp (forE xs f) (\<lambda>_. I) X s"
  using assms
proof (induction xs arbitrary: s)
  case Nil
  then show ?case by (simp add: wp_ret)
next
  case (Cons x xs)
  then have "wp (f x) (\<lambda>_. wp (forE xs f) (\<lambda>_. I) X) X s"
    by (intro wp_weaken [OF Cons.prems(2)]) auto
  then show ?case by (simp add: wp_seqE)
qed

text \<open>Reading a run off a weakest precondition, and the other way round.\<close>

lemma wp_run: "wp m Q X s \<Longrightarrow> m s = (r, s') \<Longrightarrow> (case r of Inl e \<Rightarrow> X e s' | Inr x \<Rightarrow> Q x s')"
  by (simp add: wp_def)

lemma wp_all_run: "wp m (\<lambda>_. P) (\<lambda>_. P) s \<Longrightarrow> m s = (r, s') \<Longrightarrow> P s'"
  by (auto simp: wp_def split: sum.splits)


section \<open>Python text\<close>

subsection \<open>Character classes\<close>

abbreviation LF :: char where "LF \<equiv> CHR 0x0A"
abbreviation CR :: char where "CR \<equiv> CHR 0x0D"
abbreviation NUL :: char where "NUL \<equiv> CHR 0x00"

definition is_ascii :: "char \<Rightarrow> bool" where
  "is_ascii c \<longleftrightarrow> of_char c < (128 :: nat)"

definition is_digit :: "char \<Rightarrow> bool" where
  "is_digit c \<longleftrightarrow> 48 \<le> (of_char c :: nat) \<and> of_char c \<le> (57 :: nat)"

definition is_upper :: "char \<Rightarrow> bool" where
  "is_upper c \<longleftrightarrow> 65 \<le> (of_char c :: nat) \<and> of_char c \<le> (90 :: nat)"

definition is_lower :: "char \<Rightarrow> bool" where
  "is_lower c \<longleftrightarrow> 97 \<le> (of_char c :: nat) \<and> of_char c \<le> (122 :: nat)"

definition is_alnum :: "char \<Rightarrow> bool" where
  "is_alnum c \<longleftrightarrow> is_digit c \<or> is_upper c \<or> is_lower c"

text \<open>\<open>str.isspace\<close> and the boundaries of \<open>str.splitlines\<close>, below code point 256.\<close>

definition is_space :: "char \<Rightarrow> bool" where
  "is_space c \<longleftrightarrow>
     (let n = of_char c :: nat
      in (9 \<le> n \<and> n \<le> 13) \<or> (28 \<le> n \<and> n \<le> 32) \<or> n = 133 \<or> n = 160)"

definition is_linebreak :: "char \<Rightarrow> bool" where
  "is_linebreak c \<longleftrightarrow>
     (let n = of_char c :: nat in (10 \<le> n \<and> n \<le> 13) \<or> (28 \<le> n \<and> n \<le> 30) \<or> n = 133)"

lemma linebreak_is_space: "is_linebreak c \<Longrightarrow> is_space c"
  by (auto simp: is_linebreak_def is_space_def Let_def)

lemma digit_not_space: "is_digit c \<Longrightarrow> \<not> is_space c"
  by (auto simp: is_digit_def is_space_def Let_def)

lemma digit_is_ascii: "is_digit c \<Longrightarrow> is_ascii c"
  by (auto simp: is_digit_def is_ascii_def)


subsection \<open>Lines and fields\<close>

fun splitlines :: "string \<Rightarrow> string list" where
  "splitlines [] = []"
| "splitlines (c # cs) =
     (if is_linebreak c
      then [] # splitlines (if c = CR \<and> cs \<noteq> [] \<and> hd cs = LF then tl cs else cs)
      else (case splitlines cs of [] \<Rightarrow> [[c]] | l # ls \<Rightarrow> (c # l) # ls))"

lemma splitlines_line:
  assumes "\<forall>c\<in>set l. \<not> is_linebreak c"
  shows "splitlines (l @ LF # rest) = l # splitlines rest"
  using assms
proof (induction l)
  case Nil
  then show ?case by (simp add: is_linebreak_def)
next
  case (Cons c l)
  then show ?case by simp
qed

lemma splitlines_concat:
  assumes "\<forall>l\<in>set ls. \<forall>c\<in>set l. \<not> is_linebreak c"
  shows "splitlines (concat (map (\<lambda>l. l @ [LF]) ls)) = ls"
  using assms by (induction ls) (simp_all add: splitlines_line)

text \<open>\<open>s.split(sep, 1)\<close> for a separator that occurs, and \<open>s.split(sep)\<close>.\<close>

fun split_first :: "char \<Rightarrow> string \<Rightarrow> (string \<times> string) option" where
  "split_first sep [] = None"
| "split_first sep (c # cs) =
     (if c = sep then Some ([], cs)
      else (case split_first sep cs of None \<Rightarrow> None | Some (a, b) \<Rightarrow> Some (c # a, b)))"

fun split_on :: "char \<Rightarrow> string \<Rightarrow> string list" where
  "split_on sep [] = [[]]"
| "split_on sep (c # cs) =
     (if c = sep then [] # split_on sep cs
      else (case split_on sep cs of [] \<Rightarrow> [[c]] | l # ls \<Rightarrow> (c # l) # ls))"

lemma split_first_append:
  "sep \<notin> set a \<Longrightarrow> split_first sep (a @ sep # b) = Some (a, b)"
  by (induction a) auto

lemma split_first_Some: "split_first sep s = Some (a, b) \<Longrightarrow> s = a @ sep # b \<and> sep \<notin> set a"
  by (induction s arbitrary: a) (auto split: if_splits option.splits)

lemma split_first_None: "split_first sep s = None \<longleftrightarrow> sep \<notin> set s"
  by (induction s) (auto split: option.splits)

fun strip_left :: "string \<Rightarrow> string" where
  "strip_left [] = []"
| "strip_left (c # cs) = (if is_space c then strip_left cs else c # cs)"

definition strip :: "string \<Rightarrow> string" where
  "strip s = rev (strip_left (rev (strip_left s)))"

lemma strip_left_id: "(s = [] \<or> \<not> is_space (hd s)) \<Longrightarrow> strip_left s = s"
  by (cases s) auto

definition starts_with :: "string \<Rightarrow> string \<Rightarrow> bool" where
  "starts_with s p \<longleftrightarrow> take (length p) s = p"

definition ends_with :: "string \<Rightarrow> string \<Rightarrow> bool" where
  "ends_with s p \<longleftrightarrow> length p \<le> length s \<and> drop (length s - length p) s = p"


subsection \<open>Integers as decimal text\<close>

definition digit_value :: "char \<Rightarrow> nat" where
  "digit_value c = of_char c - 48"

definition digit_char :: "nat \<Rightarrow> char" where
  "digit_char n = char_of (48 + n)"

definition all_digits :: "string \<Rightarrow> bool" where
  "all_digits s \<longleftrightarrow> s \<noteq> [] \<and> (\<forall>c\<in>set s. is_digit c)"

definition nat_of_text :: "string \<Rightarrow> nat" where
  "nat_of_text s = foldl (\<lambda>n c. 10 * n + digit_value c) 0 s"

fun str_nat :: "nat \<Rightarrow> string" where
  "str_nat n = (if n < 10 then [digit_char n] else str_nat (n div 10) @ [digit_char (n mod 10)])"

declare str_nat.simps [simp del]

definition str_int :: "int \<Rightarrow> string" where
  "str_int i = (if i < 0 then CHR ''-'' # str_nat (nat (- i)) else str_nat (nat i))"

lemma digit_char_digit: "n < 10 \<Longrightarrow> is_digit (digit_char n)"
  by (simp add: is_digit_def digit_char_def of_char_of)

lemma digit_value_char: "n < 10 \<Longrightarrow> digit_value (digit_char n) = n"
  by (simp add: digit_value_def digit_char_def of_char_of)

lemma str_nat_nonempty: "str_nat n \<noteq> []"
  by (subst str_nat.simps) simp

lemma str_nat_digits: "c \<in> set (str_nat n) \<Longrightarrow> is_digit c"
proof (induction n rule: str_nat.induct)
  case (1 n)
  show ?case
  proof (cases "n < 10")
    case True
    with "1.prems" show ?thesis by (simp add: str_nat.simps [of n] digit_char_digit)
  next
    case False
    with "1.prems" consider "c \<in> set (str_nat (n div 10))" | "c = digit_char (n mod 10)"
      by (auto simp: str_nat.simps [of n])
    then show ?thesis
      using False "1.IH" by cases (auto simp: digit_char_digit)
  qed
qed

lemma all_digits_str_nat: "all_digits (str_nat n)"
  by (simp add: all_digits_def str_nat_nonempty str_nat_digits)

lemma nat_of_text_snoc: "nat_of_text (s @ [c]) = 10 * nat_of_text s + digit_value c"
  by (simp add: nat_of_text_def)

lemma nat_of_text_str_nat: "nat_of_text (str_nat n) = n"
proof (induction n rule: str_nat.induct)
  case (1 n)
  show ?case
  proof (cases "n < 10")
    case True
    then show ?thesis by (simp add: str_nat.simps [of n] nat_of_text_def digit_value_char)
  next
    case False
    then show ?thesis
      using "1.IH" by (simp add: str_nat.simps [of n] nat_of_text_snoc digit_value_char)
  qed
qed

lemma length_str_nat: "length (str_nat n) \<le> Suc n"
proof (induction n rule: str_nat.induct)
  case (1 n)
  show ?case
  proof (cases "n < 10")
    case True
    then show ?thesis by (simp add: str_nat.simps [of n])
  next
    case False
    then have "length (str_nat n) \<le> Suc (Suc (n div 10))"
      using "1.IH" by (simp add: str_nat.simps [of n])
    also have "\<dots> \<le> Suc n" using False by simp
    finally show ?thesis .
  qed
qed

lemma str_int_nonneg: "0 \<le> i \<Longrightarrow> str_int i = str_nat (nat i)"
  by (simp add: str_int_def)


section \<open>Dictionaries with insertion order\<close>

text \<open>
  A Python dict is an association list with distinct keys in insertion order: a lookup is
  \<open>map_of\<close>, an assignment is \<open>AList.update\<close>, which keeps the position of a present key.
\<close>

type_synonym ('k, 'v) dict = "('k \<times> 'v) list"

definition dict_get :: "('k, 'v) dict \<Rightarrow> 'k \<Rightarrow> 'v \<Rightarrow> 'v" where
  "dict_get d k v0 = (case map_of d k of None \<Rightarrow> v0 | Some v \<Rightarrow> v)"

lemma dict_get_update: "dict_get (AList.update k v d) k' v0 = (if k' = k then v else dict_get d k' v0)"
  by (simp add: dict_get_def update_conv')

end
