(* ===== verification/Watchdog_Models.thy ===== *)
theory Watchdog_Models
  imports Gost_Prelude
begin

text \<open>
  The data contracts of the Upstream Watchdog: \<open>src/gost_watchdog/models.py\<close>, and the
  exceptions its modules raise. A Python string field that takes one of a fixed set of values
  is a datatype with one constructor per value and an \<open>Other\<close> constructor for any further
  text, so that the membership tests the code performs stay in the model.
\<close>

section \<open>Constants and enumerations\<close>

definition CHECK_INTERVAL_SECONDS :: int where "CHECK_INTERVAL_SECONDS = 2"
definition PING_TIMEOUT_SECONDS :: int where "PING_TIMEOUT_SECONDS = 1"
definition FAILURE_THRESHOLD :: int where "FAILURE_THRESHOLD = 10"
definition SUCCESS_THRESHOLD :: int where "SUCCESS_THRESHOLD = 10"
definition RECOVERY_HOLD_SECONDS :: int where "RECOVERY_HOLD_SECONDS = 10"
definition RECOVERY_JITTER_MAX_SECONDS :: int where "RECOVERY_JITTER_MAX_SECONDS = 10"
definition EVENT_RETENTION_SECONDS :: int where "EVENT_RETENTION_SECONDS = 24 * 60 * 60"
definition MAX_PING_WORKERS :: nat where "MAX_PING_WORKERS = 32"
definition SERVICE_RECONCILIATION_INTERVAL_SECONDS :: int where
  "SERVICE_RECONCILIATION_INTERVAL_SECONDS = 10"

datatype mode = Disabled | Monitor | Auto

datatype health =
  Unknown | Healthy | Degraded | Down | Recovering | OtherHealth string

datatype check_status =
  UnknownCheck | Success | Unreachable | Probe_error | OtherCheck string

datatype pending =
  Stop_watchdog | Stop_maintenance | Start_watchdog | Start_maintenance | Start_operator
| OtherPending string

definition HEALTH_STATES :: "health list" where
  "HEALTH_STATES = [Unknown, Healthy, Degraded, Down, Recovering]"

definition PROBE_STATUSES :: "check_status list" where
  "PROBE_STATUSES = [Success, Unreachable, Probe_error]"

definition CHECK_STATUSES :: "check_status list" where
  "CHECK_STATUSES = UnknownCheck # PROBE_STATUSES"

definition PENDING_ACTIONS :: "pending list" where
  "PENDING_ACTIONS =
     [Stop_watchdog, Stop_maintenance, Start_watchdog, Start_maintenance, Start_operator]"

datatype display = Showing health | In_maintenance

datatype error_category =
  Invalid_global_config | Invalid_profile | Unsafe_directory | Service_state_unavailable
| Stop_failed | Start_failed | Runtime_error | Ping_binary_missing | Ping_permission_denied
| Ping_execution_failed | Ping_execution_timeout | Persistence_failed | Compensation_failed
| OtherCategory string

datatype action_result =
  Stopped | Started | Already_inactive | Already_active | Manual_start | Manual_stop
| Maintenance_stop | Maintenance_exit_no_start | Maintenance_exit_start | Rearmed | Failed
| Intent_reconciled | Compensated | Operator_start | OtherResult string

datatype event_code =
  Watchdog_degraded | Watchdog_upstream_down | Watchdog_profile_stopped | Watchdog_recovering
| Watchdog_upstream_healthy | Watchdog_profile_started | Watchdog_stop_failed
| Watchdog_start_failed | Watchdog_manual_override | Watchdog_maintenance_enabled
| Watchdog_maintenance_disabled | Watchdog_config_error | Watchdog_daemon_started
| Watchdog_daemon_stopped | Watchdog_probe_error | Watchdog_probe_recovered
| Watchdog_action_error | Watchdog_mode_change_start | OtherCode string


section \<open>Records\<close>

record global_config =
  gc_check_mode :: string
  gc_check_interval_seconds :: int
  gc_ping_timeout_seconds :: int
  gc_failure_threshold :: int
  gc_success_threshold :: int
  gc_recovery_hold_seconds :: int
  gc_recovery_jitter_max_seconds :: int

definition GlobalConfig :: global_config where
  "GlobalConfig =
     \<lparr>gc_check_mode = ''ping'',
      gc_check_interval_seconds = CHECK_INTERVAL_SECONDS,
      gc_ping_timeout_seconds = PING_TIMEOUT_SECONDS,
      gc_failure_threshold = FAILURE_THRESHOLD,
      gc_success_threshold = SUCCESS_THRESHOLD,
      gc_recovery_hold_seconds = RECOVERY_HOLD_SECONDS,
      gc_recovery_jitter_max_seconds = RECOVERY_JITTER_MAX_SECONDS\<rparr>"

record profile_config =
  mode :: mode
  check_interval_seconds :: int
  ping_timeout_seconds :: int
  failure_threshold :: int
  success_threshold :: int
  recovery_hold_seconds :: int
  recovery_jitter_max_seconds :: int

record managed_profile =
  mp_profile_id :: string
  mp_service_name :: string
  mp_kharej_ip :: string
  env_path :: string
  unit_path :: string
  config_path :: string
  config :: profile_config

record probe_result =
  status :: check_status
  pr_error_category :: "error_category option"

record profile_state =
  ps_profile_id :: string
  ps_service_name :: string
  ps_kharej_ip :: string
  health_state :: health
  maintenance :: bool
  stopped_by_watchdog :: bool
  stopped_by_maintenance :: bool
  manual_override :: bool
  failure_count :: int
  success_count :: int
  last_check_at :: "int option"
  last_transition_at :: "int option"
  outage_started_at :: "int option"
  recovery_started_at :: "int option"
  recovery_ready_at :: "int option"
  recovery_jitter_seconds :: int
  last_service_active :: "bool option"
  check_status :: check_status
  last_probe_error_category :: "error_category option"
  pending_action :: "pending option"
  pending_action_at :: "int option"
  last_service_check_at :: "int option"

definition ProfileState :: "string \<Rightarrow> string \<Rightarrow> string \<Rightarrow> profile_state" where
  "ProfileState pid svc ip =
     \<lparr>ps_profile_id = pid, ps_service_name = svc, ps_kharej_ip = ip,
      health_state = Unknown, maintenance = False, stopped_by_watchdog = False,
      stopped_by_maintenance = False, manual_override = False,
      failure_count = 0, success_count = 0, last_check_at = None, last_transition_at = None,
      outage_started_at = None, recovery_started_at = None, recovery_ready_at = None,
      recovery_jitter_seconds = 0, last_service_active = None, check_status = UnknownCheck,
      last_probe_error_category = None, pending_action = None, pending_action_at = None,
      last_service_check_at = None\<rparr>"

definition display_state :: "profile_state \<Rightarrow> display" where
  "display_state s = (if maintenance s then In_maintenance else Showing (health_state s))"

record event =
  ev_ts :: int
  ev_code :: event_code
  ev_profile_id :: "string option"
  ev_service_name :: "string option"
  ev_kharej_ip :: "string option"
  ev_previous_state :: "display option"
  ev_new_state :: "display option"
  ev_failure_count :: int
  ev_success_count :: int
  ev_action_result :: "action_result option"
  ev_outage_duration :: "int option"
  ev_error_category :: "error_category option"

definition WatchdogEvent :: "int \<Rightarrow> event_code \<Rightarrow> event" where
  "WatchdogEvent t code =
     \<lparr>ev_ts = t, ev_code = code, ev_profile_id = None, ev_service_name = None,
      ev_kharej_ip = None, ev_previous_state = None, ev_new_state = None,
      ev_failure_count = 0, ev_success_count = 0, ev_action_result = None,
      ev_outage_duration = None, ev_error_category = None\<rparr>"


section \<open>Exceptions\<close>

text \<open>
  One constructor per exception class, its argument naming the raise site. \<open>ConfigError\<close> and
  \<open>ProfileError\<close> derive from \<open>ValueError\<close> in the source; \<open>is_ValueError\<close> is what an
  \<open>except ValueError\<close> clause catches.
\<close>

datatype config_error =
  Empty_or_control | Malformed_line nat | Unknown_key_line nat string
| Duplicate_key_line nat string | Unsafe_value_line nat string | Missing_key string
| Not_an_integer string | Out_of_bounds string int int | Timeout_exceeds_interval
| Unknown_global_key string | Check_mode_not_ping | Unknown_profile_key string | Bad_mode
| Path_not_absolute | Root_not_real | Escaped_root | Symlink_component "string list"
| Cannot_inspect | Not_regular | Permissions_too_open | Wrong_owner | Cannot_read
| Parent_not_directory | Recovery_target | Atomic_write_failed

datatype profile_error =
  Bad_profile_id | Bad_service_name | Bad_kharej_ip | Control_character
| Profile_line_malformed nat | Profile_line_duplicate nat string | Missing_kharej_ip
| Managed_inspect | Managed_not_regular | Managed_writable | Managed_wrong_owner
| Managed_directory | Managed_unreadable

datatype value_error =
  Invalid_probe_status | Probe_error_without_category | Category_without_probe_error
| Invalid_pending_action | Service_mismatch | Invalid_stop_owner | Invalid_start_owner
| Jitter_out_of_bounds | Unsupported_maintenance_action | Upstream_not_healthy
| Stop_not_owned | Not_stopped_by_watchdog | Override_not_active | Start_before_rearm
| Invalid_health_state | Invalid_check_status | Invalid_pending_text
| Unsupported_event_code | Unsafe_action_result | Unsafe_error_category
| Int_digit_limit

datatype command_error =
  Systemd_command_unavailable | State_unavailable | Command_start_failed
| Command_compensation_failed

datatype wd_exn =
  ValueError value_error
| ConfigError config_error
| ProfileError profile_error
| CommandError command_error
| SqliteError
| OSError
| RuntimeError string
| KeyError
| TypeError

fun is_ValueError :: "wd_exn \<Rightarrow> bool" where
  "is_ValueError (ValueError _) = True"
| "is_ValueError (ConfigError _) = True"
| "is_ValueError (ProfileError _) = True"
| "is_ValueError _ = False"

fun is_CommandError :: "wd_exn \<Rightarrow> bool" where
  "is_CommandError (CommandError _) = True"
| "is_CommandError _ = False"

definition ProbeResult :: "check_status \<Rightarrow> error_category option \<Rightarrow> (wd_exn, probe_result) result" where
  "ProbeResult st cat =
     (if st \<notin> set PROBE_STATUSES then Inl (ValueError Invalid_probe_status)
      else if st = Probe_error \<and> cat = None then Inl (ValueError Probe_error_without_category)
      else if st \<noteq> Probe_error \<and> cat \<noteq> None then Inl (ValueError Category_without_probe_error)
      else Inr \<lparr>status = st, pr_error_category = cat\<rparr>)"

text \<open>The values the constructor accepts: what every probe result satisfies.\<close>

definition valid_probe :: "probe_result \<Rightarrow> bool" where
  "valid_probe r \<longleftrightarrow>
     status r \<in> set PROBE_STATUSES \<and> (status r = Probe_error \<longleftrightarrow> pr_error_category r \<noteq> None)"

lemma ProbeResult_valid: "ProbeResult st cat = Inr r \<Longrightarrow> valid_probe r"
  by (auto simp: ProbeResult_def valid_probe_def split: if_splits)

lemma mem_HEALTH_STATES: "h \<in> set HEALTH_STATES \<longleftrightarrow> (\<forall>t. h \<noteq> OtherHealth t)"
  by (cases h) (auto simp: HEALTH_STATES_def)

lemma mem_CHECK_STATUSES: "c \<in> set CHECK_STATUSES \<longleftrightarrow> (\<forall>t. c \<noteq> OtherCheck t)"
  by (cases c) (auto simp: CHECK_STATUSES_def PROBE_STATUSES_def)

lemma mem_PENDING_ACTIONS: "a \<in> set PENDING_ACTIONS \<longleftrightarrow> (\<forall>t. a \<noteq> OtherPending t)"
  by (cases a) (auto simp: PENDING_ACTIONS_def)

end
