(* ===== verification/Watchdog_Config.thy ===== *)
theory Watchdog_Config
  imports Watchdog_Models "HOL-Library.List_Lexorder" "HOL-Library.Char_ord"
begin

text \<open>
  \<open>src/gost_watchdog/config.py\<close>: the strict key=value format, the bounded integer settings,
  rendering, the file-security checks and the atomic write. The file system is a parameter
  (record \<open>fs\<close>): what the operating system answers to the calls the code makes.

  The locale \<open>key_value_lines\<close> is the contract of one line step of a strict key=value
  file; what follows from it (accepted files have distinct allowed keys and safe values;
  rendered settings are read back) is proved once and holds for every file format of the
  program that satisfies the contract.
\<close>

unbundle bit_operations_syntax

section \<open>Keys and bounds\<close>

definition GLOBAL_KEYS :: "string list" where
  "GLOBAL_KEYS =
     [''CHECK_MODE'', ''CHECK_INTERVAL_SECONDS'', ''PING_TIMEOUT_SECONDS'',
      ''FAILURE_THRESHOLD'', ''SUCCESS_THRESHOLD'', ''RECOVERY_HOLD_SECONDS'',
      ''RECOVERY_JITTER_MAX_SECONDS'']"

definition PROFILE_KEYS :: "string list" where
  "PROFILE_KEYS = ''MODE'' # drop 1 GLOBAL_KEYS"

definition BOUNDS :: "(string \<times> int \<times> int) list" where
  "BOUNDS =
     [(''CHECK_INTERVAL_SECONDS'', 1, 300),
      (''PING_TIMEOUT_SECONDS'', 1, 60),
      (''FAILURE_THRESHOLD'', 1, 1000),
      (''SUCCESS_THRESHOLD'', 1, 1000),
      (''RECOVERY_HOLD_SECONDS'', 0, 3600),
      (''RECOVERY_JITTER_MAX_SECONDS'', 0, 300)]"


section \<open>Parsing\<close>

definition safe_value :: "string \<Rightarrow> bool" where
  "safe_value v \<longleftrightarrow> v \<noteq> [] \<and> (\<forall>c\<in>set v. is_ascii c) \<and> (\<forall>c\<in>set v. \<not> is_space c)"

definition parse_line ::
  "string list \<Rightarrow> nat \<Rightarrow> (string, string) dict \<Rightarrow> string
     \<Rightarrow> (wd_exn, (string, string) dict) result" where
  "parse_line allowed number values line =
     (if line = [] \<or> count_list line (CHR ''='') \<noteq> 1 then Inl (ConfigError (Malformed_line number))
      else (case split_first (CHR ''='') line of
              None \<Rightarrow> Inl (ConfigError (Malformed_line number))
            | Some (key, value) \<Rightarrow>
                if key \<notin> set allowed then Inl (ConfigError (Unknown_key_line number key))
                else if map_of values key \<noteq> None
                  then Inl (ConfigError (Duplicate_key_line number key))
                else if \<not> safe_value value then Inl (ConfigError (Unsafe_value_line number key))
                else Inr (values @ [(key, value)])))"

text \<open>The numbered loop over the lines of a file, shared by the strict formats.\<close>

fun fold_lines :: "(nat \<Rightarrow> 'd \<Rightarrow> string \<Rightarrow> ('e, 'd) result) \<Rightarrow> nat \<Rightarrow> 'd \<Rightarrow> string list \<Rightarrow> ('e, 'd) result"
where
  "fold_lines step n d [] = Inr d"
| "fold_lines step n d (l # ls) = bindR (step n d l) (\<lambda>d'. fold_lines step (Suc n) d' ls)"

definition parse_text ::
  "string \<Rightarrow> string list \<Rightarrow> bool \<Rightarrow> (wd_exn, (string, string) dict) result" where
  "parse_text text allowed require_all =
     (if text = [] \<or> NUL \<in> set text \<or> CR \<in> set text then Inl (ConfigError Empty_or_control)
      else bindR (fold_lines (parse_line allowed) 1 [] (splitlines text))
        (\<lambda>values.
           let missing = filter (\<lambda>key. map_of values key = None) allowed
           in if require_all \<and> missing \<noteq> [] then Inl (ConfigError (Missing_key (hd missing)))
              else Inr values))"

text \<open>
  \<open>int\<close> on decimal text: CPython refuses more than 4300 digits with a plain \<open>ValueError\<close>
  (\<open>sys.get_int_max_str_digits\<close>), which is not a \<open>ConfigError\<close>.
\<close>

definition int_max_str_digits :: nat where "int_max_str_digits = 4300"

definition py_int :: "string \<Rightarrow> (wd_exn, int) result" where
  "py_int raw =
     (if int_max_str_digits < length raw then Inl (ValueError Int_digit_limit)
      else Inr (int (nat_of_text raw)))"

definition integer :: "(string, string) dict \<Rightarrow> string \<Rightarrow> int \<Rightarrow> (wd_exn, int) result" where
  "integer values key dflt =
     (let raw = dict_get values key (str_int dflt)
      in if \<not> all_digits raw then Inl (ConfigError (Not_an_integer key))
         else bindR (py_int raw) (\<lambda>parsed.
           (case map_of BOUNDS key of
              None \<Rightarrow> Inl KeyError
            | Some (minimum, maximum) \<Rightarrow>
                if parsed < minimum \<or> maximum < parsed
                then Inl (ConfigError (Out_of_bounds key minimum maximum))
                else Inr parsed)))"

definition validate_timing :: "int \<Rightarrow> int \<Rightarrow> (wd_exn, unit) result" where
  "validate_timing interval timeout =
     (if timeout > interval then Inl (ConfigError Timeout_exceeds_interval) else Inr ())"

definition global_config_from_mapping ::
  "(string, string) dict \<Rightarrow> (wd_exn, global_config) result" where
  "global_config_from_mapping values =
     (let unknown = filter (\<lambda>k. k \<notin> set GLOBAL_KEYS) (map fst values);
          md = dict_get values ''CHECK_MODE'' ''ping'';
          defaults = GlobalConfig
      in if unknown \<noteq> [] then Inl (ConfigError (Unknown_global_key (hd (sort unknown))))
         else if md \<noteq> ''ping'' then Inl (ConfigError Check_mode_not_ping)
         else
           bindR (integer values ''CHECK_INTERVAL_SECONDS'' (gc_check_interval_seconds defaults)) (\<lambda>interval.
           bindR (integer values ''PING_TIMEOUT_SECONDS'' (gc_ping_timeout_seconds defaults)) (\<lambda>timeout.
           bindR (validate_timing interval timeout) (\<lambda>_.
           bindR (integer values ''FAILURE_THRESHOLD'' (gc_failure_threshold defaults)) (\<lambda>ft.
           bindR (integer values ''SUCCESS_THRESHOLD'' (gc_success_threshold defaults)) (\<lambda>sth.
           bindR (integer values ''RECOVERY_HOLD_SECONDS'' (gc_recovery_hold_seconds defaults)) (\<lambda>hold.
           bindR (integer values ''RECOVERY_JITTER_MAX_SECONDS'' (gc_recovery_jitter_max_seconds defaults)) (\<lambda>jit.
             Inr \<lparr>gc_check_mode = md, gc_check_interval_seconds = interval,
                  gc_ping_timeout_seconds = timeout, gc_failure_threshold = ft,
                  gc_success_threshold = sth, gc_recovery_hold_seconds = hold,
                  gc_recovery_jitter_max_seconds = jit\<rparr>))))))))"

definition parse_global_config :: "string \<Rightarrow> (wd_exn, global_config) result" where
  "parse_global_config text =
     bindR (parse_text text GLOBAL_KEYS True) global_config_from_mapping"

definition mode_text :: "mode \<Rightarrow> string" where
  "mode_text m = (case m of Disabled \<Rightarrow> ''disabled'' | Monitor \<Rightarrow> ''monitor'' | Auto \<Rightarrow> ''auto'')"

definition MODES :: "mode list" where
  "MODES = [Disabled, Monitor, Auto]"

definition mode_of_text :: "string \<Rightarrow> mode option" where
  "mode_of_text t = find (\<lambda>m. mode_text m = t) MODES"

definition profile_config_from_mapping ::
  "(string, string) dict \<Rightarrow> global_config \<Rightarrow> (wd_exn, profile_config) result" where
  "profile_config_from_mapping values g =
     (let unknown = filter (\<lambda>k. k \<notin> set PROFILE_KEYS) (map fst values)
      in if unknown \<noteq> [] then Inl (ConfigError (Unknown_profile_key (hd (sort unknown))))
         else (case mode_of_text (dict_get values ''MODE'' ''disabled'') of
             None \<Rightarrow> Inl (ConfigError Bad_mode)
           | Some md \<Rightarrow>
               bindR (integer values ''CHECK_INTERVAL_SECONDS'' (gc_check_interval_seconds g)) (\<lambda>interval.
               bindR (integer values ''PING_TIMEOUT_SECONDS'' (gc_ping_timeout_seconds g)) (\<lambda>timeout.
               bindR (validate_timing interval timeout) (\<lambda>_.
               bindR (integer values ''FAILURE_THRESHOLD'' (gc_failure_threshold g)) (\<lambda>ft.
               bindR (integer values ''SUCCESS_THRESHOLD'' (gc_success_threshold g)) (\<lambda>sth.
               bindR (integer values ''RECOVERY_HOLD_SECONDS'' (gc_recovery_hold_seconds g)) (\<lambda>hold.
               bindR (integer values ''RECOVERY_JITTER_MAX_SECONDS'' (gc_recovery_jitter_max_seconds g)) (\<lambda>jit.
                 Inr \<lparr>mode = md, check_interval_seconds = interval, ping_timeout_seconds = timeout,
                      failure_threshold = ft, success_threshold = sth,
                      recovery_hold_seconds = hold, recovery_jitter_max_seconds = jit\<rparr>)))))))))"

definition parse_profile_values :: "string \<Rightarrow> (wd_exn, (string, string) dict) result" where
  "parse_profile_values text = parse_text text PROFILE_KEYS False"

definition parse_profile_config :: "string \<Rightarrow> global_config \<Rightarrow> (wd_exn, profile_config) result" where
  "parse_profile_config text g =
     bindR (parse_profile_values text) (\<lambda>values. profile_config_from_mapping values g)"


section \<open>Rendering\<close>

definition render_line :: "string \<times> string \<Rightarrow> string" where
  "render_line kv = fst kv @ CHR ''='' # snd kv @ [LF]"

definition global_values :: "global_config \<Rightarrow> (string, string) dict" where
  "global_values c =
     [(''CHECK_MODE'', gc_check_mode c),
      (''CHECK_INTERVAL_SECONDS'', str_int (gc_check_interval_seconds c)),
      (''PING_TIMEOUT_SECONDS'', str_int (gc_ping_timeout_seconds c)),
      (''FAILURE_THRESHOLD'', str_int (gc_failure_threshold c)),
      (''SUCCESS_THRESHOLD'', str_int (gc_success_threshold c)),
      (''RECOVERY_HOLD_SECONDS'', str_int (gc_recovery_hold_seconds c)),
      (''RECOVERY_JITTER_MAX_SECONDS'', str_int (gc_recovery_jitter_max_seconds c))]"

definition render_global_config :: "global_config \<Rightarrow> string" where
  "render_global_config c =
     concat (map (\<lambda>key. render_line (key, dict_get (global_values c) key [])) GLOBAL_KEYS)"

definition render_profile_values ::
  "(string, string) dict \<Rightarrow> global_config \<Rightarrow> (wd_exn, string) result" where
  "render_profile_values values g =
     bindR (profile_config_from_mapping values g) (\<lambda>_.
       Inr (concat (map (\<lambda>key. render_line (key, dict_get values key []))
              (filter (\<lambda>key. map_of values key \<noteq> None) PROFILE_KEYS))))"

definition default_global_config_text :: string where
  "default_global_config_text = render_global_config GlobalConfig"


section \<open>Files\<close>

text \<open>
  A path is the list of its components below the root of the file system. The record \<open>fs\<close>
  holds the answers of the operating system; \<open>fs_read\<close> is \<open>None\<close> where reading or decoding
  raises.
\<close>

type_synonym path = "string list"

datatype file_kind = Regular | Symlink | Directory | Special

record file_stat =
  st_kind :: file_kind
  st_perm :: int
  st_uid :: int

record fs =
  fs_is_symlink :: "path \<Rightarrow> bool"
  fs_is_dir :: "path \<Rightarrow> bool"
  fs_exists :: "path \<Rightarrow> bool"
  fs_lstat :: "path \<Rightarrow> file_stat option"
  fs_read :: "path \<Rightarrow> string option"
  fs_listdir :: "path \<Rightarrow> string list"

definition rooted_path ::
  "fs \<Rightarrow> bool \<times> path \<Rightarrow> (bool \<times> path) option \<Rightarrow> (wd_exn, path) result" where
  "rooted_path F candidate base =
     (if \<not> fst candidate then Inl (ConfigError Path_not_absolute)
      else (case base of
              None \<Rightarrow> Inr (snd candidate)
            | Some boundary \<Rightarrow>
                if \<not> fst boundary \<or> fs_is_symlink F (snd boundary)
                then Inl (ConfigError Root_not_real)
                else Inr (snd boundary @ snd candidate)))"

fun walk_components :: "fs \<Rightarrow> path \<Rightarrow> string list \<Rightarrow> (wd_exn, unit) result" where
  "walk_components F current [] = Inr ()"
| "walk_components F current (part # parts) =
     (if fs_is_symlink F (current @ [part])
      then Inl (ConfigError (Symlink_component (current @ [part])))
      else walk_components F (current @ [part]) parts)"

definition reject_symlink_components :: "fs \<Rightarrow> path \<Rightarrow> path option \<Rightarrow> (wd_exn, unit) result" where
  "reject_symlink_components F p boundary =
     (let start = (case boundary of None \<Rightarrow> [] | Some b \<Rightarrow> b)
      in if take (length start) p \<noteq> start then Inl (ConfigError Escaped_root)
         else if fs_is_symlink F start then Inl (ConfigError (Symlink_component start))
         else walk_components F start (drop (length start) p))"

definition validate_file_security ::
  "fs \<Rightarrow> path \<Rightarrow> int option \<Rightarrow> path option \<Rightarrow> (wd_exn, unit) result" where
  "validate_file_security F p expected_uid boundary =
     bindR (reject_symlink_components F p boundary) (\<lambda>_.
       case fs_lstat F p of
         None \<Rightarrow> Inl (ConfigError Cannot_inspect)
       | Some metadata \<Rightarrow>
           if st_kind metadata \<noteq> Regular then Inl (ConfigError Not_regular)
           else if st_perm metadata AND 63 \<noteq> 0 then Inl (ConfigError Permissions_too_open)
           else if (case expected_uid of None \<Rightarrow> False | Some u \<Rightarrow> st_uid metadata \<noteq> u)
             then Inl (ConfigError Wrong_owner)
           else Inr ())"

definition load_global_config ::
  "fs \<Rightarrow> path \<Rightarrow> int option \<Rightarrow> path option \<Rightarrow> (wd_exn, global_config) result" where
  "load_global_config F p expected_uid boundary =
     bindR (validate_file_security F p expected_uid boundary) (\<lambda>_.
       case fs_read F p of
         None \<Rightarrow> Inl (ConfigError Cannot_read)
       | Some text \<Rightarrow> parse_global_config text)"

definition load_profile_config ::
  "fs \<Rightarrow> path \<Rightarrow> global_config \<Rightarrow> int option \<Rightarrow> path option \<Rightarrow> (wd_exn, profile_config) result" where
  "load_profile_config F p g expected_uid boundary =
     (if \<not> fs_exists F p \<and> \<not> fs_is_symlink F p then profile_config_from_mapping [] g
      else bindR (validate_file_security F p expected_uid boundary) (\<lambda>_.
        case fs_read F p of
          None \<Rightarrow> Inl (ConfigError Cannot_read)
        | Some text \<Rightarrow> parse_profile_config text g))"


subsection \<open>The durable atomic write\<close>

text \<open>
  The mutable part of the file system is the content of the files, by path. Each system
  call of the write may fail: \<open>fault step\<close> says whether that call raises. \<open>mkstemp\<close>
  returns a name that did not exist, the argument \<open>tmp\<close>.
\<close>

datatype write_step =
  Mkstemp | Fchmod | Fchown | Write_payload | Fsync_file | Replace | Open_directory | Fsync_directory
| Unlink_temporary

record disk =
  files :: "path \<rightharpoonup> string"
  modes :: "path \<Rightarrow> int"

definition write_steps ::
  "(write_step \<Rightarrow> bool) \<Rightarrow> path \<Rightarrow> path \<Rightarrow> string \<Rightarrow> bool \<Rightarrow> (disk \<times> bool, unit, unit) act" where
  "write_steps fault tmp destination text chown =
     (let step = (\<lambda>st f. seqE (bindE (gets (\<lambda>_. fault st)) (\<lambda>b. if b then raise () else ret ())) (modify f))
      in seqE (step Mkstemp (\<lambda>(d, t). (d\<lparr>files := (files d)(tmp \<mapsto> [])\<rparr>, True)))
         (seqE (step Fchmod (\<lambda>(d, t). (d\<lparr>modes := (modes d)(tmp := 384)\<rparr>, t)))
         (seqE (if chown then step Fchown (\<lambda>x. x) else ret ())
         (seqE (if \<forall>c\<in>set text. is_ascii c then ret () else raise ())
         (seqE (step Write_payload (\<lambda>(d, t). (d\<lparr>files := (files d)(tmp \<mapsto> text)\<rparr>, t)))
         (seqE (step Fsync_file (\<lambda>x. x))
         (seqE (step Replace (\<lambda>(d, t).
             (d\<lparr>files := (files d)(destination := files d tmp, tmp := None),
                modes := (modes d)(destination := modes d tmp)\<rparr>, False)))
         (seqE (step Open_directory (\<lambda>x. x))
               (step Fsync_directory (\<lambda>x. x))))))))))"

definition write_checks ::
  "fs \<Rightarrow> path \<Rightarrow> int option \<Rightarrow> path option \<Rightarrow> bool \<Rightarrow> (wd_exn, unit) result" where
  "write_checks F destination owner_uid boundary recovery_replace =
     (let parent = butlast destination
      in bindR (reject_symlink_components F parent boundary) (\<lambda>_.
         bindR (guardR (fs_is_dir F parent \<and> \<not> fs_is_symlink F parent)
                 (ConfigError Parent_not_directory)) (\<lambda>_.
         if fs_exists F destination \<or> fs_is_symlink F destination then
           (if recovery_replace then
              (case fs_lstat F destination of
                 None \<Rightarrow> Inl OSError
               | Some metadata \<Rightarrow>
                   guardR (st_kind metadata = Regular \<or> st_kind metadata = Symlink)
                     (ConfigError Recovery_target))
            else validate_file_security F destination owner_uid boundary)
         else Inr ())))"

definition atomic_write_config ::
  "fs \<Rightarrow> (write_step \<Rightarrow> bool) \<Rightarrow> path \<Rightarrow> path \<Rightarrow> string \<Rightarrow> int option \<Rightarrow> path option \<Rightarrow> bool
     \<Rightarrow> disk \<Rightarrow> (wd_exn, unit) result \<times> disk" where
  "atomic_write_config F fault tmp destination text owner_uid boundary recovery_replace d =
     (case write_checks F destination owner_uid boundary recovery_replace of
        Inl e \<Rightarrow> (Inl e, d)
      | Inr _ \<Rightarrow>
          (case write_steps fault tmp destination text (owner_uid \<noteq> None) (d, False) of
             (outcome, (d', temporary)) \<Rightarrow>
               if temporary \<and> fault Unlink_temporary then (Inl OSError, d')
               else
                 ((case outcome of Inl _ \<Rightarrow> Inl (ConfigError Atomic_write_failed) | Inr _ \<Rightarrow> Inr ()),
                  (if temporary then d'\<lparr>files := (files d')(tmp := None)\<rparr> else d'))))"

section \<open>The contract of a strict key=value line format\<close>

text \<open>A value a line can carry: safe, and without the separator.\<close>

definition plain_key :: "string \<Rightarrow> bool" where
  "plain_key k \<longleftrightarrow> CHR ''='' \<notin> set k \<and> (\<forall>c\<in>set k. \<not> is_linebreak c)"

definition line_of :: "string \<times> string \<Rightarrow> string" where
  "line_of kv = fst kv @ CHR ''='' # snd kv"

definition good_values :: "string list \<Rightarrow> (string \<Rightarrow> bool) \<Rightarrow> (string, string) dict \<Rightarrow> bool" where
  "good_values keys clean d \<longleftrightarrow>
     distinct (map fst d) \<and> set (map fst d) \<subseteq> set keys \<and> (\<forall>v\<in>set (map snd d). clean v)"

locale key_value_lines =
  fixes keys :: "string list"
    and clean :: "string \<Rightarrow> bool"
    and step :: "nat \<Rightarrow> (string, string) dict \<Rightarrow> string \<Rightarrow> ('e, (string, string) dict) result"
  assumes keys_plain: "k \<in> set keys \<Longrightarrow> plain_key k"
    and clean_line: "clean v \<Longrightarrow> c \<in> set v \<Longrightarrow> \<not> is_linebreak c"
    and step_accepts:
      "k \<in> set keys \<Longrightarrow> clean v \<Longrightarrow> map_of d k = None \<Longrightarrow> step n d (line_of (k, v)) = Inr (d @ [(k, v)])"
    and step_accepted:
      "step n d l = Inr d' \<Longrightarrow>
         \<exists>k v. l = line_of (k, v) \<and> k \<in> set keys \<and> clean v \<and> map_of d k = None \<and> d' = d @ [(k, v)]"
begin

lemma good_snoc:
  "good_values keys clean d \<Longrightarrow> k \<in> set keys \<Longrightarrow> clean v \<Longrightarrow> map_of d k = None \<Longrightarrow> good_values keys clean (d @ [(k, v)])"
  by (auto simp: good_values_def map_of_eq_None_iff)

lemma accepted:
  assumes "fold_lines step n d ls = Inr d'" and "good_values keys clean d"
  shows "good_values keys clean d' \<and> (\<exists>e. d' = d @ e \<and> ls = map line_of e)"
  using assms
proof (induction ls arbitrary: n d)
  case Nil
  then show ?case by simp
next
  case (Cons l ls)
  then obtain d1 where d1: "step n d l = Inr d1" and rest: "fold_lines step (Suc n) d1 ls = Inr d'"
    by (auto simp: bindR_eq_Inr)
  from step_accepted [OF d1] obtain k v where kv: "l = line_of (k, v)" "k \<in> set keys" "clean v"
    "map_of d k = None" "d1 = d @ [(k, v)]" by blast
  with Cons.prems have "good_values keys clean d1" by (simp add: good_snoc)
  with Cons.IH [OF rest] kv show ?case by auto
qed

lemma rendered_accepted:
  assumes "good_values keys clean (d @ e)"
  shows "fold_lines step n d (map line_of e) = Inr (d @ e)"
  using assms
proof (induction e arbitrary: n d)
  case Nil
  then show ?case by simp
next
  case (Cons kv e)
  obtain k v where kv: "kv = (k, v)" by (cases kv)
  from Cons.prems kv have "map_of d k = None" "k \<in> set keys" "clean v"
    by (auto simp: good_values_def map_of_eq_None_iff)
  then have "step n d (line_of kv) = Inr (d @ [kv])"
    using kv by (simp add: step_accepts)
  with Cons.IH [of "d @ [kv]" "Suc n"] Cons.prems show ?case by simp
qed

lemma lines_unbroken: "good_values keys clean e \<Longrightarrow> l \<in> set (map line_of e) \<Longrightarrow> c \<in> set l \<Longrightarrow> \<not> is_linebreak c"
  by (force simp: good_values_def line_of_def plain_key_def is_linebreak_def
      dest: keys_plain clean_line)

lemma render_read_back:
  assumes "good_values keys clean e"
  shows "fold_lines step 1 [] (splitlines (concat (map render_line e))) = Inr e"
proof -
  have "concat (map render_line e) = concat (map (\<lambda>l. l @ [LF]) (map line_of e))"
    by (induction e) (simp_all add: render_line_def line_of_def)
  then have "splitlines (concat (map render_line e)) = map line_of e"
    using splitlines_concat [of "map line_of e"] lines_unbroken [OF assms] by fastforce
  then show ?thesis
    using rendered_accepted [of "[]" e] assms by simp
qed

end

definition clean_value :: "string \<Rightarrow> bool" where
  "clean_value v \<longleftrightarrow> safe_value v \<and> CHR ''='' \<notin> set v"

lemma count_list_line:
  "plain_key k \<Longrightarrow> count_list (line_of (k, v)) (CHR ''='') = Suc (count_list v (CHR ''=''))"
  by (simp add: line_of_def plain_key_def)

lemma parse_line_contract:
  assumes "\<And>k. k \<in> set allowed \<Longrightarrow> plain_key k"
  shows "key_value_lines allowed clean_value (parse_line allowed)"
proof
  show "k \<in> set allowed \<Longrightarrow> plain_key k" for k by (rule assms)
  show "clean_value v \<Longrightarrow> c \<in> set v \<Longrightarrow> \<not> is_linebreak c" for v c
    by (auto simp: clean_value_def safe_value_def dest: linebreak_is_space)
next
  fix k v n and d :: "(string, string) dict"
  assume k: "k \<in> set allowed" and v: "clean_value v" and d: "map_of d k = None"
  have "count_list (line_of (k, v)) (CHR ''='') = 1"
    using k v by (simp add: count_list_line assms clean_value_def)
  moreover have "split_first (CHR ''='') (line_of (k, v)) = Some (k, v)"
    using assms [OF k] by (simp add: line_of_def plain_key_def split_first_append)
  ultimately show "parse_line allowed n d (line_of (k, v)) = Inr (d @ [(k, v)])"
    using k v d by (simp add: parse_line_def line_of_def clean_value_def)
next
  fix n l and d d' :: "(string, string) dict"
  assume "parse_line allowed n d l = Inr d'"
  then obtain k v where kv: "split_first (CHR ''='') l = Some (k, v)" "k \<in> set allowed"
      "map_of d k = None" "safe_value v" "d' = d @ [(k, v)]" "count_list l (CHR ''='') = 1"
    by (auto simp: parse_line_def split: if_splits option.splits)
  moreover from kv have l: "l = line_of (k, v)"
    by (auto dest: split_first_Some simp: line_of_def)
  moreover from kv l have "CHR ''='' \<notin> set v"
    by (simp add: count_list_line assms count_list_0_iff)
  ultimately show "\<exists>k v. l = line_of (k, v) \<and> k \<in> set allowed \<and> clean_value v
      \<and> map_of d k = None \<and> d' = d @ [(k, v)]"
    by (auto simp: clean_value_def)
qed

lemma GLOBAL_KEYS_plain: "k \<in> set GLOBAL_KEYS \<Longrightarrow> plain_key k"
  by (auto simp: GLOBAL_KEYS_def plain_key_def is_linebreak_def)

lemma PROFILE_KEYS_plain: "k \<in> set PROFILE_KEYS \<Longrightarrow> plain_key k"
  by (auto simp: PROFILE_KEYS_def GLOBAL_KEYS_def plain_key_def is_linebreak_def)

interpretation gk: key_value_lines GLOBAL_KEYS clean_value "parse_line GLOBAL_KEYS"
  by (rule parse_line_contract) (rule GLOBAL_KEYS_plain)

interpretation pk: key_value_lines PROFILE_KEYS clean_value "parse_line PROFILE_KEYS"
  by (rule parse_line_contract) (rule PROFILE_KEYS_plain)


section \<open>What the parsers accept\<close>

text \<open>The bounds every accepted configuration satisfies.\<close>

definition valid_timing :: "int \<Rightarrow> int \<Rightarrow> int \<Rightarrow> int \<Rightarrow> int \<Rightarrow> int \<Rightarrow> bool" where
  "valid_timing interval timeout ft sth hold jit \<longleftrightarrow>
     1 \<le> interval \<and> interval \<le> 300 \<and> 1 \<le> timeout \<and> timeout \<le> 60 \<and> timeout \<le> interval \<and>
     1 \<le> ft \<and> ft \<le> 1000 \<and> 1 \<le> sth \<and> sth \<le> 1000 \<and> 0 \<le> hold \<and> hold \<le> 3600 \<and>
     0 \<le> jit \<and> jit \<le> 300"

definition valid_global :: "global_config \<Rightarrow> bool" where
  "valid_global c \<longleftrightarrow>
     gc_check_mode c = ''ping'' \<and>
     valid_timing (gc_check_interval_seconds c) (gc_ping_timeout_seconds c)
       (gc_failure_threshold c) (gc_success_threshold c)
       (gc_recovery_hold_seconds c) (gc_recovery_jitter_max_seconds c)"

definition valid_profile_config :: "profile_config \<Rightarrow> bool" where
  "valid_profile_config c \<longleftrightarrow>
     valid_timing (check_interval_seconds c) (ping_timeout_seconds c) (failure_threshold c)
       (success_threshold c) (recovery_hold_seconds c) (recovery_jitter_max_seconds c)"

lemma integer_Inr:
  "integer values key d = Inr n \<Longrightarrow> map_of BOUNDS key = Some (lo, hi) \<Longrightarrow> lo \<le> n \<and> n \<le> hi"
  by (auto simp: integer_def Let_def bindR_eq_Inr split: if_splits)

lemma integer_digits: "integer values key d = Inr n \<Longrightarrow> all_digits (dict_get values key (str_int d))"
  by (auto simp: integer_def Let_def split: if_splits)

lemma integer_read:
  assumes "map_of values key = Some (str_int n)" and "map_of BOUNDS key = Some (lo, hi)"
    and "0 \<le> lo" and "lo \<le> n" and "n \<le> hi" and "hi \<le> 4000"
  shows "integer values key d = Inr n"
proof -
  have "0 \<le> n" using assms by simp
  then have "str_int n = str_nat (nat n)" by (rule str_int_nonneg)
  moreover have "length (str_nat (nat n)) \<le> int_max_str_digits"
    using length_str_nat [of "nat n"] assms by (simp add: int_max_str_digits_def)
  ultimately show ?thesis
    using assms \<open>0 \<le> n\<close>
    by (simp add: integer_def dict_get_def all_digits_str_nat py_int_def nat_of_text_str_nat)
qed

lemma validate_timing_Inr [simp]: "validate_timing i t = Inr u \<longleftrightarrow> t \<le> i"
  by (simp add: validate_timing_def)

lemmas integer_bounds =
  integer_Inr [where key = "''CHECK_INTERVAL_SECONDS''" and lo = 1 and hi = 300]
  integer_Inr [where key = "''PING_TIMEOUT_SECONDS''" and lo = 1 and hi = 60]
  integer_Inr [where key = "''FAILURE_THRESHOLD''" and lo = 1 and hi = 1000]
  integer_Inr [where key = "''SUCCESS_THRESHOLD''" and lo = 1 and hi = 1000]
  integer_Inr [where key = "''RECOVERY_HOLD_SECONDS''" and lo = 0 and hi = 3600]
  integer_Inr [where key = "''RECOVERY_JITTER_MAX_SECONDS''" and lo = 0 and hi = 300]

lemma valid_timingI:
  assumes "integer v1 ''CHECK_INTERVAL_SECONDS'' d1 = Inr i"
    and "integer v2 ''PING_TIMEOUT_SECONDS'' d2 = Inr t"
    and "t \<le> i"
    and "integer v3 ''FAILURE_THRESHOLD'' d3 = Inr f"
    and "integer v4 ''SUCCESS_THRESHOLD'' d4 = Inr s"
    and "integer v5 ''RECOVERY_HOLD_SECONDS'' d5 = Inr h"
    and "integer v6 ''RECOVERY_JITTER_MAX_SECONDS'' d6 = Inr j"
  shows "valid_timing i t f s h j"
  using integer_bounds(1) [OF assms(1)] integer_bounds(2) [OF assms(2)] assms(3)
    integer_bounds(3) [OF assms(4)] integer_bounds(4) [OF assms(5)]
    integer_bounds(5) [OF assms(6)] integer_bounds(6) [OF assms(7)]
  by (simp add: valid_timing_def BOUNDS_def)

lemma global_config_from_mapping_valid:
  "global_config_from_mapping values = Inr c \<Longrightarrow> valid_global c"
  by (auto simp: global_config_from_mapping_def Let_def bindR_eq_Inr valid_global_def
      split: if_splits intro: valid_timingI)

lemma profile_config_from_mapping_valid:
  "profile_config_from_mapping values g = Inr c \<Longrightarrow> valid_profile_config c"
  by (auto simp: profile_config_from_mapping_def Let_def bindR_eq_Inr valid_profile_config_def
      split: if_splits option.splits intro: valid_timingI)

lemma str_int_digit: "0 \<le> n \<Longrightarrow> c \<in> set (str_int n) \<Longrightarrow> is_digit c"
  by (auto simp: str_int_nonneg dest: str_nat_digits)

lemma digits_clean: "all_digits v \<Longrightarrow> clean_value v"
proof -
  assume v: "all_digits v"
  have "\<not> is_digit (CHR ''='')" by (simp add: is_digit_def)
  with v show ?thesis
    by (auto simp: all_digits_def clean_value_def safe_value_def intro: digit_is_ascii
        dest: digit_not_space)
qed

lemma clean_str_int: "0 \<le> n \<Longrightarrow> clean_value (str_int n)"
  by (simp add: digits_clean str_int_nonneg all_digits_str_nat)

lemma global_values_good: "valid_global c \<Longrightarrow> good_values GLOBAL_KEYS clean_value (global_values c)"
proof -
  assume "valid_global c"
  moreover have "clean_value ''ping''"
    by (simp add: clean_value_def safe_value_def is_ascii_def is_space_def)
  ultimately show ?thesis
    by (simp add: good_values_def global_values_def GLOBAL_KEYS_def valid_global_def valid_timing_def
        clean_str_int)
qed

lemma global_config_from_global_values:
  "valid_global c \<Longrightarrow> global_config_from_mapping (global_values c) = Inr c"
proof -
  assume v: "valid_global c"
  have "filter (\<lambda>k. k \<notin> set GLOBAL_KEYS) (map fst (global_values c)) = []"
    by (simp add: global_values_def GLOBAL_KEYS_def)
  moreover have "dict_get (global_values c) ''CHECK_MODE'' ''ping'' = ''ping''"
    using v by (simp add: global_values_def dict_get_def valid_global_def)
  moreover have "integer (global_values c) ''CHECK_INTERVAL_SECONDS'' d = Inr (gc_check_interval_seconds c)"
    "integer (global_values c) ''PING_TIMEOUT_SECONDS'' d = Inr (gc_ping_timeout_seconds c)"
    "integer (global_values c) ''FAILURE_THRESHOLD'' d = Inr (gc_failure_threshold c)"
    "integer (global_values c) ''SUCCESS_THRESHOLD'' d = Inr (gc_success_threshold c)"
    "integer (global_values c) ''RECOVERY_HOLD_SECONDS'' d = Inr (gc_recovery_hold_seconds c)"
    "integer (global_values c) ''RECOVERY_JITTER_MAX_SECONDS'' d = Inr (gc_recovery_jitter_max_seconds c)" for d
    using v by (auto intro!: integer_read simp: global_values_def BOUNDS_def valid_global_def valid_timing_def)
  ultimately show ?thesis
    using v unfolding global_config_from_mapping_def Let_def
    by (simp add: valid_global_def valid_timing_def validate_timing_def)
qed

text \<open>The characters of a rendered file: neither NUL nor carriage return.\<close>

definition printable :: "string \<Rightarrow> bool" where
  "printable t \<longleftrightarrow> NUL \<notin> set t \<and> CR \<notin> set t"

lemma digits_printable: "all_digits v \<Longrightarrow> printable v"
  by (auto simp: all_digits_def printable_def is_digit_def)

lemma rendered_printable:
  assumes "\<forall>kv\<in>set e. printable (fst kv) \<and> printable (snd kv)"
  shows "printable (concat (map render_line e))"
  using assms by (induction e) (auto simp: printable_def render_line_def)

lemma read_back_text:
  assumes "good_values keys clean_value e" and "key_value_lines keys clean_value (parse_line keys)"
    and "\<forall>kv\<in>set e. printable (fst kv) \<and> printable (snd kv)" and "e \<noteq> []"
    and "all \<Longrightarrow> set keys \<subseteq> set (map fst e)"
  shows "parse_text (concat (map render_line e)) keys all = Inr e"
proof -
  have "concat (map render_line e) \<noteq> []"
    using assms(4) by (cases e) (auto simp: render_line_def)
  moreover have "all \<Longrightarrow> filter (\<lambda>key. map_of e key = None) keys = []"
    using assms(5) by (auto simp: filter_empty_conv map_of_eq_None_iff)
  ultimately show ?thesis
    using rendered_printable [OF assms(3)] key_value_lines.render_read_back [OF assms(2,1)]
    by (auto simp: parse_text_def printable_def Let_def)
qed

lemma render_global_eq: "render_global_config c = concat (map render_line (global_values c))"
  by (simp add: render_global_config_def GLOBAL_KEYS_def global_values_def dict_get_def)


text \<open>Profile settings in the order of their keys, as they are written.\<close>

definition profile_lines :: "(string, string) dict \<Rightarrow> (string, string) dict" where
  "profile_lines values =
     map (\<lambda>key. (key, dict_get values key [])) (filter (\<lambda>key. map_of values key \<noteq> None) PROFILE_KEYS)"

lemma map_of_profile_lines:
  "map_of (profile_lines values) k = (if k \<in> set PROFILE_KEYS then map_of values k else None)"
  by (auto simp: profile_lines_def map_of_map_restrict restrict_map_def dict_get_def)

lemma integer_cong: "map_of v k = map_of v' k \<Longrightarrow> integer v k d = integer v' k d"
  by (simp add: integer_def dict_get_def)

lemma profile_keys_known:
  "profile_config_from_mapping values g = Inr c \<Longrightarrow> set (map fst values) \<subseteq> set PROFILE_KEYS"
  by (auto simp: profile_config_from_mapping_def Let_def filter_empty_conv split: if_splits)

lemma profile_config_from_mapping_cong:
  assumes "\<And>k. map_of v k = map_of v' k" and "set (map fst v') \<subseteq> set PROFILE_KEYS"
  shows "profile_config_from_mapping v g = profile_config_from_mapping v' g"
proof -
  have same: "map_of v = map_of v'" using assms(1) by (rule ext)
  then have "set (map fst v) = set (map fst v')"
    by (metis dom_map_of_conv_image_fst set_map)
  with assms(2) have "filter (\<lambda>k. k \<notin> set PROFILE_KEYS) (map fst v) = []"
    and "filter (\<lambda>k. k \<notin> set PROFILE_KEYS) (map fst v') = []"
    by (auto simp: filter_empty_conv)
  moreover have "integer v k d = integer v' k d" for k d
    by (intro integer_cong assms(1))
  moreover have "dict_get v k d = dict_get v' k d" for k d
    by (simp add: dict_get_def same)
  ultimately show ?thesis
    by (simp only: profile_config_from_mapping_def Let_def)
qed

lemma mode_of_text_Some: "mode_of_text t = Some m \<longleftrightarrow> t = mode_text m"
  by (cases m) (auto simp: mode_of_text_def MODES_def mode_text_def split: if_splits)

lemma clean_mode_text: "clean_value (mode_text m) \<and> printable (mode_text m)"
  by (cases m) (simp_all add: mode_text_def clean_value_def safe_value_def is_ascii_def
      is_space_def printable_def)

lemma accepted_profile_values:
  assumes "profile_config_from_mapping values g = Inr c" and "k \<in> set PROFILE_KEYS"
    and "map_of values k = Some v"
  shows "clean_value v \<and> printable v"
proof (cases "k = ''MODE''")
  case True
  with assms show ?thesis
    by (auto simp: profile_config_from_mapping_def Let_def dict_get_def mode_of_text_Some clean_mode_text
        split: if_splits option.splits)
next
  case False
  with assms(1,2) obtain d n where "integer values k d = Inr n"
    by (auto simp: profile_config_from_mapping_def Let_def PROFILE_KEYS_def GLOBAL_KEYS_def bindR_eq_Inr
        split: if_splits option.splits)
  then have "all_digits v"
    using assms(3) by (auto simp: dict_get_def dest!: integer_digits)
  then show ?thesis by (simp add: digits_clean digits_printable)
qed

lemma profile_lines_good:
  assumes "profile_config_from_mapping values g = Inr c" and "values \<noteq> []"
  shows "good_values PROFILE_KEYS clean_value (profile_lines values)"
    and "\<forall>kv\<in>set (profile_lines values). printable (fst kv) \<and> printable (snd kv)"
    and "profile_lines values \<noteq> []"
proof -
  have "distinct PROFILE_KEYS" by (simp add: PROFILE_KEYS_def GLOBAL_KEYS_def)
  then show "good_values PROFILE_KEYS clean_value (profile_lines values)"
    using accepted_profile_values [OF assms(1)]
    by (auto simp: good_values_def profile_lines_def comp_def dict_get_def)
  have "\<forall>k\<in>set PROFILE_KEYS. printable k"
    by (simp add: PROFILE_KEYS_def GLOBAL_KEYS_def printable_def)
  then show "\<forall>kv\<in>set (profile_lines values). printable (fst kv) \<and> printable (snd kv)"
    using accepted_profile_values [OF assms(1)] by (auto simp: profile_lines_def dict_get_def)
  from assms(2) obtain k v vs where "values = (k, v) # vs" by (cases "values") auto
  then show "profile_lines values \<noteq> []"
    using profile_keys_known [OF assms(1)] by (auto simp: profile_lines_def filter_empty_conv)
qed


lemma global_text_read_back:
  assumes "valid_global c"
  shows "parse_global_config (render_global_config c) = Inr c"
proof -
  have "\<forall>kv\<in>set (global_values c). printable (fst kv) \<and> printable (snd kv)"
    using assms by (simp add: global_values_def valid_global_def valid_timing_def digits_printable
        str_int_nonneg all_digits_str_nat) (simp add: printable_def)
  then have "parse_text (render_global_config c) GLOBAL_KEYS True = Inr (global_values c)"
    unfolding render_global_eq
    by (intro read_back_text global_values_good assms gk.key_value_lines_axioms)
      (simp_all add: global_values_def GLOBAL_KEYS_def)
  then show ?thesis
    using global_config_from_global_values [OF assms] by (simp add: parse_global_config_def)
qed


section \<open>Properties\<close>

lemma profile_text_read_back:
  assumes "render_profile_values values g = Inr text" and "values \<noteq> []"
  shows "parse_profile_config text g = profile_config_from_mapping values g"
proof -
  from assms(1) obtain c where c: "profile_config_from_mapping values g = Inr c"
    by (auto simp: render_profile_values_def bindR_eq_Inr)
  let ?e = "profile_lines values"
  have tx: "text = concat (map render_line ?e)"
    using assms(1) c by (simp add: render_profile_values_def profile_lines_def comp_def)
  have "parse_text text PROFILE_KEYS False = Inr ?e"
    unfolding tx using profile_lines_good [OF c assms(2)]
    by (intro read_back_text pk.key_value_lines_axioms) auto
  moreover have "map_of ?e k = map_of values k" for k
    using profile_keys_known [OF c]
    by (cases "map_of values k") (auto simp: map_of_profile_lines dest!: map_of_SomeD)
  then have "profile_config_from_mapping ?e g = profile_config_from_mapping values g"
    using profile_keys_known [OF c] by (rule profile_config_from_mapping_cong)
  ultimately show ?thesis
    by (simp add: parse_profile_config_def parse_profile_values_def)
qed

text \<open>C10: whatever valid settings are rendered to the global configuration file are read back
  unchanged.\<close>

theorem parse_render_global:
  assumes "valid_global c"
  shows "parse_global_config (render_global_config c) = Inr c"
  using assms by (rule global_text_read_back)

theorem parse_render_global_witness:
  "valid_global GlobalConfig \<and> parse_global_config (render_global_config GlobalConfig) = Inr GlobalConfig"
proof -
  have "valid_global GlobalConfig" by code_simp
  with parse_render_global [OF this] show ?thesis by simp
qed

text \<open>Every accepted global configuration file and every accepted profile configuration
  has all its settings within their bounds, the ping timeout never above the check interval,
  whatever the text and whatever the global settings it inherits from.\<close>

theorem accepted_config_valid:
  "(case parse_global_config text of Inl _ \<Rightarrow> True | Inr c \<Rightarrow> valid_global c) \<and>
   (case parse_profile_config text g of Inl _ \<Rightarrow> True | Inr c \<Rightarrow> valid_profile_config c)"
  by (auto simp: parse_global_config_def parse_profile_config_def bindR_eq_Inr split: sum.splits
      intro: global_config_from_mapping_valid profile_config_from_mapping_valid)

text \<open>A profile file written by \<open>render_profile_values\<close> from at least one setting is read
  back as the configuration those settings denote.\<close>

theorem parse_render_profile:
  assumes "render_profile_values values g = Inr text" and "values \<noteq> []"
  shows "parse_profile_config text g = profile_config_from_mapping values g"
  using assms by (rule profile_text_read_back)

theorem parse_render_profile_witness:
  "\<exists>text. render_profile_values [(''MODE'', ''auto'')] GlobalConfig = Inr text \<and>
     parse_profile_config text GlobalConfig =
       profile_config_from_mapping [(''MODE'', ''auto'')] GlobalConfig"
proof -
  obtain tx where t: "render_profile_values [(''MODE'', ''auto'')] GlobalConfig = Inr tx"
    by (cases "render_profile_values [(''MODE'', ''auto'')] GlobalConfig") (code_simp, auto)
  with parse_render_profile [OF t] show ?thesis by simp
qed

text \<open>A global configuration whose integer setting has more than 4300 digits is not
  refused as a malformed configuration: the conversion raises a \<open>ValueError\<close> that is not a
  \<open>ConfigError\<close>, the only class the daemon's cycle handles.\<close>

theorem oversized_integer_escapes:
  assumes "4300 < n"
  shows "global_config_from_mapping
           [(''CHECK_INTERVAL_SECONDS'', replicate n (CHR ''1''))] = Inl (ValueError Int_digit_limit)"
proof -
  have "all_digits (replicate n (CHR ''1''))"
    using assms by (auto simp: all_digits_def is_digit_def)
  then show ?thesis
    using assms by (simp add: global_config_from_mapping_def GLOBAL_KEYS_def dict_get_def
        integer_def py_int_def int_max_str_digits_def)
qed

theorem oversized_integer_escapes_witness:
  "(4300 :: nat) < 5000 \<and> global_config_from_mapping
     [(''CHECK_INTERVAL_SECONDS'', replicate 5000 (CHR ''1''))] = Inl (ValueError Int_digit_limit)"
proof -
  have h: "(4300 :: nat) < 5000" by simp
  show ?thesis using h oversized_integer_escapes [OF h] by blast
qed

lemma write_steps_wp:
  assumes "files d tmp = None" and "tmp \<noteq> destination"
  shows "wp (write_steps fault tmp destination text chown)
     (\<lambda>_ (d', t). \<not> t \<and> files d' = (files d)(destination \<mapsto> text) \<and> modes d' destination = 384)
     (\<lambda>_ (d', t). (t \<and> (\<exists>x. files d' = (files d)(tmp \<mapsto> x))) \<or>
        (\<not> t \<and> (files d' = files d \<or> files d' = (files d)(destination \<mapsto> text)))) (d, False)"
proof -
  have "(files d)(tmp := None, destination \<mapsto> text) = (files d)(destination \<mapsto> text)"
    using assms(1) by (simp add: fun_upd_idem)
  then show ?thesis
    using assms unfolding write_steps_def Let_def
    by (simp add: wp_simps fun_upd_twist) blast
qed

lemma atomic_write_outcome:
  assumes "files d tmp = None" and "tmp \<noteq> destination"
    and "atomic_write_config F fault tmp destination text uid boundary recovery d = (r, d')"
  shows "(files d' destination = files d destination \<or> files d' destination = Some text) \<and>
    (r = Inr () \<longrightarrow> files d' destination = Some text \<and> modes d' destination = 384) \<and>
    (\<forall>p. p \<noteq> destination \<and> p \<noteq> tmp \<longrightarrow> files d' p = files d p) \<and>
    (files d' tmp = None \<or> fault Unlink_temporary)"
proof -
  obtain outcome d1 t where ws: "write_steps fault tmp destination text (uid \<noteq> None) (d, False) = (outcome, (d1, t))"
    by (cases "write_steps fault tmp destination text (uid \<noteq> None) (d, False)") auto
  show ?thesis
    using wp_run [OF write_steps_wp [OF assms(1,2)] ws] assms
    unfolding atomic_write_config_def ws
    by (cases "write_checks F destination uid boundary recovery"; cases outcome; cases t) (auto split: if_splits)
qed

text \<open>The atomic write leaves the destination with its old content or with the complete
  new text, mode 0600, never anything between; success means the new text; no other file is
  touched; and the temporary file is gone unless removing it fails as well.\<close>

theorem atomic_write_all_or_nothing:
  assumes "files d tmp = None" and "tmp \<noteq> destination"
    and "atomic_write_config F fault tmp destination text uid boundary recovery d = (r, d')"
  shows "(files d' destination = files d destination \<or> files d' destination = Some text) \<and>
    (r = Inr () \<longrightarrow> files d' destination = Some text \<and> modes d' destination = 384) \<and>
    (\<forall>p. p \<noteq> destination \<and> p \<noteq> tmp \<longrightarrow> files d' p = files d p) \<and>
    (files d' tmp = None \<or> fault Unlink_temporary)"
  using assms by (rule atomic_write_outcome)

theorem atomic_write_all_or_nothing_witness:
  "let d = \<lparr>files = [[''etc'', ''a.conf''] \<mapsto> ''old''], modes = (\<lambda>_. 420)\<rparr>;
       F = \<lparr>fs_is_symlink = (\<lambda>_. False), fs_is_dir = (\<lambda>_. True), fs_exists = (\<lambda>_. False),
            fs_lstat = (\<lambda>_. None), fs_read = (\<lambda>_. None), fs_listdir = (\<lambda>_. [])\<rparr>;
       run = atomic_write_config F (\<lambda>_. False) [''etc'', ''.tmp''] [''etc'', ''a.conf''] ''new'' None None False d
   in files (snd run) [''etc'', ''a.conf''] = Some ''old'' \<or> files (snd run) [''etc'', ''a.conf''] = Some ''new''"
proof -
  define d where "d = \<lparr>files = [[''etc'', ''a.conf''] \<mapsto> ''old''], modes = (\<lambda>_. 420)\<rparr>"
  define F where "F = \<lparr>fs_is_symlink = (\<lambda>_. False), fs_is_dir = (\<lambda>_. True), fs_exists = (\<lambda>_. False),
            fs_lstat = (\<lambda>_. None), fs_read = (\<lambda>_. None), fs_listdir = (\<lambda>_. [])\<rparr>"
  define run where "run = atomic_write_config F (\<lambda>_. False) [''etc'', ''.tmp''] [''etc'', ''a.conf''] ''new'' None None False d"
  have "files d [''etc'', ''.tmp''] = None" and "[''etc'', ''.tmp''] \<noteq> [''etc'', ''a.conf'']"
    and "files d [''etc'', ''a.conf''] = Some ''old''"
    by (simp_all add: d_def)
  with atomic_write_all_or_nothing [of d "[''etc'', ''.tmp'']" "[''etc'', ''a.conf'']" F "\<lambda>_. False" "''new''" None None False "fst run" "snd run"]
  show ?thesis
    unfolding Let_def d_def [symmetric] F_def [symmetric] run_def [symmetric] by (simp add: run_def)
qed

lemma walk_components_clear:
  "walk_components F current parts = Inr () \<Longrightarrow> 0 < n \<Longrightarrow> n \<le> length parts \<Longrightarrow>
     \<not> fs_is_symlink F (current @ take n parts)"
proof (induction F current parts arbitrary: n rule: walk_components.induct)
  case (1 F current)
  then show ?case by simp
next
  case (2 F current part parts)
  then show ?case by (cases n; cases "n = 1") (auto split: if_splits simp: take_Cons')
qed

text \<open>C11: a configuration file is only ever read through a path none of whose components is
  a symbolic link, from a regular file that grants nothing to group and others and belongs to
  the expected user.\<close>

theorem loaded_config_is_secure:
  assumes "load_global_config F p expected_uid boundary = Inr c"
  shows "valid_global c \<and> (\<exists>metadata. fs_lstat F p = Some metadata \<and> st_kind metadata = Regular \<and>
      st_perm metadata AND 63 = 0 \<and> (\<forall>u. expected_uid = Some u \<longrightarrow> st_uid metadata = u)) \<and>
    (\<forall>n. (case boundary of None \<Rightarrow> 0 | Some b \<Rightarrow> length b) \<le> n \<longrightarrow> n \<le> length p \<longrightarrow>
      \<not> fs_is_symlink F (take n p))"
proof -
  let ?b = "case boundary of None \<Rightarrow> [] | Some b \<Rightarrow> b"
  from assms have sec: "validate_file_security F p expected_uid boundary = Inr ()"
    by (auto simp: load_global_config_def bindR_eq_Inr)
  then have walk: "take (length ?b) p = ?b" "\<not> fs_is_symlink F ?b"
      "walk_components F ?b (drop (length ?b) p) = Inr ()"
    by (auto simp: validate_file_security_def reject_symlink_components_def Let_def bindR_eq_Inr
        split: if_splits)
  have "\<not> fs_is_symlink F (take n p)" if "length ?b \<le> n" "n \<le> length p" for n
  proof (cases "n = length ?b")
    case True
    with walk show ?thesis by simp
  next
    case False
    then have "\<not> fs_is_symlink F (?b @ take (n - length ?b) (drop (length ?b) p))"
      using that by (intro walk_components_clear [OF walk(3)]) auto
    moreover have "?b @ take (n - length ?b) (drop (length ?b) p) = take n p"
      using walk(1) that by (metis le_add_diff_inverse take_add)
    ultimately show ?thesis by simp
  qed
  then show ?thesis
    using assms sec
    by (auto simp: load_global_config_def validate_file_security_def bindR_eq_Inr
        parse_global_config_def split: option.splits if_splits
        intro: global_config_from_mapping_valid)
qed

theorem loaded_config_is_secure_witness:
  "let F = \<lparr>fs_is_symlink = (\<lambda>_. False), fs_is_dir = (\<lambda>_. True), fs_exists = (\<lambda>_. True),
            fs_lstat = (\<lambda>_. Some \<lparr>st_kind = Regular, st_perm = 384, st_uid = 0\<rparr>),
            fs_read = (\<lambda>_. Some (render_global_config GlobalConfig)), fs_listdir = (\<lambda>_. [])\<rparr>
   in load_global_config F [''etc'', ''watchdog.conf''] (Some 0) None = Inr GlobalConfig \<and>
      valid_global GlobalConfig \<and> \<not> fs_is_symlink F (take 1 [''etc'', ''watchdog.conf''])"
proof -
  define F where "F = \<lparr>fs_is_symlink = (\<lambda>_. False), fs_is_dir = (\<lambda>_. True), fs_exists = (\<lambda>_. True),
            fs_lstat = (\<lambda>_. Some \<lparr>st_kind = Regular, st_perm = 384, st_uid = 0\<rparr>),
            fs_read = (\<lambda>_. Some (render_global_config GlobalConfig)), fs_listdir = (\<lambda>_. [])\<rparr>"
  have "valid_global GlobalConfig" by code_simp
  then have load: "load_global_config F [''etc'', ''watchdog.conf''] (Some 0) None = Inr GlobalConfig"
    by (simp add: F_def load_global_config_def validate_file_security_def
        reject_symlink_components_def global_text_read_back)
  from loaded_config_is_secure [OF load] show ?thesis
    using load unfolding Let_def F_def [symmetric]
    by (auto dest: spec [of _ 1])
qed

end
