(* ===== verification/Watchdog_Profiles.thy ===== *)
theory Watchdog_Profiles
  imports Watchdog_Config
begin

text \<open>
  \<open>src/gost_watchdog/profiles.py\<close>: the names of managed profiles and units, the safe reading
  of an upstream address from a profile's environment file, and the discovery of the managed
  profiles. The regular expressions are written out as the predicates they accept
  (\<open>re.fullmatch\<close> leaves no room for a trailing newline).
\<close>

section \<open>Names\<close>

text \<open>The group \<open>[1-9][0-9]*\<close>.\<close>

definition numbered :: "string \<Rightarrow> bool" where
  "numbered g \<longleftrightarrow> all_digits g \<and> hd g \<noteq> CHR ''0''"

text \<open>Full match of a literal prefix, the number group, and a literal suffix.\<close>

definition match_numbered :: "string \<Rightarrow> string \<Rightarrow> string \<Rightarrow> string option" where
  "match_numbered pre suf s =
     (let g = drop (length pre) (take (length s - length suf) s)
      in if s = pre @ g @ suf \<and> numbered g then Some g else None)"

definition PROFILE_RE :: "string \<Rightarrow> string option" where
  "PROFILE_RE s = match_numbered ''iran-'' '''' s"

definition ENV_RE :: "string \<Rightarrow> string option" where
  "ENV_RE s = match_numbered ''iran-'' ''.env'' s"

definition UNIT_RE :: "string \<Rightarrow> string option" where
  "UNIT_RE s = match_numbered ''gost-iran-'' ''.service'' s"

definition SAFE_HOST_RE :: "string \<Rightarrow> bool" where
  "SAFE_HOST_RE s \<longleftrightarrow> s \<noteq> [] \<and> (\<forall>c\<in>set s. is_alnum c \<or> c = CHR ''.'' \<or> c = CHR ''-'')"

definition validate_profile_id :: "string \<Rightarrow> (wd_exn, string) result" where
  "validate_profile_id s = (if PROFILE_RE s = None then Inl (ProfileError Bad_profile_id) else Inr s)"

definition validate_service_name :: "string \<Rightarrow> (wd_exn, string) result" where
  "validate_service_name s = (if UNIT_RE s = None then Inl (ProfileError Bad_service_name) else Inr s)"

definition validate_kharej_ip :: "string \<Rightarrow> (wd_exn, string) result" where
  "validate_kharej_ip v =
     (if v = [] \<or> 253 < length v \<or> \<not> SAFE_HOST_RE v then Inl (ProfileError Bad_kharej_ip) else Inr v)"


section \<open>The environment file\<close>

text \<open>\<open>([A-Za-z_][A-Za-z0-9_]*)=(.*)\<close> on one line: the key cannot hold the separator, so the
  split is at the first one.\<close>

definition is_identifier :: "string \<Rightarrow> bool" where
  "is_identifier k \<longleftrightarrow>
     k \<noteq> [] \<and> \<not> is_digit (hd k) \<and> (\<forall>c\<in>set k. is_alnum c \<or> c = CHR ''_'')"

definition match_assignment :: "string \<Rightarrow> (string \<times> string) option" where
  "match_assignment line =
     (case split_first (CHR ''='') line of
        None \<Rightarrow> None
      | Some (k, v) \<Rightarrow> if is_identifier k then Some (k, v) else None)"

definition kharej_line ::
  "nat \<Rightarrow> string list \<times> string option \<Rightarrow> string \<Rightarrow> (wd_exn, string list \<times> string option) result" where
  "kharej_line number acc line =
     (case acc of (seen, ip) \<Rightarrow>
        if line = [] \<or> hd line = CHR ''#'' then Inr (seen, ip)
        else (case match_assignment line of
                None \<Rightarrow> Inl (ProfileError (Profile_line_malformed number))
              | Some (key, value) \<Rightarrow>
                  if key \<in> set seen then Inl (ProfileError (Profile_line_duplicate number key))
                  else if key = ''KHAREJ_IP''
                    then bindR (validate_kharej_ip value) (\<lambda>v. Inr (key # seen, Some v))
                  else Inr (key # seen, ip)))"

definition parse_kharej_ip_text :: "string \<Rightarrow> (wd_exn, string) result" where
  "parse_kharej_ip_text text =
     (if NUL \<in> set text \<or> CR \<in> set text then Inl (ProfileError Control_character)
      else bindR (fold_lines kharej_line 1 ([], None) (splitlines text)) (\<lambda>acc.
        case snd acc of None \<Rightarrow> Inl (ProfileError Missing_kharej_ip) | Some ip \<Rightarrow> Inr ip))"


section \<open>Discovery\<close>

definition validate_managed_file :: "fs \<Rightarrow> path \<Rightarrow> int option \<Rightarrow> (wd_exn, unit) result" where
  "validate_managed_file F p expected_uid =
     (case fs_lstat F p of
        None \<Rightarrow> Inl (ProfileError Managed_inspect)
      | Some metadata \<Rightarrow>
          if st_kind metadata \<noteq> Regular then Inl (ProfileError Managed_not_regular)
          else if st_perm metadata AND 18 \<noteq> 0 then Inl (ProfileError Managed_writable)
          else if (case expected_uid of None \<Rightarrow> False | Some u \<Rightarrow> st_uid metadata \<noteq> u)
            then Inl (ProfileError Managed_wrong_owner)
          else Inr ())"

definition path_str :: "path \<Rightarrow> string" where
  "path_str p = concat (map (\<lambda>part. CHR ''/'' # part) p)"

definition load_managed_profile_identity ::
  "fs \<Rightarrow> string \<Rightarrow> path \<Rightarrow> path \<Rightarrow> path \<Rightarrow> global_config \<Rightarrow> int option
     \<Rightarrow> (wd_exn, managed_profile) result" where
  "load_managed_profile_identity F profile_id env_root unit_root config_root g expected_uid =
     bindR (validate_profile_id profile_id) (\<lambda>_.
       let number = drop 5 profile_id
       in bindR (validate_service_name (''gost-iran-'' @ number @ ''.service'')) (\<lambda>service_name.
          if \<exists>directory\<in>set [env_root, unit_root, config_root].
               fs_is_symlink F directory \<or> \<not> fs_is_dir F directory
          then Inl (ProfileError Managed_directory)
          else let env = env_root @ [profile_id @ ''.env'']; unt = unit_root @ [service_name]
          in bindR (validate_managed_file F env expected_uid) (\<lambda>_.
             bindR (validate_managed_file F unt expected_uid) (\<lambda>_.
             bindR (case fs_read F env of
                      None \<Rightarrow> Inl (ProfileError Managed_unreadable)
                    | Some text \<Rightarrow> parse_kharej_ip_text text) (\<lambda>ip.
             bindR (profile_config_from_mapping [(''MODE'', ''disabled'')] g) (\<lambda>cfg.
             Inr \<lparr>mp_profile_id = profile_id, mp_service_name = service_name, mp_kharej_ip = ip,
                  env_path = path_str env, unit_path = path_str unt,
                  config_path = path_str (config_root @ [profile_id @ ''.conf'']),
                  config = cfg\<rparr>))))))"

type_synonym discovery_error = "string option \<times> error_category"

text \<open>What the \<open>try\<close> block of the loop body computes for one numbered environment file.\<close>

definition load_candidate ::
  "fs \<Rightarrow> path \<Rightarrow> path \<Rightarrow> path \<Rightarrow> global_config \<Rightarrow> int option \<Rightarrow> path option \<Rightarrow> string \<Rightarrow> string
     \<Rightarrow> (wd_exn, managed_profile) result" where
  "load_candidate F env_root unit_root config_root g expected_uid boundary name number =
     (let profile_id = ''iran-'' @ number;
          service_name = ''gost-iran-'' @ number @ ''.service'';
          env = env_root @ [name];
          unt = unit_root @ [service_name];
          conf = config_root @ [profile_id @ ''.conf'']
      in bindR (validate_managed_file F env expected_uid) (\<lambda>_.
         bindR (validate_managed_file F unt expected_uid) (\<lambda>_.
         bindR (case fs_read F env of None \<Rightarrow> Inl OSError | Some text \<Rightarrow> Inr text) (\<lambda>text.
         bindR (parse_kharej_ip_text text) (\<lambda>ip.
         bindR (load_profile_config F conf g expected_uid boundary) (\<lambda>cfg.
           Inr \<lparr>mp_profile_id = profile_id, mp_service_name = service_name, mp_kharej_ip = ip,
                env_path = path_str env, unit_path = path_str unt, config_path = path_str conf,
                config = cfg\<rparr>))))))"

fun caught_by_discovery :: "wd_exn \<Rightarrow> bool" where
  "caught_by_discovery OSError = True"
| "caught_by_discovery (ConfigError _) = True"
| "caught_by_discovery (ProfileError _) = True"
| "caught_by_discovery _ = False"

fun discover_loop ::
  "(string \<Rightarrow> string \<Rightarrow> (wd_exn, managed_profile) result) \<Rightarrow> string list
     \<Rightarrow> managed_profile list \<Rightarrow> discovery_error list
     \<Rightarrow> (wd_exn, managed_profile list \<times> discovery_error list) result" where
  "discover_loop load [] profiles errors = Inr (profiles, errors)"
| "discover_loop load (name # names) profiles errors =
     (case ENV_RE name of
        None \<Rightarrow> discover_loop load names profiles errors
      | Some number \<Rightarrow>
          (case load name number of
             Inl e \<Rightarrow>
               if caught_by_discovery e
               then discover_loop load names profiles (errors @ [(Some (''iran-'' @ number), Invalid_profile)])
               else Inl e
           | Inr p \<Rightarrow> discover_loop load names (profiles @ [p]) errors))"

definition candidate_key :: "string \<Rightarrow> nat" where
  "candidate_key name = (case ENV_RE name of None \<Rightarrow> 0 | Some number \<Rightarrow> nat_of_text number)"

definition glob_env :: "string \<Rightarrow> bool" where
  "glob_env name \<longleftrightarrow> 9 \<le> length name \<and> starts_with name ''iran-'' \<and> ends_with name ''.env''"

definition discover_profiles ::
  "fs \<Rightarrow> path \<Rightarrow> path \<Rightarrow> path \<Rightarrow> global_config \<Rightarrow> int option \<Rightarrow> path option
     \<Rightarrow> (wd_exn, managed_profile list \<times> discovery_error list) result" where
  "discover_profiles F env_root unit_root config_root g expected_uid boundary =
     (if fs_is_symlink F env_root \<or> fs_is_symlink F unit_root \<or> fs_is_symlink F config_root
      then Inr ([], [(None, Unsafe_directory)])
      else if \<not> fs_is_dir F env_root \<or> \<not> fs_is_dir F unit_root \<or> \<not> fs_is_dir F config_root
      then Inr ([], [])
      else discover_loop (load_candidate F env_root unit_root config_root g expected_uid boundary)
             (sort_key candidate_key (filter glob_env (fs_listdir F env_root))) [] [])"


section \<open>Lemmas\<close>

lemma match_numbered_Some: "match_numbered pre suf s = Some g \<longleftrightarrow> s = pre @ g @ suf \<and> numbered g"
  by (auto simp: match_numbered_def Let_def)

lemmas RE_Some =
  match_numbered_Some [where pre = "''iran-''" and suf = "''''", folded PROFILE_RE_def]
  match_numbered_Some [where pre = "''iran-''" and suf = "''.env''", folded ENV_RE_def]
  match_numbered_Some [where pre = "''gost-iran-''" and suf = "''.service''", folded UNIT_RE_def]

lemma match_numbered_None:
  "match_numbered pre suf s = None \<longleftrightarrow> \<not> (\<exists>g. numbered g \<and> s = pre @ g @ suf)"
  by (metis match_numbered_Some not_Some_eq)

lemma validate_profile_id_Inr:
  "validate_profile_id s = Inr t \<longleftrightarrow> t = s \<and> (\<exists>g. numbered g \<and> s = ''iran-'' @ g)"
  unfolding validate_profile_id_def PROFILE_RE_def match_numbered_None append_Nil2
  by (auto simp del: append_Cons)

lemma validate_service_name_Inr:
  "validate_service_name s = Inr t \<longleftrightarrow>
     t = s \<and> (\<exists>g. numbered g \<and> s = ''gost-iran-'' @ g @ ''.service'')"
  unfolding validate_service_name_def UNIT_RE_def match_numbered_None
  by (auto simp del: append_Cons)

definition safe_host :: "string \<Rightarrow> bool" where
  "safe_host v \<longleftrightarrow> v \<noteq> [] \<and> length v \<le> 253 \<and> (\<forall>c\<in>set v. is_alnum c \<or> c = CHR ''.'' \<or> c = CHR ''-'')"

lemma validate_kharej_ip_Inr: "validate_kharej_ip v = Inr w \<longleftrightarrow> w = v \<and> safe_host v"
  by (auto simp: validate_kharej_ip_def SAFE_HOST_RE_def safe_host_def)

lemma fold_lines_invariant:
  assumes "fold_lines step n d ls = Inr d'" and "P d"
    and "\<And>n d l d'. step n d l = Inr d' \<Longrightarrow> P d \<Longrightarrow> P d'"
  shows "P d'"
  using assms(1,2)
  by (induction ls arbitrary: n d) (auto simp: bindR_eq_Inr intro: assms(3))

lemma kharej_line_safe:
  "kharej_line n acc l = Inr acc' \<Longrightarrow> (\<forall>ip. snd acc = Some ip \<longrightarrow> safe_host ip)
     \<Longrightarrow> (\<forall>ip. snd acc' = Some ip \<longrightarrow> safe_host ip)"
  by (auto simp: kharej_line_def bindR_eq_Inr validate_kharej_ip_Inr
      split: prod.splits if_splits option.splits)

lemma parsed_kharej_ip_safe: "parse_kharej_ip_text text = Inr ip \<Longrightarrow> safe_host ip"
proof -
  assume "parse_kharej_ip_text text = Inr ip"
  then obtain acc where run: "fold_lines kharej_line 1 ([], None) (splitlines text) = Inr acc"
      and "snd acc = Some ip"
    by (auto simp: parse_kharej_ip_text_def bindR_eq_Inr split: if_splits option.splits)
  moreover have "\<forall>ip. snd acc = Some ip \<longrightarrow> safe_host ip"
    by (rule fold_lines_invariant [OF run]) (simp, erule kharej_line_safe)
  ultimately show ?thesis by blast
qed

text \<open>The identity contract of a managed profile, on which the engine relies.\<close>

definition managed :: "managed_profile \<Rightarrow> bool" where
  "managed p \<longleftrightarrow>
     (\<exists>g. numbered g \<and> mp_profile_id p = ''iran-'' @ g \<and>
        mp_service_name p = ''gost-'' @ mp_profile_id p @ ''.service'') \<and>
     safe_host (mp_kharej_ip p) \<and> valid_profile_config (config p)"

lemma load_profile_config_valid: "load_profile_config F p g u b = Inr c \<Longrightarrow> valid_profile_config c"
  by (auto simp: load_profile_config_def parse_profile_config_def bindR_eq_Inr
      split: if_splits option.splits intro: profile_config_from_mapping_valid)

lemma load_candidate_managed:
  "load_candidate F e u c g uid b name number = Inr p \<Longrightarrow> numbered number \<Longrightarrow>
     managed p \<and> mp_profile_id p = ''iran-'' @ number"
  by (auto simp: load_candidate_def Let_def bindR_eq_Inr managed_def
      dest: parsed_kharej_ip_safe load_profile_config_valid)

text \<open>One pass over the candidates: the profiles are those whose load succeeds, the errors those
  whose load fails, each in the order of the candidates.\<close>

definition found :: "(string \<Rightarrow> string \<Rightarrow> (wd_exn, managed_profile) result) \<Rightarrow> string \<Rightarrow> managed_profile option" where
  "found load name =
     (case ENV_RE name of
        None \<Rightarrow> None
      | Some number \<Rightarrow> (case load name number of Inl _ \<Rightarrow> None | Inr p \<Rightarrow> Some p))"

definition failed :: "(string \<Rightarrow> string \<Rightarrow> (wd_exn, managed_profile) result) \<Rightarrow> string \<Rightarrow> discovery_error option" where
  "failed load name =
     (case ENV_RE name of
        None \<Rightarrow> None
      | Some number \<Rightarrow>
          (case load name number of
             Inl _ \<Rightarrow> Some (Some (''iran-'' @ number), Invalid_profile)
           | Inr p \<Rightarrow> None))"

lemma discover_loop_eq:
  "discover_loop load names ps es = Inr (ps', es') \<Longrightarrow>
     ps' = ps @ List.map_filter (found load) names \<and> es' = es @ List.map_filter (failed load) names"
  by (induction load names ps es rule: discover_loop.induct)
    (auto simp: found_def failed_def split: option.splits sum.splits if_splits)

lemma sorted_map_filter:
  assumes "sorted (map key xs)" and "\<And>x y. x \<in> set xs \<Longrightarrow> f x = Some y \<Longrightarrow> key' y = key x"
  shows "sorted (map key' (List.map_filter f xs))"
  using assms
proof (induction xs)
  case Nil
  then show ?case by simp
next
  case (Cons x xs)
  have "key x \<le> key' y" if "y \<in> set (List.map_filter f xs)" for y
    using that Cons.prems by (fastforce simp: List.map_filter_def)
  moreover have "sorted (map key' (List.map_filter f xs))"
    using Cons by simp
  ultimately show ?case
    using Cons.prems(2) [of x] by (cases "f x") (auto simp del: sorted_wrt.simps simp: sorted_wrt.simps(2))
qed

lemma mem_map_filter: "y \<in> set (List.map_filter f xs) \<longleftrightarrow> (\<exists>x\<in>set xs. f x = Some y)"
  by (force simp: List.map_filter_def)

lemma distinct_map_filter:
  assumes "distinct xs" and "\<And>x x' y y'. f x = Some y \<Longrightarrow> f x' = Some y' \<Longrightarrow> g y = g y' \<Longrightarrow> x = x'"
  shows "distinct (map g (List.map_filter f xs))"
  using assms(1)
proof (induction xs)
  case Nil
  then show ?case by simp
next
  case (Cons x xs)
  have "g y \<noteq> g y'" if "f x = Some y" "y' \<in> set (List.map_filter f xs)" for y y'
    using that Cons.prems assms(2) by (fastforce simp: mem_map_filter)
  with Cons show ?case by (auto split: option.splits)
qed

lemma found_identity:
  assumes "found (load_candidate F e u c g uid b) name = Some p"
  shows "managed p \<and> ENV_RE name = Some (drop 5 (mp_profile_id p))"
proof -
  from assms obtain n where n: "ENV_RE name = Some n"
      and load: "load_candidate F e u c g uid b name n = Inr p"
    by (auto simp: found_def split: option.splits sum.splits)
  from n have "numbered n" by (simp add: RE_Some(2))
  from load_candidate_managed [OF load this] n show ?thesis by simp
qed


section \<open>Properties\<close>


definition sample_fs :: fs where
  "sample_fs =
     \<lparr>fs_is_symlink = (\<lambda>_. False), fs_is_dir = (\<lambda>_. True), fs_exists = (\<lambda>_. False),
      fs_lstat = (\<lambda>_. Some \<lparr>st_kind = Regular, st_perm = 384, st_uid = 0\<rparr>),
      fs_read = (\<lambda>_. Some ''KHAREJ_IP=a''), fs_listdir = (\<lambda>_. [''iran-2.env'', ''iran-1.env''])\<rparr>"


end
