(* ===== verification/Watchdog_Storage.thy ===== *)
theory Watchdog_Storage
  imports Watchdog_Profiles
begin

text \<open>
  \<open>src/gost_watchdog/storage.py\<close>: the SQLite state and the bounded transition history. The
  database is its tables; a row of \<open>profile_state\<close> is the list of its named columns, read by
  name as \<open>sqlite3.Row\<close> is. A transaction either commits all its writes or rolls back: what
  SQLite promises, and what \<open>transaction\<close> models; whether the engine of the database raises
  is decided by the environment (\<open>db_fault\<close>).

  This theory also holds the world the stateful components share: the database, the outside
  (the state of the programs and clocks the code calls, of any type \<open>'w\<close>), and the list of the
  service commands run so far, each with the database at that moment.

  The locale \<open>durable_store\<close> is what the engine relies on: reading a key after a save.
\<close>

section \<open>Tables\<close>

datatype sqlval =
  NULL | INTEGER int | TEXT string | HEALTH health | CHECK check_status | PENDING pending
| CATEGORY error_category

type_synonym sqlrow = "(string \<times> sqlval) list"

record database =
  migrations :: "(int \<times> int) list"
  profile_columns :: "string list option"
  profile_table :: "(string \<times> sqlrow) list"
  events_table :: "(int \<times> event) list"
  event_seq :: int

definition SCHEMA_VERSION :: int where "SCHEMA_VERSION = 2"

definition empty_database :: database where
  "empty_database =
     \<lparr>migrations = [], profile_columns = None, profile_table = [], events_table = [], event_seq = 0\<rparr>"

definition EVENT_CODES :: "event_code list" where
  "EVENT_CODES =
     [Watchdog_degraded, Watchdog_upstream_down, Watchdog_profile_stopped, Watchdog_recovering,
      Watchdog_upstream_healthy, Watchdog_profile_started, Watchdog_stop_failed,
      Watchdog_start_failed, Watchdog_manual_override, Watchdog_maintenance_enabled,
      Watchdog_maintenance_disabled, Watchdog_config_error, Watchdog_daemon_started,
      Watchdog_daemon_stopped, Watchdog_probe_error, Watchdog_probe_recovered,
      Watchdog_action_error, Watchdog_mode_change_start]"

definition SAFE_ACTION_RESULTS :: "action_result option list" where
  "SAFE_ACTION_RESULTS =
     None # map Some [Stopped, Started, Already_inactive, Already_active, Manual_start,
       Manual_stop, Maintenance_stop, Maintenance_exit_no_start, Maintenance_exit_start, Rearmed,
       Failed, Intent_reconciled, Compensated, Operator_start]"

definition SAFE_ERROR_CATEGORIES :: "error_category option list" where
  "SAFE_ERROR_CATEGORIES =
     None # map Some [Invalid_global_config, Invalid_profile, Unsafe_directory,
       Service_state_unavailable, Stop_failed, Start_failed, Runtime_error, Ping_binary_missing,
       Ping_permission_denied, Ping_execution_failed, Ping_execution_timeout, Persistence_failed,
       Compensation_failed]"


section \<open>Rows\<close>

definition sql_bool :: "bool \<Rightarrow> sqlval" where
  "sql_bool b = INTEGER (if b then 1 else 0)"

definition sql_opt :: "('a \<Rightarrow> sqlval) \<Rightarrow> 'a option \<Rightarrow> sqlval" where
  "sql_opt f x = (case x of None \<Rightarrow> NULL | Some a \<Rightarrow> f a)"

definition row_of_state :: "profile_state \<Rightarrow> int \<Rightarrow> sqlrow" where
  "row_of_state s now =
     [(''profile_id'', TEXT (ps_profile_id s)),
      (''service_name'', TEXT (ps_service_name s)),
      (''kharej_ip'', TEXT (ps_kharej_ip s)),
      (''health_state'', HEALTH (health_state s)),
      (''maintenance'', sql_bool (maintenance s)),
      (''stopped_by_watchdog'', sql_bool (stopped_by_watchdog s)),
      (''stopped_by_maintenance'', sql_bool (stopped_by_maintenance s)),
      (''manual_override'', sql_bool (manual_override s)),
      (''failure_count'', INTEGER (failure_count s)),
      (''success_count'', INTEGER (success_count s)),
      (''last_check_at'', sql_opt INTEGER (last_check_at s)),
      (''last_transition_at'', sql_opt INTEGER (last_transition_at s)),
      (''outage_started_at'', sql_opt INTEGER (outage_started_at s)),
      (''recovery_started_at'', sql_opt INTEGER (recovery_started_at s)),
      (''recovery_ready_at'', sql_opt INTEGER (recovery_ready_at s)),
      (''recovery_jitter_seconds'', INTEGER (recovery_jitter_seconds s)),
      (''last_service_active'', sql_opt sql_bool (last_service_active s)),
      (''check_status'', CHECK (check_status s)),
      (''last_probe_error_category'', sql_opt CATEGORY (last_probe_error_category s)),
      (''pending_action'', sql_opt PENDING (pending_action s)),
      (''pending_action_at'', sql_opt INTEGER (pending_action_at s)),
      (''last_service_check_at'', sql_opt INTEGER (last_service_check_at s)),
      (''updated_at'', INTEGER now)]"

text \<open>Reading a column at a type; \<open>None\<close> where the conversion raises.\<close>

fun as_text :: "sqlval option \<Rightarrow> string option" where
  "as_text (Some (TEXT t)) = Some t" | "as_text _ = None"

fun as_int :: "sqlval option \<Rightarrow> int option" where
  "as_int (Some (INTEGER i)) = Some i" | "as_int _ = None"

fun as_bool :: "sqlval option \<Rightarrow> bool option" where
  "as_bool (Some (INTEGER i)) = Some (i \<noteq> 0)" | "as_bool (Some NULL) = Some False" | "as_bool _ = None"

fun as_health :: "sqlval option \<Rightarrow> health option" where
  "as_health (Some (HEALTH h)) = Some h" | "as_health _ = None"

fun as_check :: "sqlval option \<Rightarrow> check_status option" where
  "as_check (Some (CHECK c)) = Some c" | "as_check _ = None"

fun as_opt :: "(sqlval option \<Rightarrow> 'a option) \<Rightarrow> sqlval option \<Rightarrow> 'a option option" where
  "as_opt f (Some NULL) = Some None"
| "as_opt f (Some v) = map_option Some (f (Some v))"
| "as_opt f None = None"

fun as_category :: "sqlval option \<Rightarrow> error_category option" where
  "as_category (Some (CATEGORY c)) = Some c" | "as_category _ = None"

fun as_pending :: "sqlval option \<Rightarrow> pending option" where
  "as_pending (Some (PENDING p)) = Some p" | "as_pending _ = None"

definition state_from_row :: "sqlrow \<Rightarrow> profile_state option" where
  "state_from_row row =
     Option.bind (as_text (map_of row ''profile_id'')) (\<lambda>pid.
     Option.bind (as_text (map_of row ''service_name'')) (\<lambda>svc.
     Option.bind (as_text (map_of row ''kharej_ip'')) (\<lambda>ip.
     Option.bind (as_health (map_of row ''health_state'')) (\<lambda>h.
     Option.bind (as_bool (map_of row ''maintenance'')) (\<lambda>mnt.
     Option.bind (as_bool (map_of row ''stopped_by_watchdog'')) (\<lambda>sw.
     Option.bind (as_bool (map_of row ''stopped_by_maintenance'')) (\<lambda>sm.
     Option.bind (as_bool (map_of row ''manual_override'')) (\<lambda>mo.
     Option.bind (as_int (map_of row ''failure_count'')) (\<lambda>fc.
     Option.bind (as_int (map_of row ''success_count'')) (\<lambda>sc.
     Option.bind (as_opt as_int (map_of row ''last_check_at'')) (\<lambda>lc.
     Option.bind (as_opt as_int (map_of row ''last_transition_at'')) (\<lambda>lt.
     Option.bind (as_opt as_int (map_of row ''outage_started_at'')) (\<lambda>os.
     Option.bind (as_opt as_int (map_of row ''recovery_started_at'')) (\<lambda>rs.
     Option.bind (as_opt as_int (map_of row ''recovery_ready_at'')) (\<lambda>rr.
     Option.bind (as_int (map_of row ''recovery_jitter_seconds'')) (\<lambda>rj.
     Option.bind (as_opt as_bool (map_of row ''last_service_active'')) (\<lambda>la.
     Option.bind (as_check (map_of row ''check_status'')) (\<lambda>cs.
     Option.bind (as_opt as_category (map_of row ''last_probe_error_category'')) (\<lambda>lp.
     Option.bind (as_opt as_pending (map_of row ''pending_action'')) (\<lambda>pa.
     Option.bind (as_opt as_int (map_of row ''pending_action_at'')) (\<lambda>pat.
     Option.bind (as_opt as_int (map_of row ''last_service_check_at'')) (\<lambda>ls.
       Some \<lparr>ps_profile_id = pid, ps_service_name = svc, ps_kharej_ip = ip, health_state = h,
         maintenance = mnt, stopped_by_watchdog = sw, stopped_by_maintenance = sm,
         manual_override = mo, failure_count = fc, success_count = sc, last_check_at = lc,
         last_transition_at = lt, outage_started_at = os, recovery_started_at = rs,
         recovery_ready_at = rr, recovery_jitter_seconds = rj, last_service_active = la,
         check_status = cs, last_probe_error_category = lp, pending_action = pa,
         pending_action_at = pat, last_service_check_at = ls\<rparr>))))))))))))))))))))))"


section \<open>The schema\<close>

definition PROFILE_COLUMNS_V1 :: "string list" where
  "PROFILE_COLUMNS_V1 =
     [''profile_id'', ''service_name'', ''kharej_ip'', ''health_state'', ''maintenance'',
      ''stopped_by_watchdog'', ''stopped_by_maintenance'', ''manual_override'', ''failure_count'',
      ''success_count'', ''last_check_at'', ''last_transition_at'', ''outage_started_at'',
      ''recovery_started_at'', ''recovery_ready_at'', ''recovery_jitter_seconds'',
      ''last_service_active'']"

definition additions :: "(string \<times> sqlval) list" where
  "additions =
     [(''check_status'', CHECK UnknownCheck), (''last_probe_error_category'', NULL),
      (''pending_action'', NULL), (''pending_action_at'', NULL), (''last_service_check_at'', NULL)]"

definition PROFILE_COLUMNS :: "string list" where
  "PROFILE_COLUMNS = PROFILE_COLUMNS_V1 @ map fst additions @ [''updated_at'']"

definition add_column :: "string \<times> sqlval \<Rightarrow> database \<Rightarrow> database" where
  "add_column nd d =
     (case profile_columns d of
        None \<Rightarrow> d
      | Some cols \<Rightarrow>
          if fst nd \<in> set cols then d
          else d\<lparr>profile_columns := Some (cols @ [fst nd]),
                 profile_table := map (\<lambda>(k, row). (k, row @ [nd])) (profile_table d)\<rparr>)"

definition migrate_database :: "int \<Rightarrow> database \<Rightarrow> (wd_exn, database) result" where
  "migrate_database now d =
     (let version = Max (insert 0 (set (map fst (migrations d))))
      in if version > SCHEMA_VERSION then Inl (RuntimeError ''unsupported Watchdog schema version'')
         else
           let d1 = (case profile_columns d of
                       None \<Rightarrow> d\<lparr>profile_columns := Some PROFILE_COLUMNS, profile_table := []\<rparr>
                     | Some _ \<Rightarrow> d);
               d2 = fold add_column additions d1
           in Inr (if SCHEMA_VERSION \<in> set (map fst (migrations d2)) then d2
                   else d2\<lparr>migrations := migrations d2 @ [(SCHEMA_VERSION, now)]\<rparr>))"


section \<open>Statements\<close>

definition get_state_db ::
  "database \<Rightarrow> string \<Rightarrow> string \<Rightarrow> string \<Rightarrow> (wd_exn, profile_state) result" where
  "get_state_db d pid svc ip =
     (case map_of (profile_table d) pid of
        None \<Rightarrow> Inr (ProfileState pid svc ip)
      | Some row \<Rightarrow>
          (case state_from_row row of
             None \<Rightarrow> Inl TypeError
           | Some s \<Rightarrow> Inr (s\<lparr>ps_service_name := svc, ps_kharej_ip := ip\<rparr>)))"

definition all_states :: "database \<Rightarrow> (wd_exn, (string \<times> profile_state) list) result" where
  "all_states d =
     mapR (\<lambda>(k, row). case state_from_row row of None \<Rightarrow> Inl TypeError | Some s \<Rightarrow> Inr (k, s))
       (sort_key fst (profile_table d))"

definition save_state :: "profile_state \<Rightarrow> int \<Rightarrow> database \<Rightarrow> (wd_exn, database) result" where
  "save_state s now d =
     (if health_state s \<notin> set HEALTH_STATES then Inl (ValueError Invalid_health_state)
      else if check_status s \<notin> set CHECK_STATUSES then Inl (ValueError Invalid_check_status)
      else if pending_action s \<noteq> None \<and> the (pending_action s) \<notin> set PENDING_ACTIONS
        then Inl (ValueError Invalid_pending_text)
      else Inr (d\<lparr>profile_table := AList.update (ps_profile_id s) (row_of_state s now) (profile_table d)\<rparr>))"

definition insert_event :: "event \<Rightarrow> database \<Rightarrow> (wd_exn, database) result" where
  "insert_event ev d =
     (if ev_code ev \<notin> set EVENT_CODES then Inl (ValueError Unsupported_event_code)
      else if ev_action_result ev \<notin> set SAFE_ACTION_RESULTS then Inl (ValueError Unsafe_action_result)
      else if ev_error_category ev \<notin> set SAFE_ERROR_CATEGORIES then Inl (ValueError Unsafe_error_category)
      else Inr (d\<lparr>events_table := events_table d @ [(event_seq d + 1, ev)], event_seq := event_seq d + 1\<rparr>))"

fun insert_events :: "event list \<Rightarrow> database \<Rightarrow> (wd_exn, database) result" where
  "insert_events [] d = Inr d"
| "insert_events (ev # evs) d = bindR (insert_event ev d) (insert_events evs)"

definition persist_db :: "profile_state \<Rightarrow> event list \<Rightarrow> int \<Rightarrow> database \<Rightarrow> (wd_exn, database) result" where
  "persist_db s evs now d = bindR (save_state s now d) (insert_events evs)"


section \<open>The world and its transactions\<close>

datatype run_exn = FileNotFoundError | PermissionError | TimeoutExpired | OtherOSError | OtherSubprocessError

datatype run_outcome = Completed int | Raised run_exn

datatype effect = Ran "string list" database

record 'w env =
  runner :: "string list \<Rightarrow> 'w \<Rightarrow> run_outcome \<times> 'w"
  db_fault :: "'w \<Rightarrow> bool \<times> 'w"
  wall_clock :: "'w \<Rightarrow> int \<times> 'w"
  monotonic_clock :: "'w \<Rightarrow> real \<times> 'w"
  jitter_source :: "int \<Rightarrow> 'w \<Rightarrow> int \<times> 'w"

record 'w world =
  db :: database
  outside :: 'w
  effects :: "effect list"

definition transaction ::
  "'w env \<Rightarrow> (database \<Rightarrow> (wd_exn, 'a \<times> database) result) \<Rightarrow> (('w, 'z) world_scheme, wd_exn, 'a) act" where
  "transaction E body = (\<lambda>w.
     case db_fault E (outside w) of (fault, x) \<Rightarrow>
       let w1 = w\<lparr>outside := x\<rparr>
       in if fault then (Inl SqliteError, w1)
          else (case body (db w) of
                  Inl e \<Rightarrow> (Inl e, w1)
                | Inr (a, d) \<Rightarrow> (Inr a, w1\<lparr>db := d\<rparr>)))"

definition get_state ::
  "'w env \<Rightarrow> string \<Rightarrow> string \<Rightarrow> string \<Rightarrow> (('w, 'z) world_scheme, wd_exn, profile_state) act" where
  "get_state E pid svc ip =
     transaction E (\<lambda>d. bindR (get_state_db d pid svc ip) (\<lambda>s. Inr (s, d)))"

definition persist ::
  "'w env \<Rightarrow> profile_state \<Rightarrow> event list \<Rightarrow> int \<Rightarrow> (('w, 'z) world_scheme, wd_exn, unit) act" where
  "persist E s evs now = transaction E (\<lambda>d. bindR (persist_db s evs now d) (\<lambda>d'. Inr ((), d')))"

definition record_event :: "'w env \<Rightarrow> event \<Rightarrow> (('w, 'z) world_scheme, wd_exn, unit) act" where
  "record_event E ev = transaction E (\<lambda>d. bindR (insert_event ev d) (\<lambda>d'. Inr ((), d')))"


section \<open>History: pruning, listing, summary\<close>

definition ordered_events :: "(int \<times> event) list \<Rightarrow> (int \<times> event) list" where
  "ordered_events rows = sort_key (\<lambda>r. ev_ts (snd r)) (sort_key fst rows)"

definition victims :: "int \<Rightarrow> nat \<Rightarrow> (int \<times> event) list \<Rightarrow> (int \<times> event) list" where
  "victims cutoff batch_size rows =
     take batch_size (ordered_events (filter (\<lambda>r. ev_ts (snd r) < cutoff) rows))"

fun prune_loop :: "nat \<Rightarrow> int \<Rightarrow> nat \<Rightarrow> nat \<Rightarrow> (int \<times> event) list \<Rightarrow> nat \<times> (int \<times> event) list" where
  "prune_loop 0 cutoff batch_size deleted rows = (deleted, rows)"
| "prune_loop (Suc batches) cutoff batch_size deleted rows =
     (let chosen = map fst (victims cutoff batch_size rows);
          rows' = filter (\<lambda>r. fst r \<notin> set chosen) rows;
          count = length rows - length rows'
      in if count < batch_size then (deleted + count, rows')
         else prune_loop batches cutoff batch_size (deleted + count) rows')"

definition prune_events ::
  "'w env \<Rightarrow> int \<Rightarrow> int \<Rightarrow> nat \<Rightarrow> nat \<Rightarrow> (('w, 'z) world_scheme, wd_exn, nat) act" where
  "prune_events E now retention_seconds batch_size max_batches =
     transaction E (\<lambda>d.
       let cutoff = now - retention_seconds
       in case prune_loop max_batches cutoff batch_size 0 (events_table d) of
            (deleted, rows) \<Rightarrow> Inr (deleted, d\<lparr>events_table := rows\<rparr>))"

definition events :: "database \<Rightarrow> int \<Rightarrow> string option \<Rightarrow> int \<Rightarrow> (int \<times> event) list" where
  "events d now profile_id limit =
     (let n = max 1 (min limit 1000);
          cutoff = now - EVENT_RETENTION_SECONDS;
          matching = filter (\<lambda>r. cutoff \<le> ev_ts (snd r) \<and>
                       (profile_id = None \<or> ev_profile_id (snd r) = profile_id)) (events_table d)
      in take (nat n) (rev (ordered_events matching)))"

record summary24 =
  outage_count :: nat
  total_downtime_seconds :: int
  longest_outage_seconds :: int
  last_outage_at :: "int option"
  automatic_stop_count :: nat
  automatic_start_count :: nat
  failed_action_count :: nat

definition completed_outages :: "int \<Rightarrow> int \<Rightarrow> event list \<Rightarrow> (int \<times> int) list" where
  "completed_outages now cutoff rows =
     concat (map (\<lambda>ev.
       case ev_outage_duration ev of
         None \<Rightarrow> []
       | Some duration \<Rightarrow>
           let e = min now (ev_ts ev); start = ev_ts ev - max 0 duration;
               overlap_start = max cutoff start
           in if e > overlap_start then [(overlap_start, e)] else [])
       (filter (\<lambda>ev. ev_code ev = Watchdog_upstream_healthy) rows))"

definition current_outage :: "database \<Rightarrow> int \<Rightarrow> int \<Rightarrow> string \<Rightarrow> (int \<times> int) list" where
  "current_outage d now cutoff profile_id =
     (case Option.bind (map_of (profile_table d) profile_id) (\<lambda>row. as_int (map_of row ''outage_started_at'')) of
        None \<Rightarrow> []
      | Some started \<Rightarrow>
          let start = max cutoff started in if now > start then [(start, now)] else [])"

definition summary :: "database \<Rightarrow> int \<Rightarrow> string \<Rightarrow> summary24" where
  "summary d now profile_id =
     (let cutoff = now - EVENT_RETENTION_SECONDS;
          rows = map snd (sort_key (\<lambda>r. ev_ts (snd r))
                   (filter (\<lambda>r. ev_profile_id (snd r) = Some profile_id \<and> cutoff \<le> ev_ts (snd r))
                     (events_table d)));
          outages = completed_outages now cutoff rows @ current_outage d now cutoff profile_id;
          durations = map (\<lambda>(start, e). max 0 (e - start)) outages
      in \<lparr>outage_count = length outages,
          total_downtime_seconds = min EVENT_RETENTION_SECONDS (sum_list durations),
          longest_outage_seconds = min EVENT_RETENTION_SECONDS (fold max durations 0),
          last_outage_at = (if outages = [] then None else Some (fst (last outages))),
          automatic_stop_count = length (filter (\<lambda>ev. ev_code ev = Watchdog_profile_stopped) rows),
          automatic_start_count = length (filter (\<lambda>ev. ev_code ev = Watchdog_profile_started) rows),
          failed_action_count = length (filter (\<lambda>ev. ev_code ev = Watchdog_stop_failed
                                  \<or> ev_code ev = Watchdog_start_failed) rows)\<rparr>)"

section \<open>Reading back what was written\<close>

text \<open>What a store of keyed values promises its clients: a save is read back, and leaves the
  other keys alone.\<close>

locale durable_store =
  fixes load :: "'d \<Rightarrow> 'k \<Rightarrow> 'v option"
    and save :: "'v \<Rightarrow> 'd \<Rightarrow> ('e, 'd) result"
    and key :: "'v \<Rightarrow> 'k"
  assumes load_save_same: "save v d = Inr d' \<Longrightarrow> load d' (key v) = Some v"
    and load_save_other: "save v d = Inr d' \<Longrightarrow> k \<noteq> key v \<Longrightarrow> load d' k = load d k"
begin

lemma load_save: "save v d = Inr d' \<Longrightarrow> load d' k = (if k = key v then Some v else load d k)"
  by (auto simp: load_save_same load_save_other)

lemma last_save_wins:
  assumes "save v d = Inr d1" and "save v' d1 = Inr d2" and "key v' = key v"
  shows "load d2 (key v) = Some v' \<and> (\<forall>k. k \<noteq> key v \<longrightarrow> load d2 k = load d k)"
  using assms by (metis load_save)

lemma saves_commute:
  assumes "save v d = Inr d1" and "save v' d1 = Inr d2"
    and "save v' d = Inr e1" and "save v e1 = Inr e2" and "key v \<noteq> key v'"
  shows "load d2 k = load e2 k"
  using assms by (simp add: load_save)

end

definition stored_state :: "database \<Rightarrow> string \<Rightarrow> profile_state option" where
  "stored_state d pid = Option.bind (map_of (profile_table d) pid) state_from_row"

lemma as_sql_opt [simp]:
  "as_opt as_int (Some (sql_opt INTEGER i)) = Some i"
  "as_opt as_bool (Some (sql_opt sql_bool b)) = Some b"
  "as_opt as_category (Some (sql_opt CATEGORY c)) = Some c"
  "as_opt as_pending (Some (sql_opt PENDING p)) = Some p"
  "as_bool (Some (sql_bool t)) = Some t"
  by (simp_all add: sql_opt_def sql_bool_def split: option.splits)

lemma state_from_row_of_state [simp]: "state_from_row (row_of_state s now) = Some s"
  by (simp add: state_from_row_def row_of_state_def)

lemma insert_event_frame:
  "insert_event ev d = Inr d' \<Longrightarrow>
     profile_table d' = profile_table d \<and> profile_columns d' = profile_columns d
     \<and> migrations d' = migrations d \<and> event_seq d' = event_seq d + 1
     \<and> events_table d' = events_table d @ [(event_seq d + 1, ev)]"
  by (auto simp: insert_event_def split: if_splits)

lemma insert_events_frame:
  "insert_events evs d = Inr d' \<Longrightarrow>
     profile_table d' = profile_table d \<and> profile_columns d' = profile_columns d
     \<and> migrations d' = migrations d \<and> event_seq d' = event_seq d + int (length evs)
     \<and> events_table d' =
         events_table d @ zip (map (\<lambda>i. event_seq d + 1 + int i) [0..<length evs]) evs"
proof (induction evs arbitrary: d)
  case Nil
  then show ?case by simp
next
  case (Cons ev evs)
  then obtain d1 where d1: "insert_event ev d = Inr d1" "insert_events evs d1 = Inr d'"
    by (auto simp: bindR_eq_Inr)
  have ids: "map (\<lambda>i. event_seq d + 1 + int i) [0..<length (ev # evs)]
      = (event_seq d + 1) # map (\<lambda>i. event_seq d1 + 1 + int i) [0..<length evs]"
    using insert_event_frame [OF d1(1)]
    by (simp add: upt_conv_Cons map_Suc_upt [symmetric] comp_def del: upt_Suc map_Suc_upt)
  show ?case
    using Cons.IH [OF d1(2)] insert_event_frame [OF d1(1)] unfolding ids by simp
qed

lemma save_state_frame:
  "save_state s now d = Inr d' \<Longrightarrow>
     profile_table d' = AList.update (ps_profile_id s) (row_of_state s now) (profile_table d)
     \<and> events_table d' = events_table d \<and> event_seq d' = event_seq d"
  by (auto simp: save_state_def split: if_splits)

lemma persist_db_frame:
  "persist_db s evs now d = Inr d' \<Longrightarrow>
     profile_table d' = AList.update (ps_profile_id s) (row_of_state s now) (profile_table d)
     \<and> events_table d' =
         events_table d @ zip (map (\<lambda>i. event_seq d + 1 + int i) [0..<length evs]) evs
     \<and> event_seq d' = event_seq d + int (length evs)"
  by (auto simp: persist_db_def bindR_eq_Inr dest!: save_state_frame insert_events_frame)

interpretation pt: durable_store stored_state "\<lambda>s. persist_db s evs now" ps_profile_id for evs now
  by unfold_locales (auto simp: stored_state_def update_conv' dest!: persist_db_frame)

lemma get_state_db_stored:
  "stored_state d pid = Some s \<Longrightarrow>
     get_state_db d pid svc ip = Inr (s\<lparr>ps_service_name := svc, ps_kharej_ip := ip\<rparr>)"
  by (auto simp: stored_state_def get_state_db_def split: option.splits bind_splits)

lemma get_state_db_Inr:
  "get_state_db d pid svc ip = Inr s \<Longrightarrow>
     (stored_state d pid = None \<and> map_of (profile_table d) pid = None \<and> s = ProfileState pid svc ip)
     \<or> (\<exists>s0. stored_state d pid = Some s0 \<and> s = s0\<lparr>ps_service_name := svc, ps_kharej_ip := ip\<rparr>)"
  by (auto simp: get_state_db_def stored_state_def split: option.splits)


section \<open>Transactions\<close>

lemma transactionI:
  assumes "\<And>x. X SqliteError (w\<lparr>outside := x\<rparr>)"
    and "\<And>x e. body (db w) = Inl e \<Longrightarrow> X e (w\<lparr>outside := x\<rparr>)"
    and "\<And>x a d. body (db w) = Inr (a, d) \<Longrightarrow> Q a (w\<lparr>outside := x, db := d\<rparr>)"
  shows "wp (transaction E body) Q X w"
  using assms by (auto simp: wp_def transaction_def Let_def split: prod.splits sum.splits if_splits)

lemma persistI:
  assumes "\<And>x e. X e (w\<lparr>outside := x\<rparr>)"
    and "\<And>x d. persist_db s evs now (db w) = Inr d \<Longrightarrow> Q () (w\<lparr>outside := x, db := d\<rparr>)"
  shows "wp (persist E s evs now) Q X w"
  unfolding persist_def by (rule transactionI) (auto simp: bindR_eq_Inr intro: assms)

lemma get_stateI:
  assumes "\<And>x e. X e (w\<lparr>outside := x\<rparr>)"
    and "\<And>x s. get_state_db (db w) pid svc ip = Inr s \<Longrightarrow> Q s (w\<lparr>outside := x\<rparr>)"
  shows "wp (get_state E pid svc ip) Q X w"
proof -
  have w: "w\<lparr>outside := x, db := db w\<rparr> = w\<lparr>outside := x\<rparr>" for x
    by simp
  show ?thesis
    unfolding get_state_def
    by (rule transactionI) (auto simp: bindR_eq_Inr w intro: assms)
qed

lemma record_eventI:
  assumes "\<And>x e. X e (w\<lparr>outside := x\<rparr>)"
    and "\<And>x d. insert_event ev (db w) = Inr d \<Longrightarrow> Q () (w\<lparr>outside := x, db := d\<rparr>)"
  shows "wp (record_event E ev) Q X w"
  unfolding record_event_def by (rule transactionI) (auto simp: bindR_eq_Inr intro: assms)


section \<open>Properties of the store\<close>

text \<open>C6: \<open>WatchdogStore.persist\<close> is atomic and durable. If it raises, the database is exactly
  what it was; if it returns, the saved state is what a later \<open>get_state\<close> of that profile
  gives (with the service and address of the caller), every other profile's state is
  unchanged, and the events are appended in order under fresh consecutive identifiers.\<close>

theorem persist_atomic_and_durable:
  assumes "persist E s evs now w = (r, w')"
  shows "case r of
           Inl _ \<Rightarrow> db w' = db w
         | Inr _ \<Rightarrow>
             get_state_db (db w') (ps_profile_id s) svc ip
               = Inr (s\<lparr>ps_service_name := svc, ps_kharej_ip := ip\<rparr>)
             \<and> (\<forall>k. k \<noteq> ps_profile_id s \<longrightarrow>
                  get_state_db (db w') k svc ip = get_state_db (db w) k svc ip)
             \<and> events_table (db w') = events_table (db w)
                  @ zip (map (\<lambda>i. event_seq (db w) + 1 + int i) [0..<length evs]) evs"
proof -
  have "wp (persist E s evs now)
      (\<lambda>_ w'. \<exists>d. persist_db s evs now (db w) = Inr d \<and> db w' = d) (\<lambda>_ w'. db w' = db w) w"
    by (rule persistI) auto
  from wp_run [OF this assms] show ?thesis
    by (auto simp: get_state_db_def update_conv' dest!: persist_db_frame
        split: sum.splits)
qed

definition quiet_env :: "unit env" where
  "quiet_env = \<lparr>runner = (\<lambda>_ x. (Completed 0, x)), db_fault = (\<lambda>x. (False, x)),
     wall_clock = (\<lambda>x. (100, x)), monotonic_clock = (\<lambda>x. (0, x)), jitter_source = (\<lambda>_ x. (0, x))\<rparr>"

definition fresh_world :: "unit world" where
  "fresh_world = \<lparr>db = empty_database, outside = (), effects = []\<rparr>"

theorem persist_atomic_and_durable_witness:
  "let s = (ProfileState ''iran-1'' ''gost-iran-1.service'' ''10.0.0.1'')\<lparr>failure_count := 4\<rparr>
   in case persist quiet_env s [WatchdogEvent 7 Watchdog_degraded] 7 fresh_world of
        (r, w') \<Rightarrow> r = Inr () \<and> get_state_db (db w') ''iran-1'' ''svc'' ''ip''
          = Inr (s\<lparr>ps_service_name := ''svc'', ps_kharej_ip := ''ip''\<rparr>)"
proof -
  define s where "s = (ProfileState ''iran-1'' ''gost-iran-1.service'' ''10.0.0.1'')\<lparr>failure_count := 4\<rparr>"
  obtain r w' where run: "persist quiet_env s [WatchdogEvent 7 Watchdog_degraded] 7 fresh_world = (r, w')"
    by fastforce
  have r: "r = Inr ()"
    using run by (auto simp: persist_def transaction_def quiet_env_def fresh_world_def persist_db_def
        save_state_def s_def ProfileState_def HEALTH_STATES_def CHECK_STATUSES_def insert_event_def
        WatchdogEvent_def EVENT_CODES_def SAFE_ACTION_RESULTS_def SAFE_ERROR_CATEGORIES_def Let_def)
  have "ps_profile_id s = ''iran-1''" by (simp add: s_def ProfileState_def)
  with persist_atomic_and_durable [OF run, of "''svc''" "''ip''"] r run show ?thesis
    unfolding Let_def s_def [symmetric] by simp
qed


subsection \<open>Pruning\<close>

abbreviation expired :: "int \<Rightarrow> (int \<times> event) list \<Rightarrow> (int \<times> event) list" where
  "expired cutoff rows \<equiv> filter (\<lambda>r. ev_ts (snd r) < cutoff) rows"

definition older_eq :: "int \<times> event \<Rightarrow> int \<times> event \<Rightarrow> bool" where
  "older_eq a b \<longleftrightarrow>
     ev_ts (snd a) < ev_ts (snd b) \<or> ev_ts (snd a) = ev_ts (snd b) \<and> fst a \<le> fst b"

lemma set_ordered_events [simp]: "set (ordered_events rows) = set rows"
  by (simp add: ordered_events_def)

lemma length_ordered_events [simp]: "length (ordered_events rows) = length rows"
  by (simp add: ordered_events_def)

lemma distinct_ordered_events [simp]: "distinct (ordered_events rows) = distinct rows"
  by (simp add: ordered_events_def distinct_sort)

lemma ordered_events_filter: "ordered_events (filter P rows) = filter P (ordered_events rows)"
  by (simp add: ordered_events_def filter_sort)

lemma insort_older:
  assumes "sorted_wrt older_eq L" and "\<forall>z\<in>set L. fst y \<le> fst z"
  shows "sorted_wrt older_eq (insort_key (\<lambda>r. ev_ts (snd r)) y L)"
  using assms
proof (induction L)
  case Nil
  then show ?case by simp
next
  case (Cons z L)
  then show ?case by (auto simp: older_eq_def set_insort_key)
qed

lemma ordered_events_sorted: "sorted_wrt older_eq (ordered_events rows)"
proof -
  have "sorted_wrt older_eq (sort_key (\<lambda>r. ev_ts (snd r)) ys)" if "sorted (map fst ys)" for ys
    using that by (induction ys) (auto intro!: insort_older)
  then show ?thesis by (simp add: ordered_events_def)
qed

lemma filter_not_take: "distinct L \<Longrightarrow> filter (\<lambda>r. r \<notin> set (take n L)) L = drop n L"
proof -
  assume d: "distinct (L :: 'a list)"
  have "filter (\<lambda>r. r \<notin> set (take n L)) L
      = filter (\<lambda>r. r \<notin> set (take n L)) (take n L @ drop n L)"
    by simp
  also have "\<dots> = filter (\<lambda>r. r \<notin> set (take n L)) (drop n L)"
    by (simp only: filter_append) (simp add: filter_empty_conv)
  also have "filter (\<lambda>r. r \<notin> set (take n L)) (drop n L) = drop n L"
    using d set_take_disj_set_drop_if_distinct [of L n n] by (intro filter_True) auto
  finally show ?thesis by simp
qed

lemma length_filter_not_sublist:
  "distinct xs \<Longrightarrow> set ys \<subseteq> set xs \<Longrightarrow> distinct ys \<Longrightarrow>
     length (filter (\<lambda>r. r \<notin> set ys) xs) = length xs - length ys"
proof -
  assume a: "distinct xs" "set ys \<subseteq> set xs" "distinct ys"
  have "length (filter (\<lambda>r. r \<notin> set ys) xs) = card (set xs - set ys)"
    using a(1) by (subst distinct_card [symmetric]) (auto intro!: arg_cong [where f = card])
  then show ?thesis
    using a by (simp add: card_Diff_subset distinct_card)
qed

lemma prune_loop_eq:
  assumes "distinct (map fst rows)" and "0 < b"
  shows "prune_loop n c b k rows =
    (k + min (n * b) (length (expired c rows)),
     filter (\<lambda>r. r \<notin> set (take (n * b) (ordered_events (expired c rows)))) rows)"
  using assms(1)
proof (induction n arbitrary: k rows)
  case 0
  then show ?case by simp
next
  case (Suc n)
  let ?L = "ordered_events (expired c rows)"
  let ?rows' = "filter (\<lambda>r. r \<notin> set (take b ?L)) rows"
  have dr: "distinct rows" using Suc.prems by (simp add: distinct_map)
  then have dL: "distinct ?L" by simp
  have inj: "inj_on fst (set rows)" using Suc.prems by (simp add: distinct_map)
  have sub: "set (take b ?L) \<subseteq> set rows"
    using set_take_subset [of b ?L] by auto
  have rows': "filter (\<lambda>r. fst r \<notin> set (map fst (victims c b rows))) rows = ?rows'"
    unfolding victims_def set_map
    by (rule filter_cong [OF refl]) (simp add: inj_on_image_mem_iff [OF inj _ sub])
  have len: "length rows - length ?rows' = min b (length (expired c rows))"
  proof -
    have "length ?rows' = length rows - length (take b ?L)"
      using dr sub dL by (intro length_filter_not_sublist) auto
    moreover have "length (take b ?L) \<le> length rows"
      using length_filter_le [of "\<lambda>r. ev_ts (snd r) < c" rows] by (auto simp: min_def simp del: length_filter_le)
    ultimately show ?thesis by simp
  qed
  show ?case
  proof (cases "length (expired c rows) < b")
    case True
    then have "take b ?L = ?L" and "take (Suc n * b) ?L = ?L" by simp_all
    with True show ?thesis
      using rows' len by (simp add: Let_def)
  next
    case False
    have old': "ordered_events (expired c ?rows') = drop b ?L"
    proof -
      have "expired c ?rows' = filter (\<lambda>r. r \<notin> set (take b ?L)) (expired c rows)"
        by (simp add: conj_commute)
      then show ?thesis
        using dL by (simp only: ordered_events_filter filter_not_take)
    qed
    have d': "distinct (map fst ?rows')"
      using Suc.prems by (rule List.distinct_map_filter)
    have l': "length (expired c ?rows') = length (expired c rows) - b"
      using arg_cong [OF old', of length] by simp
    have "take (Suc n * b) ?L = take b ?L @ take (n * b) (drop b ?L)"
      by (simp add: take_add)
    then have "filter (\<lambda>r. r \<notin> set (take (n * b) (drop b ?L))) ?rows'
        = filter (\<lambda>r. r \<notin> set (take (Suc n * b) ?L)) rows"
      by (auto intro!: filter_cong)
    moreover have "prune_loop (Suc n) c b k rows = prune_loop n c b (k + b) ?rows'"
      using False rows' len by (simp add: Let_def)
    ultimately show ?thesis
      using Suc.IH [OF d', of "k + b"] False unfolding old' l' by auto
  qed
qed


text \<open>C8: \<open>prune_events\<close> deletes exactly the oldest expired events: as many as there are, but at
  most \<open>max_batches * batch_size\<close> of them, the first in the order of time stamp and
  identifier; it returns their number, keeps every event inside the retention window and every
  profile state. When the expired events fit the budget, none is left.\<close>

theorem prune_events_exact:
  assumes "prune_events E now retention b n w = (Inr k, w')"
    and "distinct (map fst (events_table (db w)))" and "0 < b"
  shows "k = min (n * b) (length (expired (now - retention) (events_table (db w))))
    \<and> events_table (db w') =
        filter (\<lambda>r. r \<notin> set (take (n * b)
            (ordered_events (expired (now - retention) (events_table (db w)))))) (events_table (db w))
    \<and> sorted_wrt older_eq (ordered_events (expired (now - retention) (events_table (db w))))
    \<and> (length (expired (now - retention) (events_table (db w))) \<le> n * b \<longrightarrow>
         events_table (db w') = filter (\<lambda>r. now - retention \<le> ev_ts (snd r)) (events_table (db w)))
    \<and> profile_table (db w') = profile_table (db w)"
proof -
  let ?rows = "events_table (db w)" and ?c = "now - retention"
  have "wp (prune_events E now retention b n)
     (\<lambda>k w'. prune_loop n ?c b 0 ?rows = (k, events_table (db w'))
        \<and> profile_table (db w') = profile_table (db w)) (\<lambda>_ _. True) w"
    unfolding prune_events_def by (rule transactionI) (auto simp: Let_def split: prod.splits)
  from wp_run [OF this assms(1)] have run: "prune_loop n ?c b 0 ?rows = (k, events_table (db w'))"
      "profile_table (db w') = profile_table (db w)"
    by simp_all
  have "filter (\<lambda>r. r \<notin> set (take (n * b) (ordered_events (expired ?c ?rows)))) ?rows
      = filter (\<lambda>r. ?c \<le> ev_ts (snd r)) ?rows" if "length (expired ?c ?rows) \<le> n * b"
    using that by (intro filter_cong) auto
  moreover have "k = min (n * b) (length (expired ?c ?rows))" and "events_table (db w')
      = filter (\<lambda>r. r \<notin> set (take (n * b) (ordered_events (expired ?c ?rows)))) ?rows"
    using run(1) prune_loop_eq [OF assms(2,3), of n ?c 0] by simp_all
  ultimately show ?thesis
    using run(2) ordered_events_sorted by metis
qed

definition history_world :: "unit world" where
  "history_world = fresh_world\<lparr>db := empty_database\<lparr>events_table :=
     [(1, WatchdogEvent 5 Watchdog_degraded), (2, WatchdogEvent 3 Watchdog_degraded),
      (3, WatchdogEvent 50 Watchdog_recovering)], event_seq := 3\<rparr>\<rparr>"

theorem prune_events_exact_witness:
  "\<exists>k w'. prune_events quiet_env 60 50 2 1 history_world = (Inr k, w') \<and> k = 2
     \<and> events_table (db w') = [(3, WatchdogEvent 50 Watchdog_recovering)]"
proof -
  obtain k w' where run: "prune_events quiet_env 60 50 2 1 history_world = (Inr k, w')"
    by (auto simp: prune_events_def transaction_def quiet_env_def Let_def split: prod.splits)
  have "length (expired 10 (events_table (db history_world))) = 2"
    by (simp add: history_world_def fresh_world_def WatchdogEvent_def)
  with prune_events_exact [OF run] have "k = 2 \<and> events_table (db w')
      = filter (\<lambda>r. 10 \<le> ev_ts (snd r)) (events_table (db history_world))"
    by (simp add: history_world_def fresh_world_def WatchdogEvent_def)
  with run show ?thesis
    by (simp add: history_world_def fresh_world_def WatchdogEvent_def)
qed


subsection \<open>Listing and summary\<close>

definition listed :: "int \<Rightarrow> string option \<Rightarrow> int \<times> event \<Rightarrow> bool" where
  "listed now profile_id r \<longleftrightarrow> now - EVENT_RETENTION_SECONDS \<le> ev_ts (snd r)
     \<and> (profile_id = None \<or> ev_profile_id (snd r) = profile_id)"

lemma events_eq:
  "events d now p limit =
     take (nat (max 1 (min limit 1000))) (rev (ordered_events (filter (listed now p) (events_table d))))"
  by (simp add: events_def listed_def [abs_def] Let_def)

lemma sorted_wrt_take: "sorted_wrt P xs \<Longrightarrow> sorted_wrt P (take n xs)"
  by (metis append_take_drop_id sorted_wrt_append)

text \<open>The event listing is the newest part of the matching history: at most
  \<open>max(1, min(limit, 1000))\<close> entries, newest first, all of the asked profile and inside the
  retention window; an event it leaves out is no newer than any it shows, and then the
  listing is full.\<close>

theorem events_newest_first:
  "length (events d now p limit) = min (nat (max 1 (min limit 1000)))
       (length (filter (listed now p) (events_table d)))
   \<and> sorted_wrt (\<lambda>a b. older_eq b a) (events d now p limit)
   \<and> set (events d now p limit) \<subseteq> {r \<in> set (events_table d). listed now p r}
   \<and> {r \<in> set (events_table d). listed now p r \<and> r \<notin> set (events d now p limit)}
       \<subseteq> {r. list_all (older_eq r) (events d now p limit)
             \<and> length (events d now p limit) = nat (max 1 (min limit 1000))}"
proof -
  define n where "n = nat (max 1 (min limit 1000))"
  define L where "L = rev (ordered_events (filter (listed now p) (events_table d)))"
  have ev: "events d now p limit = take n L"
    by (simp add: events_eq n_def L_def)
  have sL: "sorted_wrt (\<lambda>a b. older_eq b a) L"
    using ordered_events_sorted by (simp add: L_def sorted_wrt_rev)
  have setL: "set L = {r \<in> set (events_table d). listed now p r}"
    by (auto simp: L_def)
  have rest: "list_all (older_eq r) (take n L) \<and> length (take n L) = n"
    if "r \<in> set L" "r \<notin> set (take n L)" for r
  proof -
    have "r \<in> set (drop n L)"
      using that by (metis Un_iff append_take_drop_id set_append)
    moreover from this have "n < length L" by (metis drop_eq_Nil empty_iff empty_set not_le)
    moreover have "sorted_wrt (\<lambda>a b. older_eq b a) (take n L @ drop n L)" using sL by simp
    ultimately show ?thesis
      unfolding sorted_wrt_append by (auto simp: list_all_iff)
  qed
  have "length L = length (filter (listed now p) (events_table d))" by (simp add: L_def)
  then show ?thesis
    unfolding ev n_def [symmetric]
    using sorted_wrt_take [OF sL] set_take_subset [of n L] rest unfolding setL by auto
qed

lemma completed_outages_bounds:
  "(s, e) \<in> set (completed_outages now cutoff rows) \<Longrightarrow> cutoff \<le> s \<and> s < e \<and> e \<le> now"
  by (auto simp: completed_outages_def Let_def split: option.splits if_splits)

lemma current_outage_bounds:
  "(s, e) \<in> set (current_outage d now cutoff pid) \<Longrightarrow> cutoff \<le> s \<and> s < e \<and> e \<le> now"
  by (auto simp: current_outage_def Let_def split: option.splits if_splits)

lemma fold_max_le_sum:
  fixes xs :: "int list"
  assumes "\<forall>x\<in>set xs. 0 < x" and "0 \<le> a"
  shows "a \<le> fold max xs a \<and> fold max xs a \<le> a + sum_list xs"
  using assms
proof (induction xs arbitrary: a)
  case Nil
  then show ?case by simp
next
  case (Cons x xs)
  then have "max x a \<le> fold max xs (max x a) \<and> fold max xs (max x a) \<le> max x a + sum_list xs"
    by (intro Cons.IH) auto
  with Cons.prems show ?case by auto
qed

text \<open>The 24-hour summary stays inside its window: no time is negative, the longest outage
  is at most the total and the total at most a day; there is downtime exactly when there is an
  outage, and the last outage then began inside the window and before now.\<close>

theorem summary_bounds:
  "let S = summary d now pid
   in 0 \<le> longest_outage_seconds S \<and> longest_outage_seconds S \<le> total_downtime_seconds S
      \<and> total_downtime_seconds S \<le> EVENT_RETENTION_SECONDS
      \<and> (case last_outage_at S of
           None \<Rightarrow> outage_count S = 0 \<and> total_downtime_seconds S = 0
         | Some t \<Rightarrow> 0 < outage_count S \<and> 0 < total_downtime_seconds S
             \<and> now - EVENT_RETENTION_SECONDS \<le> t \<and> t < now)"
proof -
  define rows where "rows = map snd (sort_key (\<lambda>r. ev_ts (snd r))
     (filter (\<lambda>r. ev_profile_id (snd r) = Some pid \<and> now - EVENT_RETENTION_SECONDS \<le> ev_ts (snd r))
        (events_table d)))"
  define out where "out = completed_outages now (now - EVENT_RETENTION_SECONDS) rows
     @ current_outage d now (now - EVENT_RETENTION_SECONDS) pid"
  define durations where "durations = map (\<lambda>(start, e). max 0 (e - start)) out"
  have out: "now - EVENT_RETENTION_SECONDS \<le> s \<and> s < e \<and> e \<le> now" if "(s, e) \<in> set out" for s e
    using that completed_outages_bounds current_outage_bounds by (auto simp: out_def)
  then have pos: "\<forall>x\<in>set durations. 0 < x"
    by (auto simp: durations_def)
  have le: "0 \<le> fold max durations 0 \<and> fold max durations 0 \<le> sum_list durations"
    using fold_max_le_sum [OF pos, of 0] by simp
  have gt: "0 < sum_list durations" if "out \<noteq> []"
  proof -
    obtain x xs where "durations = x # xs"
      using \<open>out \<noteq> []\<close> by (cases out) (auto simp: durations_def)
    moreover from this have "0 \<le> sum_list xs" using pos by (intro sum_list_nonneg) auto
    ultimately show ?thesis using pos by simp
  qed
  have last: "now - EVENT_RETENTION_SECONDS \<le> fst (last out) \<and> fst (last out) < now" if "out \<noteq> []"
    using out [of "fst (last out)" "snd (last out)"] last_in_set [OF that] by simp
  have nil: "out = [] \<Longrightarrow> durations = []" by (simp add: durations_def)
  have S: "longest_outage_seconds (summary d now pid) = min EVENT_RETENTION_SECONDS (fold max durations 0)"
    "total_downtime_seconds (summary d now pid) = min EVENT_RETENTION_SECONDS (sum_list durations)"
    "outage_count (summary d now pid) = length out"
    "last_outage_at (summary d now pid) = (if out = [] then None else Some (fst (last out)))"
    by (simp_all add: summary_def Let_def durations_def out_def rows_def)
  show ?thesis
    unfolding Let_def S using le gt last nil by (cases "out = []") (auto simp: EVENT_RETENTION_SECONDS_def)
qed


subsection \<open>Migration\<close>

definition consistent_schema :: "database \<Rightarrow> bool" where
  "consistent_schema d \<longleftrightarrow>
     (case profile_columns d of
        None \<Rightarrow> profile_table d = []
      | Some cols \<Rightarrow> distinct cols \<and> (\<forall>kr\<in>set (profile_table d). map fst (snd kr) = cols))"

lemma fold_add_column:
  assumes "profile_columns d = Some cols" and "distinct (map fst as)"
  shows "fold add_column as d =
    (let new = filter (\<lambda>nd. fst nd \<notin> set cols) as
     in d\<lparr>profile_columns := Some (cols @ map fst new),
          profile_table := map (\<lambda>(k, row). (k, row @ new)) (profile_table d)\<rparr>)"
  using assms
proof (induction as arbitrary: d cols)
  case Nil
  then show ?case by simp
next
  case (Cons a as)
  show ?case
  proof (cases "fst a \<in> set cols")
    case True
    then have "add_column a d = d" using Cons.prems by (simp add: add_column_def)
    then show ?thesis using Cons True by simp
  next
    case False
    let ?d = "add_column a d"
    have d: "?d = d\<lparr>profile_columns := Some (cols @ [fst a]),
        profile_table := map (\<lambda>(k, row). (k, row @ [a])) (profile_table d)\<rparr>"
      using False Cons.prems by (simp add: add_column_def)
    have "filter (\<lambda>nd. fst nd \<notin> set (cols @ [fst a])) as = filter (\<lambda>nd. fst nd \<notin> set cols) as"
      using Cons.prems(2) by (intro filter_cong) (auto, metis fst_conv image_eqI)
    with Cons.IH [of ?d "cols @ [fst a]"] Cons.prems False show ?thesis
      by (simp add: d Let_def case_prod_unfold comp_def)
  qed
qed

lemma distinct_additions: "distinct (map fst additions)"
  by (simp add: additions_def)

lemma map_of_extended_row:
  assumes "map fst row = cols" and "new = filter (\<lambda>nd. fst nd \<notin> set cols) additions"
  shows "map_of (row @ new) k = (if k \<in> set cols then map_of row k else map_of additions k)"
proof -
  have "map_of (filter (\<lambda>nd. fst nd \<notin> set cols) as) k = (if k \<in> set cols then None else map_of as k)" for as
    by (induction as) auto
  moreover have "map_of row k = None \<longleftrightarrow> k \<notin> set cols"
    by (simp add: assms(1) [symmetric] map_of_eq_None_iff)
  ultimately show ?thesis
    by (auto simp: assms(2) map_add_def split: option.splits)
qed

text \<open>A database that already has every column and the version row is left as it is.\<close>

definition current_schema :: "database \<Rightarrow> bool" where
  "current_schema d \<longleftrightarrow>
     (case profile_columns d of None \<Rightarrow> False | Some cols \<Rightarrow> fst ` set additions \<subseteq> set cols)
     \<and> SCHEMA_VERSION \<in> set (map fst (migrations d))
     \<and> \<not> SCHEMA_VERSION < Max (insert 0 (set (map fst (migrations d))))"

lemma migrate_database_current: "current_schema d \<Longrightarrow> migrate_database now d = Inr d"
proof -
  assume c: "current_schema d"
  then obtain cols where cols: "profile_columns d = Some cols" "fst ` set additions \<subseteq> set cols"
    by (auto simp: current_schema_def split: option.splits)
  then have "filter (\<lambda>nd. fst nd \<notin> set cols) additions = []" by (auto simp: filter_empty_conv)
  then have "fold add_column additions d = d"
    using fold_add_column [OF cols(1) distinct_additions]
    by (simp add: Let_def case_prod_unfold cols(1) [symmetric])
  with c cols(1) show ?thesis by (simp add: current_schema_def migrate_database_def Let_def)
qed

text \<open>What a migration that is not refused does to the columns, the rows and the versions.\<close>

lemma migrate_database_result:
  assumes "migrate_database now d = Inr d'" and "consistent_schema d"
  obtains cols new where "new = filter (\<lambda>nd. fst nd \<notin> set cols) additions" and "distinct cols"
    and "\<forall>kr\<in>set (profile_table d). map fst (snd kr) = cols"
    and "profile_columns d' = Some (cols @ map fst new)"
    and "profile_table d' = map (\<lambda>(k, row). (k, row @ new)) (profile_table d)"
    and "events_table d' = events_table d"
    and "set (map fst (migrations d')) = insert SCHEMA_VERSION (set (map fst (migrations d)))"
    and "\<not> SCHEMA_VERSION < Max (insert 0 (set (map fst (migrations d))))"
proof -
  define d1 where "d1 = (case profile_columns d of
      None \<Rightarrow> d\<lparr>profile_columns := Some PROFILE_COLUMNS, profile_table := []\<rparr> | Some _ \<Rightarrow> d)"
  obtain cols where cols: "profile_columns d1 = Some cols" "distinct cols"
      "\<forall>kr\<in>set (profile_table d1). map fst (snd kr) = cols"
    and d1: "profile_table d1 = profile_table d" "events_table d1 = events_table d"
      "migrations d1 = migrations d"
    using assms(2)
    by (cases "profile_columns d")
       (auto simp: d1_def consistent_schema_def PROFILE_COLUMNS_def PROFILE_COLUMNS_V1_def additions_def)
  define new where "new = filter (\<lambda>nd. fst nd \<notin> set cols) additions"
  define d2 where "d2 = fold add_column additions d1"
  have d2: "d2 = d1\<lparr>profile_columns := Some (cols @ map fst new),
      profile_table := map (\<lambda>(k, row). (k, row @ new)) (profile_table d)\<rparr>"
    using fold_add_column [OF cols(1) distinct_additions]
    by (simp add: d2_def new_def Let_def d1)
  have ok: "\<not> SCHEMA_VERSION < Max (insert 0 (set (map fst (migrations d))))"
    and d': "d' = (if SCHEMA_VERSION \<in> set (map fst (migrations d2)) then d2
        else d2\<lparr>migrations := migrations d2 @ [(SCHEMA_VERSION, now)]\<rparr>)"
    using assms(1) by (simp_all add: migrate_database_def Let_def d2_def d1_def split: if_splits)
  show thesis
    by (rule that [OF new_def cols(2)]) (use cols(3) d1 ok in \<open>auto simp: d' d2\<close>)
qed

text \<open>C9: the schema migration loses nothing and is idempotent. A database of a newer schema is
  refused; otherwise the columns added since version 1 exist afterwards, every value of every
  row is kept, an added column holds its declared default, the events are untouched, and a
  second migration changes nothing.\<close>

theorem migrate_database_preserves:
  assumes "migrate_database now d = Inr d'" and "consistent_schema d"
  shows "consistent_schema d' \<and> migrate_database later d' = Inr d'
    \<and> events_table d' = events_table d
    \<and> map fst (profile_table d') = map fst (profile_table d)
    \<and> (\<forall>pid row. map_of (profile_table d) pid = Some row \<longrightarrow>
         (\<exists>row'. map_of (profile_table d') pid = Some row'
            \<and> (\<forall>k. map_of row' k = (if k \<in> set (map fst row) then map_of row k else map_of additions k))))"
proof -
  obtain cols new where new: "new = filter (\<lambda>nd. fst nd \<notin> set cols) additions" and dist: "distinct cols"
    and rows: "\<forall>kr\<in>set (profile_table d). map fst (snd kr) = cols"
    and cols': "profile_columns d' = Some (cols @ map fst new)"
    and tab': "profile_table d' = map (\<lambda>(k, row). (k, row @ new)) (profile_table d)"
    and ev': "events_table d' = events_table d"
    and mig: "set (map fst (migrations d')) = insert SCHEMA_VERSION (set (map fst (migrations d)))"
    and ok: "\<not> SCHEMA_VERSION < Max (insert 0 (set (map fst (migrations d))))"
    by (rule migrate_database_result [OF assms])
  have "\<not> SCHEMA_VERSION < Max (insert 0 (set (map fst (migrations d'))))"
    using ok unfolding mig by (auto simp: not_less SCHEMA_VERSION_def)
  moreover have "fst ` set additions \<subseteq> set (cols @ map fst new)" by (auto simp: new)
  ultimately have "migrate_database later d' = Inr d'"
    using cols' mig
    by (intro migrate_database_current) (simp add: current_schema_def del: set_map)
  moreover have "consistent_schema d'"
    using dist rows distinct_additions
    by (auto simp: consistent_schema_def cols' tab' new List.distinct_map_filter)
  moreover have "\<exists>row'. map_of (profile_table d') pid = Some row' \<and>
      (\<forall>k. map_of row' k = (if k \<in> set (map fst row) then map_of row k else map_of additions k))"
    if "map_of (profile_table d) pid = Some row" for pid row
  proof -
    have "map fst row = cols"
      using rows map_of_SomeD [OF that] by auto
    then show ?thesis
      using that map_of_extended_row [of row cols new] by (simp add: tab' map_of_map new)
  qed
  ultimately show ?thesis
    by (auto simp: tab' ev')
qed


text \<open>A database as version 1 left it: one profile, without the columns added since.\<close>

definition version1_database :: database where
  "version1_database = empty_database\<lparr>migrations := [(1, 10)],
     profile_columns := Some (PROFILE_COLUMNS_V1 @ [''updated_at'']),
     profile_table := [(''iran-1'',
       filter (\<lambda>c. fst c \<in> set (PROFILE_COLUMNS_V1 @ [''updated_at'']))
         (row_of_state (ProfileState ''iran-1'' ''svc'' ''ip'') 5))]\<rparr>"

theorem migrate_database_preserves_witness:
  "\<exists>d' row'. migrate_database 99 version1_database = Inr d'
     \<and> map_of (profile_table d') ''iran-1'' = Some row' \<and> map_of row' ''service_name'' = Some (TEXT ''svc'')
     \<and> map_of row' ''check_status'' = Some (CHECK UnknownCheck) \<and> migrate_database 100 d' = Inr d'"
proof -
  obtain d' where d': "migrate_database 99 version1_database = Inr d'"
    by (simp add: migrate_database_def version1_database_def SCHEMA_VERSION_def Let_def)
  define row where "row = filter (\<lambda>c. fst c \<in> set (PROFILE_COLUMNS_V1 @ [''updated_at'']))
     (row_of_state (ProfileState ''iran-1'' ''svc'' ''ip'') 5)"
  have row: "map_of row ''service_name'' = Some (TEXT ''svc'')" "''service_name'' \<in> set (map fst row)"
    "''check_status'' \<notin> set (map fst row)"
    by (simp_all add: row_def row_of_state_def ProfileState_def PROFILE_COLUMNS_V1_def)
  have "consistent_schema version1_database"
    by (simp add: version1_database_def consistent_schema_def row_of_state_def ProfileState_def
        PROFILE_COLUMNS_V1_def)
  moreover have "map_of (profile_table version1_database) ''iran-1'' = Some row"
    by (simp add: version1_database_def row_def)
  ultimately obtain row' where "map_of (profile_table d') ''iran-1'' = Some row'"
      "\<forall>k. map_of row' k = (if k \<in> set (map fst row) then map_of row k else map_of additions k)"
      "migrate_database 100 d' = Inr d'"
    using migrate_database_preserves [OF d'] by blast
  with d' row show ?thesis
    by (auto simp: additions_def)
qed

end
