(* ===== verification/Watchdog_Commands.thy ===== *)
theory Watchdog_Commands
  imports Watchdog_Storage "HOL-Library.Multiset"
begin

text \<open>
  \<open>src/gost_watchdog/commands.py\<close>: the external commands. \<open>subprocess.run\<close> is the environment's
  \<open>runner\<close>: given the argument vector it ends with a return code or raises. Every command run is
  logged in \<open>effects\<close> with the database at that moment, which is what the ordering properties of
  the engine speak about.

  The thread pool of \<open>run_ping_checks\<close> delivers its results in an order of its own: \<open>order\<close>
  stands for it, any rearrangement of the submitted probes; the probes touch no common state of
  the program, so they are run one after the other in that order.
\<close>

section \<open>Commands\<close>

definition run_command :: "'w env \<Rightarrow> string list \<Rightarrow> (('w, 'z) world_scheme, wd_exn, run_outcome) act" where
  "run_command E argv = (\<lambda>w.
     case runner E argv (outside w) of (outcome, x) \<Rightarrow>
       (Inr outcome, w\<lparr>outside := x, effects := effects w @ [Ran argv (db w)]\<rparr>))"

definition ping_argv :: "string \<Rightarrow> int \<Rightarrow> string list" where
  "ping_argv destination timeout_seconds =
     [''ping'', ''-n'', ''-c'', ''1'', ''-W'', str_int timeout_seconds, ''--'', destination]"

definition SubprocessPingExecutor ::
  "'w env \<Rightarrow> string \<Rightarrow> int \<Rightarrow> (('w, 'z) world_scheme, wd_exn, probe_result) act" where
  "SubprocessPingExecutor E destination timeout_seconds =
     seqE (liftR (validate_kharej_ip destination))
       (bindE (run_command E (ping_argv destination timeout_seconds)) (\<lambda>outcome.
          case outcome of
            Raised FileNotFoundError \<Rightarrow> liftR (ProbeResult Probe_error (Some Ping_binary_missing))
          | Raised PermissionError \<Rightarrow> liftR (ProbeResult Probe_error (Some Ping_permission_denied))
          | Raised TimeoutExpired \<Rightarrow> liftR (ProbeResult Probe_error (Some Ping_execution_timeout))
          | Raised _ \<Rightarrow> liftR (ProbeResult Probe_error (Some Ping_execution_failed))
          | Completed code \<Rightarrow>
              if code = 0 then liftR (ProbeResult Success None)
              else if code = 1 then liftR (ProbeResult Unreachable None)
              else liftR (ProbeResult Probe_error (Some Ping_execution_failed))))"


section \<open>Probing the due profiles\<close>

text \<open>What an executor may return: a result, a bool, or any other object.\<close>

datatype executor_value = Probe probe_result | Flag bool | Other_object

type_synonym probe_key = "string \<times> int"

fun normalize_probe_result :: "executor_value \<Rightarrow> (wd_exn, probe_result) result" where
  "normalize_probe_result (Probe r) = Inr r"
| "normalize_probe_result (Flag b) = ProbeResult (if b then Success else Unreachable) None"
| "normalize_probe_result Other_object = ProbeResult Probe_error (Some Ping_execution_failed)"

definition probe_key_of :: "managed_profile \<Rightarrow> probe_key" where
  "probe_key_of p = (mp_kharej_ip p, ping_timeout_seconds (config p))"

definition active_profiles :: "managed_profile list \<Rightarrow> managed_profile list" where
  "active_profiles ps = filter (\<lambda>p. mode (config p) \<noteq> Disabled) ps"

definition by_probe :: "managed_profile list \<Rightarrow> (probe_key, managed_profile list) dict" where
  "by_probe active =
     fold (\<lambda>p d. AList.update (probe_key_of p) (dict_get d (probe_key_of p) [] @ [p]) d) active []"

definition ping_workers :: "nat \<Rightarrow> managed_profile list \<Rightarrow> nat" where
  "ping_workers max_workers active =
     max 1 (min max_workers (min MAX_PING_WORKERS (length (by_probe active))))"

fun probe_keys ::
  "(string \<Rightarrow> int \<Rightarrow> ('s, wd_exn, executor_value) act) \<Rightarrow> probe_key list \<Rightarrow> (probe_key, probe_result) dict
     \<Rightarrow> ('s, wd_exn, (probe_key, probe_result) dict) act" where
  "probe_keys executor [] results = ret results"
| "probe_keys executor ((destination, timeout) # keys) results =
     bindE
       (handle
         (bindE (executor destination timeout) (\<lambda>v. liftR (normalize_probe_result v)))
         (\<lambda>_. liftR (ProbeResult Probe_error (Some Ping_execution_failed))))
       (\<lambda>r. probe_keys executor keys (AList.update (destination, timeout) r results))"

fun assign_results ::
  "(probe_key, probe_result) dict \<Rightarrow> managed_profile list \<Rightarrow> (string, probe_result) dict
     \<Rightarrow> (wd_exn, (string, probe_result) dict) result" where
  "assign_results results [] out = Inr out"
| "assign_results results (p # ps) out =
     (case map_of results (probe_key_of p) of
        None \<Rightarrow> Inl KeyError
      | Some r \<Rightarrow> assign_results results ps (AList.update (mp_profile_id p) r out))"

definition run_ping_checks ::
  "(probe_key list \<Rightarrow> probe_key list) \<Rightarrow> (string \<Rightarrow> int \<Rightarrow> ('s, wd_exn, executor_value) act)
     \<Rightarrow> managed_profile list \<Rightarrow> ('s, wd_exn, (string, probe_result) dict) act" where
  "run_ping_checks order executor profiles =
     (let active = active_profiles profiles; keys = map fst (by_probe active)
      in if keys = [] then ret []
         else bindE (probe_keys executor (order keys) []) (\<lambda>results.
                liftR (assign_results results active [])))"


section \<open>The service manager\<close>

definition systemctl :: "'w env \<Rightarrow> string list \<Rightarrow> (('w, 'z) world_scheme, wd_exn, int) act" where
  "systemctl E arguments =
     bindE (run_command E (''systemctl'' # arguments)) (\<lambda>outcome.
       case outcome of
         Completed returncode \<Rightarrow> ret returncode
       | Raised _ \<Rightarrow> raise (CommandError Systemd_command_unavailable))"

definition is_active :: "'w env \<Rightarrow> string \<Rightarrow> (('w, 'z) world_scheme, wd_exn, bool) act" where
  "is_active E service_name =
     seqE (liftR (validate_service_name service_name))
       (bindE (systemctl E [''is-active'', ''--quiet'', service_name]) (\<lambda>returncode.
          if returncode = 0 \<or> returncode = 3 then ret (returncode = 0)
          else raise (CommandError State_unavailable)))"

definition stop_service :: "'w env \<Rightarrow> string \<Rightarrow> (('w, 'z) world_scheme, wd_exn, bool) act" where
  "stop_service E service_name =
     seqE (liftR (validate_service_name service_name))
       (bindE (systemctl E [''stop'', service_name]) (\<lambda>returncode.
          if returncode = 0 then bindE (is_active E service_name) (\<lambda>active. ret (\<not> active))
          else ret False))"

definition start_service :: "'w env \<Rightarrow> string \<Rightarrow> (('w, 'z) world_scheme, wd_exn, bool) act" where
  "start_service E service_name =
     seqE (liftR (validate_service_name service_name))
       (bindE (systemctl E [''start'', service_name]) (\<lambda>returncode.
          if returncode = 0 then is_active E service_name else ret False))"


section \<open>Rules for the commands\<close>

abbreviation ACTIVE :: "string \<Rightarrow> string list" where
  "ACTIVE svc \<equiv> [''systemctl'', ''is-active'', ''--quiet'', svc]"
abbreviation STOP :: "string \<Rightarrow> string list" where
  "STOP svc \<equiv> [''systemctl'', ''stop'', svc]"
abbreviation START :: "string \<Rightarrow> string list" where
  "START svc \<equiv> [''systemctl'', ''start'', svc]"

lemma wp_run_command [wp_simps]:
  "wp (run_command E argv) Q X w =
     (case runner E argv (outside w) of
        (outcome, x) \<Rightarrow> Q outcome (w\<lparr>outside := x, effects := effects w @ [Ran argv (db w)]\<rparr>))"
  by (simp add: wp_def run_command_def split: prod.splits)

lemma systemctlI:
  assumes "\<And>x code. runner E (''systemctl'' # args) (outside w) = (Completed code, x) \<Longrightarrow>
      Q code (w\<lparr>outside := x, effects := effects w @ [Ran (''systemctl'' # args) (db w)]\<rparr>)"
    and "\<And>x. X (CommandError Systemd_command_unavailable)
      (w\<lparr>outside := x, effects := effects w @ [Ran (''systemctl'' # args) (db w)]\<rparr>)"
  shows "wp (systemctl E args) Q X w"
  using assms by (auto simp: systemctl_def wp_simps split: prod.splits run_outcome.splits)

lemma is_activeI:
  assumes "\<And>e. X (ProfileError e) w"
    and "\<And>x b. Q b (w\<lparr>outside := x, effects := effects w @ [Ran (ACTIVE svc) (db w)]\<rparr>)"
    and "\<And>x e. X (CommandError e) (w\<lparr>outside := x, effects := effects w @ [Ran (ACTIVE svc) (db w)]\<rparr>)"
  shows "wp (is_active E svc) Q X w"
  unfolding is_active_def
  by (auto simp: wp_simps validate_service_name_def intro!: systemctlI assms split: sum.splits if_splits)

text \<open>A stop or start runs its command and then at most one state query, the database being
  the same throughout.\<close>

lemma stop_serviceI:
  assumes "\<And>e. X (ProfileError e) w"
    and "\<And>x es b. set es \<subseteq> {Ran (STOP svc) (db w), Ran (ACTIVE svc) (db w)} \<Longrightarrow>
      Q b (w\<lparr>outside := x, effects := effects w @ es\<rparr>)"
    and "\<And>x es e. set es \<subseteq> {Ran (STOP svc) (db w), Ran (ACTIVE svc) (db w)} \<Longrightarrow>
      X (CommandError e) (w\<lparr>outside := x, effects := effects w @ es\<rparr>)"
  shows "wp (stop_service E svc) Q X w"
proof (cases "validate_service_name svc")
  case (Inl e)
  then show ?thesis
    using assms(1) by (auto simp: stop_service_def wp_simps validate_service_name_def split: if_splits)
next
  case (Inr u)
  then have "validate_service_name svc = Inr svc" by (simp add: validate_service_name_def split: if_splits)
  then show ?thesis
    unfolding stop_service_def is_active_def
    by (auto simp: wp_simps intro!: systemctlI assms(2,3))
qed

lemma start_serviceI:
  assumes "\<And>e. X (ProfileError e) w"
    and "\<And>x es b. set es \<subseteq> {Ran (START svc) (db w), Ran (ACTIVE svc) (db w)} \<Longrightarrow>
      Q b (w\<lparr>outside := x, effects := effects w @ es\<rparr>)"
    and "\<And>x es e. set es \<subseteq> {Ran (START svc) (db w), Ran (ACTIVE svc) (db w)} \<Longrightarrow>
      X (CommandError e) (w\<lparr>outside := x, effects := effects w @ es\<rparr>)"
  shows "wp (start_service E svc) Q X w"
proof (cases "validate_service_name svc")
  case (Inl e)
  then show ?thesis
    using assms(1) by (auto simp: start_service_def wp_simps validate_service_name_def split: if_splits)
next
  case (Inr u)
  then have "validate_service_name svc = Inr svc" by (simp add: validate_service_name_def split: if_splits)
  then show ?thesis
    unfolding start_service_def is_active_def
    by (auto simp: wp_simps intro!: systemctlI assms(2,3))
qed


section \<open>Properties of the commands\<close>

text \<open>A service command touches exactly the named managed unit, and a stop counts as done
  only when it was observed: for a name that is no managed unit nothing is run; otherwise
  \<open>stop\<close> returns true only if the stop command ended with code 0 and the query that followed
  found the unit inactive (code 3), and \<open>start\<close> only if its command ended with code 0 and the
  query found the unit active (code 0). No other command is run.\<close>

theorem service_action_is_observed:
  "(case stop_service E svc w of (r, w') \<Rightarrow>
      (UNIT_RE svc = None \<and> w' = w \<and> r = Inl (ProfileError Bad_service_name))
      \<or> (UNIT_RE svc \<noteq> None \<and> db w' = db w
         \<and> (\<exists>es. effects w' = effects w @ es
              \<and> set es \<subseteq> {Ran (STOP svc) (db w), Ran (ACTIVE svc) (db w)}
              \<and> (if r = Inr True
                 then es = [Ran (STOP svc) (db w), Ran (ACTIVE svc) (db w)]
                   \<and> fst (runner E (STOP svc) (outside w)) = Completed 0
                   \<and> runner E (ACTIVE svc) (snd (runner E (STOP svc) (outside w))) = (Completed 3, outside w')
                 else True))))
   \<and> (case start_service E svc w of (r, w') \<Rightarrow>
      (UNIT_RE svc = None \<and> w' = w \<and> r = Inl (ProfileError Bad_service_name))
      \<or> (UNIT_RE svc \<noteq> None \<and> db w' = db w
         \<and> (\<exists>es. effects w' = effects w @ es
              \<and> set es \<subseteq> {Ran (START svc) (db w), Ran (ACTIVE svc) (db w)}
              \<and> (if r = Inr True
                 then es = [Ran (START svc) (db w), Ran (ACTIVE svc) (db w)]
                   \<and> fst (runner E (START svc) (outside w)) = Completed 0
                   \<and> runner E (ACTIVE svc) (snd (runner E (START svc) (outside w))) = (Completed 0, outside w')
                 else True))))"
  by (auto simp: stop_service_def start_service_def is_active_def systemctl_def run_command_def
      validate_service_name_def seqE_def bindE_def liftR_def ret_def raise_def
      split: prod.splits run_outcome.splits sum.splits if_splits)

text \<open>One ping decides the probe result: for an unsafe destination nothing is run and the
  call raises; otherwise exactly one command is run, with the destination after \<open>--\<close>, and the
  result is well formed: success for return code 0, unreachable for 1, and a probe error with
  its category for every other code and every failure to run the program.\<close>

theorem ping_executor_classifies:
  "case SubprocessPingExecutor E destination timeout w of (r, w') \<Rightarrow>
     (if safe_host destination
      then effects w' = effects w @ [Ran (ping_argv destination timeout) (db w)] \<and> db w' = db w
        \<and> last (ping_argv destination timeout) = destination
        \<and> (\<exists>p. r = Inr p \<and> valid_probe p
             \<and> (status p = Success \<longleftrightarrow>
                  fst (runner E (ping_argv destination timeout) (outside w)) = Completed 0)
             \<and> (status p = Unreachable \<longleftrightarrow>
                  fst (runner E (ping_argv destination timeout) (outside w)) = Completed 1))
      else w' = w \<and> r = Inl (ProfileError Bad_kharej_ip))"
proof (cases "safe_host destination")
  case True
  then have "validate_kharej_ip destination = Inr destination"
    by (simp add: validate_kharej_ip_Inr)
  with True show ?thesis
    by (auto simp: SubprocessPingExecutor_def run_command_def seqE_def bindE_def liftR_def
        ProbeResult_def PROBE_STATUSES_def valid_probe_def ping_argv_def
        split: prod.splits run_outcome.splits run_exn.splits if_splits)
next
  case False
  then have "validate_kharej_ip destination = Inl (ProfileError Bad_kharej_ip)"
    using validate_kharej_ip_Inr [of destination destination]
    by (auto simp: validate_kharej_ip_def split: if_splits)
  with False show ?thesis
    by (simp add: SubprocessPingExecutor_def seqE_def bindE_def liftR_def)
qed


lemma by_probe_keys:
  "distinct (map fst (by_probe active)) \<and> set (map fst (by_probe active)) = probe_key_of ` set active"
proof -
  have "distinct (map fst d) \<Longrightarrow>
      distinct (map fst (fold (\<lambda>p d. AList.update (probe_key_of p) (dict_get d (probe_key_of p) [] @ [p]) d) ps d))
      \<and> set (map fst (fold (\<lambda>p d. AList.update (probe_key_of p) (dict_get d (probe_key_of p) [] @ [p]) d) ps d))
        = set (map fst d) \<union> probe_key_of ` set ps" for ps d
    by (induction ps arbitrary: d) (auto simp: distinct_update update_keys simp del: set_map)
  from this [of "[]" active] show ?thesis
    by (simp add: by_probe_def)
qed

text \<open>The verdict on one finished probe: the normalized value, or a probe error for an exception.\<close>

definition verdict :: "(wd_exn, executor_value) result \<Rightarrow> probe_result" where
  "verdict v = (case bindR v normalize_probe_result of
      Inl _ \<Rightarrow> \<lparr>status = Probe_error, pr_error_category = Some Ping_execution_failed\<rparr>
    | Inr r \<Rightarrow> r)"

lemma probe_error_result [simp]:
  "ProbeResult Probe_error (Some c) = Inr \<lparr>status = Probe_error, pr_error_category = Some c\<rparr>"
  by (simp add: ProbeResult_def PROBE_STATUSES_def)

lemma probe_keys_Cons:
  "probe_keys executor (k # ks) results s =
     (case executor (fst k) (snd k) s of (v, s') \<Rightarrow>
        probe_keys executor ks (AList.update k (verdict v) results) s')"
  by (cases k) (auto simp: bindE_def handle_def liftR_def verdict_def split: sum.splits prod.splits)

lemma probe_keys_results:
  assumes "\<And>d t s. fst (executor d t s) = f (d, t)"
  shows "\<exists>out. fst (probe_keys executor ks results s) = Inr out
    \<and> map_of out = (\<lambda>k. if k \<in> set ks then Some (verdict (f k)) else map_of results k)"
proof (induction ks arbitrary: results s)
  case Nil
  then show ?case by (simp add: ret_def)
next
  case (Cons k ks)
  obtain s' where "executor (fst k) (snd k) s = (f k, s')"
    using assms [of "fst k" "snd k" s] by (metis prod.collapse)
  then show ?case
    using Cons.IH [of "AList.update k (verdict (f k)) results" s']
    by (auto simp: probe_keys_Cons update_conv' fun_eq_iff simp del: probe_keys.simps)
qed

lemma assign_results_Inr:
  assumes "\<forall>p\<in>set ps. map_of results (probe_key_of p) = Some (g (probe_key_of p))"
    and "distinct (map mp_profile_id ps)"
  shows "\<exists>out'. assign_results results ps out = Inr out' \<and> map_of out' =
    map_of out ++ map_of (map (\<lambda>p. (mp_profile_id p, g (probe_key_of p))) ps)"
  using assms
proof (induction ps arbitrary: out)
  case Nil
  then show ?case by simp
next
  case (Cons p ps)
  have "mp_profile_id p \<notin> dom (map_of (map (\<lambda>p. (mp_profile_id p, g (probe_key_of p))) ps))"
    using Cons.prems(2) by (auto simp: dom_map_of_conv_image_fst)
  from map_add_upd_left [OF this, of "map_of out" "g (probe_key_of p)"]
    Cons.IH [of "AList.update (mp_profile_id p) (g (probe_key_of p)) out"] Cons.prems
  show ?case
    by (auto simp: update_conv simp del: fun_upd_apply)
qed

text \<open>C7: every checked profile gets the result of its own probe, whatever order the pool
  finishes in: for probes whose results depend on destination and timeout only, the returned
  dict maps exactly the identifiers of the profiles that are not disabled, each to the verdict
  on the probe of its address and timeout; an executor that raises counts as a probe error.\<close>

theorem run_ping_checks_assigns:
  assumes "\<And>ks. mset (order ks) = mset ks"
    and "\<And>d t s. fst (executor d t s) = f (d, t)"
    and "distinct (map mp_profile_id profiles)"
  shows "\<exists>out. fst (run_ping_checks order executor profiles s) = Inr out
    \<and> map_of out =
        map_of (map (\<lambda>p. (mp_profile_id p, verdict (f (probe_key_of p)))) (active_profiles profiles))"
proof -
  let ?active = "active_profiles profiles"
  let ?keys = "map fst (by_probe ?active)"
  have keys: "set ?keys = probe_key_of ` set ?active" using by_probe_keys by blast
  have ord: "set (order ?keys) = set ?keys" using assms(1) by (metis set_mset_mset)
  obtain results where res: "fst (probe_keys executor (order ?keys) [] s) = Inr results"
      "map_of results = (\<lambda>k. if k \<in> set (order ?keys) then Some (verdict (f k)) else map_of [] k)"
    using probe_keys_results [where executor = executor, OF assms(2)] by blast
  have "distinct (map mp_profile_id ?active)"
    using assms(3) by (simp add: active_profiles_def List.distinct_map_filter)
  then have "\<exists>out. assign_results results ?active [] = Inr out \<and> map_of out = map_of []
      ++ map_of (map (\<lambda>p. (mp_profile_id p, verdict (f (probe_key_of p)))) ?active)"
    using res(2) ord keys by (intro assign_results_Inr) auto
  moreover have "?active = []" if "?keys = []" using keys that by simp
  ultimately show ?thesis
    using res(1) by (auto simp: run_ping_checks_def Let_def ret_def bindE_def liftR_def split: prod.splits)
qed

definition iran :: "nat \<Rightarrow> mode \<Rightarrow> managed_profile" where
  "iran n m = (let num = str_nat n in
     \<lparr>mp_profile_id = ''iran-'' @ num, mp_service_name = ''gost-iran-'' @ num @ ''.service'',
      mp_kharej_ip = ''10.0.0.1'', env_path = '''', unit_path = '''', config_path = '''',
      config = \<lparr>mode = m, check_interval_seconds = 2, ping_timeout_seconds = 1,
        failure_threshold = 3, success_threshold = 2, recovery_hold_seconds = 5,
        recovery_jitter_max_seconds = 4\<rparr>\<rparr>)"

lemma str_nat_samples: "str_nat 1 = ''1''" "str_nat 2 = ''2''" "str_nat 3 = ''3''"
  by (simp_all add: str_nat.simps digit_char_def char_of_def bit_0)

theorem run_ping_checks_assigns_witness:
  "\<exists>out. fst (run_ping_checks rev (\<lambda>d t. ret (Flag (d = ''10.0.0.1'')))
       [iran 1 Auto, iran 2 Disabled, iran 3 Monitor] ()) = Inr out
     \<and> map_of out ''iran-3'' = Some \<lparr>status = Success, pr_error_category = None\<rparr>
     \<and> map_of out ''iran-2'' = None"
proof -
  obtain out where run: "fst (run_ping_checks rev (\<lambda>d t. ret (Flag (d = ''10.0.0.1'')))
      [iran 1 Auto, iran 2 Disabled, iran 3 Monitor] ()) = Inr out"
    and out: "map_of out = map_of (map (\<lambda>p. (mp_profile_id p,
          verdict ((\<lambda>k. Inr (Flag (fst k = ''10.0.0.1''))) (probe_key_of p))))
        (active_profiles [iran 1 Auto, iran 2 Disabled, iran 3 Monitor]))"
    using run_ping_checks_assigns [of rev "\<lambda>d t. ret (Flag (d = ''10.0.0.1''))"
        "\<lambda>k. Inr (Flag (fst k = ''10.0.0.1''))" "[iran 1 Auto, iran 2 Disabled, iran 3 Monitor]" "()"]
    by (auto simp: ret_def iran_def str_nat_samples [simplified] Let_def)
  have "map_of out ''iran-3'' = Some \<lparr>status = Success, pr_error_category = None\<rparr>
      \<and> map_of out ''iran-2'' = None"
    unfolding out
    by (simp add: iran_def active_profiles_def probe_key_of_def verdict_def ProbeResult_def
        PROBE_STATUSES_def str_nat_samples [simplified] Let_def)
  with run show ?thesis by blast
qed

lemma ping_run:
  "safe_host d \<Longrightarrow> \<exists>v x. SubprocessPingExecutor E d t w
     = (v, w\<lparr>outside := x, effects := effects w @ [Ran (ping_argv d t) (db w)]\<rparr>)"
  by (auto simp: SubprocessPingExecutor_def run_command_def seqE_def bindE_def liftR_def
      validate_kharej_ip_Inr [THEN iffD2] split: prod.splits run_outcome.splits run_exn.splits)

definition ping_executor ::
  "'w env \<Rightarrow> string \<Rightarrow> int \<Rightarrow> (('w, 'z) world_scheme, wd_exn, executor_value) act" where
  "ping_executor E d t = bindE (SubprocessPingExecutor E d t) (\<lambda>r. ret (Probe r))"

lemma ping_executor_run:
  "safe_host d \<Longrightarrow> \<exists>v x. ping_executor E d t w
     = (v, w\<lparr>outside := x, effects := effects w @ [Ran (ping_argv d t) (db w)]\<rparr>)"
  using ping_run [of d E t w] by (auto simp: ping_executor_def bindE_def ret_def split: sum.splits)

lemma probe_keys_effects:
  assumes "\<forall>k\<in>set ks. safe_host (fst k)"
  shows "db (snd (probe_keys (ping_executor E) ks results w)) = db w
    \<and> effects (snd (probe_keys (ping_executor E) ks results w))
      = effects w @ map (\<lambda>k. Ran (ping_argv (fst k) (snd k)) (db w)) ks"
  using assms
proof (induction ks arbitrary: results w)
  case Nil
  then show ?case by (simp add: ret_def)
next
  case (Cons k ks)
  obtain v x where "ping_executor E (fst k) (snd k) w
      = (v, w\<lparr>outside := x, effects := effects w @ [Ran (ping_argv (fst k) (snd k)) (db w)]\<rparr>)"
    using ping_executor_run Cons.prems by (metis list.set_intros(1))
  with Cons show ?case
    by (simp add: probe_keys_Cons del: probe_keys.simps)
qed

text \<open>Profiles that share an upstream share its ping: a check of any number of managed
  profiles runs exactly one ping per distinct pair of address and timeout among those that
  are not disabled, no other command, and leaves the database alone.\<close>

theorem run_ping_checks_probes_once:
  assumes "\<And>ks. mset (order ks) = mset ks" and "\<forall>p\<in>set profiles. safe_host (mp_kharej_ip p)"
  shows "\<exists>keys. distinct keys \<and> set keys = probe_key_of ` set (active_profiles profiles)
    \<and> effects (snd (run_ping_checks order (ping_executor E) profiles w))
        = effects w @ map (\<lambda>k. Ran (ping_argv (fst k) (snd k)) (db w)) keys
    \<and> db (snd (run_ping_checks order (ping_executor E) profiles w)) = db w"
proof -
  let ?keys = "map fst (by_probe (active_profiles profiles))"
  have keys: "distinct ?keys" "set ?keys = probe_key_of ` set (active_profiles profiles)"
    using by_probe_keys by blast+
  have ord: "distinct (order ?keys)" "set (order ?keys) = set ?keys"
    using assms(1) keys(1) by (metis mset_eq_imp_distinct_iff, metis set_mset_mset)
  have "\<forall>k\<in>set (order ?keys). safe_host (fst k)"
    using assms(2) unfolding ord keys by (auto simp: probe_key_of_def active_profiles_def)
  note run = probe_keys_effects [OF this, of E "[]" w]
  show ?thesis
  proof (cases "?keys = []")
    case True
    then have "run_ping_checks order (ping_executor E) profiles w = (Inr [], w)"
      by (simp add: run_ping_checks_def Let_def ret_def)
    then show ?thesis
      using keys True by (intro exI [of _ "[]"]) auto
  next
    case False
    then show ?thesis
      using run keys ord
      by (intro exI [of _ "order ?keys"])
         (auto simp: run_ping_checks_def Let_def bindE_def liftR_def split: prod.splits sum.splits)
  qed
qed

theorem run_ping_checks_probes_once_witness:
  "\<exists>keys. set keys = {(''10.0.0.1'', 1)}
     \<and> effects (snd (run_ping_checks rev (ping_executor quiet_env) [iran 1 Auto, iran 2 Auto] fresh_world))
        = map (\<lambda>k. Ran (ping_argv (fst k) (snd k)) empty_database) keys \<and> length keys = 1"
proof -
  have "\<forall>p\<in>set [iran 1 Auto, iran 2 Auto]. safe_host (mp_kharej_ip p)"
    by (simp add: iran_def Let_def safe_host_def SAFE_HOST_RE_def is_alnum_def is_digit_def)
  from run_ping_checks_probes_once [of rev, OF _ this, of quiet_env fresh_world]
  obtain keys where "distinct keys" "set keys = {(''10.0.0.1'', 1)}"
    "effects (snd (run_ping_checks rev (ping_executor quiet_env) [iran 1 Auto, iran 2 Auto] fresh_world))
        = map (\<lambda>k. Ran (ping_argv (fst k) (snd k)) empty_database) keys"
    by (auto simp: iran_def Let_def active_profiles_def probe_key_of_def fresh_world_def)
  moreover from this have "length keys = 1"
    using distinct_card [of keys] by simp
  ultimately show ?thesis by blast
qed

end
