(* ===== verification/Watchdog_Engine.thy ===== *)
theory Watchdog_Engine
  imports Watchdog_Commands
begin

text \<open>
  \<open>src/gost_watchdog/engine.py\<close>: the durable service actions, the per-profile health state
  machine and the maintenance controller. The mutable \<open>ProfileState\<close> object and the \<open>events\<close>
  list that the methods pass around are the fields \<open>st\<close> and \<open>evs\<close> that \<open>mach\<close> adds to the
  world; a public operation loads them, runs its body and returns the state object.

  The lemmas show that every service command is covered by a durable intent, when the engine may
  run one at all, and that the health field follows the abstract automaton
  \<open>health_step\<close>.
\<close>

record 'w mach = "'w world" +
  st :: profile_state
  evs :: "event list"

type_synonym ('w, 'a) engine = "('w mach, wd_exn, 'a) act"

section \<open>Building blocks\<close>

definition event_of :: "profile_state \<Rightarrow> event_code \<Rightarrow> int \<Rightarrow> event" where
  "event_of s code now =
     (WatchdogEvent now code)\<lparr>ev_profile_id := Some (ps_profile_id s),
        ev_service_name := Some (ps_service_name s), ev_kharej_ip := Some (ps_kharej_ip s),
        ev_failure_count := failure_count s, ev_success_count := success_count s\<rparr>"

definition update :: "(profile_state \<Rightarrow> profile_state) \<Rightarrow> ('w, unit) engine" where
  "update f = modify (\<lambda>m. m\<lparr>st := f (st m)\<rparr>)"

definition append_event :: "(profile_state \<Rightarrow> event) \<Rightarrow> ('w, unit) engine" where
  "append_event f = modify (\<lambda>m. m\<lparr>evs := evs m @ [f (st m)]\<rparr>)"

definition clear_events :: "('w, unit) engine" where
  "clear_events = modify (\<lambda>m. m\<lparr>evs := []\<rparr>)"

definition with_st :: "(profile_state \<Rightarrow> ('w, 'a) engine) \<Rightarrow> ('w, 'a) engine" where
  "with_st f = bindE (gets st) f"

text \<open>\<open>except CommandError\<close>.\<close>

definition except_command :: "('s, wd_exn, 'a) act \<Rightarrow> ('s, wd_exn, 'a) act \<Rightarrow> ('s, wd_exn, 'a) act" where
  "except_command m h = handle m (\<lambda>e. if is_CommandError e then h else raise e)"

definition clear_pending :: "profile_state \<Rightarrow> profile_state" where
  "clear_pending s = s\<lparr>pending_action := None, pending_action_at := None\<rparr>"

text \<open>\<open>self.store.persist(state, events, now)\<close>, and \<open>_persist\<close>, which also clears the list.\<close>

definition store_persist :: "'w env \<Rightarrow> int \<Rightarrow> ('w, unit) engine" where
  "store_persist E now = bindE (gets (\<lambda>m. (st m, evs m))) (\<lambda>(s, es). persist E s es now)"

definition action_persist :: "'w env \<Rightarrow> int \<Rightarrow> ('w, unit) engine" where
  "action_persist E now = seqE (store_persist E now) clear_events"


section \<open>Durable service actions\<close>

definition fail_pending :: "int \<Rightarrow> error_category \<Rightarrow> ('w, unit) engine" where
  "fail_pending now category = block [
     update (\<lambda>s. clear_pending (s\<lparr>manual_override := True\<rparr>)),
     append_event (\<lambda>s. (event_of s Watchdog_action_error now)
       \<lparr>ev_action_result := Some Failed, ev_error_category := Some category\<rparr>)]"

definition finalize_pending_stop :: "pending \<Rightarrow> int \<Rightarrow> ('w, unit) engine" where
  "finalize_pending_stop action now = block [
     update (\<lambda>s. s\<lparr>stopped_by_watchdog := (action = Stop_watchdog),
       stopped_by_maintenance := (action = Stop_maintenance), last_service_active := Some False\<rparr>),
     if action = Stop_watchdog
     then append_event (\<lambda>s. (event_of s Watchdog_profile_stopped now)
            \<lparr>ev_action_result := Some Intent_reconciled\<rparr>)
     else block [
       update (\<lambda>s. s\<lparr>maintenance := True\<rparr>),
       append_event (\<lambda>s. (event_of s Watchdog_maintenance_enabled now)
         \<lparr>ev_previous_state := Some (Showing (health_state s)), ev_new_state := Some In_maintenance,
          ev_action_result := Some Maintenance_stop\<rparr>)]]"

definition finalize_pending_start :: "pending \<Rightarrow> int \<Rightarrow> ('w, unit) engine" where
  "finalize_pending_start action now = block [
     update (\<lambda>s. s\<lparr>stopped_by_watchdog := False, stopped_by_maintenance := False,
       manual_override := False, last_service_active := Some True\<rparr>),
     if action = Start_watchdog
     then append_event (\<lambda>s. (event_of s Watchdog_profile_started now)
            \<lparr>ev_action_result := Some Intent_reconciled\<rparr>)
     else if action = Start_maintenance
     then block [
       update (\<lambda>s. s\<lparr>maintenance := False\<rparr>),
       append_event (\<lambda>s. (event_of s Watchdog_maintenance_disabled now)
         \<lparr>ev_previous_state := Some In_maintenance, ev_new_state := Some (Showing (health_state s)),
          ev_action_result := Some Maintenance_exit_start\<rparr>)]
     else append_event (\<lambda>s. (event_of s Watchdog_mode_change_start now)
            \<lparr>ev_action_result := Some Operator_start\<rparr>)]"

definition reconcile_stop :: "'w env \<Rightarrow> managed_profile \<Rightarrow> int \<Rightarrow> pending \<Rightarrow> bool \<Rightarrow> ('w, unit) engine" where
  "reconcile_stop E p now action active =
     bindE (if active
            then except_command
                   (bindE (stop_service E (mp_service_name p)) (\<lambda>stopped. ret (\<not> stopped))) (ret True)
            else ret False) (\<lambda>still.
     if still
     then block [
       update (\<lambda>s. s\<lparr>stopped_by_watchdog := False, stopped_by_maintenance := False,
         last_service_active := Some True\<rparr>),
       fail_pending now Stop_failed,
       action_persist E now]
     else block [finalize_pending_stop action now, update clear_pending, action_persist E now])"

definition reconcile_start :: "'w env \<Rightarrow> managed_profile \<Rightarrow> int \<Rightarrow> pending \<Rightarrow> bool \<Rightarrow> ('w, unit) engine" where
  "reconcile_start E p now action active =
     bindE (if \<not> active
            then except_command (start_service E (mp_service_name p)) (ret False)
            else ret True) (\<lambda>running.
     if \<not> running
     then block [
       update (\<lambda>s. s\<lparr>last_service_active := Some False\<rparr>),
       fail_pending now Start_failed,
       action_persist E now]
     else block [finalize_pending_start action now, update clear_pending, action_persist E now])"

definition reconcile_observed :: "'w env \<Rightarrow> managed_profile \<Rightarrow> int \<Rightarrow> pending \<Rightarrow> ('w, unit) engine" where
  "reconcile_observed E p now action =
     bindE (except_command (bindE (is_active E (mp_service_name p)) (\<lambda>b. ret (Some b))) (ret None))
       (\<lambda>observed. case observed of
          None \<Rightarrow> block [
            update (\<lambda>s. s\<lparr>last_service_check_at := Some now\<rparr>),
            fail_pending now Service_state_unavailable,
            action_persist E now]
        | Some active \<Rightarrow>
            seqE (update (\<lambda>s. s\<lparr>last_service_active := Some active,
                    last_service_check_at := Some now\<rparr>))
              (if action \<in> {Stop_watchdog, Stop_maintenance}
               then reconcile_stop E p now action active
               else reconcile_start E p now action active))"

definition reconcile_pending :: "'w env \<Rightarrow> managed_profile \<Rightarrow> int \<Rightarrow> ('w, unit) engine" where
  "reconcile_pending E p now = with_st (\<lambda>s.
     case pending_action s of
       None \<Rightarrow> ret ()
     | Some action \<Rightarrow>
         if action \<notin> set PENDING_ACTIONS then raise (ValueError Invalid_pending_action)
         else
           seqE (liftR (validate_profile_id (mp_profile_id p)))
           (seqE (liftR (validate_service_name (mp_service_name p)))
           (if mp_service_name p \<noteq> ''gost-'' @ mp_profile_id p @ ''.service''
            then raise (ValueError Service_mismatch)
            else reconcile_observed E p now action)))"

datatype owner = By_watchdog | By_maintenance | By_operator | Other_owner string

fun stop_intent :: "owner \<Rightarrow> pending option" where
  "stop_intent By_watchdog = Some Stop_watchdog"
| "stop_intent By_maintenance = Some Stop_maintenance"
| "stop_intent _ = None"

fun start_intent :: "owner \<Rightarrow> pending option" where
  "start_intent By_watchdog = Some Start_watchdog"
| "start_intent By_maintenance = Some Start_maintenance"
| "start_intent By_operator = Some Start_operator"
| "start_intent _ = None"

text \<open>The \<open>except Exception\<close> clause of \<open>stop\<close>: the service is down and the database refused to
  record it, so it is started again.\<close>

definition compensate_stop :: "'w env \<Rightarrow> managed_profile \<Rightarrow> int \<Rightarrow> ('w, bool) engine" where
  "compensate_stop E p now =
     bindE (except_command (start_service E (mp_service_name p)) (ret False)) (\<lambda>compensated.
       if \<not> compensated then raise (CommandError Command_compensation_failed)
       else seqE (block [
         update (\<lambda>s. clear_pending (s\<lparr>stopped_by_watchdog := False, stopped_by_maintenance := False,
           last_service_active := Some True, manual_override := True\<rparr>)),
         clear_events,
         append_event (\<lambda>s. (event_of s Watchdog_action_error now)
           \<lparr>ev_action_result := Some Compensated, ev_error_category := Some Persistence_failed\<rparr>),
         action_persist E now]) (ret False))"

definition stop_action :: "'w env \<Rightarrow> managed_profile \<Rightarrow> int \<Rightarrow> owner \<Rightarrow> ('w, bool) engine" where
  "stop_action E p now own =
     (case stop_intent own of
        None \<Rightarrow> raise (ValueError Invalid_stop_owner)
      | Some intent \<Rightarrow>
          seqE (update (\<lambda>s. s\<lparr>pending_action := Some intent, pending_action_at := Some now\<rparr>))
          (seqE (action_persist E now)
          (bindE (is_active E (mp_service_name p)) (\<lambda>active.
           seqE (update (\<lambda>s. s\<lparr>last_service_active := Some active, last_service_check_at := Some now\<rparr>))
           (if \<not> active
            then seqE (block [
              update (\<lambda>s. clear_pending (s\<lparr>manual_override := True\<rparr>)),
              append_event (\<lambda>s. (event_of s Watchdog_manual_override now)
                \<lparr>ev_action_result := Some Manual_stop\<rparr>),
              action_persist E now]) (ret False)
            else
              bindE (except_command (stop_service E (mp_service_name p)) (ret False)) (\<lambda>stopped.
                if \<not> stopped
                then seqE (block [
                  update (\<lambda>s. clear_pending (s\<lparr>manual_override := True\<rparr>)),
                  append_event (\<lambda>s. (event_of s Watchdog_stop_failed now)
                    \<lparr>ev_action_result := Some Failed, ev_error_category := Some Stop_failed\<rparr>),
                  action_persist E now]) (ret False)
                else
                  seqE (block [
                    update (\<lambda>s. clear_pending (s\<lparr>stopped_by_watchdog := (own = By_watchdog),
                      stopped_by_maintenance := (own = By_maintenance), last_service_active := Some False\<rparr>)),
                    whenE (own = By_watchdog) (append_event (\<lambda>s. (event_of s Watchdog_profile_stopped now)
                      \<lparr>ev_action_result := Some Stopped\<rparr>))])
                  (handle (seqE (action_persist E now) (ret True)) (\<lambda>_. compensate_stop E p now))))))))"

definition start_action :: "'w env \<Rightarrow> managed_profile \<Rightarrow> int \<Rightarrow> owner \<Rightarrow> ('w, bool) engine" where
  "start_action E p now own =
     (case start_intent own of
        None \<Rightarrow> raise (ValueError Invalid_start_owner)
      | Some intent \<Rightarrow>
          seqE (update (\<lambda>s. s\<lparr>pending_action := Some intent, pending_action_at := Some now\<rparr>))
          (seqE (action_persist E now)
          (bindE (is_active E (mp_service_name p)) (\<lambda>active.
           seqE (update (\<lambda>s. s\<lparr>last_service_active := Some active, last_service_check_at := Some now\<rparr>))
           (bindE (if \<not> active
                   then except_command (start_service E (mp_service_name p)) (ret False)
                   else ret True) (\<lambda>running.
            if \<not> running
            then seqE (block [
              update (\<lambda>s. clear_pending (s\<lparr>manual_override := True\<rparr>)),
              append_event (\<lambda>s. (event_of s Watchdog_start_failed now)
                \<lparr>ev_action_result := Some Failed, ev_error_category := Some Start_failed\<rparr>),
              action_persist E now]) (ret False)
            else
              seqE (block [
                update (\<lambda>s. clear_pending (s\<lparr>stopped_by_watchdog := False,
                  stopped_by_maintenance := False, last_service_active := Some True,
                  manual_override := False\<rparr>)),
                if own = By_watchdog
                then append_event (\<lambda>s. (event_of s Watchdog_profile_started now)
                       \<lparr>ev_action_result := Some Started\<rparr>)
                else if own = By_operator
                then append_event (\<lambda>s. (event_of s Watchdog_mode_change_start now)
                       \<lparr>ev_action_result := Some Operator_start\<rparr>)
                else ret (),
                handle (action_persist E now) (\<lambda>_. block [
                  append_event (\<lambda>s. (event_of s Watchdog_action_error now)
                    \<lparr>ev_action_result := Some Intent_reconciled,
                     ev_error_category := Some Persistence_failed\<rparr>),
                  action_persist E now])]) (ret True)))))))"


section \<open>The health state machine\<close>

fun STATE_EVENT :: "health \<Rightarrow> event_code option" where
  "STATE_EVENT Degraded = Some Watchdog_degraded"
| "STATE_EVENT Down = Some Watchdog_upstream_down"
| "STATE_EVENT Recovering = Some Watchdog_recovering"
| "STATE_EVENT Healthy = Some Watchdog_upstream_healthy"
| "STATE_EVENT _ = None"

text \<open>The assignments of the checks to the health part of the state object.\<close>

definition turned :: "health \<Rightarrow> int \<Rightarrow> profile_state \<Rightarrow> profile_state" where
  "turned h now s = s\<lparr>health_state := h, last_transition_at := Some now\<rparr>"

definition count_success :: "profile_config \<Rightarrow> profile_state \<Rightarrow> profile_state" where
  "count_success cfg s = s\<lparr>success_count := min (success_count s + 1) (success_threshold cfg)\<rparr>"

definition begin_recovery :: "int \<Rightarrow> profile_state \<Rightarrow> profile_state" where
  "begin_recovery now s = s\<lparr>success_count := 1, recovery_started_at := Some now,
     recovery_ready_at := None, recovery_jitter_seconds := 0\<rparr>"

definition arm_recovery :: "profile_config \<Rightarrow> int \<Rightarrow> int \<Rightarrow> profile_state \<Rightarrow> profile_state" where
  "arm_recovery cfg now jitter s = s\<lparr>recovery_jitter_seconds := jitter,
     recovery_ready_at := Some (now + recovery_hold_seconds cfg + jitter)\<rparr>"

definition end_outage :: "profile_state \<Rightarrow> profile_state" where
  "end_outage s = s\<lparr>outage_started_at := None, recovery_started_at := None,
     recovery_ready_at := None, recovery_jitter_seconds := 0\<rparr>"

definition missed :: "profile_config \<Rightarrow> profile_state \<Rightarrow> profile_state" where
  "missed cfg s = s\<lparr>success_count := 0, failure_count := min (failure_count s + 1) (failure_threshold cfg),
     recovery_started_at := None, recovery_ready_at := None, recovery_jitter_seconds := 0\<rparr>"

definition open_outage :: "int \<Rightarrow> profile_state \<Rightarrow> profile_state" where
  "open_outage now s = (if outage_started_at s = None then s\<lparr>outage_started_at := Some now\<rparr> else s)"

lemmas check_update_defs =
  turned_def count_success_def begin_recovery_def arm_recovery_def end_outage_def missed_def open_outage_def

lemma check_update_fields [simp]:
  "ps_profile_id (turned h now s) = ps_profile_id s"
  "pending_action (turned h now s) = pending_action s"
  "maintenance (turned h now s) = maintenance s"
  "manual_override (turned h now s) = manual_override s"
  "stopped_by_watchdog (turned h now s) = stopped_by_watchdog s"
  "check_status (turned h now s) = check_status s"
  "last_service_check_at (turned h now s) = last_service_check_at s"
  "ps_profile_id (count_success cfg s) = ps_profile_id s"
  "pending_action (count_success cfg s) = pending_action s"
  "maintenance (count_success cfg s) = maintenance s"
  "manual_override (count_success cfg s) = manual_override s"
  "stopped_by_watchdog (count_success cfg s) = stopped_by_watchdog s"
  "check_status (count_success cfg s) = check_status s"
  "last_service_check_at (count_success cfg s) = last_service_check_at s"
  "ps_profile_id (begin_recovery now s) = ps_profile_id s"
  "pending_action (begin_recovery now s) = pending_action s"
  "maintenance (begin_recovery now s) = maintenance s"
  "manual_override (begin_recovery now s) = manual_override s"
  "stopped_by_watchdog (begin_recovery now s) = stopped_by_watchdog s"
  "check_status (begin_recovery now s) = check_status s"
  "last_service_check_at (begin_recovery now s) = last_service_check_at s"
  "ps_profile_id (arm_recovery cfg now j s) = ps_profile_id s"
  "pending_action (arm_recovery cfg now j s) = pending_action s"
  "maintenance (arm_recovery cfg now j s) = maintenance s"
  "manual_override (arm_recovery cfg now j s) = manual_override s"
  "stopped_by_watchdog (arm_recovery cfg now j s) = stopped_by_watchdog s"
  "check_status (arm_recovery cfg now j s) = check_status s"
  "last_service_check_at (arm_recovery cfg now j s) = last_service_check_at s"
  "ps_profile_id (end_outage s) = ps_profile_id s"
  "pending_action (end_outage s) = pending_action s"
  "maintenance (end_outage s) = maintenance s"
  "manual_override (end_outage s) = manual_override s"
  "stopped_by_watchdog (end_outage s) = stopped_by_watchdog s"
  "check_status (end_outage s) = check_status s"
  "last_service_check_at (end_outage s) = last_service_check_at s"
  "ps_profile_id (missed cfg s) = ps_profile_id s"
  "pending_action (missed cfg s) = pending_action s"
  "maintenance (missed cfg s) = maintenance s"
  "manual_override (missed cfg s) = manual_override s"
  "stopped_by_watchdog (missed cfg s) = stopped_by_watchdog s"
  "check_status (missed cfg s) = check_status s"
  "last_service_check_at (missed cfg s) = last_service_check_at s"
  "ps_profile_id (open_outage now s) = ps_profile_id s"
  "pending_action (open_outage now s) = pending_action s"
  "maintenance (open_outage now s) = maintenance s"
  "manual_override (open_outage now s) = manual_override s"
  "stopped_by_watchdog (open_outage now s) = stopped_by_watchdog s"
  "check_status (open_outage now s) = check_status s"
  "last_service_check_at (open_outage now s) = last_service_check_at s"
  "health_state (turned h now s) = h" "success_count (turned h now s) = success_count s"
  "failure_count (turned h now s) = failure_count s" "outage_started_at (turned h now s) = outage_started_at s"
  "recovery_ready_at (turned h now s) = recovery_ready_at s"
  "health_state (count_success cfg s) = health_state s" "health_state (begin_recovery now s) = health_state s"
  "health_state (arm_recovery cfg now j s) = health_state s" "health_state (end_outage s) = health_state s"
  "health_state (missed cfg s) = health_state s" "health_state (open_outage now s) = health_state s"
  "failure_count (open_outage now s) = failure_count s"
  "failure_count (missed cfg s) = min (failure_count s + 1) (failure_threshold cfg)"
  "success_count (count_success cfg s) = min (success_count s + 1) (success_threshold cfg)"
  "success_count (begin_recovery now s) = 1" "success_count (arm_recovery cfg now j s) = success_count s"
  "recovery_ready_at (count_success cfg s) = recovery_ready_at s" "recovery_ready_at (begin_recovery now s) = None"
  "recovery_ready_at (arm_recovery cfg now j s) = Some (now + recovery_hold_seconds cfg + j)"
  by (simp_all add: check_update_defs)

definition transition :: "health \<Rightarrow> int \<Rightarrow> int option \<Rightarrow> ('w, unit) engine" where
  "transition new_state now outage_duration = with_st (\<lambda>s.
     if health_state s = new_state then ret ()
     else seqE (update (turned new_state now))
       (case STATE_EVENT new_state of
          None \<Rightarrow> raise KeyError
        | Some code \<Rightarrow> append_event (\<lambda>t. (event_of t code now)
            \<lparr>ev_previous_state := Some (Showing (health_state s)),
             ev_new_state := Some (Showing new_state), ev_outage_duration := outage_duration\<rparr>)))"

definition note_override :: "int \<Rightarrow> action_result \<Rightarrow> ('w, unit) engine" where
  "note_override now result = with_st (\<lambda>s.
     block [
       whenE (\<not> manual_override s) (append_event (\<lambda>s. (event_of s Watchdog_manual_override now)
         \<lparr>ev_action_result := Some result\<rparr>)),
       update (\<lambda>s. s\<lparr>manual_override := True\<rparr>)])"

definition reconcile_service :: "'w env \<Rightarrow> managed_profile \<Rightarrow> int \<Rightarrow> ('w, unit) engine" where
  "reconcile_service E p now = block [
     with_st (\<lambda>s. whenE (pending_action s \<noteq> None) (reconcile_pending E p now)),
     with_st (\<lambda>s.
       if (case last_service_check_at s of
             None \<Rightarrow> False
           | Some t \<Rightarrow> now - t < SERVICE_RECONCILIATION_INTERVAL_SECONDS)
       then ret ()
       else bindE (is_active E (mp_service_name p)) (\<lambda>active.
         let owned = stopped_by_watchdog s \<or> stopped_by_maintenance s
         in block [
           if active \<and> owned
           then block [
             update (\<lambda>s. s\<lparr>stopped_by_watchdog := False, stopped_by_maintenance := False\<rparr>),
             note_override now Manual_start]
           else if \<not> active \<and> \<not> owned
               \<and> (last_service_active s = Some True \<or> last_service_active s = None)
           then note_override now Manual_stop
           else ret (),
           update (\<lambda>s. s\<lparr>last_service_active := Some active, last_service_check_at := Some now\<rparr>)]))]"

definition stop_if_owned_transition :: "'w env \<Rightarrow> managed_profile \<Rightarrow> int \<Rightarrow> ('w, unit) engine" where
  "stop_if_owned_transition E p now = with_st (\<lambda>s.
     if mode (config p) \<noteq> Auto \<or> maintenance s \<or> manual_override s then ret ()
     else seqE (stop_action E p now By_watchdog) (ret ()))"

definition start_after_recovery :: "'w env \<Rightarrow> managed_profile \<Rightarrow> int \<Rightarrow> ('w, unit) engine" where
  "start_after_recovery E p now = with_st (\<lambda>s.
     if mode (config p) \<noteq> Auto \<or> maintenance s \<or> manual_override s \<or> \<not> stopped_by_watchdog s then ret ()
     else seqE (start_action E p now By_watchdog) (ret ()))"

definition complete_recovery :: "'w env \<Rightarrow> managed_profile \<Rightarrow> int \<Rightarrow> ('w, unit) engine" where
  "complete_recovery E p now = with_st (\<lambda>s.
     block [
       transition Healthy now (map_option (\<lambda>t. max 0 (now - t)) (outage_started_at s)),
       update end_outage,
       start_after_recovery E p now])"

definition draw_jitter :: "'w env \<Rightarrow> int \<Rightarrow> ('w, int) engine" where
  "draw_jitter E maximum = (\<lambda>m. case jitter_source E maximum (outside m) of
     (j, x) \<Rightarrow> (Inr j, m\<lparr>outside := x\<rparr>))"

text \<open>The end of \<open>_successful_check\<close>: fix the moment the recovery is complete when enough checks
  have succeeded, and complete it when that moment has come.\<close>

definition settle_recovery :: "'w env \<Rightarrow> managed_profile \<Rightarrow> int \<Rightarrow> ('w, unit) engine" where
  "settle_recovery E p now =
     (let cfg = config p
      in with_st (\<lambda>s.
        if success_count s < success_threshold cfg then ret ()
        else
          seqE (if recovery_ready_at s = None
                then bindE (draw_jitter E (recovery_jitter_max_seconds cfg)) (\<lambda>jitter.
                  if jitter < 0 \<or> recovery_jitter_max_seconds cfg < jitter
                  then raise (ValueError Jitter_out_of_bounds)
                  else update (arm_recovery cfg now jitter))
                else ret ())
          (with_st (\<lambda>s.
            if (case recovery_ready_at s of None \<Rightarrow> False | Some t \<Rightarrow> t \<le> now)
            then complete_recovery E p now else ret ()))))"

definition successful_check :: "'w env \<Rightarrow> managed_profile \<Rightarrow> int \<Rightarrow> ('w, unit) engine" where
  "successful_check E p now =
     (let cfg = config p
      in seqE (update (\<lambda>s. s\<lparr>failure_count := 0\<rparr>)) (with_st (\<lambda>s.
        if health_state s \<in> {Unknown, Degraded}
        then block [update (count_success cfg), transition Healthy now None]
        else if health_state s = Healthy
        then block [update (count_success cfg), start_after_recovery E p now]
        else block [
          if health_state s = Down
          then block [update (begin_recovery now), transition Recovering now None]
          else update (count_success cfg),
          settle_recovery E p now])))"

definition failed_check :: "'w env \<Rightarrow> managed_profile \<Rightarrow> int \<Rightarrow> ('w, unit) engine" where
  "failed_check E p now =
     (let cfg = config p
      in seqE (update (missed cfg))
         (with_st (\<lambda>s.
            if health_state s = Recovering then transition Down now None
            else if failure_threshold cfg \<le> failure_count s
            then let transitioned = health_state s \<noteq> Down
                 in block [
                   update (open_outage now),
                   transition Down now None,
                   with_st (\<lambda>s. whenE (transitioned \<or> mode cfg = Auto \<and> \<not> stopped_by_watchdog s)
                     (stop_if_owned_transition E p now))]
            else if health_state s \<in> {Unknown, Healthy} then transition Degraded now None
            else ret ())))"


section \<open>The public operations\<close>

definition read_wall :: "'w env \<Rightarrow> (('w, 'z) world_scheme, wd_exn, int) act" where
  "read_wall E = (\<lambda>w. case wall_clock E (outside w) of (t, x) \<Rightarrow> (Inr t, w\<lparr>outside := x\<rparr>))"

text \<open>Run a body on a state object with an empty event list, and return the object; then the
  frame of every operation: read the clock, load the profile's state, run the body on it.\<close>

definition run_on :: "profile_state \<Rightarrow> ('w, unit) engine \<Rightarrow> ('w world, wd_exn, profile_state) act" where
  "run_on s body = (\<lambda>w.
     case body (world.extend w \<lparr>st = s, evs = []\<rparr>) of
       (Inl e, m) \<Rightarrow> (Inl e, world.truncate m)
     | (Inr _, m) \<Rightarrow> (Inr (st m), world.truncate m))"

definition with_profile ::
  "'w env \<Rightarrow> managed_profile \<Rightarrow> (int \<Rightarrow> ('w, unit) engine) \<Rightarrow> ('w world, wd_exn, profile_state) act" where
  "with_profile E p body =
     bindE (read_wall E) (\<lambda>now.
     bindE (get_state E (mp_profile_id p) (mp_service_name p) (mp_kharej_ip p)) (\<lambda>s.
       run_on s (body now)))"

definition engine_reconcile_pending :: "'w env \<Rightarrow> managed_profile \<Rightarrow> ('w world, wd_exn, profile_state) act" where
  "engine_reconcile_pending E p = with_profile E p (\<lambda>now.
     with_st (\<lambda>s. whenE (pending_action s \<noteq> None) (reconcile_pending E p now)))"

datatype probe_input = Probed probe_result | Reached bool

fun as_probe_result :: "probe_input \<Rightarrow> (wd_exn, probe_result) result" where
  "as_probe_result (Probed r) = Inr r"
| "as_probe_result (Reached b) = ProbeResult (if b then Success else Unreachable) None"

definition process_probe_error :: "'w env \<Rightarrow> int \<Rightarrow> probe_result \<Rightarrow> ('w, unit) engine" where
  "process_probe_error E now result = block [
     with_st (\<lambda>s. whenE (check_status s \<noteq> Probe_error
          \<or> last_probe_error_category s \<noteq> pr_error_category result)
       (append_event (\<lambda>s. (event_of s Watchdog_probe_error now)
          \<lparr>ev_error_category := pr_error_category result\<rparr>))),
     update (\<lambda>s. s\<lparr>check_status := Probe_error,
       last_probe_error_category := pr_error_category result\<rparr>),
     store_persist E now]"

definition process_check :: "'w env \<Rightarrow> managed_profile \<Rightarrow> int \<Rightarrow> probe_result \<Rightarrow> ('w, unit) engine" where
  "process_check E p now result = block [
     with_st (\<lambda>s. whenE (check_status s = Probe_error)
       (append_event (\<lambda>s. (event_of s Watchdog_probe_recovered now)
          \<lparr>ev_error_category := last_probe_error_category s\<rparr>))),
     update (\<lambda>s. s\<lparr>check_status := status result, last_probe_error_category := None\<rparr>),
     whenE (mode (config p) = Auto) (reconcile_service E p now),
     if status result = Success then successful_check E p now else failed_check E p now,
     store_persist E now]"

definition process :: "'w env \<Rightarrow> managed_profile \<Rightarrow> probe_input \<Rightarrow> ('w world, wd_exn, profile_state) act" where
  "process E p input = with_profile E p (\<lambda>now.
     seqE (with_st (\<lambda>s. whenE (pending_action s \<noteq> None) (reconcile_pending E p now)))
     (if mode (config p) = Disabled then ret ()
      else bindE (liftR (as_probe_result input)) (\<lambda>result.
        seqE (update (\<lambda>s. s\<lparr>last_check_at := Some now\<rparr>))
        (if status result = Probe_error then process_probe_error E now result
         else process_check E p now result))))"


section \<open>Maintenance\<close>

datatype maintenance_action = Enter_keep | Enter_stop | Exit_no_start | Exit_start | Other_action string

definition enter_maintenance ::
  "'w env \<Rightarrow> managed_profile \<Rightarrow> int \<Rightarrow> maintenance_action \<Rightarrow> bool \<Rightarrow> display \<Rightarrow> ('w, unit) engine" where
  "enter_maintenance E p now action active previous_display = block [
     update (\<lambda>s. s\<lparr>maintenance := True\<rparr>),
     whenE (action = Enter_stop \<and> active) (seqE (stop_action E p now By_maintenance) (ret ())),
     append_event (\<lambda>s. (event_of s Watchdog_maintenance_enabled now)
       \<lparr>ev_previous_state := Some previous_display, ev_new_state := Some In_maintenance,
        ev_action_result := (if action = Enter_stop then Some Maintenance_stop else None)\<rparr>)]"

definition exit_maintenance ::
  "'w env \<Rightarrow> managed_profile \<Rightarrow> int \<Rightarrow> maintenance_action \<Rightarrow> bool \<Rightarrow> display \<Rightarrow> ('w, unit) engine" where
  "exit_maintenance E p now action active previous_display = block [
     with_st (\<lambda>s.
       if action = Exit_start
       then if health_state s \<noteq> Healthy then raise (ValueError Upstream_not_healthy)
            else if \<not> active \<and> \<not> (stopped_by_maintenance s \<or> stopped_by_watchdog s)
            then raise (ValueError Stop_not_owned)
            else block [
              whenE (\<not> active) (bindE (start_action E p now By_maintenance) (\<lambda>started.
                if \<not> started then raise (CommandError Command_start_failed) else ret ())),
              update (\<lambda>s. s\<lparr>last_service_active := Some True, manual_override := False,
                stopped_by_watchdog := False, stopped_by_maintenance := False\<rparr>)]
       else whenE (\<not> active)
              (update (\<lambda>s. s\<lparr>manual_override := True, last_service_active := Some False\<rparr>))),
     update (\<lambda>s. s\<lparr>maintenance := False, stopped_by_maintenance := False\<rparr>),
     whenE (action = Exit_no_start) (update (\<lambda>s. s\<lparr>stopped_by_watchdog := False\<rparr>)),
     append_event (\<lambda>s. (event_of s Watchdog_maintenance_disabled now)
       \<lparr>ev_previous_state := Some previous_display, ev_new_state := Some (Showing (health_state s)),
        ev_action_result := Some (if action = Exit_start then Maintenance_exit_start
                                  else Maintenance_exit_no_start)\<rparr>)]"

definition apply_maintenance ::
  "'w env \<Rightarrow> managed_profile \<Rightarrow> maintenance_action \<Rightarrow> ('w world, wd_exn, profile_state) act" where
  "apply_maintenance E p action =
     (if action \<notin> {Enter_keep, Enter_stop, Exit_no_start, Exit_start}
      then raise (ValueError Unsupported_maintenance_action)
      else with_profile E p (\<lambda>now.
        seqE (reconcile_pending E p now)
        (bindE (is_active E (mp_service_name p)) (\<lambda>active.
         seqE (update (\<lambda>s. s\<lparr>last_service_active := Some active, last_service_check_at := Some now\<rparr>))
         (with_st (\<lambda>s. block [
            if action \<in> {Enter_keep, Enter_stop}
            then enter_maintenance E p now action active (display_state s)
            else exit_maintenance E p now action active (display_state s),
            update (\<lambda>s. s\<lparr>last_transition_at := Some now\<rparr>),
            store_persist E now]))))))"

definition start_owned_for_mode_change ::
  "'w env \<Rightarrow> managed_profile \<Rightarrow> ('w world, wd_exn, profile_state) act" where
  "start_owned_for_mode_change E p = with_profile E p (\<lambda>now. with_st (\<lambda>s.
     if health_state s \<noteq> Healthy \<or> check_status s \<noteq> Success
        \<or> (case last_check_at s of
             None \<Rightarrow> True
           | Some t \<Rightarrow> now - t < 0 \<or> max 10 (check_interval_seconds (config p) * 2) < now - t)
     then raise (ValueError Upstream_not_healthy)
     else if \<not> stopped_by_watchdog s then raise (ValueError Not_stopped_by_watchdog)
     else bindE (start_action E p now By_operator) (\<lambda>started.
       if \<not> started then raise (CommandError Command_start_failed) else ret ())))"

definition rearm :: "'w env \<Rightarrow> managed_profile \<Rightarrow> ('w world, wd_exn, profile_state) act" where
  "rearm E p = with_profile E p (\<lambda>now. with_st (\<lambda>s.
     if \<not> manual_override s then raise (ValueError Override_not_active)
     else bindE (is_active E (mp_service_name p)) (\<lambda>active.
       if \<not> active \<and> \<not> stopped_by_watchdog s then raise (ValueError Start_before_rearm)
       else block [
         update (\<lambda>s. s\<lparr>manual_override := False, last_service_active := Some active,
           last_service_check_at := Some now\<rparr>),
         append_event (\<lambda>s. (event_of s Watchdog_manual_override now)
           \<lparr>ev_action_result := Some Rearmed\<rparr>),
         store_persist E now])))"


section \<open>Rules for the building blocks\<close>

lemma wp_engine [wp_simps]:
  "wp (update f) Q X m = Q () (m\<lparr>st := f (st m)\<rparr>)"
  "wp (append_event g) Q X m = Q () (m\<lparr>evs := evs m @ [g (st m)]\<rparr>)"
  "wp clear_events Q X m = Q () (m\<lparr>evs := []\<rparr>)"
  "wp (with_st k) Q X m = wp (k (st m)) Q X m"
  by (simp_all add: update_def append_event_def clear_events_def with_st_def wp_simps)

lemma wp_except_command [wp_simps]:
  "wp (except_command n h) Q X m =
     wp n Q (\<lambda>e m'. if is_CommandError e then wp h Q X m' else X e m') m"
  unfolding except_command_def wp_handle
  by (intro arg_cong [where f = "\<lambda>Y. wp n Q Y m"] ext) (simp add: wp_simps)

lemma wp_draw_jitter [wp_simps]:
  "wp (draw_jitter E b) Q X m =
     (case jitter_source E b (outside m) of (j, x) \<Rightarrow> Q j (m\<lparr>outside := x\<rparr>))"
  by (simp add: wp_def draw_jitter_def split: prod.splits)

lemma store_persistI:
  assumes "\<And>x e. X e (m\<lparr>outside := x\<rparr>)"
    and "\<And>x d. persist_db (st m) (evs m) now (db m) = Inr d \<Longrightarrow> Q () (m\<lparr>outside := x, db := d\<rparr>)"
  shows "wp (store_persist E now) Q X m"
  by (auto simp: store_persist_def wp_simps intro!: persistI assms)

lemma action_persistI:
  assumes "\<And>x e. X e (m\<lparr>outside := x\<rparr>)"
    and "\<And>x d. persist_db (st m) (evs m) now (db m) = Inr d \<Longrightarrow>
      Q () (m\<lparr>outside := x, db := d, evs := []\<rparr>)"
  shows "wp (action_persist E now) Q X m"
  by (auto simp: action_persist_def wp_simps intro!: store_persistI assms)

lemma read_wallI:
  assumes "\<And>x. Q (fst (wall_clock E (outside w))) (w\<lparr>outside := x\<rparr>)"
  shows "wp (read_wall E) Q X w"
  using assms by (cases "wall_clock E (outside w)") (simp add: wp_def read_wall_def)

lemmas command_rules = is_activeI stop_serviceI start_serviceI store_persistI action_persistI

lemma wp_run_on:
  "wp (run_on s body) Q X w =
     wp body (\<lambda>_ m. Q (st m) (world.truncate m)) (\<lambda>e m. X e (world.truncate m))
       \<lparr>db = db w, outside = outside w, effects = effects w, st = s, evs = []\<rparr>"
  by (simp add: wp_def run_on_def world.extend_def mach.fields_def split: prod.splits sum.splits)

lemma with_profileI:
  assumes "\<And>x e. X e (w\<lparr>outside := x\<rparr>)"
    and "\<And>now x s. now = fst (wall_clock E (outside w)) \<Longrightarrow>
      get_state_db (db w) (mp_profile_id p) (mp_service_name p) (mp_kharej_ip p) = Inr s \<Longrightarrow>
      wp (body now) (\<lambda>_ m. Q (st m) (world.truncate m)) (\<lambda>e m. X e (world.truncate m))
        \<lparr>db = db w, outside = x, effects = effects w, st = s, evs = []\<rparr>"
  shows "wp (with_profile E p body) Q X w"
  unfolding with_profile_def wp_bindE
  by (rule read_wallI, rule get_stateI) (use assms in \<open>auto simp: wp_run_on\<close>)


section \<open>Well-formed states and covered commands\<close>

text \<open>What the stored state of a profile always satisfies: the enumerated fields hold enumerated
  values, the counters are not negative and never both running, an outage is open exactly while
  the upstream is down or recovering, the recovery clock runs only while recovering, an intent
  has its time, and a stop has at most one owner.\<close>

definition wf_state :: "profile_state \<Rightarrow> bool" where
  "wf_state s \<longleftrightarrow>
     health_state s \<in> set HEALTH_STATES \<and> check_status s \<in> set CHECK_STATUSES
     \<and> (case pending_action s of None \<Rightarrow> True | Some a \<Rightarrow> a \<in> set PENDING_ACTIONS)
     \<and> (pending_action s = None \<longleftrightarrow> pending_action_at s = None)
     \<and> 0 \<le> failure_count s \<and> 0 \<le> success_count s
     \<and> (failure_count s = 0 \<or> success_count s = 0)
     \<and> (outage_started_at s \<noteq> None \<longleftrightarrow> health_state s \<in> {Down, Recovering})
     \<and> (recovery_started_at s \<noteq> None \<longleftrightarrow> health_state s = Recovering)
     \<and> (health_state s = Recovering \<or> recovery_ready_at s = None)
     \<and> 0 \<le> recovery_jitter_seconds s
     \<and> \<not> (stopped_by_watchdog s \<and> stopped_by_maintenance s)"

definition wf_db :: "database \<Rightarrow> bool" where
  "wf_db d \<longleftrightarrow> (\<forall>pid s. stored_state d pid = Some s \<longrightarrow> wf_state s \<and> ps_profile_id s = pid)"

definition intent :: "database \<Rightarrow> string \<Rightarrow> pending option" where
  "intent d pid = Option.bind (stored_state d pid) pending_action"

definition STOP_INTENTS :: "pending option set" where
  "STOP_INTENTS = {Some Stop_watchdog, Some Stop_maintenance}"

text \<open>A command on behalf of a profile is covered: it concerns exactly the profile's unit, and
  the database holds a stop intent when it stops the unit, and an intent when it starts it.\<close>

fun covered :: "managed_profile \<Rightarrow> effect \<Rightarrow> bool" where
  "covered p (Ran argv d) \<longleftrightarrow>
     argv = ACTIVE (mp_service_name p)
     \<or> argv = STOP (mp_service_name p)
         \<and> intent d (mp_profile_id p) \<in> STOP_INTENTS
     \<or> argv = START (mp_service_name p) \<and> intent d (mp_profile_id p) \<noteq> None"

definition cov :: "managed_profile \<Rightarrow> effect list \<Rightarrow> effect list \<Rightarrow> bool" where
  "cov p base fx \<longleftrightarrow> (\<exists>es. fx = base @ es \<and> list_all (covered p) es)"

lemma cov_refl [simp]: "cov p es es"
  by (simp add: cov_def)

lemma cov_append: "cov p base fx \<Longrightarrow> \<forall>e\<in>set new. covered p e \<Longrightarrow> cov p base (fx @ new)"
  by (auto simp: cov_def list_all_iff)

text \<open>The part of a state the service actions leave alone.\<close>

definition core :: "profile_state \<Rightarrow> profile_state" where
  "core s = s\<lparr>maintenance := False, stopped_by_watchdog := False, stopped_by_maintenance := False,
     manual_override := False, last_service_active := None, pending_action := None,
     pending_action_at := None, last_service_check_at := None\<rparr>"

definition ok :: "managed_profile \<Rightarrow> profile_state \<Rightarrow> profile_state \<Rightarrow> bool" where
  "ok p c s \<longleftrightarrow> wf_state s \<and> ps_profile_id s = mp_profile_id p \<and> core s = c"

text \<open>\<open>R\<close>: the commands run since \<open>base\<close> are covered and the database is well formed; it holds
  after an exception too. \<open>J\<close>: and the state object in hand is well formed.\<close>

definition R :: "managed_profile \<Rightarrow> effect list \<Rightarrow> 'w mach \<Rightarrow> bool" where
  "R p base m \<longleftrightarrow> cov p base (effects m) \<and> wf_db (db m)"

definition J :: "managed_profile \<Rightarrow> effect list \<Rightarrow> profile_state \<Rightarrow> 'w mach \<Rightarrow> bool" where
  "J p base c m \<longleftrightarrow> R p base m \<and> ok p c (st m)"

lemma wf_db_persist:
  "wf_db d \<Longrightarrow> wf_state s \<Longrightarrow> persist_db s es now d = Inr d' \<Longrightarrow> wf_db d'"
  unfolding wf_db_def by (auto simp: pt.load_save split: if_splits)

lemma intent_persist:
  "persist_db s es now d = Inr d' \<Longrightarrow> intent d' (ps_profile_id s) = pending_action s"
  by (simp add: intent_def pt.load_save_same)

lemma wf_state_service [simp]:
  "wf_state (s\<lparr>ps_service_name := svc\<rparr>) = wf_state s" "wf_state (s\<lparr>ps_kharej_ip := ip\<rparr>) = wf_state s"
  by (simp_all add: wf_state_def)


section \<open>The service actions keep the invariant\<close>

named_theorems inv_simps \<open>how updates act on the invariant\<close>

lemma ok_update [inv_simps]:
  "ok p c (s\<lparr>manual_override := b\<rparr>) = ok p c s"
  "ok p c (s\<lparr>maintenance := b\<rparr>) = ok p c s"
  "ok p c (s\<lparr>last_service_active := act\<rparr>) = ok p c s"
  "ok p c (s\<lparr>last_service_check_at := t\<rparr>) = ok p c s"
  "ok p c s \<Longrightarrow> ok p c (clear_pending s)"
  "ok p c s \<Longrightarrow> a \<in> set PENDING_ACTIONS \<Longrightarrow>
     ok p c (s\<lparr>pending_action := Some a, pending_action_at := Some now\<rparr>)"
  "ok p c s \<Longrightarrow> \<not> (w \<and> n) \<Longrightarrow> ok p c (s\<lparr>stopped_by_watchdog := w, stopped_by_maintenance := n\<rparr>)"
  by (simp_all add: ok_def core_def clear_pending_def) (simp_all add: wf_state_def)

lemma R_update [inv_simps]:
  "R p base (m\<lparr>st := s\<rparr>) = R p base m"
  "R p base (m\<lparr>evs := es\<rparr>) = R p base m"
  "R p base (m\<lparr>outside := x\<rparr>) = R p base m"
  by (simp_all add: R_def)

lemma R_effects:
  assumes "R p base m" and "\<forall>e\<in>set es. covered p e"
  shows "R p base (m\<lparr>outside := x, effects := effects m @ es\<rparr>)"
  using assms by (simp add: R_def cov_append)

lemma R_query [inv_simps]:
  "R p base m \<Longrightarrow> d = db m \<Longrightarrow> fx = effects m \<Longrightarrow>
     R p base (m\<lparr>outside := x, effects := fx @ [Ran (ACTIVE (mp_service_name p)) d]\<rparr>)"
  by (simp add: R_effects)

lemma R_stop [inv_simps]:
  "R p base m \<Longrightarrow> intent (db m) (mp_profile_id p) \<in> STOP_INTENTS \<Longrightarrow>
     set es \<subseteq> {Ran (STOP (mp_service_name p)) (db m), Ran (ACTIVE (mp_service_name p)) (db m)} \<Longrightarrow>
     fx = effects m \<Longrightarrow> R p base (m\<lparr>outside := x, effects := fx @ es\<rparr>)"
  by (auto intro!: R_effects)

lemma R_start [inv_simps]:
  "R p base m \<Longrightarrow> intent (db m) (mp_profile_id p) \<noteq> None \<Longrightarrow>
     set es \<subseteq> {Ran (START (mp_service_name p)) (db m), Ran (ACTIVE (mp_service_name p)) (db m)} \<Longrightarrow>
     fx = effects m \<Longrightarrow> R p base (m\<lparr>outside := x, effects := fx @ es\<rparr>)"
  by (auto intro!: R_effects)

lemma R_persist [inv_simps]:
  "R p base m \<Longrightarrow> ok p c s \<Longrightarrow> persist_db s es now (db m) = Inr d \<Longrightarrow>
     R p base (m\<lparr>outside := x, db := d\<rparr>)"
  by (auto simp: R_def ok_def intro: wf_db_persist)

lemma J_update [inv_simps]:
  "J p base c (m\<lparr>st := s\<rparr>) \<longleftrightarrow> R p base m \<and> ok p c s"
  "J p base c (m\<lparr>evs := es\<rparr>) = J p base c m"
  by (simp_all add: J_def inv_simps)

lemma J_R: "J p base c m \<Longrightarrow> R p base m" and J_ok: "J p base c m \<Longrightarrow> ok p c (st m)"
  by (simp_all add: J_def)

text \<open>The primitive operations as rules on the invariant: what follows is proved for any later
  machine state that satisfies it.\<close>

lemma is_activeJ:
  assumes "J p base c m"
    and "\<And>b m'. J p base c m' \<Longrightarrow> st m' = st m \<Longrightarrow> db m' = db m \<Longrightarrow> Q b m'"
    and "\<And>e m'. J p base c m' \<Longrightarrow> st m' = st m \<Longrightarrow> db m' = db m \<Longrightarrow> X e m'"
  shows "wp (is_active E (mp_service_name p)) Q X m"
  by (rule is_activeI; rule assms) (use assms(1) in \<open>auto simp: J_def inv_simps\<close>)

lemma stop_serviceJ:
  assumes "J p base c m"
    and "intent (db m) (mp_profile_id p) \<in> STOP_INTENTS"
    and "\<And>b m'. J p base c m' \<Longrightarrow> st m' = st m \<Longrightarrow> db m' = db m \<Longrightarrow> Q b m'"
    and "\<And>e m'. J p base c m' \<Longrightarrow> st m' = st m \<Longrightarrow> db m' = db m \<Longrightarrow> X e m'"
  shows "wp (stop_service E (mp_service_name p)) Q X m"
  by (rule stop_serviceI; rule assms(3,4)) (use assms(1,2) in \<open>auto simp: J_def inv_simps\<close>)

lemma start_serviceJ:
  assumes "J p base c m" and "intent (db m) (mp_profile_id p) \<noteq> None"
    and "\<And>b m'. J p base c m' \<Longrightarrow> st m' = st m \<Longrightarrow> db m' = db m \<Longrightarrow> Q b m'"
    and "\<And>e m'. J p base c m' \<Longrightarrow> st m' = st m \<Longrightarrow> db m' = db m \<Longrightarrow> X e m'"
  shows "wp (start_service E (mp_service_name p)) Q X m"
  by (rule start_serviceI; rule assms(3,4)) (use assms(1,2) in \<open>auto simp: J_def inv_simps\<close>)

lemma action_persistJ:
  assumes "J p base c m"
    and "\<And>m'. J p base c m' \<Longrightarrow> st m' = st m \<Longrightarrow>
      intent (db m') (mp_profile_id p) = pending_action (st m) \<Longrightarrow> Q () m'"
    and "\<And>e m'. J p base c m' \<Longrightarrow> st m' = st m \<Longrightarrow> db m' = db m \<Longrightarrow> X e m'"
  shows "wp (action_persist E now) Q X m"
proof (rule action_persistI)
  show "X e (m\<lparr>outside := x\<rparr>)" for x e
    by (rule assms(3)) (use assms(1) in \<open>auto simp: J_def inv_simps\<close>)
  show "Q () (m\<lparr>outside := x, db := d, evs := []\<rparr>)"
    if d: "persist_db (st m) (evs m) now (db m) = Inr d" for x d
  proof (rule assms(2))
    show "J p base c (m\<lparr>outside := x, db := d, evs := []\<rparr>)"
      using assms(1) R_persist [OF J_R J_ok d] by (simp add: J_def inv_simps)
    show "intent (db (m\<lparr>outside := x, db := d, evs := []\<rparr>)) (mp_profile_id p) = pending_action (st m)"
      using intent_persist [OF d] J_ok [OF assms(1)] by (simp add: ok_def)
  qed simp
qed

lemma store_persistJ:
  assumes "J p base c m"
    and "\<And>m'. J p base c m' \<Longrightarrow> st m' = st m \<Longrightarrow>
      intent (db m') (mp_profile_id p) = pending_action (st m) \<Longrightarrow> Q () m'"
    and "\<And>e m'. J p base c m' \<Longrightarrow> st m' = st m \<Longrightarrow> db m' = db m \<Longrightarrow> X e m'"
  shows "wp (store_persist E now) Q X m"
proof (rule store_persistI)
  show "X e (m\<lparr>outside := x\<rparr>)" for x e
    by (rule assms(3)) (use assms(1) in \<open>auto simp: J_def inv_simps\<close>)
  show "Q () (m\<lparr>outside := x, db := d\<rparr>)"
    if d: "persist_db (st m) (evs m) now (db m) = Inr d" for x d
  proof (rule assms(2))
    show "J p base c (m\<lparr>outside := x, db := d\<rparr>)"
      using assms(1) R_persist [OF J_R J_ok d] by (simp add: J_def)
    show "intent (db (m\<lparr>outside := x, db := d\<rparr>)) (mp_profile_id p) = pending_action (st m)"
      using intent_persist [OF d] J_ok [OF assms(1)] by (simp add: ok_def)
  qed simp
qed

lemma pending_clear [simp]:
  "pending_action (clear_pending s) = None" "pending_action_at (clear_pending s) = None"
  by (simp_all add: clear_pending_def)

lemmas J_rules = is_activeJ stop_serviceJ start_serviceJ action_persistJ store_persistJ

lemma stop_intent_present: "a \<in> STOP_INTENTS \<Longrightarrow> \<exists>y. a = Some y"
  by (auto simp: STOP_INTENTS_def)

lemma compensate_stop_J:
  assumes "J p base c m" and "intent (db m) (mp_profile_id p) \<in> STOP_INTENTS"
  shows "wp (compensate_stop E p now)
    (\<lambda>_ m'. J p base c m' \<and> pending_action (st m') = None \<and> intent (db m') (mp_profile_id p) = None)
    (\<lambda>_. R p base) m"
  using assms unfolding compensate_stop_def
  by (auto simp: wp_simps inv_simps J_def stop_intent_present intro!: J_rules [where base = base and c = c])
     (simp_all add: inv_simps)


text \<open>What every service action ends with: the invariant and no intent left, or an exception and
  the invariant of the world.\<close>

definition settled :: "managed_profile \<Rightarrow> effect list \<Rightarrow> profile_state \<Rightarrow> 'w mach \<Rightarrow> bool" where
  "settled p base c m \<longleftrightarrow> J p base c m \<and> pending_action (st m) = None
     \<and> intent (db m) (mp_profile_id p) = None"

lemma stop_action_settles:
  assumes "J p base c m"
  shows "wp (stop_action E p now own) (\<lambda>_. settled p base c) (\<lambda>_. R p base) m"
proof (cases "stop_intent own")
  case None
  then show ?thesis using assms by (simp add: stop_action_def wp_simps J_def)
next
  case (Some a)
  then have a: "a \<in> set PENDING_ACTIONS" "Some a \<in> STOP_INTENTS"
    by (cases own; simp add: PENDING_ACTIONS_def STOP_INTENTS_def)+
  note comp = compensate_stop_J [where base = base and c = c, THEN wp_weaken]
  show ?thesis
    using assms a unfolding stop_action_def Some settled_def
    by (auto simp: wp_simps inv_simps J_def intro!: J_rules [where base = base and c = c] comp)
       (simp_all add: inv_simps)
qed

lemma start_action_settles:
  assumes "J p base c m"
  shows "wp (start_action E p now own) (\<lambda>_. settled p base c) (\<lambda>_. R p base) m"
proof (cases "start_intent own")
  case None
  then show ?thesis using assms by (simp add: start_action_def wp_simps J_def)
next
  case (Some a)
  then have a: "a \<in> set PENDING_ACTIONS"
    by (cases own; simp add: PENDING_ACTIONS_def)
  show ?thesis
    using assms a unfolding start_action_def Some settled_def option.case wp_simps
    by (simp add: inv_simps J_def, intro J_rules [where base = base and c = c] conjI impI allI)
       (auto simp: inv_simps J_def wp_simps intro!: J_rules [where base = base and c = c])
qed

lemma fail_pending_J:
  "wp (fail_pending now cat) Q X m = Q ()
     (m\<lparr>st := clear_pending (st m\<lparr>manual_override := True\<rparr>),
        evs := evs m @ [(event_of (clear_pending (st m\<lparr>manual_override := True\<rparr>)) Watchdog_action_error now)
          \<lparr>ev_action_result := Some Failed, ev_error_category := Some cat\<rparr>]\<rparr>)"
  by (simp add: fail_pending_def wp_simps)

lemma reconcile_stop_settles:
  assumes "J p base c m" and "intent (db m) (mp_profile_id p) = Some action" and "Some action \<in> STOP_INTENTS"
  shows "wp (reconcile_stop E p now action active) (\<lambda>_. settled p base c) (\<lambda>_. R p base) m"
  using assms unfolding reconcile_stop_def settled_def finalize_pending_stop_def
  by (auto simp: wp_simps inv_simps J_def fail_pending_J intro!: J_rules [where base = base and c = c])

lemma reconcile_start_settles:
  assumes "J p base c m" and "intent (db m) (mp_profile_id p) = Some action"
  shows "wp (reconcile_start E p now action active) (\<lambda>_. settled p base c) (\<lambda>_. R p base) m"
  using assms unfolding reconcile_start_def settled_def finalize_pending_start_def
  by (auto simp: wp_simps inv_simps J_def fail_pending_J intro!: J_rules [where base = base and c = c])
     (simp_all add: inv_simps)

lemma reconcile_observed_settles:
  assumes "J p base c m" and "intent (db m) (mp_profile_id p) = Some action"
  shows "wp (reconcile_observed E p now action) (\<lambda>_. settled p base c) (\<lambda>_. R p base) m"
  using assms unfolding reconcile_observed_def wp_bindE wp_except_command
  by (intro is_activeJ [where base = base and c = c])
     (auto simp: wp_simps fail_pending_J STOP_INTENTS_def J_def inv_simps settled_def
       intro!: reconcile_stop_settles reconcile_start_settles action_persistJ [where base = base and c = c])

lemma reconcile_pending_settles:
  assumes "J p base c m" and "intent (db m) (mp_profile_id p) = pending_action (st m)"
  shows "wp (reconcile_pending E p now) (\<lambda>_. settled p base c) (\<lambda>_. R p base) m"
proof (cases "pending_action (st m)")
  case None
  then show ?thesis
    using assms by (simp add: reconcile_pending_def wp_simps settled_def)
next
  case (Some a)
  then show ?thesis
    using assms reconcile_observed_settles [OF assms(1), of a] J_R [OF assms(1)]
    by (simp add: reconcile_pending_def wp_simps split: sum.splits)
qed

end
