(* ===== verification/Watchdog_Safety.thy ===== *)
theory Watchdog_Safety
  imports Watchdog_Engine
begin

text \<open>
  What the engine guarantees about the services it commands and the states it stores: the
  invariant of \<open>Watchdog_Engine\<close> carried through the checks and the public operations, when a stop
  or a start may be run at all, and the sequences of operations the daemon and the operator's
  commands produce.
\<close>

section \<open>The checks keep the invariant\<close>

definition K :: "managed_profile \<Rightarrow> effect list \<Rightarrow> 'w mach \<Rightarrow> bool" where
  "K p base m \<longleftrightarrow> R p base m \<and> wf_state (st m) \<and> ps_profile_id (st m) = mp_profile_id p
     \<and> pending_action (st m) = None \<and> intent (db m) (mp_profile_id p) = None"

lemma settled_K: "settled p base c m \<Longrightarrow> K p base m"
  by (simp add: settled_def K_def J_def ok_def)

lemma K_J: "K p base m \<Longrightarrow> J p base (core (st m)) m"
  by (simp add: K_def J_def ok_def)

lemma stop_action_K: "K p base m \<Longrightarrow> wp (stop_action E p now own) (\<lambda>_. K p base) (\<lambda>_. R p base) m"
  by (rule wp_weaken [OF stop_action_settles [OF K_J]]) (auto intro: settled_K)

lemma start_action_K: "K p base m \<Longrightarrow> wp (start_action E p now own) (\<lambda>_. K p base) (\<lambda>_. R p base) m"
  by (rule wp_weaken [OF start_action_settles [OF K_J]]) (auto intro: settled_K)

lemma store_persist_K: "K p base m \<Longrightarrow> wp (store_persist E now) (\<lambda>_. K p base) (\<lambda>_. R p base) m"
  by (rule store_persistJ [OF K_J]) (auto simp: K_def J_def ok_def)

lemma is_active_K:
  assumes "K p base m"
    and "\<And>b m'. K p base m' \<Longrightarrow> st m' = st m \<Longrightarrow> db m' = db m \<Longrightarrow> Q b m'"
    and "\<And>e m'. R p base m' \<Longrightarrow> X e m'"
  shows "wp (is_active E (mp_service_name p)) Q X m"
  using assms by (intro is_activeJ [OF K_J]) (auto simp: K_def J_def ok_def)

lemma K_update [inv_simps]:
  "K p base (m\<lparr>st := s\<rparr>) \<longleftrightarrow> R p base m \<and> wf_state s \<and> ps_profile_id s = mp_profile_id p
     \<and> pending_action s = None \<and> intent (db m) (mp_profile_id p) = None"
  "K p base (m\<lparr>evs := es\<rparr>) = K p base m"
  "K p base (m\<lparr>outside := x\<rparr>) = K p base m"
  by (simp_all add: K_def inv_simps)

lemma wf_update [inv_simps]:
  "wf_state (s\<lparr>manual_override := b\<rparr>) = wf_state s"
  "wf_state (s\<lparr>maintenance := b\<rparr>) = wf_state s"
  "wf_state (s\<lparr>last_service_active := act\<rparr>) = wf_state s"
  "wf_state (s\<lparr>last_service_check_at := t\<rparr>) = wf_state s"
  "wf_state (s\<lparr>last_check_at := t\<rparr>) = wf_state s"
  "wf_state (s\<lparr>last_transition_at := t\<rparr>) = wf_state s"
  "wf_state (s\<lparr>last_probe_error_category := cat\<rparr>) = wf_state s"
  "wf_state s \<Longrightarrow> wf_state (s\<lparr>stopped_by_watchdog := False\<rparr>)"
  "wf_state s \<Longrightarrow> wf_state (s\<lparr>stopped_by_maintenance := False\<rparr>)"
  "wf_state s \<Longrightarrow> st' \<in> set CHECK_STATUSES \<Longrightarrow> wf_state (s\<lparr>check_status := st'\<rparr>)"
  by (auto simp: wf_state_def)

lemma K_D:
  assumes "K p base m"
  shows "R p base m" "wf_state (st m)" "ps_profile_id (st m) = mp_profile_id p"
    "pending_action (st m) = None" "intent (db m) (mp_profile_id p) = None"
  using assms by (simp_all add: K_def)

lemma reconcile_service_K:
  "K p base m \<Longrightarrow> wp (reconcile_service E p now) (\<lambda>_. K p base) (\<lambda>_. R p base) m"
  unfolding reconcile_service_def note_override_def
  by (auto simp: wp_simps K_def Let_def inv_simps intro!: is_active_K [where base = base] split: option.splits)

lemma transition_wp [wp_simps]:
  "STATE_EVENT h = Some code \<Longrightarrow> wp (transition h now dur) Q X m =
     (if health_state (st m) = h then Q () m
      else Q () (m\<lparr>st := turned h now (st m),
        evs := evs m @ [(event_of (turned h now (st m)) code now)
          \<lparr>ev_previous_state := Some (Showing (health_state (st m))), ev_new_state := Some (Showing h),
           ev_outage_duration := dur\<rparr>]\<rparr>))"
  by (simp add: transition_def wp_simps)

lemma stop_if_owned_K:
  "K p base m \<Longrightarrow> wp (stop_if_owned_transition E p now) (\<lambda>_. K p base) (\<lambda>_. R p base) m"
  by (simp add: stop_if_owned_transition_def wp_simps stop_action_K)

lemma start_after_K:
  "K p base m \<Longrightarrow> wp (start_after_recovery E p now) (\<lambda>_. K p base) (\<lambda>_. R p base) m"
  by (simp add: start_after_recovery_def wp_simps start_action_K)

lemma thresholds_positive:
  "managed p \<Longrightarrow> 1 \<le> failure_threshold (config p) \<and> 1 \<le> success_threshold (config p)"
  by (simp add: managed_def valid_profile_config_def valid_timing_def)

text \<open>The states the checks pass through are well formed.\<close>

lemma wf_missed:
  assumes "wf_state s" and "1 \<le> failure_threshold cfg"
  shows
    "health_state s = Recovering \<Longrightarrow> wf_state (turned Down now (missed cfg s))"
    "health_state s \<noteq> Recovering \<Longrightarrow> wf_state (missed cfg s)"
    "health_state s = Unknown \<or> health_state s = Healthy \<Longrightarrow> wf_state (turned Degraded now (missed cfg s))"
    "health_state s \<noteq> Recovering \<Longrightarrow> wf_state (turned Down now (open_outage now (missed cfg s)))"
    "health_state s = Down \<Longrightarrow> wf_state (open_outage now (missed cfg s))"
  using assms
  by (cases "health_state s"; simp add: wf_state_def check_update_defs HEALTH_STATES_def)+

lemma wf_counted:
  assumes "wf_state s" and "1 \<le> success_threshold cfg"
  shows
    "wf_state (count_success cfg (s\<lparr>failure_count := 0\<rparr>))"
    "health_state s \<in> {Unknown, Degraded} \<Longrightarrow>
       wf_state (turned Healthy now (count_success cfg (s\<lparr>failure_count := 0\<rparr>)))"
    "health_state s = Down \<Longrightarrow>
       wf_state (turned Recovering now (begin_recovery now (s\<lparr>failure_count := 0\<rparr>)))"
  using assms
  by (cases "health_state s"; simp add: wf_state_def check_update_defs HEALTH_STATES_def)+

lemma wf_recovered:
  assumes "wf_state s" and "health_state s = Recovering"
  shows "0 \<le> j \<Longrightarrow> wf_state (arm_recovery cfg now j s)"
    and "wf_state (end_outage (turned Healthy now s))"
    and "0 \<le> j \<Longrightarrow> wf_state (end_outage (turned Healthy now (arm_recovery cfg now j s)))"
  using assms by (simp_all add: wf_state_def check_update_defs HEALTH_STATES_def)

lemma failed_check_K:
  assumes "K p base m" and "managed p"
  shows "wp (failed_check E p now) (\<lambda>_. K p base) (\<lambda>_. R p base) m"
proof -
  note wf = K_D(2) [OF assms(1)]
  have th: "1 \<le> failure_threshold (config p)" using thresholds_positive [OF assms(2)] by simp
  show ?thesis
    unfolding failed_check_def Let_def
    by (auto simp: wp_simps inv_simps K_D [OF assms(1)] wf_missed [OF wf th] intro!: stop_if_owned_K)
qed

lemma settle_recovery_K:
  assumes "K p base m" and "health_state (st m) = Recovering"
  shows "wp (settle_recovery E p now) (\<lambda>_. K p base) (\<lambda>_. R p base) m"
proof -
  note wf = K_D(2) [OF assms(1)]
  show ?thesis
    using assms unfolding settle_recovery_def complete_recovery_def Let_def
    by (auto simp: wp_simps inv_simps K_D [OF assms(1)] wf_recovered [OF wf] intro!: start_after_K
        split: prod.splits option.splits)
qed

lemma successful_check_K:
  assumes "K p base m" and "managed p"
  shows "wp (successful_check E p now) (\<lambda>_. K p base) (\<lambda>_. R p base) m"
proof -
  note wf = K_D(2) [OF assms(1)]
  have th: "1 \<le> success_threshold (config p)" using thresholds_positive [OF assms(2)] by simp
  have h: "health_state (st m) \<in> set HEALTH_STATES" using wf by (simp add: wf_state_def)
  show ?thesis
    using h unfolding successful_check_def Let_def HEALTH_STATES_def
    by (auto simp: wp_simps inv_simps K_D [OF assms(1)] wf_counted [OF wf th] intro!: start_after_K settle_recovery_K)
qed


section \<open>The public operations keep the invariant\<close>

lemma loaded_state:
  assumes "wf_db d" and "get_state_db d pid svc ip = Inr s"
  shows "wf_state s \<and> ps_profile_id s = pid \<and> intent d pid = pending_action s"
  using get_state_db_Inr [OF assms(2)]
proof (elim disjE exE conjE)
  assume "stored_state d pid = None" and "s = ProfileState pid svc ip"
  then show ?thesis
    by (simp add: intent_def wf_state_def ProfileState_def HEALTH_STATES_def CHECK_STATUSES_def)
next
  fix s0
  assume "stored_state d pid = Some s0" and "s = s0\<lparr>ps_service_name := svc, ps_kharej_ip := ip\<rparr>"
  then show ?thesis
    using assms(1) by (simp add: wf_db_def intent_def)
qed

text \<open>The contract of the operations on a world: run from a well-formed database, whatever the
  outcome, every command run is covered and the database stays well formed; when \<open>settles\<close> is
  set and the operation returns, no intent of the profile is left.\<close>

definition contract :: "bool \<Rightarrow> managed_profile \<Rightarrow> ('w world, wd_exn, 'a) act \<Rightarrow> bool" where
  "contract settles p op \<longleftrightarrow> (\<forall>w. wf_db (db w) \<longrightarrow>
     wp op (\<lambda>_ w'. cov p (effects w) (effects w') \<and> wf_db (db w')
              \<and> (settles \<longrightarrow> intent (db w') (mp_profile_id p) = None))
           (\<lambda>_ w'. cov p (effects w) (effects w') \<and> wf_db (db w')) w)"

lemma with_profile_contract:
  assumes "\<And>now base m. J p base (core (st m)) (m :: 'w mach) \<Longrightarrow>
      intent (db m) (mp_profile_id p) = pending_action (st m) \<Longrightarrow>
      wp (body now) (\<lambda>_ m'. R p base m' \<and> (settles \<longrightarrow> intent (db m') (mp_profile_id p) = None))
        (\<lambda>_. R p base) m"
  shows "contract settles p (with_profile E p body)"
  unfolding contract_def
proof (intro allI impI)
  fix w :: "'w world"
  assume wf: "wf_db (db w)"
  show "wp (with_profile E p body)
     (\<lambda>_ w'. cov p (effects w) (effects w') \<and> wf_db (db w')
        \<and> (settles \<longrightarrow> intent (db w') (mp_profile_id p) = None))
     (\<lambda>_ w'. cov p (effects w) (effects w') \<and> wf_db (db w')) w"
  proof (rule with_profileI)
    fix now and x :: 'w and s
    assume "now = fst (wall_clock E (outside w))"
      and "get_state_db (db w) (mp_profile_id p) (mp_service_name p) (mp_kharej_ip p) = Inr s"
    note s = loaded_state [OF wf this(2)]
    let ?m = "\<lparr>db = db w, outside = x, effects = effects w, st = s, evs = []\<rparr>"
    have "J p (effects w) (core (st ?m)) ?m"
      using s wf by (simp add: J_def R_def ok_def)
    from assms [OF this] s
    show "wp (body now)
       (\<lambda>_ m. cov p (effects w) (effects (world.truncate m)) \<and> wf_db (db (world.truncate m))
          \<and> (settles \<longrightarrow> intent (db (world.truncate m)) (mp_profile_id p) = None))
       (\<lambda>_ m. cov p (effects w) (effects (world.truncate m)) \<and> wf_db (db (world.truncate m))) ?m"
      by (simp add: R_def [abs_def] world.truncate_def)
  qed (simp add: wf)
qed

lemma reconcile_K:
  assumes "J p base c m" and "intent (db m) (mp_profile_id p) = pending_action (st m)"
  shows "wp (reconcile_pending E p now) (\<lambda>_. K p base) (\<lambda>_. R p base) m"
  by (rule wp_weaken [OF reconcile_pending_settles [OF assms]]) (auto intro: settled_K)

lemma reconcile_if_pending:
  "wp (with_st (\<lambda>s. whenE (pending_action s \<noteq> None) (reconcile_pending E p now))) Q X m
     = wp (reconcile_pending E p now) Q X m"
  by (auto simp: wp_simps reconcile_pending_def)

lemma engine_reconcile_contract: "contract True p (engine_reconcile_pending E p)"
  unfolding engine_reconcile_pending_def
  by (rule with_profile_contract, subst reconcile_if_pending, erule (1) wp_weaken [OF reconcile_K])
     (auto simp: K_def)

definition input_ok :: "probe_input \<Rightarrow> bool" where
  "input_ok i \<longleftrightarrow> (case i of Probed r \<Rightarrow> valid_probe r | Reached _ \<Rightarrow> True)"

lemma as_probe_result_ok:
  "input_ok i \<Longrightarrow> \<exists>r. as_probe_result i = Inr r \<and> valid_probe r"
  by (cases i) (auto simp: input_ok_def ProbeResult_def valid_probe_def PROBE_STATUSES_def)

lemma valid_status: "valid_probe r \<Longrightarrow> status r \<in> set CHECK_STATUSES"
  by (simp add: valid_probe_def CHECK_STATUSES_def)

lemma known_statuses [simp]:
  "Success \<in> set CHECK_STATUSES" "Unreachable \<in> set CHECK_STATUSES" "Probe_error \<in> set CHECK_STATUSES"
  by (simp_all add: CHECK_STATUSES_def PROBE_STATUSES_def)

lemma process_check_K:
  assumes "K p base m" and "managed p" and "valid_probe r"
  shows "wp (process_check E p now r) (\<lambda>_. K p base) (\<lambda>_. R p base) m"
proof -
  have tail:
    "wp (successful_check E p now)
      (\<lambda>_. wp (store_persist E now) (\<lambda>_. K p base) (\<lambda>_. R p base)) (\<lambda>_. R p base) m'"
    "wp (failed_check E p now)
      (\<lambda>_. wp (store_persist E now) (\<lambda>_. K p base) (\<lambda>_. R p base)) (\<lambda>_. R p base) m'"
    if "K p base m'" for m'
    by (auto intro!: wp_weaken [OF successful_check_K] wp_weaken [OF failed_check_K] store_persist_K that assms)
  show ?thesis
    unfolding process_check_def
    by (auto simp: wp_simps inv_simps K_D [OF assms(1)] valid_status [OF assms(3)]
        intro!: wp_weaken [OF reconcile_service_K] tail)
qed

lemma process_contract:
  fixes E :: "'w env"
  assumes "managed p" and "input_ok i"
  shows "contract True p (process E p i)"
proof -
  obtain r where r: "as_probe_result i = Inr r" "valid_probe r"
    using as_probe_result_ok [OF assms(2)] by blast
  have body: "wp (if mode (config p) = Disabled then ret ()
      else bindE (liftR (as_probe_result i)) (\<lambda>result.
        seqE (update (\<lambda>s. s\<lparr>last_check_at := Some now\<rparr>))
        (if status result = Probe_error then process_probe_error E now result
         else process_check E p now result))) (\<lambda>_. K p base) (\<lambda>_. R p base) m"
    if "K p base m" for now base m
    by (auto simp: wp_simps inv_simps r process_probe_error_def K_D [OF that] that
        intro!: process_check_K store_persist_K assms)
  show ?thesis
    unfolding process_def
  proof (rule with_profile_contract, unfold wp_seqE, subst reconcile_if_pending)
    fix now base and m :: "'w mach"
    assume "J p base (core (st m)) m" and "intent (db m) (mp_profile_id p) = pending_action (st m)"
    from reconcile_K [OF this]
    show "wp (reconcile_pending E p now) (\<lambda>_. wp (if mode (config p) = Disabled then ret ()
      else bindE (liftR (as_probe_result i)) (\<lambda>result.
        seqE (update (\<lambda>s. s\<lparr>last_check_at := Some now\<rparr>))
        (if status result = Probe_error then process_probe_error E now result
         else process_check E p now result)))
       (\<lambda>_ m'. R p base m' \<and> (True \<longrightarrow> intent (db m') (mp_profile_id p) = None)) (\<lambda>_. R p base))
       (\<lambda>_. R p base) m"
      by (rule wp_weaken) (rule wp_weaken [OF body], auto simp: K_def)
  qed
qed

lemma enter_maintenance_K:
  "K p base m \<Longrightarrow> wp (enter_maintenance E p now a active prev) (\<lambda>_. K p base) (\<lambda>_. R p base) m"
  unfolding enter_maintenance_def
  by (auto simp: wp_simps inv_simps K_D intro!: wp_weaken [OF stop_action_K])

lemma exit_maintenance_K:
  assumes "K p base m"
  shows "wp (exit_maintenance E p now a active prev) (\<lambda>_. K p base) (\<lambda>_. R p base) m"
  unfolding exit_maintenance_def
  by (auto simp: wp_simps inv_simps K_D [OF assms] K_D assms intro!: wp_weaken [OF start_action_K])

lemma apply_maintenance_contract:
  fixes E :: "'w env"
  shows "contract True p (apply_maintenance E p a)"
proof (cases "a \<in> {Enter_keep, Enter_stop, Exit_no_start, Exit_start}")
  case False
  then show ?thesis by (auto simp: apply_maintenance_def contract_def wp_simps)
next
  case True
  have tail: "wp (store_persist E now)
      (\<lambda>_ m'. R p base m' \<and> intent (db m') (mp_profile_id p) = None) (\<lambda>_. R p base)
      (m\<lparr>st := st m\<lparr>last_transition_at := Some now\<rparr>\<rparr>)" if "K p base m" for now base and m :: "'w mach"
    by (rule wp_weaken [OF store_persist_K]) (auto simp: inv_simps K_D [OF that] K_D)
  have "contract True p (with_profile E p (\<lambda>now.
        seqE (reconcile_pending E p now)
        (bindE (is_active E (mp_service_name p)) (\<lambda>active.
         seqE (update (\<lambda>s. s\<lparr>last_service_active := Some active, last_service_check_at := Some now\<rparr>))
         (with_st (\<lambda>s. block [
            if a \<in> {Enter_keep, Enter_stop}
            then enter_maintenance E p now a active (display_state s)
            else exit_maintenance E p now a active (display_state s),
            update (\<lambda>s. s\<lparr>last_transition_at := Some now\<rparr>),
            store_persist E now]))))))"
    by (rule with_profile_contract, unfold wp_seqE, erule (1) wp_weaken [OF reconcile_K])
       (auto simp: wp_simps inv_simps K_D intro!: is_active_K tail wp_weaken [OF enter_maintenance_K]
          wp_weaken [OF exit_maintenance_K], simp_all add: K_D)
  with True show ?thesis by (simp add: apply_maintenance_def)
qed

lemma start_owned_contract: "contract True p (start_owned_for_mode_change E p)"
  unfolding start_owned_for_mode_change_def
  by (rule with_profile_contract)
     (auto simp: wp_simps J_R settled_def intro!: wp_weaken [OF start_action_settles])

lemma rearm_contract:
  fixes E :: "'w env"
  shows "contract False p (rearm E p)"
  unfolding rearm_def
proof (rule with_profile_contract, unfold wp_engine)
  fix now base and m :: "'w mach"
  assume J: "J p base (core (st m)) m"
  show "wp (if \<not> manual_override (st m) then raise (ValueError Override_not_active)
     else bindE (is_active E (mp_service_name p)) (\<lambda>active.
       if \<not> active \<and> \<not> stopped_by_watchdog (st m) then raise (ValueError Start_before_rearm)
       else block [
         update (\<lambda>s. s\<lparr>manual_override := False, last_service_active := Some active,
           last_service_check_at := Some now\<rparr>),
         append_event (\<lambda>s. (event_of s Watchdog_manual_override now)
           \<lparr>ev_action_result := Some Rearmed\<rparr>),
         store_persist E now]))
     (\<lambda>_ m'. R p base m' \<and> (False \<longrightarrow> intent (db m') (mp_profile_id p) = None)) (\<lambda>_. R p base) m"
    using J J_R [OF J] J_ok [OF J]
    by (auto simp: wp_simps inv_simps
        intro!: is_activeJ [where base = base and c = "core (st m)"]
          store_persistJ [where base = base and c = "core (st m)"]) ((rule J_R, assumption) | simp add: inv_simps)+
qed

datatype operation =
  Reconcile | Process probe_input | Maintain maintenance_action | Start_owned | Rearm

fun perform :: "'w env \<Rightarrow> managed_profile \<Rightarrow> operation \<Rightarrow> ('w world, wd_exn, profile_state) act" where
  "perform E p Reconcile = engine_reconcile_pending E p"
| "perform E p (Process i) = process E p i"
| "perform E p (Maintain a) = apply_maintenance E p a"
| "perform E p Start_owned = start_owned_for_mode_change E p"
| "perform E p Rearm = rearm E p"

fun op_ok :: "operation \<Rightarrow> bool" where
  "op_ok (Process i) = input_ok i"
| "op_ok _ = True"

lemma perform_contract:
  assumes "managed p" and "op_ok opn"
  shows "contract (opn \<noteq> Rearm) p (perform E p opn)"
  using assms engine_reconcile_contract process_contract apply_maintenance_contract
    start_owned_contract rearm_contract
  by (cases opn) (auto simp del: op_ok.simps simp add: op_ok.simps)


section \<open>Sequences of operations\<close>

fun run_all :: "('x \<Rightarrow> ('s, 'e, 'a) act) \<Rightarrow> 'x list \<Rightarrow> 's \<Rightarrow> 's" where
  "run_all f [] s = s"
| "run_all f (x # xs) s = run_all f xs (snd (f x s))"

text \<open>What a caller of the engine may rely on: each operation it is allowed to run keeps the
  contract. The caller's own sequences then keep it too, whatever each call returns or raises.\<close>

locale profile_operations =
  fixes run :: "managed_profile \<Rightarrow> 'o \<Rightarrow> ('w world, wd_exn, 'a) act"
    and allowed :: "managed_profile \<Rightarrow> 'o \<Rightarrow> bool"
  assumes op_contract: "allowed p opn \<Longrightarrow> contract False p (run p opn)"
begin

lemma one_run:
  assumes "allowed p opn" and "wf_db (db w)"
  shows "wf_db (db (snd (run p opn w))) \<and> cov p (effects w) (effects (snd (run p opn w)))"
  using op_contract [OF assms(1)] assms(2)
  by (cases "run p opn w") (auto simp: contract_def wp_def split: prod.splits sum.splits)

lemma sequence_covered:
  assumes "\<forall>po\<in>set ops. allowed (fst po) (snd po)" and "wf_db (db w)"
  shows "wf_db (db (run_all (\<lambda>po. run (fst po) (snd po)) ops w))
    \<and> (\<exists>es. effects (run_all (\<lambda>po. run (fst po) (snd po)) ops w) = effects w @ es
          \<and> (\<forall>e\<in>set es. \<exists>po\<in>set ops. covered (fst po) e))"
  using assms
proof (induction ops arbitrary: w)
  case Nil
  then show ?case by simp
next
  case (Cons po ops)
  let ?w = "snd (run (fst po) (snd po) w)"
  have one: "wf_db (db ?w)" "cov (fst po) (effects w) (effects ?w)"
    using one_run [of "fst po" "snd po" w] Cons.prems by simp_all
  then obtain es where es: "effects ?w = effects w @ es" "list_all (covered (fst po)) es"
    by (auto simp: cov_def)
  obtain es' where es': "effects (run_all (\<lambda>po. run (fst po) (snd po)) ops ?w) = effects ?w @ es'"
      "\<forall>e\<in>set es'. \<exists>po\<in>set ops. covered (fst po) e"
      "wf_db (db (run_all (\<lambda>po. run (fst po) (snd po)) ops ?w))"
    using Cons.IH [of ?w] Cons.prems(1) one(1) by auto
  then show ?case
    using es by (intro conjI exI [of _ "es @ es'"]) (auto simp: list_all_iff)
qed

end

interpretation eng: profile_operations "perform E" "\<lambda>p opn. managed p \<and> op_ok opn" for E
proof unfold_locales
  fix p opn
  assume "managed p \<and> op_ok opn"
  then have "contract (opn \<noteq> Rearm) p (perform E p opn)" by (simp add: perform_contract)
  then show "contract False p (perform E p opn)"
    by (auto simp: contract_def elim: wp_weaken)
qed

text \<open>The worlds the Watchdog can reach: it starts with an empty profile table and no command
  run, and then any operation is run on any managed profile, in any order, while the outside
  changes in between.\<close>

inductive reachable :: "'w env \<Rightarrow> 'w world \<Rightarrow> bool" for E where
  initial: "profile_table (db w) = [] \<Longrightarrow> effects w = [] \<Longrightarrow> reachable E w"
| operation: "reachable E w \<Longrightarrow> managed p \<Longrightarrow> op_ok opn \<Longrightarrow> perform E p opn w = (r, w') \<Longrightarrow> reachable E w'"
| outside: "reachable E w \<Longrightarrow> reachable E (w\<lparr>outside := x\<rparr>)"

inductive_cases reachableE: "reachable E w"

lemma reachable_invariant:
  "reachable E w \<Longrightarrow> wf_db (db w) \<and> (\<forall>e\<in>set (effects w). \<exists>p. managed p \<and> covered p e)"
proof (induction rule: reachable.induct)
  case (initial w)
  then show ?case by (simp add: wf_db_def stored_state_def)
next
  case (operation w p opn r w')
  then have "wf_db (db w')" "cov p (effects w) (effects w')"
    using eng.one_run [of p opn w E] by simp_all
  then show ?case
    using operation by (auto simp: cov_def list_all_iff)
next
  case (outside w x)
  then show ?case by simp
qed

definition sample_env :: "bool env" where
  "sample_env =
     \<lparr>runner = (\<lambda>argv active.
        if argv ! 1 = ''is-active'' then (Completed (if active then 0 else 3), active)
        else if argv ! 1 = ''stop'' then (Completed 0, False)
        else (Completed 0, True)),
      db_fault = (\<lambda>x. (False, x)), wall_clock = (\<lambda>x. (100, x)),
      monotonic_clock = (\<lambda>x. (0, x)), jitter_source = (\<lambda>_ x. (0, x))\<rparr>"

definition sample_world :: "bool world" where
  "sample_world = \<lparr>db = empty_database, outside = True, effects = []\<rparr>"

definition outage_run :: "bool world" where
  "outage_run = run_all (\<lambda>po. perform sample_env (fst po) (snd po))
     (replicate 3 (iran 1 Auto, Process (Reached False))) sample_world"

lemma outage_run_effects: "map (\<lambda>e. case e of Ran argv d \<Rightarrow> argv) (effects outage_run)
   = [ACTIVE ''gost-iran-1.service'', ACTIVE ''gost-iran-1.service'', STOP ''gost-iran-1.service'', ACTIVE ''gost-iran-1.service'']"
  by code_simp

lemma managed_iran: "managed (iran 1 m)"
  by (auto simp: managed_def iran_def Let_def str_nat_samples [simplified] numbered_def all_digits_def
      is_digit_def safe_host_def SAFE_HOST_RE_def is_alnum_def valid_profile_config_def valid_timing_def
      intro!: exI [of _ "''1''"])

lemma reachable_run_all:
  "reachable E w \<Longrightarrow> \<forall>po\<in>set ops. managed (fst po) \<and> op_ok (snd po) \<Longrightarrow>
     reachable E (run_all (\<lambda>po. perform E (fst po) (snd po)) ops w)"
proof (induction ops arbitrary: w)
  case Nil
  then show ?case by simp
next
  case (Cons po ops)
  then have "reachable E (snd (perform E (fst po) (snd po) w))"
    by (metis list.set_intros(1) prod.collapse reachable.operation)
  with Cons show ?case by simp
qed

lemma reachable_outage_run: "reachable sample_env outage_run"
  unfolding outage_run_def
  by (rule reachable_run_all)
     (auto simp: sample_world_def empty_database_def managed_iran [simplified] input_ok_def intro: reachable.initial)


section \<open>Properties of the engine\<close>



text \<open>C4: every stored state is well formed. Whatever operations were run, and however they
  ended, a state the database holds has an enumerated health, check status and intent, counters
  that are not negative and not both running, an open outage exactly while the upstream is down
  or recovering, a recovery clock exactly while recovering, an intent exactly with its time,
  at most one owner of a stop, and the identifier it is stored under.\<close>

theorem stored_states_well_formed:
  assumes "reachable E w" and "stored_state (db w) pid = Some s"
  shows "wf_state s \<and> ps_profile_id s = pid"
  using reachable_invariant [OF assms(1)] assms(2) by (simp add: wf_db_def)

theorem stored_states_well_formed_witness:
  "\<exists>s. stored_state (db outage_run) ''iran-1'' = Some s \<and> health_state s = Down \<and> wf_state s"
proof -
  have "map_option health_state (stored_state (db outage_run) ''iran-1'') = Some Down"
    by code_simp
  then obtain s where s: "stored_state (db outage_run) ''iran-1'' = Some s" "health_state s = Down"
    by auto
  with stored_states_well_formed [OF reachable_outage_run s(1)] show ?thesis by blast
qed


definition pending_world :: "bool world" where
  "pending_world = sample_world\<lparr>db := (case persist_db
     ((ProfileState ''iran-1'' ''gost-iran-1.service'' ''10.0.0.1'')
       \<lparr>pending_action := Some Stop_watchdog, pending_action_at := Some 90\<rparr>) [] 90 empty_database of
     Inl _ \<Rightarrow> empty_database | Inr d \<Rightarrow> d)\<rparr>"


end
