(* ===== verification/Watchdog_Guards.thy ===== *)
theory Watchdog_Guards
  imports Watchdog_Safety
begin

text \<open>
  When the engine may run a service command at all: the commands a check can run, as a function
  of the profile's configuration and of the state the check started from. The set \<open>A\<close> of the rules
  is the set of argument vectors that may have been run since \<open>base\<close>.
\<close>

section \<open>The commands run since a point\<close>

fun argv_of :: "effect \<Rightarrow> string list" where
  "argv_of (Ran argv d) = argv"

definition only :: "string list set \<Rightarrow> effect list \<Rightarrow> effect list \<Rightarrow> bool" where
  "only A base fx \<longleftrightarrow> (\<exists>es. fx = base @ es \<and> argv_of ` set es \<subseteq> A)"

lemma only_refl [simp]: "only A base base"
  by (simp add: only_def)

lemma only_append: "only A base fx \<Longrightarrow> argv_of ` set es \<subseteq> A \<Longrightarrow> only A base (fx @ es)"
  by (auto simp: only_def image_subset_iff)

abbreviation service_commands :: "managed_profile \<Rightarrow> string list set" where
  "service_commands p \<equiv> {ACTIVE (mp_service_name p), STOP (mp_service_name p), START (mp_service_name p)}"

lemma is_active_only:
  assumes "only A base (effects m)" and "ACTIVE svc \<in> A"
    and "\<And>b m'. only A base (effects m') \<Longrightarrow> st m' = st m \<Longrightarrow> Q b m'"
    and "\<And>e m'. only A base (effects m') \<Longrightarrow> X e m'"
  shows "wp (is_active E svc) Q X m"
  by (rule is_activeI; rule assms) (use assms(1,2) in \<open>auto intro!: only_append\<close>)

lemma stop_service_only:
  assumes "only A base (effects m)" and "{ACTIVE svc, STOP svc} \<subseteq> A"
    and "\<And>b m'. only A base (effects m') \<Longrightarrow> st m' = st m \<Longrightarrow> Q b m'"
    and "\<And>e m'. only A base (effects m') \<Longrightarrow> X e m'"
  shows "wp (stop_service E svc) Q X m"
  by (rule stop_serviceI; rule assms) (use assms(1,2) in \<open>fastforce intro!: only_append\<close>)+

lemma start_service_only:
  assumes "only A base (effects m)" and "{ACTIVE svc, START svc} \<subseteq> A"
    and "\<And>b m'. only A base (effects m') \<Longrightarrow> st m' = st m \<Longrightarrow> Q b m'"
    and "\<And>e m'. only A base (effects m') \<Longrightarrow> X e m'"
  shows "wp (start_service E svc) Q X m"
  by (rule start_serviceI; rule assms) (use assms(1,2) in \<open>fastforce intro!: only_append\<close>)+

lemma action_persist_only:
  assumes "only A base (effects m)"
    and "\<And>m'. only A base (effects m') \<Longrightarrow> st m' = st m \<Longrightarrow> Q () m'"
    and "\<And>e m'. only A base (effects m') \<Longrightarrow> X e m'"
  shows "wp (action_persist E now) Q X m"
  by (rule action_persistI; rule assms) (use assms(1) in auto)

lemma store_persist_only:
  assumes "only A base (effects m)"
    and "\<And>m'. only A base (effects m') \<Longrightarrow> st m' = st m \<Longrightarrow> Q () m'"
    and "\<And>e m'. only A base (effects m') \<Longrightarrow> X e m'"
  shows "wp (store_persist E now) Q X m"
  by (rule store_persistI; rule assms) (use assms(1) in auto)

lemmas only_rules =
  is_active_only stop_service_only start_service_only action_persist_only store_persist_only

text \<open>The rules with everything but the commands forgotten.\<close>

definition may_run :: "string list set \<Rightarrow> effect list \<Rightarrow> ('w, 'a) engine \<Rightarrow> 'w mach \<Rightarrow> bool" where
  "may_run A base op m \<longleftrightarrow>
     wp op (\<lambda>_ m'. only A base (effects m')) (\<lambda>_ m'. only A base (effects m')) m"

lemma stop_action_may_run:
  "only A base (effects m) \<Longrightarrow> service_commands p \<subseteq> A \<Longrightarrow> may_run A base (stop_action E p now own) m"
  unfolding may_run_def stop_action_def compensate_stop_def
  by (auto simp: wp_simps intro!: only_rules [where A = A and base = base] split: option.splits)

lemma start_action_may_run:
  "only A base (effects m) \<Longrightarrow> {ACTIVE (mp_service_name p), START (mp_service_name p)} \<subseteq> A \<Longrightarrow>
     may_run A base (start_action E p now own) m"
  unfolding may_run_def start_action_def
  by (auto simp: wp_simps intro!: only_rules [where A = A and base = base] split: option.splits)


section \<open>When a check may stop or start the service\<close>

definition stop_due :: "managed_profile \<Rightarrow> profile_state \<Rightarrow> bool" where
  "stop_due p s \<longleftrightarrow> mode (config p) = Auto \<and> \<not> maintenance s \<and> \<not> manual_override s
     \<and> health_state s \<noteq> Recovering \<and> failure_threshold (config p) \<le> failure_count s + 1"

definition start_due :: "managed_profile \<Rightarrow> int \<Rightarrow> profile_state \<Rightarrow> bool" where
  "start_due p now s \<longleftrightarrow> mode (config p) = Auto \<and> \<not> maintenance s \<and> \<not> manual_override s
     \<and> stopped_by_watchdog s
     \<and> (health_state s = Healthy
        \<or> health_state s \<notin> {Unknown, Degraded}
          \<and> success_threshold (config p) \<le> (if health_state s = Down then 1 else success_count s + 1)
          \<and> (case (if health_state s = Down then None else recovery_ready_at s) of
               None \<Rightarrow> recovery_hold_seconds (config p) \<le> 0
             | Some t \<Rightarrow> t \<le> now))"

lemma failed_check_may_run:
  assumes "only A base (effects m)" and "stop_due p (st m) \<Longrightarrow> service_commands p \<subseteq> A"
  shows "may_run A base (failed_check E p now) m"
proof -
  have stop: "may_run A base (stop_action E p now By_watchdog) m'"
    if "only A base (effects m')" and "stop_due p (st m)" for m'
    using that assms(2) by (simp add: stop_action_may_run)
  show ?thesis
    using assms(1) stop
    unfolding may_run_def failed_check_def Let_def stop_if_owned_transition_def stop_due_def
    by (auto simp: wp_simps)
qed

lemma start_after_may_run:
  assumes "only A base (effects m)"
    and "mode (config p) = Auto \<Longrightarrow> \<not> maintenance (st m) \<Longrightarrow> \<not> manual_override (st m) \<Longrightarrow>
      stopped_by_watchdog (st m) \<Longrightarrow> {ACTIVE (mp_service_name p), START (mp_service_name p)} \<subseteq> A"
  shows "may_run A base (start_after_recovery E p now) m"
  using assms start_action_may_run [of A base m p E now By_watchdog]
  by (auto simp: may_run_def start_after_recovery_def wp_simps)

lemma settle_recovery_may_run:
  assumes "only A base (effects m)"
    and "mode (config p) = Auto \<Longrightarrow> \<not> maintenance (st m) \<Longrightarrow> \<not> manual_override (st m) \<Longrightarrow>
      stopped_by_watchdog (st m) \<Longrightarrow> success_threshold (config p) \<le> success_count (st m) \<Longrightarrow>
      (case recovery_ready_at (st m) of None \<Rightarrow> recovery_hold_seconds (config p) \<le> 0 | Some t \<Rightarrow> t \<le> now) \<Longrightarrow>
      {ACTIVE (mp_service_name p), START (mp_service_name p)} \<subseteq> A"
  shows "may_run A base (settle_recovery E p now) m"
  using assms unfolding may_run_def settle_recovery_def complete_recovery_def Let_def
  by (auto simp: wp_simps split: prod.splits option.splits intro!: start_after_may_run [unfolded may_run_def])

lemma successful_check_may_run:
  assumes "only A base (effects m)"
    and "start_due p now (st m) \<Longrightarrow> {ACTIVE (mp_service_name p), START (mp_service_name p)} \<subseteq> A"
  shows "may_run A base (successful_check E p now) m"
  using assms unfolding may_run_def successful_check_def Let_def start_due_def
  by (auto simp: wp_simps intro!: start_after_may_run [unfolded may_run_def]
      settle_recovery_may_run [unfolded may_run_def])


text \<open>The reconciliation of the service state asks at most for the state of the unit; it can
  only take the protection away: the health part of the state is untouched, an override stays
  and no ownership appears.\<close>

definition weaker :: "profile_state \<Rightarrow> profile_state \<Rightarrow> bool" where
  "weaker s s' \<longleftrightarrow> core s' = core s \<and> maintenance s' = maintenance s
     \<and> (manual_override s \<longrightarrow> manual_override s') \<and> (stopped_by_watchdog s' \<longrightarrow> stopped_by_watchdog s)"

lemma reconcile_service_weakens:
  assumes "only A base (effects m)" and "ACTIVE (mp_service_name p) \<in> A" and "pending_action (st m) = None"
  shows "wp (reconcile_service E p now) (\<lambda>_ m'. only A base (effects m') \<and> weaker (st m) (st m'))
    (\<lambda>_ m'. only A base (effects m')) m"
  using assms unfolding reconcile_service_def note_override_def
  by (auto simp: wp_simps Let_def weaker_def core_def
      intro!: is_active_only [where A = A and base = base] split: option.splits)

lemma core_fields:
  "core s' = core s \<Longrightarrow> health_state s' = health_state s \<and> failure_count s' = failure_count s
     \<and> success_count s' = success_count s \<and> recovery_ready_at s' = recovery_ready_at s"
  by (drule arg_cong [where f = "\<lambda>s. (health_state s, failure_count s, success_count s, recovery_ready_at s)"])
     (simp add: core_def)

lemma weaker_due:
  "weaker s s' \<Longrightarrow> stop_due p s' \<Longrightarrow> stop_due p s"
  "weaker s s' \<Longrightarrow> start_due p now s' \<Longrightarrow> start_due p now s"
  unfolding weaker_def stop_due_def start_due_def by (auto dest: core_fields)

lemma due_frame [simp]:
  "stop_due p (s\<lparr>last_check_at := t\<rparr>) = stop_due p s"
  "stop_due p (s\<lparr>check_status := cs, last_probe_error_category := c\<rparr>) = stop_due p s"
  "start_due p now (s\<lparr>last_check_at := t\<rparr>) = start_due p now s"
  "start_due p now (s\<lparr>check_status := cs, last_probe_error_category := c\<rparr>) = start_due p now s"
  by (simp_all add: stop_due_def start_due_def)

text \<open>The commands a check of an upstream with the given probe status may run.\<close>

definition check_commands :: "managed_profile \<Rightarrow> int \<Rightarrow> profile_state \<Rightarrow> check_status \<Rightarrow> string list set" where
  "check_commands p now s verd =
     (if mode (config p) \<noteq> Auto \<or> verd = Probe_error then {}
      else if verd = Success
      then insert (ACTIVE (mp_service_name p))
             (if start_due p now s then {START (mp_service_name p)} else {})
      else insert (ACTIVE (mp_service_name p))
             (if stop_due p s then {STOP (mp_service_name p), START (mp_service_name p)} else {}))"

lemma process_check_may_run:
  fixes m :: "'b mach"
  assumes "pending_action (st m) = None" and "status r \<noteq> Probe_error"
  shows "may_run (check_commands p now (st m) (status r)) (effects m) (process_check E p now r) m"
proof -
  let ?A = "check_commands p now (st m) (status r)"
  let ?s = "st m\<lparr>check_status := status r, last_probe_error_category := None\<rparr>"
  have tail: "wp (if status r = Success then successful_check E p now else failed_check E p now)
      (\<lambda>_. wp (store_persist E now) (\<lambda>_ m'. only ?A (effects m) (effects m')) (\<lambda>_ m'. only ?A (effects m) (effects m')))
      (\<lambda>_ m'. only ?A (effects m) (effects m')) m'"
    if m': "only ?A (effects m) (effects m')" "stop_due p (st m') \<Longrightarrow> stop_due p (st m)"
      "start_due p now (st m') \<Longrightarrow> start_due p now (st m)" for m'
  proof (cases "status r = Success")
    case True
    have "may_run ?A (effects m) (successful_check E p now) m'"
      using m' True by (intro successful_check_may_run) (auto simp: check_commands_def start_due_def)
    with True show ?thesis
      by (auto simp: may_run_def elim!: wp_weaken intro!: store_persist_only)
  next
    case False
    have "may_run ?A (effects m) (failed_check E p now) m'"
      using m' False assms(2) by (intro failed_check_may_run) (auto simp: check_commands_def stop_due_def)
    with False show ?thesis
      by (auto simp: may_run_def elim!: wp_weaken intro!: store_persist_only)
  qed
  have recon: "wp (whenE (mode (config p) = Auto) (reconcile_service E p now))
      (\<lambda>_ m'. only ?A (effects m) (effects m') \<and> weaker ?s (st m'))
      (\<lambda>_ m'. only ?A (effects m) (effects m')) m1"
    if "effects m1 = effects m" "st m1 = ?s" for m1
  proof (cases "mode (config p) = Auto")
    case True
    then have "ACTIVE (mp_service_name p) \<in> ?A" using assms(2) by (simp add: check_commands_def)
    with reconcile_service_weakens [of ?A "effects m" m1 p E now] that True assms(1) show ?thesis
      by (simp add: wp_simps)
  next
    case False
    with that show ?thesis by (simp add: wp_simps weaker_def)
  qed
  have rest: "wp (whenE (mode (config p) = Auto) (reconcile_service E p now))
      (\<lambda>_. wp (if status r = Success then successful_check E p now else failed_check E p now)
        (\<lambda>_. wp (store_persist E now) (\<lambda>_ m'. only ?A (effects m) (effects m')) (\<lambda>_ m'. only ?A (effects m) (effects m')))
        (\<lambda>_ m'. only ?A (effects m) (effects m')))
      (\<lambda>_ m'. only ?A (effects m) (effects m')) m1"
    if "effects m1 = effects m" "st m1 = ?s" for m1
  proof (rule wp_weaken [OF recon [OF that]])
    fix m' :: "'b mach"
    assume "only ?A (effects m) (effects m') \<and> weaker ?s (st m')"
    then show "wp (if status r = Success then successful_check E p now else failed_check E p now)
        (\<lambda>_. wp (store_persist E now) (\<lambda>_ m'. only ?A (effects m) (effects m')) (\<lambda>_ m'. only ?A (effects m) (effects m')))
        (\<lambda>_ m'. only ?A (effects m) (effects m')) m'"
      by (intro tail) (auto dest: weaker_due)
  qed
  show ?thesis
    unfolding may_run_def process_check_def wp_block
    by (simp add: wp_engine wp_whenE [of "check_status s = Probe_error" for s] rest)
qed

abbreviation loads :: "database \<Rightarrow> managed_profile \<Rightarrow> profile_state \<Rightarrow> bool" where
  "loads d p s \<equiv> get_state_db d (mp_profile_id p) (mp_service_name p) (mp_kharej_ip p) = Inr s"

lemma check_commands_frame [simp]:
  "check_commands p now (s\<lparr>last_check_at := t\<rparr>) v = check_commands p now s v"
  by (simp add: check_commands_def)

lemma process_commands:
  assumes "loads (db w) p s" and "pending_action s = None" and "process E p i w = (r, w')"
    and "as_probe_result i = Inr pr"
  shows "only (check_commands p (fst (wall_clock E (outside w))) s (status pr)) (effects w) (effects w')"
proof -
  let ?A = "check_commands p (fst (wall_clock E (outside w))) s (status pr)"
  have check: "wp (process_check E p (fst (wall_clock E (outside w))) pr)
      (\<lambda>_ m'. only ?A (effects w) (effects m')) (\<lambda>_ m'. only ?A (effects w) (effects m')) m"
    if "effects m = effects w" "st m = s\<lparr>last_check_at := t\<rparr>" "status pr \<noteq> Probe_error" for m t
    using process_check_may_run [of m pr p "fst (wall_clock E (outside w))" E] that assms(2)
    by (simp add: may_run_def)
  have "wp (process E p i) (\<lambda>_ w'. only ?A (effects w) (effects w')) (\<lambda>_ w'. only ?A (effects w) (effects w')) w"
    unfolding process_def
    by (rule with_profileI)
       (use assms(1,2,4) in \<open>auto simp: wp_simps world.truncate_def process_probe_error_def
          intro!: store_persist_only check\<close>)
  with assms(3) show ?thesis
    by (auto simp: wp_def split: sum.splits)
qed

lemma new_effect:
  "only A base fx \<Longrightarrow> fx = base @ es \<Longrightarrow> Ran argv d \<in> set es \<Longrightarrow> argv \<in> A"
  by (auto simp: only_def image_subset_iff dest: bspec [where x = "Ran argv d"])


section \<open>Properties\<close>



text \<open>Outside auto mode the Watchdog only watches: a check of a profile in monitor or disabled
  mode with no intent pending runs no command at all, whatever the probe says; nor does a probe
  that could not be executed, in any mode.\<close>

theorem unprotected_check_runs_nothing:
  assumes "loads (db w) p s" and "pending_action s = None"
    and "process E p i w = (r, w')" and "as_probe_result i = Inr pr"
    and "mode (config p) \<noteq> Auto \<or> status pr = Probe_error"
  shows "effects w' = effects w"
  using process_commands [OF assms(1-4)] assms(5)
  by (auto simp: only_def check_commands_def split: if_splits)


text \<open>Concrete runs: the third failed check of a service that is up, and the second successful
  check of a recovering one after its hold time.\<close>

definition two_failures :: "bool world" where
  "two_failures = run_all (\<lambda>po. perform sample_env (fst po) (snd po))
     (replicate 2 (iran 1 Auto, Process (Reached False))) sample_world"

definition recovering_world :: "bool world" where
  "recovering_world = sample_world\<lparr>outside := False, db := (case persist_db
     ((ProfileState ''iran-1'' ''gost-iran-1.service'' ''10.0.0.1'')
       \<lparr>health_state := Recovering, stopped_by_watchdog := True, success_count := 1,
        outage_started_at := Some 10, recovery_started_at := Some 80, recovery_ready_at := Some 95,
        last_service_active := Some False, last_service_check_at := Some 80\<rparr>) [] 90 empty_database of
     Inl _ \<Rightarrow> empty_database | Inr d \<Rightarrow> d)\<rparr>"

lemma run_parts:
  assumes "case get_state_db (db w) (mp_profile_id p) (mp_service_name p) (mp_kharej_ip p) of
      Inl _ \<Rightarrow> False | Inr s \<Rightarrow> pending_action s = None"
    and "take (length (effects w)) (effects (snd (process E p i w))) = effects w"
  obtains s r w' where "loads (db w) p s" "pending_action s = None" "process E p i w = (r, w')"
    "effects w' = effects w @ drop (length (effects w)) (effects w')"
  using assms append_take_drop_id [of "length (effects w)" "effects (snd (process E p i w))"]
  by (cases "process E p i w") (auto split: sum.splits)

lemma ran_in: "argv \<in> set (map argv_of es) \<Longrightarrow> \<exists>d. Ran argv d \<in> set es"
proof -
  assume "argv \<in> set (map argv_of es)"
  then obtain e where "e \<in> set es" "argv = argv_of e" by auto
  then show ?thesis by (cases e rule: effect.exhaust) auto
qed



theorem unprotected_check_runs_nothing_witness:
  "effects (snd (process sample_env (iran 1 Monitor) (Reached False) sample_world)) = []"
proof -
  obtain r w' where run: "process sample_env (iran 1 Monitor) (Reached False) sample_world = (r, w')"
    by fastforce
  have s: "loads (db sample_world) (iran 1 Monitor) (ProfileState (mp_profile_id (iran 1 Monitor))
      (mp_service_name (iran 1 Monitor)) (mp_kharej_ip (iran 1 Monitor)))"
    by (simp add: sample_world_def empty_database_def get_state_db_def)
  have pr: "as_probe_result (Reached False) = Inr \<lparr>status = Unreachable, pr_error_category = None\<rparr>"
    by (simp add: ProbeResult_def PROBE_STATUSES_def)
  have "mode (config (iran 1 Monitor)) \<noteq> Auto" by (simp add: iran_def Let_def)
  with unprotected_check_runs_nothing [OF s _ run pr] run show ?thesis
    by (simp add: ProfileState_def sample_world_def)
qed

end
