(* ===== verification/Watchdog_Health.thy ===== *)
theory Watchdog_Health
  imports Watchdog_Guards
begin

text \<open>
  The abstract specification of the health state machine: what the Watchdog believes about one
  upstream, and how one check changes it (\<open>on_failure\<close>, \<open>on_success\<close>), without services, intents,
  events or the database. The refinement lemma shows that \<open>WatchdogEngine.process\<close> implements it;
  the counting properties of runs of checks are then proved on the specification.
\<close>

section \<open>The specification\<close>

record upstream =
  u_health :: health
  u_failures :: int
  u_successes :: int
  u_outage :: "int option"
  u_started :: "int option"
  u_ready :: "int option"
  u_jitter :: int

definition abs_up :: "profile_state \<Rightarrow> upstream" where
  "abs_up s = \<lparr>u_health = health_state s, u_failures = failure_count s, u_successes = success_count s,
     u_outage = outage_started_at s, u_started = recovery_started_at s, u_ready = recovery_ready_at s,
     u_jitter = recovery_jitter_seconds s\<rparr>"

definition on_failure :: "profile_config \<Rightarrow> int \<Rightarrow> upstream \<Rightarrow> upstream" where
  "on_failure cfg now u =
     (let n = min (u_failures u + 1) (failure_threshold cfg);
          u' = u\<lparr>u_failures := n, u_successes := 0, u_started := None, u_ready := None, u_jitter := 0\<rparr>
      in if u_health u = Recovering then u'\<lparr>u_health := Down\<rparr>
         else if failure_threshold cfg \<le> n
         then u'\<lparr>u_health := Down, u_outage := (if u_outage u = None then Some now else u_outage u)\<rparr>
         else if u_health u \<in> {Unknown, Healthy} then u'\<lparr>u_health := Degraded\<rparr>
         else u')"

text \<open>Enough successes fix the moment the recovery is complete (\<open>j\<close> is the jitter drawn for it);
  the first check at or after it ends the outage.\<close>

definition settle :: "profile_config \<Rightarrow> int \<Rightarrow> int \<Rightarrow> upstream \<Rightarrow> upstream" where
  "settle cfg now j u =
     (if u_successes u < success_threshold cfg then u
      else let u' = (if u_ready u = None
                     then u\<lparr>u_ready := Some (now + recovery_hold_seconds cfg + j), u_jitter := j\<rparr> else u)
           in if the (u_ready u') \<le> now
              then u'\<lparr>u_health := Healthy, u_outage := None, u_started := None, u_ready := None, u_jitter := 0\<rparr>
              else u')"

definition on_success :: "profile_config \<Rightarrow> int \<Rightarrow> int \<Rightarrow> upstream \<Rightarrow> upstream" where
  "on_success cfg now j u =
     (let n = min (u_successes u + 1) (success_threshold cfg); u' = u\<lparr>u_failures := 0\<rparr>
      in if u_health u \<in> {Unknown, Degraded, Healthy} then u'\<lparr>u_successes := n, u_health := Healthy\<rparr>
         else if u_health u = Down
         then settle cfg now j (u'\<lparr>u_successes := 1, u_started := Some now, u_ready := None, u_jitter := 0,
                u_health := Recovering\<rparr>)
         else settle cfg now j (u'\<lparr>u_successes := n\<rparr>))"

text \<open>One check with the probe's verdict, the time and the jitter: a probe that could not be
  executed says nothing about the upstream.\<close>

definition health_step :: "profile_config \<Rightarrow> check_status \<times> int \<times> int \<Rightarrow> upstream \<Rightarrow> upstream" where
  "health_step cfg ob u =
     (case ob of (v, now, j) \<Rightarrow>
        if v = Probe_error then u
        else if v = Success then on_success cfg now j u else on_failure cfg now u)"


section \<open>Refinement\<close>

lemma abs_up_fields [simp]:
  "u_health (abs_up s) = health_state s" "u_failures (abs_up s) = failure_count s"
  "u_successes (abs_up s) = success_count s" "u_outage (abs_up s) = outage_started_at s"
  "u_started (abs_up s) = recovery_started_at s" "u_ready (abs_up s) = recovery_ready_at s"
  "u_jitter (abs_up s) = recovery_jitter_seconds s"
  by (simp_all add: abs_up_def)

lemma abs_up_update:
  "abs_up (turned h now s) = (abs_up s)\<lparr>u_health := h\<rparr>"
  "abs_up (count_success cfg s) = (abs_up s)\<lparr>u_successes := min (success_count s + 1) (success_threshold cfg)\<rparr>"
  "abs_up (begin_recovery now s) =
     (abs_up s)\<lparr>u_successes := 1, u_started := Some now, u_ready := None, u_jitter := 0\<rparr>"
  "abs_up (arm_recovery cfg now j s) =
     (abs_up s)\<lparr>u_ready := Some (now + recovery_hold_seconds cfg + j), u_jitter := j\<rparr>"
  "abs_up (end_outage s) = (abs_up s)\<lparr>u_outage := None, u_started := None, u_ready := None, u_jitter := 0\<rparr>"
  "abs_up (missed cfg s) = (abs_up s)\<lparr>u_failures := min (failure_count s + 1) (failure_threshold cfg),
     u_successes := 0, u_started := None, u_ready := None, u_jitter := 0\<rparr>"
  "abs_up (open_outage now s) =
     (abs_up s)\<lparr>u_outage := (if outage_started_at s = None then Some now else outage_started_at s)\<rparr>"
  "abs_up (s\<lparr>failure_count := n\<rparr>) = (abs_up s)\<lparr>u_failures := n\<rparr>"
  by (simp_all add: abs_up_def check_update_defs)

lemma abs_up_frame [simp]:
  "abs_up (s\<lparr>last_check_at := t\<rparr>) = abs_up s"
  "abs_up (s\<lparr>check_status := v, last_probe_error_category := e\<rparr>) = abs_up s"
  "abs_up (s\<lparr>ps_service_name := svc, ps_kharej_ip := ip\<rparr>) = abs_up s"
  by (simp_all add: abs_up_def)

lemma abs_core: "core s' = core s \<Longrightarrow> abs_up s' = abs_up s"
proof -
  have "abs_up (core s) = abs_up s" for s by (simp add: core_def abs_up_def)
  then show "core s' = core s \<Longrightarrow> abs_up s' = abs_up s" by metis
qed

lemma settled_abs: "settled p base c m \<Longrightarrow> K p base m \<and> core (st m) = c"
  by (simp add: settled_K) (simp add: settled_def J_def ok_def)

lemma stop_if_owned_abs:
  assumes "K p base m" and "abs_up (st m) = u"
  shows "wp (stop_if_owned_transition E p now) (\<lambda>_ m'. K p base m' \<and> abs_up (st m') = u) (\<lambda>_ _. True) m"
proof -
  have "wp (stop_action E p now By_watchdog) (\<lambda>_ m'. K p base m' \<and> abs_up (st m') = u) (\<lambda>_ _. True) m"
    by (rule wp_weaken [OF stop_action_settles [OF K_J [OF assms(1)]]])
       (use assms(2) in \<open>blast dest: settled_abs abs_core\<close>)+
  with assms show ?thesis by (simp add: stop_if_owned_transition_def wp_simps)
qed

lemma start_after_abs:
  assumes "K p base m" and "abs_up (st m) = u"
  shows "wp (start_after_recovery E p now) (\<lambda>_ m'. K p base m' \<and> abs_up (st m') = u) (\<lambda>_ _. True) m"
proof -
  have "wp (start_action E p now By_watchdog) (\<lambda>_ m'. K p base m' \<and> abs_up (st m') = u) (\<lambda>_ _. True) m"
    by (rule wp_weaken [OF start_action_settles [OF K_J [OF assms(1)]]])
       (use assms(2) in \<open>blast dest: settled_abs abs_core\<close>)+
  with assms show ?thesis by (simp add: start_after_recovery_def wp_simps)
qed

lemma failed_check_abs:
  assumes "K p base m" and "managed p"
  shows "wp (failed_check E p now)
    (\<lambda>_ m'. K p base m' \<and> abs_up (st m') = on_failure (config p) now (abs_up (st m))) (\<lambda>_ _. True) m"
proof -
  note K = K_D [OF assms(1)]
  have th: "1 \<le> failure_threshold (config p)" using thresholds_positive [OF assms(2)] by simp
  note wf = wf_missed [OF K(2) th]
  have stop: "wp (whenE b (stop_if_owned_transition E p now))
      (\<lambda>_ m'. K p base m' \<and> abs_up (st m') = abs_up (st m1)) (\<lambda>_ _. True) m1" if "K p base m1" for b m1
    using that by (simp add: wp_simps stop_if_owned_abs)
  consider "health_state (st m) = Recovering"
    | "health_state (st m) \<noteq> Recovering" "failure_threshold (config p) \<le> failure_count (st m) + 1"
    | "health_state (st m) \<noteq> Recovering" "failure_count (st m) + 1 < failure_threshold (config p)"
    by linarith
  then show ?thesis
  proof cases
    case 1
    then show ?thesis
      by (simp add: failed_check_def Let_def wp_simps inv_simps K wf abs_up_update on_failure_def)
  next
    case 2
    show ?thesis
      unfolding failed_check_def Let_def wp_seqE wp_engine
      using 2
      by (simp add: wp_seqE wp_block wp_engine transition_wp, intro conjI impI)
         (rule wp_weaken [OF stop], simp add: inv_simps K wf,
          simp add: abs_up_def on_failure_def check_update_defs min_def, simp)+
  next
    case 3
    then show ?thesis
      by (simp add: failed_check_def Let_def wp_simps inv_simps K wf abs_up_update on_failure_def)
  qed
qed

lemma complete_recovery_abs:
  assumes "K p base m" and "health_state (st m) = Recovering"
  shows "wp (complete_recovery E p now)
    (\<lambda>_ m'. K p base m' \<and> abs_up (st m') = (abs_up (st m))\<lparr>u_health := Healthy, u_outage := None,
       u_started := None, u_ready := None, u_jitter := 0\<rparr>) (\<lambda>_ _. True) m"
  unfolding complete_recovery_def
  by (simp add: wp_simps assms(2), rule start_after_abs)
     (simp_all add: inv_simps K_D [OF assms(1)] wf_recovered [OF K_D(2) [OF assms(1)] assms(2)] abs_up_update)

lemma managed_jitter: "managed p \<Longrightarrow> 0 \<le> recovery_jitter_max_seconds (config p)"
  by (simp add: managed_def valid_profile_config_def valid_timing_def)

lemma settle_recovery_abs:
  assumes "K p base m" and "health_state (st m) = Recovering" and "managed p"
  shows "wp (settle_recovery E p now)
    (\<lambda>_ m'. K p base m' \<and> (\<exists>j. 0 \<le> j \<and> j \<le> recovery_jitter_max_seconds (config p)
        \<and> abs_up (st m') = settle (config p) now j (abs_up (st m)))) (\<lambda>_ _. True) m"
proof -
  let ?max = "recovery_jitter_max_seconds (config p)"
  note K = K_D [OF assms(1)] and wf = wf_recovered [OF K_D(2) [OF assms(1)] assms(2)]
  note compl = complete_recovery_abs [THEN wp_weaken]
  have j0: "\<exists>j. 0 \<le> j \<and> j \<le> ?max" using managed_jitter [OF assms(3)] by auto
  consider "success_count (st m) < success_threshold (config p)"
    | t where "success_threshold (config p) \<le> success_count (st m)" "recovery_ready_at (st m) = Some t"
    | "success_threshold (config p) \<le> success_count (st m)" "recovery_ready_at (st m) = None"
    by (cases "recovery_ready_at (st m)") force+
  then show ?thesis
  proof cases
    case 1
    with assms(1) j0 show ?thesis by (simp add: settle_recovery_def Let_def wp_simps settle_def)
  next
    case 2
    with assms(1) j0 show ?thesis
      by (auto simp: settle_recovery_def Let_def wp_simps settle_def assms intro!: compl)
  next
    case 3
    then show ?thesis
      by (auto simp: settle_recovery_def Let_def wp_simps settle_def assms inv_simps K wf abs_up_update
          intro!: compl split: prod.splits)
  qed
qed

lemma successful_check_abs:
  assumes "K p base m" and "managed p"
  shows "wp (successful_check E p now)
    (\<lambda>_ m'. K p base m' \<and> (\<exists>j. 0 \<le> j \<and> j \<le> recovery_jitter_max_seconds (config p)
        \<and> abs_up (st m') = on_success (config p) now j (abs_up (st m)))) (\<lambda>_ _. True) m"
proof -
  note K = K_D [OF assms(1)]
  have th: "1 \<le> success_threshold (config p)" using thresholds_positive [OF assms(2)] by simp
  note wf = wf_counted [OF K(2) th]
  have j0: "\<exists>j. 0 \<le> j \<and> j \<le> recovery_jitter_max_seconds (config p)"
    using managed_jitter [OF assms(2)] by auto
  note start = start_after_abs [OF _ refl, THEN wp_weaken]
    and settle = settle_recovery_abs [OF _ _ assms(2), THEN wp_weaken]
  have "health_state (st m) \<in> {Unknown, Healthy, Degraded, Down, Recovering}"
    using K(2) by (auto simp: wf_state_def HEALTH_STATES_def)
  then consider "health_state (st m) \<in> {Unknown, Degraded}" | "health_state (st m) = Healthy"
    | "health_state (st m) = Down" | "health_state (st m) = Recovering" by blast
  then show ?thesis
  proof cases
    case 1
    with j0 show ?thesis
      by (auto simp: successful_check_def Let_def wp_simps inv_simps K wf abs_up_update on_success_def)
  next
    case 2
    with j0 show ?thesis
      by (auto simp: successful_check_def Let_def wp_simps inv_simps K wf abs_up_update on_success_def
          intro!: start)
  next
    case 3
    then show ?thesis
      by (auto simp: successful_check_def Let_def wp_simps inv_simps K wf abs_up_update on_success_def
          intro!: settle)
  next
    case 4
    then show ?thesis
      by (auto simp: successful_check_def Let_def wp_simps inv_simps K wf abs_up_update on_success_def
          intro!: settle)
  qed
qed
text \<open>What the database says about the upstream of a profile, and the whole check.\<close>

definition upstream_of :: "database \<Rightarrow> managed_profile \<Rightarrow> upstream option" where
  "upstream_of d p = (case get_state_db d (mp_profile_id p) (mp_service_name p) (mp_kharej_ip p) of
     Inl _ \<Rightarrow> None | Inr s \<Rightarrow> Some (abs_up s))"

lemma upstream_of_stored:
  "stored_state d (mp_profile_id p) = Some s \<Longrightarrow> upstream_of d p = Some (abs_up s)"
  by (simp add: upstream_of_def get_state_db_stored)

lemma store_persist_upstream:
  assumes "K p base m" and "abs_up (st m) = u"
  shows "wp (store_persist E now) (\<lambda>_ m'. abs_up (st m') = u \<and> upstream_of (db m') p = Some u) (\<lambda>_ _. True) m"
proof (rule store_persistI)
  fix x d assume d: "persist_db (st m) (evs m) now (db m) = Inr d"
  then show "abs_up (st (m\<lparr>outside := x, db := d\<rparr>)) = u \<and> upstream_of (db (m\<lparr>outside := x, db := d\<rparr>)) p = Some u"
    using upstream_of_stored [of d p "st m"] pt.load_save_same [OF d] assms(2) K_D(3) [OF assms(1)] by simp
qed simp

lemma reconcile_service_abs:
  assumes "K p base m"
  shows "wp (reconcile_service E p now) (\<lambda>_ m'. K p base m' \<and> abs_up (st m') = abs_up (st m)) (\<lambda>_ _. True) m"
  by (rule wp_weaken [OF wp_conj [OF reconcile_service_K [OF assms, of E now]
        reconcile_service_weakens [where A = UNIV and base = "effects m" and m = m and p = p and E = E and now = now]]])
     (auto simp: K_D [OF assms] weaker_def intro: abs_core)

lemma process_check_abs:
  fixes m :: "'w mach"
  assumes "K p base m" and "managed p" and "valid_probe r" and "status r \<noteq> Probe_error"
  shows "wp (process_check E p now r)
    (\<lambda>_ m'. \<exists>j. 0 \<le> j \<and> j \<le> recovery_jitter_max_seconds (config p)
        \<and> abs_up (st m') = health_step (config p) (status r, now, j) (abs_up (st m))
        \<and> upstream_of (db m') p = Some (abs_up (st m'))) (\<lambda>_ _. True) m"
    (is "wp _ ?Q _ _")
proof -
  have persist: "wp (store_persist E now) ?Q (\<lambda>_ _. True) m'"
    if "K p base m'" "0 \<le> j" "j \<le> recovery_jitter_max_seconds (config p)"
      "abs_up (st m') = health_step (config p) (status r, now, j) (abs_up (st m))" for m' j
    by (rule wp_weaken [OF store_persist_upstream [OF that(1) refl]]) (use that in auto)
  have tail: "wp (if status r = Success then successful_check E p now else failed_check E p now)
      (\<lambda>_. wp (store_persist E now) ?Q (\<lambda>_ _. True)) (\<lambda>_ _. True) m'"
    if m': "K p base m'" "abs_up (st m') = abs_up (st m)" for m'
  proof (cases "status r = Success")
    case True
    then have step: "health_step (config p) (status r, now, j) u = on_success (config p) now j u" for j u
      by (simp add: health_step_def)
    show ?thesis
      unfolding if_P [OF True]
      by (rule wp_weaken [OF successful_check_abs [OF m'(1) assms(2)]], elim conjE exE)
         (rule persist, use m'(2) in \<open>simp_all add: step\<close>)
  next
    case False
    then have step: "health_step (config p) (status r, now, j) u = on_failure (config p) now u" for j u
      by (simp add: health_step_def assms(4))
    show ?thesis
      unfolding if_not_P [OF False]
      by (rule wp_weaken [OF failed_check_abs [OF m'(1) assms(2)]], elim conjE exE)
         (rule persist [where j = 0], use m'(2) managed_jitter [OF assms(2)] in \<open>simp_all add: step\<close>)
  qed
  have rest: "wp (whenE (mode (config p) = Auto) (reconcile_service E p now))
     (\<lambda>_. wp (if status r = Success then successful_check E p now else failed_check E p now)
      (\<lambda>_. wp (store_persist E now) ?Q (\<lambda>_ _. True)) (\<lambda>_ _. True)) (\<lambda>_ _. True) m1"
    if m1: "K p base m1" "abs_up (st m1) = abs_up (st m)" for m1
  proof (cases "mode (config p) = Auto")
    case True
    then show ?thesis
      by (simp only: wp_whenE if_True simp_thms)
         (rule wp_weaken [OF reconcile_service_abs [OF m1(1)]], rule tail, use m1(2) in simp_all)
  next
    case False
    then show ?thesis using tail [OF m1] by (simp only: wp_whenE if_False simp_thms)
  qed
  show ?thesis
    unfolding process_check_def wp_block
    by (simp add: wp_engine wp_whenE [of "check_status s = Probe_error" for s] inv_simps K_D [OF assms(1)]
        valid_status [OF assms(3)] rest)
qed

lemma process_abs:
  fixes E :: "'w env"
  assumes wf: "wf_db (db w)" and p: "managed p" "mode (config p) \<noteq> Disabled" and i: "as_probe_result i = Inr r" "valid_probe r"
    and u: "upstream_of (db w) p = Some u"
  shows "wp (process E p i)
    (\<lambda>s' w'. \<exists>j. 0 \<le> j \<and> j \<le> recovery_jitter_max_seconds (config p)
        \<and> abs_up s' = health_step (config p) (status r, fst (wall_clock E (outside w)), j) u
        \<and> upstream_of (db w') p = Some (abs_up s')) (\<lambda>_ _. True) w"
    (is "wp _ ?Q _ _")
  unfolding process_def
proof (rule with_profileI)
  fix now and x :: 'w and s
  assume now: "now = fst (wall_clock E (outside w))"
    and s: "get_state_db (db w) (mp_profile_id p) (mp_service_name p) (mp_kharej_ip p) = Inr s"
  let ?m = "\<lparr>db = db w, outside = x, effects = effects w, st = s, evs = []\<rparr> :: 'w mach"
  let ?Q' = "\<lambda>_ m. ?Q (st m) (world.truncate m)"
  note l = loaded_state [OF wf s]
  have J: "J p (effects w) (core (st ?m)) ?m" using l wf by (simp add: J_def R_def ok_def)
  have us: "abs_up s = u" using u s by (simp add: upstream_of_def)
  have body: "wp (bindE (liftR (as_probe_result i)) (\<lambda>result.
        seqE (update (\<lambda>s. s\<lparr>last_check_at := Some now\<rparr>))
        (if status result = Probe_error then process_probe_error E now result
         else process_check E p now result))) ?Q' (\<lambda>_ _. True) m"
    if m: "K p (effects w) m" "abs_up (st m) = u" for m :: "'w mach"
  proof (cases "status r = Probe_error")
    case True
    with managed_jitter [OF p(1)] m show ?thesis
      by (auto simp: i wp_simps process_probe_error_def inv_simps K_D [OF m(1)] world.truncate_def
          health_step_def abs_up_def intro!: wp_weaken [OF store_persist_upstream [where base = "effects w", OF _ refl]])
  next
    case False
    have "wp (process_check E p now r)
      (\<lambda>_ m'. \<exists>j. 0 \<le> j \<and> j \<le> recovery_jitter_max_seconds (config p)
        \<and> abs_up (st m') = health_step (config p) (status r, now, j) u
        \<and> upstream_of (db m') p = Some (abs_up (st m'))) (\<lambda>_ _. True) (m\<lparr>st := st m\<lparr>last_check_at := Some now\<rparr>\<rparr>)"
      using process_check_abs [of p "effects w" "m\<lparr>st := st m\<lparr>last_check_at := Some now\<rparr>\<rparr>" r E now] m(2)
      by (simp add: inv_simps K_D [OF m(1)] p(1) i(2) False)
    with False show ?thesis
      by (simp add: i wp_simps world.truncate_def now)
  qed
  show "wp (seqE (with_st (\<lambda>s. whenE (pending_action s \<noteq> None) (reconcile_pending E p now)))
     (if mode (config p) = Disabled then ret ()
      else bindE (liftR (as_probe_result i)) (\<lambda>result.
        seqE (update (\<lambda>s. s\<lparr>last_check_at := Some now\<rparr>))
        (if status result = Probe_error then process_probe_error E now result
         else process_check E p now result)))) ?Q' (\<lambda>_ _. True) ?m"
    unfolding wp_seqE reconcile_if_pending if_not_P [OF p(2)]
  proof (rule wp_weaken [OF reconcile_pending_settles [OF J]])
    fix m' :: "'w mach"
    assume "settled p (effects w) (core (st ?m)) m'"
    then have "K p (effects w) m'" "abs_up (st m') = u"
      using us abs_core [of "st m'" s] by (simp_all add: settled_abs)
    then show "wp (bindE (liftR (as_probe_result i)) (\<lambda>result.
        seqE (update (\<lambda>s. s\<lparr>last_check_at := Some now\<rparr>))
        (if status result = Probe_error then process_probe_error E now result
         else process_check E p now result))) ?Q' (\<lambda>_ _. True) m'"
      by (rule body)
  qed (use l in simp_all)
qed simp


section \<open>Runs of checks on the specification\<close>

text \<open>A run of failures counts up to the threshold, and opens the outage at the check that
  reaches it.\<close>

lemma failures_counted:
  assumes "u_health u \<in> {Unknown, Healthy, Degraded}" and "u_failures u = 0" and "u_outage u = None"
    and "1 \<le> failure_threshold cfg"
  shows "let u' = fold (on_failure cfg) ts u in
     u_failures u' = min (int (length ts)) (failure_threshold cfg)
     \<and> u_health u' = (if ts = [] then u_health u
          else if int (length ts) < failure_threshold cfg then Degraded else Down)
     \<and> u_outage u' = (if int (length ts) < failure_threshold cfg then None
          else Some (ts ! (nat (failure_threshold cfg) - 1)))"
proof (induction ts rule: rev_induct)
  case Nil
  with assms show ?case by simp
next
  case (snoc t ts)
  have nth: "(ts @ [t]) ! (nat (failure_threshold cfg) - 1) =
      (if int (length ts) < failure_threshold cfg then t else ts ! (nat (failure_threshold cfg) - 1))"
    if "failure_threshold cfg \<le> int (length ts) + 1"
    using that assms(4) by (auto simp: nth_append nat_le_iff nat_less_iff)
  from snoc show ?case
    using assms(1,4) nth by (auto simp: on_failure_def Let_def min_def split: if_splits)
qed

text \<open>Only a run of failures opens an outage: \<open>trailing\<close> counts the failures since the last
  success.\<close>

definition trailing :: "check_status list \<Rightarrow> nat" where
  "trailing vs = length (takeWhile (\<lambda>v. v \<noteq> Success) (rev vs))"

definition failing_run :: "nat \<Rightarrow> check_status list \<Rightarrow> bool" where
  "failing_run n vs \<longleftrightarrow> (\<exists>xs ys zs. vs = xs @ ys @ zs \<and> length ys = n \<and> Success \<notin> set ys)"

lemma trailing_simps [simp]:
  "trailing [] = 0" "trailing (vs @ [v]) = (if v = Success then 0 else Suc (trailing vs))"
  by (simp_all add: trailing_def)

lemma trailing_failing_run: "n \<le> trailing vs \<Longrightarrow> failing_run n vs"
proof -
  assume n: "n \<le> trailing vs"
  let ?r = "takeWhile (\<lambda>v. v \<noteq> Success) (rev vs)"
  have "vs = rev (dropWhile (\<lambda>v. v \<noteq> Success) (rev vs)) @ rev ?r"
    by (metis rev_append rev_rev_ident takeWhile_dropWhile_id)
  also have "rev ?r = rev (drop n ?r) @ rev (take n ?r)"
    by (metis append_take_drop_id rev_append)
  finally have "vs = (rev (dropWhile (\<lambda>v. v \<noteq> Success) (rev vs)) @ rev (drop n ?r)) @ rev (take n ?r) @ []"
    by simp
  moreover have "Success \<notin> set (rev (take n ?r))"
    by (auto dest!: in_set_takeD set_takeWhileD)
  ultimately show ?thesis
    using n unfolding failing_run_def trailing_def by (metis length_rev length_take min.absorb2)
qed

lemma failing_run_snoc: "failing_run n vs \<Longrightarrow> failing_run n (vs @ [v])"
  unfolding failing_run_def by (metis append.assoc)

lemma health_step_simps [simp]:
  "health_step cfg (Probe_error, t, j) u = u"
  "health_step cfg (Success, t, j) u = on_success cfg t j u"
  "v \<noteq> Success \<Longrightarrow> v \<noteq> Probe_error \<Longrightarrow> health_step cfg (v, t, j) u = on_failure cfg t u"
  by (simp_all add: health_step_def)

definition concluded :: "(check_status \<times> int \<times> int) list \<Rightarrow> check_status list" where
  "concluded obs = filter (\<lambda>v. v \<noteq> Probe_error) (map fst obs)"

lemma outage_needs_failing_run:
  assumes "u_health u \<notin> {Down, Recovering}" and "u_failures u = 0"
  shows "let u' = fold (health_step cfg) obs u in
    (if u_health u' \<in> {Down, Recovering} then failing_run (nat (failure_threshold cfg)) (concluded obs)
     else u_failures u' \<le> int (trailing (concluded obs)))"
proof (induction obs rule: rev_induct)
  case Nil
  with assms show ?case by (simp add: concluded_def)
next
  case (snoc ob obs)
  obtain v t j where ob: "ob = (v, t, j)" by (cases ob)
  let ?u = "fold (health_step cfg) obs u"
  have IH: "if u_health ?u \<in> {Down, Recovering} then failing_run (nat (failure_threshold cfg)) (concluded obs)
     else u_failures ?u \<le> int (trailing (concluded obs))"
    using snoc by (simp add: Let_def)
  have c: "concluded (obs @ [(v, t, j)]) = concluded obs @ (if v = Probe_error then [] else [v])"
    by (simp add: concluded_def)
  consider "v = Probe_error" | "v = Success" | "v \<noteq> Probe_error" "v \<noteq> Success" by blast
  then show ?case
  proof cases
    case 1
    with IH show ?thesis by (simp add: c [unfolded 1] ob Let_def)
  next
    case 2
    with IH show ?thesis
      by (auto simp: c [unfolded 2] ob on_success_def settle_def Let_def split: if_splits intro: failing_run_snoc)
  next
    case 3
    have new: "failing_run (nat (failure_threshold cfg)) (concluded obs @ [v])"
      if "failure_threshold cfg \<le> int (trailing (concluded obs)) + 1"
      using that 3 by (intro trailing_failing_run) simp
    from 3 IH new show ?thesis
      by (auto simp: c ob on_failure_def Let_def min_def split: if_splits intro: failing_run_snoc)
  qed
qed

text \<open>The recovery: the moment it is complete is fixed by the check that reaches the success
  threshold; until a check at or after that moment, the upstream is recovering.\<close>

definition recovery_after :: "profile_config \<Rightarrow> (int \<times> int) list \<Rightarrow> upstream \<Rightarrow> bool" where
  "recovery_after cfg tjs u \<longleftrightarrow>
     (let n = nat (success_threshold cfg); fixed = fst (tjs ! (n - 1)) + recovery_hold_seconds cfg in
      if length tjs < n
      then u_health u = Recovering \<and> u_successes u = int (length tjs) \<and> u_ready u = None
      else u_health u = Healthy \<and> u_outage u = None
             \<and> (\<exists>i<length tjs. n - 1 \<le> i \<and> fixed \<le> fst (tjs ! i))
         \<or> u_health u = Recovering \<and> u_successes u = success_threshold cfg
             \<and> u_ready u = Some (fixed + snd (tjs ! (n - 1)))
             \<and> fst (last tjs) < fixed + snd (tjs ! (n - 1)))"

lemma recovery_step:
  assumes "recovery_after cfg tjs u" and "tjs \<noteq> []" and "1 \<le> success_threshold cfg"
    and "\<forall>tj\<in>set (tjs @ [(t, j)]). 0 \<le> snd tj"
  shows "recovery_after cfg (tjs @ [(t, j)]) (on_success cfg t j u)"
proof -
  let ?n = "nat (success_threshold cfg)"
  let ?fixed = "fst (tjs ! (?n - 1)) + recovery_hold_seconds cfg"
  consider "Suc (length tjs) < ?n" | "Suc (length tjs) = ?n" | "?n \<le> length tjs" by linarith
  then show ?thesis
  proof cases
    case 1
    with assms show ?thesis
      by (auto simp: recovery_after_def on_success_def settle_def Let_def min_def)
  next
    case 2
    then have "nth (tjs @ [(t, j)]) (?n - 1) = (t, j)" by (simp add: nth_append flip: 2)
    with 2 assms show ?thesis
      by (auto simp: recovery_after_def on_success_def settle_def Let_def min_def nth_append
          intro!: exI [of _ "length tjs"])
  next
    case 3
    then have nth: "(tjs @ [(t, j)]) ! (?n - 1) = tjs ! (?n - 1)" "?n - 1 < length tjs"
      using assms(2,3) by (auto simp: nth_append)
    from 3 assms(1) consider
        i where "u_health u = Healthy" "u_outage u = None" "i < length tjs" "?n - 1 \<le> i" "?fixed \<le> fst (tjs ! i)"
      | "u_health u = Recovering" "u_successes u = success_threshold cfg" "u_ready u = Some (?fixed + snd (tjs ! (?n - 1)))"
      by (auto simp: recovery_after_def Let_def)
    then show ?thesis
    proof cases
      case (1 i)
      with 3 nth show ?thesis
        by (auto simp: recovery_after_def on_success_def Let_def nth_append intro!: exI [of _ i])
    next
      case 2
      have "0 \<le> snd (tjs ! (?n - 1))" using assms(4) nth(2) by simp
      with 2 3 nth show ?thesis
        by (auto simp: recovery_after_def on_success_def settle_def Let_def nth_append
            intro!: exI [of _ "length tjs"])
    qed
  qed
qed

lemma successes_recover:
  assumes "u_health u = Down" and "1 \<le> success_threshold cfg"
    and "tjs \<noteq> []" and "\<forall>tj\<in>set tjs. 0 \<le> snd tj"
  shows "recovery_after cfg tjs (fold (\<lambda>(t, j). on_success cfg t j) tjs u)"
  using assms(3,4)
proof (induction tjs rule: rev_nonempty_induct)
  case (single tj)
  obtain t j where "tj = (t, j)" by (cases tj)
  with single assms(1,2) show ?case
    by (auto simp: recovery_after_def on_success_def settle_def Let_def nat_less_iff)
next
  case (snoc tj tjs)
  then show ?case
    using recovery_step [of cfg tjs _ "fst tj" "snd tj"] assms(2) by (simp add: split_beta)
qed


section \<open>Runs of checks of the program\<close>

text \<open>Checks of one profile that all return, each with its probe result and the outside world it
  finds (which fixes the time it reads).\<close>

fun checks :: "'w env \<Rightarrow> managed_profile \<Rightarrow> (probe_input \<times> 'w) list \<Rightarrow> 'w world \<Rightarrow> 'w world option" where
  "checks E p [] w = Some w"
| "checks E p ((i, x) # ins) w =
     (case process E p i (w\<lparr>outside := x\<rparr>) of (Inl _, _) \<Rightarrow> None | (Inr _, w') \<Rightarrow> checks E p ins w')"

definition probe_verdict :: "probe_input \<Rightarrow> check_status" where
  "probe_verdict i = (case as_probe_result i of Inl _ \<Rightarrow> Probe_error | Inr r \<Rightarrow> status r)"

definition observations :: "'w env \<Rightarrow> (probe_input \<times> 'w) list \<Rightarrow> int list \<Rightarrow> (check_status \<times> int \<times> int) list" where
  "observations E ins js = map2 (\<lambda>(i, x) j. (probe_verdict i, fst (wall_clock E x), j)) ins js"

lemma process_wf: "wf_db (db w) \<Longrightarrow> managed p \<Longrightarrow> input_ok i \<Longrightarrow> process E p i w = (r, w') \<Longrightarrow> wf_db (db w')"
  using eng.one_run [of p "Process i" w E] by simp

lemma checks_refine:
  assumes "managed p" and "mode (config p) \<noteq> Disabled"
    and "checks E p ins w = Some w'" and "wf_db (db w)" and "upstream_of (db w) p = Some u"
    and "\<forall>ix\<in>set ins. input_ok (fst ix)"
  shows "\<exists>js. length js = length ins \<and> (\<forall>j\<in>set js. 0 \<le> j \<and> j \<le> recovery_jitter_max_seconds (config p))
    \<and> upstream_of (db w') p = Some (fold (health_step (config p)) (observations E ins js) u)"
  using assms(3-6)
proof (induction ins arbitrary: w u)
  case Nil
  then show ?case by (simp add: observations_def)
next
  case (Cons ix ins)
  obtain i x where ix: "ix = (i, x)" by (cases ix)
  obtain s1 w1 where run: "process E p i (w\<lparr>outside := x\<rparr>) = (Inr s1, w1)" and rest: "checks E p ins w1 = Some w'"
    using Cons.prems(1) by (auto simp: ix split: prod.splits sum.splits)
  obtain r where r: "as_probe_result i = Inr r" "valid_probe r"
    using as_probe_result_ok Cons.prems(4) ix by fastforce
  obtain j where j: "0 \<le> j" "j \<le> recovery_jitter_max_seconds (config p)"
      "upstream_of (db w1) p = Some (health_step (config p) (status r, fst (wall_clock E x), j) u)"
    using process_abs [of "w\<lparr>outside := x\<rparr>" p i r u E] run Cons.prems assms(1,2) r
    by (auto simp: wp_def)
  have "wf_db (db w1)"
    using process_wf [OF _ assms(1) _ run] Cons.prems(2,4) ix by simp
  from Cons.IH [OF rest this j(3)] Cons.prems(4) obtain js where js: "length js = length ins"
      "\<forall>j\<in>set js. 0 \<le> j \<and> j \<le> recovery_jitter_max_seconds (config p)"
      "upstream_of (db w') p = Some (fold (health_step (config p)) (observations E ins js)
         (health_step (config p) (status r, fst (wall_clock E x), j) u))"
    by auto
  then show ?case
    by (intro exI [of _ "j # js"]) (auto simp: j ix observations_def probe_verdict_def r)
qed

lemma probe_verdict_Reached [simp]: "probe_verdict (Reached b) = (if b then Success else Unreachable)"
  by (simp add: probe_verdict_def ProbeResult_def PROBE_STATUSES_def)

lemma input_ok_Reached [simp]: "input_ok (Reached b)"
  by (simp add: input_ok_def)

abbreviation same_checks :: "bool \<Rightarrow> 'w list \<Rightarrow> (probe_input \<times> 'w) list" where
  "same_checks b xs \<equiv> map (\<lambda>x. (Reached b, x)) xs"

lemma fold_failures:
  "length js = length xs \<Longrightarrow> fold (health_step cfg) (observations E (same_checks False xs) js) u
     = fold (on_failure cfg) (map (\<lambda>x. fst (wall_clock E x)) xs) u"
  by (induction js xs arbitrary: u rule: list_induct2) (simp_all add: observations_def)

lemma fold_successes:
  "length js = length xs \<Longrightarrow> fold (health_step cfg) (observations E (same_checks True xs) js) u
     = fold (\<lambda>(t, j). on_success cfg t j) (zip (map (\<lambda>x. fst (wall_clock E x)) xs) js) u"
  by (induction js xs arbitrary: u rule: list_induct2) (simp_all add: observations_def)

lemma map_fst_observations:
  "length js = length ins \<Longrightarrow> map fst (observations E ins js) = map (\<lambda>ix. probe_verdict (fst ix)) ins"
  by (induction js ins rule: list_induct2) (auto simp: observations_def)

lemma successes_after_outage:
  assumes "managed p" and "mode (config p) \<noteq> Disabled"
    and "checks E p (same_checks True xs) w = Some w'" and "wf_db (db w)" and "upstream_of (db w) p = Some u"
    and "u_health u = Down" and "xs \<noteq> []"
  shows "\<exists>js u'. length js = length xs \<and> (\<forall>j\<in>set js. 0 \<le> j \<and> j \<le> recovery_jitter_max_seconds (config p))
    \<and> upstream_of (db w') p = Some u'
    \<and> recovery_after (config p) (zip (map (\<lambda>x. fst (wall_clock E x)) xs) js) u'"
proof -
  obtain js where js: "length js = length xs"
      "\<forall>j\<in>set js. 0 \<le> j \<and> j \<le> recovery_jitter_max_seconds (config p)"
      "upstream_of (db w') p = Some (fold (health_step (config p)) (observations E (same_checks True xs) js) u)"
    using checks_refine [OF assms(1-5)] by auto
  have "zip (map (\<lambda>x. fst (wall_clock E x)) xs) js \<noteq> []" using js(1) assms(7) by auto
  then have "recovery_after (config p) (zip (map (\<lambda>x. fst (wall_clock E x)) xs) js)
      (fold (\<lambda>(t, j). on_success (config p) t j) (zip (map (\<lambda>x. fst (wall_clock E x)) xs) js) u)"
    by (rule successes_recover [OF assms(6) conjunct2 [OF thresholds_positive [OF assms(1)]]])
       (use js(2) in \<open>auto dest!: set_zip_rightD\<close>)
  with js fold_successes [OF js(1)] show ?thesis by metis
qed


section \<open>Properties\<close>

text \<open>C13: \<open>WatchdogEngine.process\<close> implements the abstract health machine. Whatever the service, the
  ownership flags and a pending intent look like, a check of a profile that is not disabled and
  returns changes what the Watchdog believes about the upstream by exactly one step of
  \<open>health_step\<close> with the probe's verdict, the time the check read and a jitter between 0 and the
  configured maximum, and the database then holds the new belief.\<close>

theorem process_refines_health_step:
  assumes "wf_db (db w)" and "managed p" and "mode (config p) \<noteq> Disabled"
    and "as_probe_result i = Inr r" and "valid_probe r"
    and "upstream_of (db w) p = Some u" and "process E p i w = (Inr s', w')"
  shows "\<exists>j. 0 \<le> j \<and> j \<le> recovery_jitter_max_seconds (config p)
    \<and> abs_up s' = health_step (config p) (status r, fst (wall_clock E (outside w)), j) u
    \<and> upstream_of (db w') p = Some (abs_up s')"
  using process_abs [OF assms(1-6), of E] assms(7) by (simp add: wp_def)

text \<open>A run of failures is counted exactly. From a state without an outage and with no
  failure counted, \<open>n\<close> failed checks that return leave the upstream degraded when \<open>n\<close> is below
  the failure threshold, and otherwise down with an outage that began at the time of the
  check that reached the threshold; the counter stops at the threshold.\<close>

theorem outage_at_failure_threshold:
  assumes "managed p" and "mode (config p) \<noteq> Disabled" and "wf_db (db w)"
    and "upstream_of (db w) p = Some u" and "u_health u \<in> {Unknown, Healthy, Degraded}"
    and "u_failures u = 0" and "u_outage u = None"
    and "xs \<noteq> []" and "checks E p (same_checks False xs) w = Some w'"
  shows "\<exists>u'. upstream_of (db w') p = Some u'
    \<and> u_failures u' = min (int (length xs)) (failure_threshold (config p))
    \<and> (if int (length xs) < failure_threshold (config p) then u_health u' = Degraded \<and> u_outage u' = None
       else u_health u' = Down
         \<and> u_outage u' = Some (fst (wall_clock E (xs ! (nat (failure_threshold (config p)) - 1)))))"
proof -
  let ?ts = "map (\<lambda>x. fst (wall_clock E x)) xs" and ?th = "failure_threshold (config p)"
  obtain js where js: "length js = length xs"
      "upstream_of (db w') p = Some (fold (health_step (config p)) (observations E (same_checks False xs) js) u)"
    using checks_refine [OF assms(1,2,9,3,4)] by auto
  have th: "1 \<le> ?th" using thresholds_positive [OF assms(1)] by simp
  have "?ts ! (nat ?th - 1) = fst (wall_clock E (xs ! (nat ?th - 1)))" if "?th \<le> int (length xs)"
    using that th by (intro nth_map) linarith
  with failures_counted [OF assms(5-7) th, of ?ts] js(2) assms(8) show ?thesis
    unfolding fold_failures [OF js(1)] by (auto simp: Let_def)
qed

text \<open>C14: no outage without the threshold. When checks of a profile that was neither down nor
  recovering, with no failure counted, leave it down or recovering, then among the verdicts of
  the probes that could be executed there are \<open>failure_threshold\<close> consecutive ones without a
  success: flapping below the threshold never opens an outage, and a probe that could not be
  executed neither counts nor interrupts.\<close>

theorem outage_needs_consecutive_failures:
  assumes "managed p" and "mode (config p) \<noteq> Disabled" and "wf_db (db w)"
    and "upstream_of (db w) p = Some u" and "u_health u \<notin> {Down, Recovering}" and "u_failures u = 0"
    and "\<forall>ix\<in>set ins. input_ok (fst ix)" and "checks E p ins w = Some w'"
    and "upstream_of (db w') p = Some u'" and "u_health u' \<in> {Down, Recovering}"
  shows "\<exists>xs ys zs. filter (\<lambda>v. v \<noteq> Probe_error) (map (\<lambda>ix. probe_verdict (fst ix)) ins) = xs @ ys @ zs
    \<and> int (length ys) = failure_threshold (config p) \<and> Success \<notin> set ys"
proof -
  obtain js where js: "length js = length ins"
      "upstream_of (db w') p = Some (fold (health_step (config p)) (observations E ins js) u)"
    using checks_refine [OF assms(1,2,8,3,4,7)] by auto
  have "failing_run (nat (failure_threshold (config p))) (concluded (observations E ins js))"
    using outage_needs_failing_run [OF assms(5,6), of "config p" "observations E ins js"] js(2) assms(9,10)
    by (simp add: Let_def)
  then obtain xs ys zs where "filter (\<lambda>v. v \<noteq> Probe_error) (map (\<lambda>ix. probe_verdict (fst ix)) ins) = xs @ ys @ zs"
      "length ys = nat (failure_threshold (config p))" "Success \<notin> set ys"
    unfolding failing_run_def concluded_def map_fst_observations [OF js(1)] by blast
  then show ?thesis
    using thresholds_positive [OF assms(1)] by (intro exI [of _ xs] exI [of _ ys] exI [of _ zs]) simp
qed

text \<open>C15: a recovery completes. When an upstream that is down answers every check from now on,
  and a check happens at least the hold time and the largest jitter after the
  \<open>success_threshold\<close>-th of them, then after that check the upstream is healthy and the outage is
  over.\<close>

theorem recovery_completes:
  assumes "managed p" and "mode (config p) \<noteq> Disabled" and "wf_db (db w)"
    and "upstream_of (db w) p = Some u" and "u_health u = Down"
    and "success_threshold (config p) \<le> int (length xs)"
    and "fst (wall_clock E (xs ! (nat (success_threshold (config p)) - 1)))
      + recovery_hold_seconds (config p) + recovery_jitter_max_seconds (config p)
      \<le> fst (wall_clock E (last xs))"
    and "checks E p (same_checks True xs) w = Some w'"
  shows "\<exists>u'. upstream_of (db w') p = Some u' \<and> u_health u' = Healthy \<and> u_outage u' = None"
proof -
  let ?th = "success_threshold (config p)"
  have th: "1 \<le> ?th" using thresholds_positive [OF assms(1)] by simp
  then have ne: "xs \<noteq> []" and n: "nat ?th - 1 < length xs" using assms(6) by auto
  obtain js u' where js: "length js = length xs"
      "\<forall>j\<in>set js. 0 \<le> j \<and> j \<le> recovery_jitter_max_seconds (config p)" "upstream_of (db w') p = Some u'"
      "recovery_after (config p) (zip (map (\<lambda>x. fst (wall_clock E x)) xs) js) u'"
    using successes_after_outage [OF assms(1,2,8,3-5) ne] by auto
  have "fst (last (zip (map (\<lambda>x. fst (wall_clock E x)) xs) js)) = fst (wall_clock E (last xs))"
    using ne js(1) by (subst last_zip) (auto simp: last_map)
  moreover have "js ! (nat ?th - 1) \<le> recovery_jitter_max_seconds (config p)"
    using js(1,2) n by simp
  moreover have "zip (map (\<lambda>x. fst (wall_clock E x)) xs) js ! (nat ?th - 1)
      = (fst (wall_clock E (xs ! (nat ?th - 1))), js ! (nat ?th - 1))"
    using js(1) n by simp
  moreover have "\<not> length (zip (map (\<lambda>x. fst (wall_clock E x)) xs) js) < nat ?th"
    using js(1) assms(6) by simp
  ultimately have "u_health u' = Healthy \<and> u_outage u' = None"
    using js(4) assms(7) unfolding recovery_after_def Let_def by (auto simp del: One_nat_def)
  with js(3) show ?thesis by blast
qed

text \<open>A recovery is never early. When an upstream that is down answers every check and is
  found healthy after them, then there were at least \<open>success_threshold\<close> checks, and one of them,
  not before the one that reached the threshold, was at least the hold time after it.\<close>

theorem recovery_not_early:
  assumes "managed p" and "mode (config p) \<noteq> Disabled" and "wf_db (db w)"
    and "upstream_of (db w) p = Some u" and "u_health u = Down" and "xs \<noteq> []"
    and "checks E p (same_checks True xs) w = Some w'"
    and "upstream_of (db w') p = Some u'" and "u_health u' = Healthy"
  shows "success_threshold (config p) \<le> int (length xs)
    \<and> (\<exists>i<length xs. nat (success_threshold (config p)) - 1 \<le> i
         \<and> fst (wall_clock E (xs ! (nat (success_threshold (config p)) - 1))) + recovery_hold_seconds (config p)
           \<le> fst (wall_clock E (xs ! i)))"
proof -
  obtain js where js: "length js = length xs"
      "recovery_after (config p) (zip (map (\<lambda>x. fst (wall_clock E x)) xs) js) u'"
    using successes_after_outage [OF assms(1,2,7,3-6)] assms(8) by auto
  from js(2) assms(9) have len: "nat (success_threshold (config p)) \<le> length xs"
    by (auto simp: recovery_after_def Let_def js(1) split: if_splits)
  with js assms(9) thresholds_positive [OF assms(1)] assms(6) show ?thesis
    by (auto simp: recovery_after_def Let_def)
qed


text \<open>Concrete runs, with an outside that holds the state of the unit and the time.\<close>

definition clocked_env :: "(bool \<times> int) env" where
  "clocked_env =
     \<lparr>runner = (\<lambda>argv (active, t).
        if argv ! 1 = ''is-active'' then (Completed (if active then 0 else 3), (active, t))
        else if argv ! 1 = ''stop'' then (Completed 0, (False, t))
        else (Completed 0, (True, t))),
      db_fault = (\<lambda>x. (False, x)), wall_clock = (\<lambda>x. (snd x, x)),
      monotonic_clock = (\<lambda>x. (0, x)), jitter_source = (\<lambda>_ x. (3, x))\<rparr>"

definition clocked_world :: "(bool \<times> int) world" where
  "clocked_world = \<lparr>db = empty_database, outside = (True, 0), effects = []\<rparr>"

abbreviation failing :: "(bool \<times> int) list" where "failing \<equiv> [(True, 100), (True, 102), (True, 104)]"
abbreviation answering :: "(bool \<times> int) list" where
  "answering \<equiv> [(False, 110), (False, 112), (False, 116), (False, 121)]"

definition down_world :: "(bool \<times> int) world" where
  "down_world = (case checks clocked_env (iran 1 Auto) (same_checks False failing) clocked_world of
     None \<Rightarrow> clocked_world | Some w \<Rightarrow> w)"

lemma clocked_start: "wf_db (db clocked_world)"
  "upstream_of (db clocked_world) (iran 1 Auto) = Some (abs_up (ProfileState ''iran-1'' ''gost-iran-1.service'' ''10.0.0.1''))"
  by (simp_all add: clocked_world_def empty_database_def wf_db_def stored_state_def upstream_of_def get_state_db_def
      ProfileState_def abs_up_def)

lemma down_evaluated:
  "case checks clocked_env (iran 1 Auto) (same_checks False failing) clocked_world of
     None \<Rightarrow> False | Some w \<Rightarrow> map_option u_health (upstream_of (db w) (iran 1 Auto)) = Some Down"
  by code_simp

lemma down_run: "checks clocked_env (iran 1 Auto) (same_checks False failing) clocked_world = Some down_world"
  using down_evaluated by (auto simp: down_world_def split: option.splits)

lemma checks_wf:
  "checks E p ins w = Some w' \<Longrightarrow> managed p \<Longrightarrow> wf_db (db w) \<Longrightarrow> \<forall>ix\<in>set ins. input_ok (fst ix) \<Longrightarrow> wf_db (db w')"
proof (induction ins arbitrary: w)
  case (Cons ix ins)
  then show ?case
    by (cases ix) (auto split: prod.splits sum.splits dest: process_wf [rotated 3])
qed simp

lemma down_start: "wf_db (db down_world)"
  by (rule checks_wf [OF down_run managed_iran clocked_start(1)]) auto

lemma iran_config:
  "failure_threshold (config (iran n m)) = 3" "success_threshold (config (iran n m)) = 2"
  "recovery_hold_seconds (config (iran n m)) = 5" "recovery_jitter_max_seconds (config (iran n m)) = 4"
  by (simp_all add: iran_def Let_def)

lemma sample_not_disabled: "mode (config (iran 1 Auto)) \<noteq> Disabled"
  by (simp add: iran_def Let_def)

theorem process_refines_health_step_witness:
  "\<exists>s' w'. process clocked_env (iran 1 Auto) (Reached False) clocked_world = (Inr s', w')
     \<and> upstream_of (db w') (iran 1 Auto) = Some (abs_up s') \<and> u_health (abs_up s') = Degraded"
proof -
  have "case fst (process clocked_env (iran 1 Auto) (Reached False) clocked_world) of
      Inl _ \<Rightarrow> False | Inr s \<Rightarrow> health_state s = Degraded"
    by code_simp
  then obtain s' w' where run: "process clocked_env (iran 1 Auto) (Reached False) clocked_world = (Inr s', w')"
      and h: "health_state s' = Degraded"
    by (cases "process clocked_env (iran 1 Auto) (Reached False) clocked_world") (auto split: sum.splits)
  obtain r where r: "as_probe_result (Reached False) = Inr r" "valid_probe r"
    using as_probe_result_ok [of "Reached False"] by auto
  from process_refines_health_step [OF clocked_start(1) managed_iran sample_not_disabled r clocked_start(2) run] run h
  show ?thesis by auto
qed

theorem outage_at_failure_threshold_witness:
  "\<exists>u'. upstream_of (db down_world) (iran 1 Auto) = Some u' \<and> u_health u' = Down \<and> u_outage u' = Some 104"
proof -
  show ?thesis
    using outage_at_failure_threshold [OF managed_iran sample_not_disabled clocked_start _ _ _ _ down_run]
    by (auto simp: iran_config ProfileState_def clocked_env_def)
qed

lemma down_upstream:
  "\<exists>u. upstream_of (db down_world) (iran 1 Auto) = Some u \<and> u_health u = Down"
  using down_evaluated by (simp only: down_run option.case map_option_eq_Some)

theorem outage_needs_consecutive_failures_witness:
  "\<exists>xs ys zs. [Unreachable, Unreachable, Unreachable] = xs @ ys @ zs \<and> int (length ys) = 3 \<and> Success \<notin> set ys"
proof -
  obtain u where u: "upstream_of (db down_world) (iran 1 Auto) = Some u" "u_health u = Down"
    using down_upstream by blast
  show ?thesis
    using outage_needs_consecutive_failures [OF managed_iran sample_not_disabled clocked_start _ _ _ down_run u(1)] u(2)
    by (simp add: iran_config ProfileState_def)
qed

definition recovered_world :: "(bool \<times> int) world" where
  "recovered_world = (case checks clocked_env (iran 1 Auto) (same_checks True answering) down_world of
     None \<Rightarrow> clocked_world | Some w \<Rightarrow> w)"

lemma recovery_evaluated:
  "case checks clocked_env (iran 1 Auto) (same_checks True answering) down_world of
     None \<Rightarrow> False | Some w \<Rightarrow> map_option u_health (upstream_of (db w) (iran 1 Auto)) = Some Healthy"
  by code_simp

lemma recovered_run: "checks clocked_env (iran 1 Auto) (same_checks True answering) down_world = Some recovered_world"
  using recovery_evaluated by (auto simp: recovered_world_def split: option.splits)

theorem recovery_completes_witness:
  "\<exists>u'. upstream_of (db recovered_world) (iran 1 Auto) = Some u' \<and> u_health u' = Healthy"
proof -
  obtain u where u: "upstream_of (db down_world) (iran 1 Auto) = Some u" "u_health u = Down"
    using down_upstream by blast
  show ?thesis
    using recovery_completes [OF managed_iran sample_not_disabled down_start u _ _ recovered_run]
    by (auto simp: iran_config clocked_env_def)
qed

theorem recovery_not_early_witness:
  "\<exists>u'. upstream_of (db recovered_world) (iran 1 Auto) = Some u' \<and> u_health u' = Healthy
    \<and> 2 \<le> int (length answering)"
proof -
  obtain u where u: "upstream_of (db down_world) (iran 1 Auto) = Some u" "u_health u = Down"
    using down_upstream by blast
  have "map_option u_health (upstream_of (db recovered_world) (iran 1 Auto)) = Some Healthy"
    using recovery_evaluated by (simp only: recovered_run option.case)
  then obtain u' where u': "upstream_of (db recovered_world) (iran 1 Auto) = Some u'" "u_health u' = Healthy"
    by auto
  from recovery_not_early [OF managed_iran sample_not_disabled down_start u _ recovered_run u'] u' show ?thesis
    unfolding iran_config by auto
qed

end
