(* ===== verification/Gost_Deadlines.thy ===== *)
theory Gost_Deadlines
  imports Complex_Main
begin

text \<open>
  What a periodic scheduler relies on when it moves a deadline on: the contract of the Watchdog's
  \<open>advance_deadline\<close> and of the catch-up loop of the monitoring daemon, which are two
  implementations of it. Monotonic times, floats in the source, are exact reals.
\<close>

text \<open>Advancing a deadline: the next one is after the current time (strictly or not, by \<open>late\<close>),
  a whole number of intervals after the previous one, at least one, and no earlier one will do.\<close>

locale deadline_grid =
  fixes advance :: "real \<Rightarrow> real \<Rightarrow> real \<Rightarrow> real"
    and late :: "real \<Rightarrow> real \<Rightarrow> bool"
  assumes in_time: "0 < interval \<Longrightarrow> \<not> late (advance previous interval current) current"
    and on_grid: "0 < interval \<Longrightarrow> \<exists>k\<ge>1. advance previous interval current = previous + real k * interval"
    and first: "0 < interval \<Longrightarrow> 1 \<le> k \<Longrightarrow> \<not> late (previous + real k * interval) current \<Longrightarrow>
      advance previous interval current \<le> previous + real k * interval"
begin

lemma progress: "0 < interval \<Longrightarrow> previous + interval \<le> advance previous interval current"
  using on_grid [of interval previous current] by (auto simp: mult_le_cancel_right1)

text \<open>However late the calls are, the deadlines never leave the grid of the first one, and they
  advance by at least one interval per call.\<close>

lemma no_drift:
  assumes "0 < interval"
  shows "\<exists>k\<ge>length currents. fold (\<lambda>current d. advance d interval current) currents start
    = start + real k * interval"
proof (induction currents arbitrary: start)
  case Nil
  then show ?case by (intro exI [of _ 0]) simp
next
  case (Cons current currents)
  obtain k where k: "k \<ge> 1" "advance start interval current = start + real k * interval"
    using on_grid [OF assms] by blast
  obtain k' where k': "k' \<ge> length currents"
      "fold (\<lambda>current d. advance d interval current) currents (advance start interval current)
        = advance start interval current + real k' * interval"
    using Cons.IH by blast
  show ?case
    using k k' by (intro exI [of _ "k + k'"]) (auto simp: algebra_simps)
qed

end

end
