(* ===== verification/Watchdog_Daemon.thy ===== *)
theory Watchdog_Daemon
  imports Watchdog_Safety Gost_Deadlines
begin

text \<open>
  \<open>src/gost_watchdog/daemon.py\<close>: the deadlines, the loader, one cycle over all profiles, and the
  main loop. The monotonic times, floats in the source, are exact reals here. \<open>look\<close> is the file
  system as the outside shows it at the moment of a load; \<open>order\<close> is the order in which the ping
  pool finishes, and \<open>pick\<close> the order in which a Python set of errors is iterated.

  The deadlines satisfy the contract \<open>deadline_grid\<close> of \<open>Gost_Deadlines\<close>.
\<close>

section \<open>Deadlines\<close>

definition advance_deadline :: "real \<Rightarrow> real \<Rightarrow> real \<Rightarrow> real" where
  "advance_deadline previous interval current =
     (let deadline = previous + interval
      in if deadline > current then deadline
         else let missed = \<lfloor>(current - deadline) / interval\<rfloor> + 1
              in deadline + of_int missed * interval)"

lemma advance_deadline_grid:
  assumes "0 < interval"
  shows "\<exists>k\<ge>1. advance_deadline previous interval current = previous + real k * interval
    \<and> current < previous + real k * interval
    \<and> (\<forall>k'. 1 \<le> k' \<longrightarrow> current < previous + real k' * interval \<longrightarrow> k \<le> k')"
proof (cases "previous + interval > current")
  case True
  then show ?thesis
    by (intro exI [of _ 1]) (auto simp: advance_deadline_def)
next
  case False
  define q where "q = (current - (previous + interval)) / interval"
  have q: "0 \<le> q" using False assms by (simp add: q_def)
  have cur: "current = previous + interval + q * interval" using assms by (simp add: q_def)
  define k where "k = nat \<lfloor>q\<rfloor> + 2"
  have "0 \<le> \<lfloor>q\<rfloor>" using q by simp
  then have k: "real k = of_int \<lfloor>q\<rfloor> + 2" by (simp add: k_def)
  have "advance_deadline previous interval current = previous + real k * interval"
    using False unfolding advance_deadline_def Let_def q_def [symmetric] k by (simp add: algebra_simps)
  moreover have "current < previous + real k * interval"
  proof -
    have "q < of_int \<lfloor>q\<rfloor> + 1" by linarith
    then have "q * interval < (of_int \<lfloor>q\<rfloor> + 1) * interval" using assms by simp
    then show ?thesis unfolding cur k by (simp add: algebra_simps)
  qed
  moreover have "k \<le> k'" if "current < previous + real k' * interval" for k'
  proof -
    have "(q + 1) * interval < real k' * interval" using that unfolding cur by (simp add: algebra_simps)
    then have "q + 1 < real k'" using assms by simp
    then have "\<lfloor>q\<rfloor> + 1 < int k'" by linarith
    then show ?thesis using \<open>0 \<le> \<lfloor>q\<rfloor>\<close> unfolding k_def by linarith
  qed
  ultimately show ?thesis
    by (intro exI [of _ k]) (simp add: k_def)
qed

interpretation wd: deadline_grid advance_deadline "\<lambda>deadline current. deadline \<le> current"
proof unfold_locales
  fix interval previous current :: real and k :: nat
  assume i: "0 < interval"
  obtain n where n: "n \<ge> 1" "advance_deadline previous interval current = previous + real n * interval"
      "current < previous + real n * interval"
      "\<forall>k'. 1 \<le> k' \<longrightarrow> current < previous + real k' * interval \<longrightarrow> n \<le> k'"
    using advance_deadline_grid [OF i] by blast
  then show "\<not> advance_deadline previous interval current \<le> current" by simp
  show "\<exists>k\<ge>1. advance_deadline previous interval current = previous + real k * interval"
    using n by blast
  assume "1 \<le> k" and "\<not> previous + real k * interval \<le> current"
  then show "advance_deadline previous interval current \<le> previous + real k * interval"
    using n i by simp
qed


section \<open>The loader and the state of the daemon\<close>

record loader =
  global_config_path :: path
  profile_config_dir :: path
  env_dir :: path
  unit_dir :: path
  ld_expected_uid :: "int option"
  ld_boundary :: "path option"

definition runtime_load ::
  "loader \<Rightarrow> fs \<Rightarrow> (wd_exn, managed_profile list \<times> discovery_error list \<times> int) result" where
  "runtime_load L F =
     bindR (load_global_config F (global_config_path L) (ld_expected_uid L) (ld_boundary L)) (\<lambda>cfg.
     bindR (discover_profiles F (env_dir L) (unit_dir L) (profile_config_dir L) cfg
              (ld_expected_uid L) (ld_boundary L)) (\<lambda>found.
       Inr (fst found, snd found, gc_check_interval_seconds cfg)))"

record 'w daemon = "'w world" +
  next_due :: "(string, real) dict"
  reported_errors :: "discovery_error list"
  next_prune :: real

type_synonym ('w, 'a) cycle = "('w daemon, wd_exn, 'a) act"

text \<open>Run an operation of the engine from the daemon.\<close>

definition on_world :: "('w world, wd_exn, 'a) act \<Rightarrow> ('w, 'a) cycle" where
  "on_world act = (\<lambda>d. case act (world.truncate d) of
     (r, w) \<Rightarrow> (r, d\<lparr>db := db w, outside := outside w, effects := effects w\<rparr>))"

definition read_monotonic :: "'w env \<Rightarrow> ('w, real) cycle" where
  "read_monotonic E = (\<lambda>d. case monotonic_clock E (outside d) of (t, x) \<Rightarrow> (Inr t, d\<lparr>outside := x\<rparr>))"

record 'w daemon_setup =
  env :: "'w env"
  ld :: loader
  look :: "'w \<Rightarrow> fs"
  order :: "probe_key list \<Rightarrow> probe_key list"
  pick :: "discovery_error list \<Rightarrow> discovery_error list"


section \<open>One cycle\<close>

definition error_event :: "int \<Rightarrow> discovery_error \<Rightarrow> event" where
  "error_event now e =
     (WatchdogEvent now Watchdog_config_error)\<lparr>ev_profile_id := fst e, ev_error_category := Some (snd e)\<rparr>"

definition record_errors :: "'w daemon_setup \<Rightarrow> discovery_error list \<Rightarrow> int \<Rightarrow> ('w, unit) cycle" where
  "record_errors S errors now =
     bindE (gets reported_errors) (\<lambda>reported.
       seqE (forE (pick S (remdups (filter (\<lambda>e. e \<notin> set reported) errors)))
               (\<lambda>e. record_event (env S) (error_event now e)))
            (modify (\<lambda>d. d\<lparr>reported_errors := remdups errors\<rparr>)))"

text \<open>The loop that reconciles the intents left over: it collects the identifiers that failed.\<close>

fun reconcile_all :: "'w daemon_setup \<Rightarrow> managed_profile list \<Rightarrow> string list \<Rightarrow> ('w, string list) cycle" where
  "reconcile_all S [] bad = ret bad"
| "reconcile_all S (p # ps) bad =
     bindE (handle (seqE (on_world (engine_reconcile_pending (env S) p)) (ret bad))
              (\<lambda>_. ret (bad @ [mp_profile_id p])))
       (reconcile_all S ps)"

text \<open>The loop over the due profiles: it collects the identifiers whose processing raised, and
  moves every deadline on.\<close>

definition move_deadline :: "real \<Rightarrow> managed_profile \<Rightarrow> real \<Rightarrow> (string, real) dict \<Rightarrow> (string, real) dict" where
  "move_deadline tick p current due =
     AList.update (mp_profile_id p)
       (advance_deadline (dict_get due (mp_profile_id p) tick)
          (of_int (check_interval_seconds (config p))) current) due"

fun process_all ::
  "'w daemon_setup \<Rightarrow> real \<Rightarrow> (string, probe_result) dict \<Rightarrow> managed_profile list \<Rightarrow> string list
     \<Rightarrow> ('w, string list) cycle" where
  "process_all S tick results [] bad = ret bad"
| "process_all S tick results (p # ps) bad =
     bindE (handle
              (bindE (liftR (case map_of results (mp_profile_id p) of None \<Rightarrow> Inl KeyError | Some r \<Rightarrow> Inr r))
                 (\<lambda>r. seqE (on_world (process (env S) p (Probed r))) (ret bad)))
              (\<lambda>_. ret (bad @ [mp_profile_id p])))
       (\<lambda>bad'. bindE (read_monotonic (env S)) (\<lambda>current.
          seqE (modify (\<lambda>d. d\<lparr>next_due := move_deadline tick p current (next_due d)\<rparr>))
            (process_all S tick results ps bad')))"

definition runtime_errors :: "string list \<Rightarrow> discovery_error list" where
  "runtime_errors ids = map (\<lambda>i. (Some i, Runtime_error)) ids"

definition earliest :: "(string, real) dict \<Rightarrow> real \<Rightarrow> real" where
  "earliest due fallback = (case map snd due of [] \<Rightarrow> fallback | t # ts \<Rightarrow> fold min ts t)"

definition cycle_profiles ::
  "'w daemon_setup \<Rightarrow> real \<Rightarrow> int \<Rightarrow> managed_profile list \<Rightarrow> discovery_error list \<Rightarrow> int \<Rightarrow> ('w, real) cycle" where
  "cycle_profiles S tick wall profiles errors fallback =
     bindE (reconcile_all S profiles []) (\<lambda>bad.
       let active = filter (\<lambda>p. mode (config p) \<noteq> Disabled \<and> mp_profile_id p \<notin> set bad) profiles
       in seqE (modify (\<lambda>d. d\<lparr>next_due :=
              filter (\<lambda>e. fst e \<in> set (map mp_profile_id active)) (next_due d)\<rparr>))
          (bindE (gets (\<lambda>d. filter (\<lambda>p. dict_get (next_due d) (mp_profile_id p) tick \<le> tick) active))
            (\<lambda>due. bindE (run_ping_checks (order S) (ping_executor (env S)) due) (\<lambda>results.
               bindE (process_all S tick results due []) (\<lambda>bad2.
               seqE (record_errors S (errors @ runtime_errors bad @ runtime_errors bad2) wall)
               (seqE (bindE (gets next_prune) (\<lambda>t. whenE (t \<le> tick)
                        (seqE (bindE (prune_events (env S) wall EVENT_RETENTION_SECONDS 500 100)
                                 (\<lambda>_. ret ()))
                              (modify (\<lambda>d. d\<lparr>next_prune := tick + 60\<rparr>)))))
                  (gets (\<lambda>d. earliest (next_due d) (tick + of_int fallback)))))))))"

definition run_cycle :: "'w daemon_setup \<Rightarrow> ('w, real) cycle" where
  "run_cycle S =
     bindE (read_monotonic (env S)) (\<lambda>tick.
     bindE (read_wall (env S)) (\<lambda>wall.
     bindE (gets (\<lambda>d. runtime_load (ld S) (look S (outside d)))) (\<lambda>loaded.
       case loaded of
         Inl (ConfigError _) \<Rightarrow>
           seqE (record_errors S [(None, Invalid_global_config)] wall) (ret (tick + 2))
       | Inl e \<Rightarrow> raise e
       | Inr (profiles, errors, fallback) \<Rightarrow> cycle_profiles S tick wall profiles errors fallback)))"

text \<open>The main loop. \<open>stopping\<close> reads whether a stop was requested; sleeping only lets the outside
  move on. One unit of fuel is one round of the loop.\<close>

fun daemon_loop :: "nat \<Rightarrow> 'w daemon_setup \<Rightarrow> ('w \<Rightarrow> bool \<times> 'w) \<Rightarrow> (real \<Rightarrow> 'w \<Rightarrow> 'w) \<Rightarrow> real \<Rightarrow> ('w, bool) cycle" where
  "daemon_loop 0 S stopping sleeper deadline = ret False"
| "daemon_loop (Suc n) S stopping sleeper deadline = (\<lambda>d.
     case stopping (outside d) of
       (True, x) \<Rightarrow> (Inr True, d\<lparr>outside := x\<rparr>)
     | (False, x) \<Rightarrow>
         bindE (read_monotonic (env S)) (\<lambda>current.
           if current < deadline
           then seqE (modify (\<lambda>d. d\<lparr>outside := sleeper (deadline - current) (outside d)\<rparr>))
                  (daemon_loop n S stopping sleeper deadline)
           else bindE (run_cycle S) (daemon_loop n S stopping sleeper)) (d\<lparr>outside := x\<rparr>))"

text \<open>\<open>run\<close>: the start and the stop of the daemon are recorded around the loop, the stop also when
  the loop raises.\<close>

definition daemon_run :: "nat \<Rightarrow> 'w daemon_setup \<Rightarrow> ('w \<Rightarrow> bool \<times> 'w) \<Rightarrow> (real \<Rightarrow> 'w \<Rightarrow> 'w) \<Rightarrow> ('w, bool) cycle" where
  "daemon_run n S stopping sleeper =
     bindE (read_wall (env S)) (\<lambda>now.
     seqE (record_event (env S) (WatchdogEvent now Watchdog_daemon_started))
       (let stopped = bindE (read_wall (env S)) (\<lambda>t.
              record_event (env S) (WatchdogEvent t Watchdog_daemon_stopped))
        in bindE (handle (bindE (read_monotonic (env S)) (daemon_loop n S stopping sleeper))
                    (\<lambda>e. seqE stopped (raise e)))
             (\<lambda>ended. seqE stopped (ret ended))))"

section \<open>What a cycle keeps\<close>

lemma wp_on_world [wp_simps]:
  "wp (on_world act) Q X d =
     wp act (\<lambda>x w. Q x (d\<lparr>db := db w, outside := outside w, effects := effects w\<rparr>))
       (\<lambda>e w. X e (d\<lparr>db := db w, outside := outside w, effects := effects w\<rparr>)) (world.truncate d)"
  by (simp add: wp_def on_world_def split: prod.splits sum.splits)

lemma wp_read_monotonic [wp_simps]:
  "wp (read_monotonic E) Q X d = (case monotonic_clock E (outside d) of (t, x) \<Rightarrow> Q t (d\<lparr>outside := x\<rparr>))"
  by (simp add: wp_def read_monotonic_def split: prod.splits)

text \<open>The commands of the daemon: pings of safe addresses, and commands covered by an intent.\<close>

definition good_effect :: "effect \<Rightarrow> bool" where
  "good_effect e \<longleftrightarrow> (\<exists>p. managed p \<and> covered p e)
     \<or> (\<exists>host t d. safe_host host \<and> e = Ran (ping_argv host t) d)"

definition safe_from :: "effect list \<Rightarrow> ('w, 'z) world_scheme \<Rightarrow> bool" where
  "safe_from base w \<longleftrightarrow> wf_db (db w) \<and> (\<exists>es. effects w = base @ es \<and> (\<forall>e\<in>set es. good_effect e))"

lemma safe_from_more:
  assumes "safe_from base w" and "wf_db (db w')" and "effects w' = effects w @ es" and "\<forall>e\<in>set es. good_effect e"
  shows "safe_from base w'"
proof -
  obtain es0 where "effects w = base @ es0" "\<forall>e\<in>set es0. good_effect e"
    using assms(1) by (auto simp: safe_from_def)
  with assms(2-4) show ?thesis
    unfolding safe_from_def by (intro conjI exI [of _ "es0 @ es"]) auto
qed

lemma safe_from_frame [simp]:
  "safe_from base (d\<lparr>outside := x\<rparr>) = safe_from base d"
  "safe_from base (d\<lparr>next_due := nd\<rparr>) = safe_from base d"
  "safe_from base (d\<lparr>reported_errors := es\<rparr>) = safe_from base d"
  "safe_from base (d\<lparr>next_prune := t\<rparr>) = safe_from base d"
  by (simp_all add: safe_from_def)

lemma wf_db_history [simp]:
  "wf_db (d\<lparr>events_table := es\<rparr>) = wf_db d" "wf_db (d\<lparr>event_seq := n\<rparr>) = wf_db d"
  by (simp_all add: wf_db_def stored_state_def)

lemma operation_safe:
  fixes d :: "'w daemon"
  assumes "safe_from base d" and "managed p" and "contract False p act"
    and "\<And>x (w :: 'w world). safe_from base (d\<lparr>db := db w, outside := outside w, effects := effects w\<rparr>) \<Longrightarrow>
      Q x (d\<lparr>db := db w, outside := outside w, effects := effects w\<rparr>)"
    and "\<And>e (w :: 'w world). safe_from base (d\<lparr>db := db w, outside := outside w, effects := effects w\<rparr>) \<Longrightarrow>
      X e (d\<lparr>db := db w, outside := outside w, effects := effects w\<rparr>)"
  shows "wp (on_world act) Q X d"
proof -
  have safe: "safe_from base (d\<lparr>db := db w, outside := outside w, effects := effects w\<rparr>)"
    if c: "cov p (effects d) (effects w)" and wf: "wf_db (db w)" for w :: "'w world"
  proof -
    obtain es where "effects w = effects d @ es" "list_all (covered p) es"
      using c unfolding cov_def by blast
    then have "\<forall>e\<in>set es. good_effect e" "effects w = effects d @ es"
      using assms(2) by (auto simp: list_all_iff good_effect_def)
    with wf assms(1) show ?thesis
      by (auto intro: safe_from_more)
  qed
  have "wp act (\<lambda>_ w'. cov p (effects (world.truncate d)) (effects w') \<and> wf_db (db w') \<and> (False \<longrightarrow> intent (db w') (mp_profile_id p) = None))
           (\<lambda>_ w'. cov p (effects (world.truncate d)) (effects w') \<and> wf_db (db w')) (world.truncate d)"
    using assms(3) unfolding contract_def
    by (elim allE [where x = "world.truncate d"] mp) (use assms(1) in \<open>simp add: safe_from_def world.truncate_def\<close>)
  then show ?thesis
    unfolding wp_on_world by (rule wp_weaken) (simp_all add: world.truncate_def assms(4,5) safe)
qed

lemma process_contract_probed:
  "managed p \<Longrightarrow> valid_probe r \<Longrightarrow> contract False p (process E p (Probed r))"
  using eng.op_contract [of p "Process (Probed r)" E] by (simp add: input_ok_def)

lemma reconcile_contract: "managed p \<Longrightarrow> contract False p (engine_reconcile_pending E p)"
  using eng.op_contract [of p Reconcile E] by simp

text \<open>Neither loop raises: the failure of one profile never reaches the others.\<close>

lemma reconcile_all_wp:
  assumes "safe_from base d" and "\<forall>p\<in>set ps. managed p"
  shows "wp (reconcile_all S ps bad) (\<lambda>_. safe_from base) (\<lambda>_ _. False) d"
  using assms
proof (induction ps arbitrary: bad d)
  case Nil
  then show ?case by (simp add: wp_simps)
next
  case (Cons p ps)
  have p: "managed p" using Cons.prems(2) by simp
  show ?case
    unfolding reconcile_all.simps wp_bindE wp_handle wp_seqE wp_ret
    by (rule operation_safe [OF Cons.prems(1) p reconcile_contract [OF p]])
       (rule wp_weaken [OF Cons.IH], use Cons.prems(2) in auto)+
qed

lemma process_all_wp:
  assumes "safe_from base d" and "\<forall>p\<in>set ps. managed p" and "\<forall>k r. map_of results k = Some r \<longrightarrow> valid_probe r"
  shows "wp (process_all S tick results ps bad) (\<lambda>_. safe_from base) (\<lambda>_ _. False) d"
  using assms
proof (induction ps arbitrary: bad d)
  case Nil
  then show ?case by (simp add: wp_simps)
next
  case (Cons p ps)
  have rest: "wp (bindE (read_monotonic (env S)) (\<lambda>current.
          seqE (modify (\<lambda>d. d\<lparr>next_due := move_deadline tick p current (next_due d)\<rparr>))
            (process_all S tick results ps bad'))) (\<lambda>_. safe_from base) (\<lambda>_ _. False) d'"
    if "safe_from base d'" for d' bad'
    using Cons.IH [of _ bad'] that Cons.prems by (auto simp: wp_simps split: prod.splits)
  show ?case
  proof (cases "map_of results (mp_profile_id p)")
    case None
    then show ?thesis
      unfolding process_all.simps wp_bindE [of "handle _ _"] wp_handle
      using rest [OF Cons.prems(1)] by (simp add: wp_bindE [of "liftR _"] wp_liftR wp_ret)
  next
    case (Some r)
    have p: "managed p" and r: "valid_probe r" using Cons.prems(2,3) Some by auto
    have "wp (on_world (process (env S) p (Probed r)))
        (\<lambda>_. wp (bindE (read_monotonic (env S)) (\<lambda>current.
          seqE (modify (\<lambda>d. d\<lparr>next_due := move_deadline tick p current (next_due d)\<rparr>))
            (process_all S tick results ps bad))) (\<lambda>_. safe_from base) (\<lambda>_ _. False))
        (\<lambda>_. wp (bindE (read_monotonic (env S)) (\<lambda>current.
          seqE (modify (\<lambda>d. d\<lparr>next_due := move_deadline tick p current (next_due d)\<rparr>))
            (process_all S tick results ps (bad @ [mp_profile_id p])))) (\<lambda>_. safe_from base) (\<lambda>_ _. False)) d"
      by (rule operation_safe [OF Cons.prems(1) p process_contract_probed [OF p r]]) (rule rest, assumption)+
    with Some show ?thesis
      unfolding process_all.simps wp_bindE [of "handle _ _"] wp_handle
      by (simp add: wp_bindE [of "liftR _"] wp_liftR wp_ret wp_seqE [of "on_world _"])
  qed
qed

lemma ping_probe_valid: "SubprocessPingExecutor E host t w = (Inr r, w') \<Longrightarrow> valid_probe r"
  by (auto simp: SubprocessPingExecutor_def run_command_def seqE_def bindE_def liftR_def
      ProbeResult_def PROBE_STATUSES_def valid_probe_def
      split: prod.splits sum.splits run_outcome.splits run_exn.splits if_splits)

lemma probe_keys_valid:
  assumes "\<forall>k r. map_of results k = Some r \<longrightarrow> valid_probe r"
  shows "\<exists>out. fst (probe_keys (ping_executor E) ks results w) = Inr out
    \<and> (\<forall>k r. map_of out k = Some r \<longrightarrow> valid_probe r) \<and> dom (map_of out) = dom (map_of results) \<union> set ks"
  using assms
proof (induction ks arbitrary: results w)
  case Nil
  then show ?case by (simp add: ret_def)
next
  case (Cons k ks)
  obtain v w1 where v: "ping_executor E (fst k) (snd k) w = (v, w1)" by fastforce
  have "valid_probe (verdict v)"
    using v by (auto simp: ping_executor_def bindE_def ret_def verdict_def
        split: prod.splits sum.splits dest!: ping_probe_valid) (simp add: valid_probe_def PROBE_STATUSES_def)
  with Cons.prems have "\<forall>k' r. map_of (AList.update k (verdict v) results) k' = Some r \<longrightarrow> valid_probe r"
    by (simp add: update_conv')
  from Cons.IH [OF this, of w1] v show ?case
    by (auto simp: probe_keys_Cons update_conv' simp del: probe_keys.simps)
qed

definition sound_setup :: "'w daemon_setup \<Rightarrow> bool" where
  "sound_setup S \<longleftrightarrow> (\<forall>ks. mset (order S ks) = mset ks) \<and> (\<forall>es. mset (pick S es) = mset es)"

lemma sound_sets: "sound_setup S \<Longrightarrow> set (order S ks) = set ks" "sound_setup S \<Longrightarrow> set (pick S es) = set es"
  by (metis sound_setup_def set_mset_mset)+

lemma managed_safe_host: "managed p \<Longrightarrow> safe_host (mp_kharej_ip p)"
  by (simp add: managed_def)

lemma assign_results_total:
  assumes "\<forall>p\<in>set ps. probe_key_of p \<in> dom (map_of results)"
    and "\<forall>k r. map_of results k = Some r \<longrightarrow> valid_probe r" and "\<forall>k r. map_of out k = Some r \<longrightarrow> valid_probe r"
  shows "\<exists>out'. assign_results results ps out = Inr out' \<and> (\<forall>k r. map_of out' k = Some r \<longrightarrow> valid_probe r)"
  using assms(1,3)
proof (induction ps arbitrary: out)
  case Nil
  then show ?case by simp
next
  case (Cons p ps)
  then obtain r where r: "map_of results (probe_key_of p) = Some r" by auto
  have "valid_probe r" using assms(2) r by blast
  with Cons.prems(2) have "\<forall>k r'. map_of (AList.update (mp_profile_id p) r out) k = Some r' \<longrightarrow> valid_probe r'"
    by (simp add: update_conv')
  with Cons.IH [OF _ this] Cons.prems(1) r show ?case by simp
qed

lemma run_ping_checks_wp:
  fixes d :: "'w daemon"
  assumes "safe_from base d" and "\<forall>p\<in>set ps. managed p" and "sound_setup S"
  shows "wp (run_ping_checks (order S) (ping_executor (env S)) ps)
    (\<lambda>results d'. safe_from base d' \<and> (\<forall>k r. map_of results k = Some r \<longrightarrow> valid_probe r))
    (\<lambda>_ _. False) d"
proof (cases "map fst (by_probe (active_profiles ps)) = []")
  case True
  with assms(1) show ?thesis by (simp add: run_ping_checks_def wp_simps)
next
  case False
  let ?ks = "order S (map fst (by_probe (active_profiles ps)))"
  have ks: "set ?ks = probe_key_of ` set (active_profiles ps)"
    using by_probe_keys [of "active_profiles ps"] sound_sets(1) [OF assms(3)] by metis
  have safe: "\<forall>k\<in>set ?ks. safe_host (fst k)"
    using assms(2) unfolding ks by (auto simp: probe_key_of_def active_profiles_def managed_safe_host)
  obtain out where out: "fst (probe_keys (ping_executor (env S)) ?ks [] d) = Inr out"
      "\<forall>k r. map_of out k = Some r \<longrightarrow> valid_probe r" "dom (map_of out) = set ?ks"
    using probe_keys_valid [of "[]" "env S" ?ks d] by auto
  obtain out' where out': "assign_results out (active_profiles ps) [] = Inr out'"
      "\<forall>k r. map_of out' k = Some r \<longrightarrow> valid_probe r"
    using assign_results_total [of "active_profiles ps" out "[]"] out ks by auto
  let ?d = "snd (probe_keys (ping_executor (env S)) ?ks [] d)"
  have "\<forall>e\<in>set (map (\<lambda>k. Ran (ping_argv (fst k) (snd k)) (db d)) ?ks). good_effect e"
    using safe by (auto simp: good_effect_def)
  then have "safe_from base ?d"
    by (rule safe_from_more [OF assms(1), rotated 2])
       (use probe_keys_effects [OF safe, of "env S" "[]" d] assms(1) in \<open>simp_all add: safe_from_def\<close>)
  then show ?thesis
    using False out(1) out'
    by (simp add: run_ping_checks_def Let_def wp_bindE wp_liftR)
       (cases "probe_keys (ping_executor (env S)) ?ks [] d", simp add: wp_def liftR_def)
qed

text \<open>A well-formed event can only fail to be recorded by a fault of the database, and history
  does not touch the stored states.\<close>

lemma record_event_wp:
  assumes "safe_from base d" and "ev_code ev \<in> set EVENT_CODES" and "ev_action_result ev = None"
    and "ev_error_category ev \<in> set SAFE_ERROR_CATEGORIES"
  shows "wp (record_event E ev) (\<lambda>_. safe_from base) (\<lambda>e d'. e = SqliteError \<and> safe_from base d') d"
proof -
  have ok: "insert_event ev (db d) = Inr (db d\<lparr>events_table := events_table (db d) @ [(event_seq (db d) + 1, ev)],
      event_seq := event_seq (db d) + 1\<rparr>)"
    using assms(2-4) by (simp add: insert_event_def SAFE_ACTION_RESULTS_def)
  show ?thesis
    unfolding record_event_def
    by (rule transactionI)
       (use assms(1) in \<open>auto simp: ok safe_from_def\<close>)
qed

lemma prune_events_wp:
  assumes "safe_from base d"
  shows "wp (prune_events E now keep n k) (\<lambda>_. safe_from base) (\<lambda>e d'. e = SqliteError \<and> safe_from base d') d"
  unfolding prune_events_def
  by (rule transactionI)
     (use assms in \<open>auto simp: Let_def safe_from_def split: prod.splits\<close>)

lemma record_errors_wp:
  fixes d :: "'w daemon"
  assumes "safe_from base d" and "sound_setup S" and "\<forall>e\<in>set errors. Some (snd e) \<in> set SAFE_ERROR_CATEGORIES"
  shows "wp (record_errors S errors now) (\<lambda>_. safe_from base) (\<lambda>e d'. e = SqliteError \<and> safe_from base d') d"
proof -
  have "wp (forE (pick S (remdups (filter (\<lambda>e. e \<notin> set (reported_errors d)) errors)))
      (\<lambda>e. record_event (env S) (error_event now e)))
     (\<lambda>_. safe_from base) (\<lambda>e d'. e = SqliteError \<and> safe_from base d') d"
    using assms(1)
  proof (rule wp_forE)
    fix e and d' :: "'w daemon"
    assume "e \<in> set (pick S (remdups (filter (\<lambda>e. e \<notin> set (reported_errors d)) errors)))" and "safe_from base d'"
    then show "wp (record_event (env S) (error_event now e)) (\<lambda>_. safe_from base)
        (\<lambda>e d'. e = SqliteError \<and> safe_from base d') d'"
      using assms(3) sound_sets(2) [OF assms(2)]
      by (intro record_event_wp) (auto simp: error_event_def WatchdogEvent_def EVENT_CODES_def)
  qed
  then show ?thesis
    unfolding record_errors_def wp_bindE wp_gets wp_seqE by (rule wp_weaken) (simp_all add: wp_modify)
qed

text \<open>The errors a load reports all have a category that may be recorded.\<close>

lemma discover_loop_errors:
  "discover_loop load names ps es = Inr (ps', es') \<Longrightarrow> set es' \<subseteq> set es \<union> range (\<lambda>i. (i, Invalid_profile))"
proof (induction names arbitrary: ps es)
  case (Cons name names)
  then show ?case by (fastforce split: option.splits sum.splits if_splits)
qed simp

lemma discover_loop_managed:
  assumes "discover_loop (load_candidate F e u c g uid b) names [] [] = Inr (ps, es)"
  shows "\<forall>p\<in>set ps. managed p"
  using discover_loop_eq [OF assms] by (auto simp: mem_map_filter dest!: found_identity)

lemma runtime_load_sound:
  assumes "runtime_load L F = Inr (ps, es, fallback)"
  shows "(\<forall>p\<in>set ps. managed p) \<and> (\<forall>e\<in>set es. Some (snd e) \<in> set SAFE_ERROR_CATEGORIES)"
proof -
  obtain cfg where "discover_profiles F (env_dir L) (unit_dir L) (profile_config_dir L) cfg
      (ld_expected_uid L) (ld_boundary L) = Inr (ps, es)"
    using assms by (auto simp: runtime_load_def bindR_eq_Inr)
  then show ?thesis
    unfolding discover_profiles_def
    by (force simp: SAFE_ERROR_CATEGORIES_def split: if_splits dest: discover_loop_managed discover_loop_errors)
qed

lemma cycle_profiles_wp:
  fixes d :: "'w daemon"
  assumes "safe_from base d" and "sound_setup S" and "\<forall>p\<in>set ps. managed p"
    and "\<forall>e\<in>set errors. Some (snd e) \<in> set SAFE_ERROR_CATEGORIES"
  shows "wp (cycle_profiles S tick wall ps errors fallback)
    (\<lambda>_. safe_from base)
    (\<lambda>e d'. e = SqliteError \<and> safe_from base d') d"
proof -
  let ?Q = "\<lambda>(_ :: real) (d' :: 'w daemon). safe_from base d'"
  let ?X = "\<lambda>e d'. e = SqliteError \<and> safe_from base d'"
  have prune: "wp (seqE (bindE (gets next_prune) (\<lambda>t. whenE (t \<le> tick)
                        (seqE (bindE (prune_events (env S) wall EVENT_RETENTION_SECONDS 500 100) (\<lambda>_. ret ()))
                              (modify (\<lambda>d. d\<lparr>next_prune := tick + 60\<rparr>)))))
                  (gets (\<lambda>d. earliest (next_due d) (tick + of_int fallback)))) ?Q ?X d'"
    if "safe_from base d'" for d' :: "'w daemon"
    using that unfolding wp_seqE wp_bindE wp_gets wp_whenE
    by (auto simp: wp_gets wp_modify wp_ret intro!: wp_weaken [OF prune_events_wp])
  have errs: "\<forall>e\<in>set (errors @ runtime_errors bad @ runtime_errors bad2). Some (snd e) \<in> set SAFE_ERROR_CATEGORIES"
    for bad bad2
    using assms(4) by (auto simp: runtime_errors_def SAFE_ERROR_CATEGORIES_def)
  show ?thesis
    unfolding cycle_profiles_def wp_bindE [of "reconcile_all _ _ _"] Let_def
  proof (rule wp_weaken [OF reconcile_all_wp [OF assms(1,3)]])
    fix bad and d1 :: "'w daemon"
    assume d1: "safe_from base d1"
    let ?active = "filter (\<lambda>p. mode (config p) \<noteq> Disabled \<and> mp_profile_id p \<notin> set bad) ps"
    let ?d2 = "d1\<lparr>next_due := filter (\<lambda>e. fst e \<in> set (map mp_profile_id ?active)) (next_due d1)\<rparr>"
    let ?due = "filter (\<lambda>p. dict_get (next_due ?d2) (mp_profile_id p) tick \<le> tick) ?active"
    have due: "\<forall>p\<in>set ?due. managed p" using assms(3) by auto
    have d2: "safe_from base ?d2" using d1 by simp
    show "wp (seqE (modify (\<lambda>d. d\<lparr>next_due :=
              filter (\<lambda>e. fst e \<in> set (map mp_profile_id ?active)) (next_due d)\<rparr>))
          (bindE (gets (\<lambda>d. filter (\<lambda>p. dict_get (next_due d) (mp_profile_id p) tick \<le> tick) ?active))
            (\<lambda>due. bindE (run_ping_checks (order S) (ping_executor (env S)) due) (\<lambda>results.
               bindE (process_all S tick results due []) (\<lambda>bad2.
               seqE (record_errors S (errors @ runtime_errors bad @ runtime_errors bad2) wall)
               (seqE (bindE (gets next_prune) (\<lambda>t. whenE (t \<le> tick)
                        (seqE (bindE (prune_events (env S) wall EVENT_RETENTION_SECONDS 500 100) (\<lambda>_. ret ()))
                              (modify (\<lambda>d. d\<lparr>next_prune := tick + 60\<rparr>)))))
                  (gets (\<lambda>d. earliest (next_due d) (tick + of_int fallback))))))))) ?Q ?X d1"
      unfolding wp_seqE [of "modify _"] wp_modify wp_bindE [of "gets _"] wp_gets
        wp_bindE [of "run_ping_checks _ _ _"] wp_bindE [of "process_all _ _ _ _ _"] wp_seqE [of "record_errors _ _ _"]
      by (rule wp_weaken [OF run_ping_checks_wp [OF d2 due assms(2)]], elim conjE)
         (rule wp_weaken [OF process_all_wp [OF _ due]], assumption+,
          rule wp_weaken [OF record_errors_wp [OF _ assms(2) errs]], assumption, rule prune, simp_all)
  qed simp
qed

definition load_fails :: "'w daemon_setup \<Rightarrow> wd_exn \<Rightarrow> bool" where
  "load_fails S e \<longleftrightarrow> (\<exists>x. runtime_load (ld S) (look S x) = Inl e) \<and> (\<forall>c. e \<noteq> ConfigError c)"

lemma run_cycle_wp:
  fixes d :: "'w daemon"
  assumes "safe_from base d" and "sound_setup S"
  shows "wp (run_cycle S) (\<lambda>_. safe_from base) (\<lambda>e d'. (e = SqliteError \<or> load_fails S e) \<and> safe_from base d') d"
proof -
  have config_error: "wp (seqE (record_errors S [(None, Invalid_global_config)] wall) (ret t))
      (\<lambda>_. safe_from base) (\<lambda>e d'. (e = SqliteError \<or> load_fails S e) \<and> safe_from base d') d'"
    if "safe_from base d'" for d' :: "'w daemon" and wall and t :: real
    unfolding wp_seqE
    by (rule wp_weaken [OF record_errors_wp [OF that assms(2)]]) (auto simp: SAFE_ERROR_CATEGORIES_def wp_ret)
  have loaded: "wp (case runtime_load (ld S) (look S x) of
         Inl (ConfigError _) \<Rightarrow>
           seqE (record_errors S [(None, Invalid_global_config)] wall) (ret (t + 2))
       | Inl e \<Rightarrow> raise e
       | Inr (profiles, errors, fallback) \<Rightarrow> cycle_profiles S t wall profiles errors fallback)
      (\<lambda>_. safe_from base) (\<lambda>e d'. (e = SqliteError \<or> load_fails S e) \<and> safe_from base d') d'"
    if "safe_from base d'" for d' :: "'w daemon" and wall t x
  proof (cases "runtime_load (ld S) (look S x)")
    case (Inl e)
    with that config_error show ?thesis by (cases e) (auto simp: wp_raise load_fails_def)
  next
    case (Inr r)
    then obtain ps es fb where r: "runtime_load (ld S) (look S x) = Inr (ps, es, fb)" by (cases r) auto
    have "wp (cycle_profiles S t wall ps es fb)
      (\<lambda>_. safe_from base) (\<lambda>e d'. (e = SqliteError \<or> load_fails S e) \<and> safe_from base d') d'"
      by (rule wp_weaken [OF cycle_profiles_wp [OF that assms(2)]]) (use runtime_load_sound [OF r] in auto)
    with r show ?thesis by simp
  qed
  show ?thesis
    unfolding run_cycle_def wp_bindE wp_read_monotonic
    by (auto simp: assms(1) wp_gets intro!: read_wallI loaded split: prod.splits)
qed

lemma daemon_loop_wp:
  fixes d :: "'w daemon"
  assumes "safe_from base d" and "sound_setup S"
  shows "wp (daemon_loop n S stopping sleeper deadline) (\<lambda>_. safe_from base)
    (\<lambda>e d'. (e = SqliteError \<or> load_fails S e) \<and> safe_from base d') d"
  using assms(1)
proof (induction n arbitrary: d deadline)
  case 0
  then show ?case by (simp add: wp_ret)
next
  case (Suc n)
  let ?X = "\<lambda>e d'. (e = SqliteError \<or> load_fails S e) \<and> safe_from base (d' :: 'w daemon)"
  have body: "wp (bindE (read_monotonic (env S)) (\<lambda>current.
           if current < deadline
           then seqE (modify (\<lambda>d. d\<lparr>outside := sleeper (deadline - current) (outside d)\<rparr>))
                  (daemon_loop n S stopping sleeper deadline)
           else bindE (run_cycle S) (daemon_loop n S stopping sleeper))) (\<lambda>_. safe_from base) ?X d'"
    if "safe_from base d'" for d' :: "'w daemon"
    unfolding wp_bindE wp_read_monotonic wp_seqE wp_if
    using that
    by (auto simp: wp_modify intro!: Suc.IH wp_weaken [OF run_cycle_wp [OF _ assms(2)]] split: prod.splits)
  obtain b x where b: "stopping (outside d) = (b, x)" by fastforce
  then show ?case
    using body [of "d\<lparr>outside := x\<rparr>"] Suc.prems by (cases b) (simp_all add: wp_def)
qed

lemma lifecycle_event_wp:
  assumes "safe_from base d" and "code = Watchdog_daemon_started \<or> code = Watchdog_daemon_stopped"
  shows "wp (record_event E (WatchdogEvent t code)) (\<lambda>_. safe_from base) (\<lambda>e d'. e = SqliteError \<and> safe_from base d') d"
  using assms by (intro record_event_wp) (auto simp: WatchdogEvent_def EVENT_CODES_def SAFE_ERROR_CATEGORIES_def)

lemma daemon_run_wp:
  fixes d :: "'w daemon"
  assumes "safe_from base d" and "sound_setup S"
  shows "wp (daemon_run n S stopping sleeper) (\<lambda>_. safe_from base)
    (\<lambda>e d'. (e = SqliteError \<or> load_fails S e) \<and> safe_from base d') d"
proof -
  let ?X = "\<lambda>e d'. (e = SqliteError \<or> load_fails S e) \<and> safe_from base (d' :: 'w daemon)"
  let ?stopped = "bindE (read_wall (env S)) (\<lambda>t. record_event (env S) (WatchdogEvent t Watchdog_daemon_stopped))
    :: ('w, unit) cycle"
  have stopped: "wp ?stopped (\<lambda>_. safe_from base) (\<lambda>e d'. e = SqliteError \<and> safe_from base d') d'"
    if "safe_from base d'" for d' :: "'w daemon"
    unfolding wp_bindE by (rule read_wallI, rule lifecycle_event_wp) (use that in auto)
  have loop: "wp (bindE (read_monotonic (env S)) (daemon_loop n S stopping sleeper)) (\<lambda>_. safe_from base) ?X d'"
    if "safe_from base d'" for d' :: "'w daemon"
    unfolding wp_bindE wp_read_monotonic
    using that by (auto intro!: daemon_loop_wp [OF _ assms(2)] split: prod.splits)
  have rest: "wp (bindE (handle (bindE (read_monotonic (env S)) (daemon_loop n S stopping sleeper))
                    (\<lambda>e. seqE ?stopped (raise e)))
             (\<lambda>ended. seqE ?stopped (ret ended))) (\<lambda>_. safe_from base) ?X d'"
    if "safe_from base d'" for d' :: "'w daemon"
    unfolding wp_bindE [of "handle _ _"] wp_handle wp_seqE
    by (rule wp_weaken [OF loop [OF that]])
       (rule wp_weaken [OF stopped], (simp_all add: wp_ret wp_raise))+
  show ?thesis
    unfolding daemon_run_def Let_def wp_bindE [of "read_wall _"] wp_seqE [of "record_event _ _"]
    by (rule read_wallI, rule wp_weaken [OF lifecycle_event_wp])
       (use assms(1) rest in auto)
qed


section \<open>Properties\<close>

lemma record_event_run:
  "record_event E ev d = (Inr (), d') \<Longrightarrow>
     \<exists>x n. d' = d\<lparr>outside := x, db := db d\<lparr>events_table := events_table (db d) @ [(n, ev)], event_seq := n\<rparr>\<rparr>"
  by (auto simp: record_event_def transaction_def Let_def insert_event_def bindR_def
      split: prod.splits sum.splits if_splits)

lemma record_each_run:
  fixes d :: "'w daemon"
  assumes "forE xs (\<lambda>e. record_event E (f e)) d = (Inr (), d')"
  shows "map snd (events_table (db d')) = map snd (events_table (db d)) @ map f xs
    \<and> reported_errors d' = reported_errors d"
  using assms
proof (induction xs arbitrary: d)
  case Nil
  then show ?case by (simp add: ret_def)
next
  case (Cons x xs)
  then obtain d1 where "record_event E (f x) d = (Inr (), d1)" "forE xs (\<lambda>e. record_event E (f e)) d1 = (Inr (), d')"
    by (auto simp: seqE_def bindE_def split: prod.splits sum.splits)
  with record_event_run [of E "f x" d d1] Cons.IH [of d1] show ?case by auto
qed

text \<open>An error is reported once. When \<open>_record_errors\<close> returns, exactly one event has been
  appended for every error of this cycle that the previous cycle did not report, in some order,
  and the errors of this cycle are what the next one compares with.\<close>

theorem record_errors_once:
  assumes "sound_setup S" and "record_errors S errors now d = (Inr (), d')"
  shows "\<exists>new. distinct new \<and> set new = set errors - set (reported_errors d)
    \<and> map snd (events_table (db d')) = map snd (events_table (db d)) @ map (error_event now) new
    \<and> set (reported_errors d') = set errors"
proof -
  let ?new = "pick S (remdups (filter (\<lambda>e. e \<notin> set (reported_errors d)) errors))"
  obtain d1 where run: "forE ?new (\<lambda>e. record_event (env S) (error_event now e)) d = (Inr (), d1)"
      and d': "d' = d1\<lparr>reported_errors := remdups errors\<rparr>"
    using assms(2) by (auto simp: record_errors_def bindE_def gets_def seqE_def modify_def split: prod.splits sum.splits)
  have "mset ?new = mset (remdups (filter (\<lambda>e. e \<notin> set (reported_errors d)) errors))"
    using assms(1) by (simp add: sound_setup_def)
  then have "distinct ?new" "set ?new = set errors - set (reported_errors d)"
    by (metis distinct_remdups mset_eq_imp_distinct_iff, simp add: sound_sets(2) [OF assms(1)], blast)
  with record_each_run [OF run] d' show ?thesis by auto
qed

text \<open>Deadlines keep to their grid. The next deadline is strictly after the current time, it
  lies a whole number of intervals after the previous one, and it is the first such
  moment: late cycles skip deadlines, they never shift them.\<close>

theorem advance_deadline_first_on_grid:
  assumes "0 < interval"
  shows "current < advance_deadline previous interval current
    \<and> (\<exists>k\<ge>1. advance_deadline previous interval current = previous + real k * interval)
    \<and> (\<forall>k\<ge>1. current < previous + real k * interval \<longrightarrow>
          advance_deadline previous interval current \<le> previous + real k * interval)"
  using wd.in_time [OF assms] wd.on_grid [OF assms] wd.first [OF assms] by (force simp: not_le)

theorem advance_deadline_first_on_grid_witness: "advance_deadline 10 2 17 = 18 \<and> (17::real) < advance_deadline 10 2 17"
  using advance_deadline_first_on_grid [of 2 17 10] by (simp add: advance_deadline_def)

text \<open>C16: the whole daemon is safe. However many rounds \<open>run\<close> makes, however its cycles,
  the commands, the files and the database behave, and however it ends: every command it has
  run is the ping of a safe address or concerns the unit of a managed profile and is its state
  query, a stop under a stored stop intent, or a start under a stored intent; and all the
  stored states are well formed.\<close>

theorem daemon_run_safe:
  assumes "wf_db (db d)" and "sound_setup S" and "daemon_run n S stopping sleeper d = (r, d')"
  shows "wf_db (db d') \<and> (\<exists>es. effects d' = effects d @ es \<and> (\<forall>argv dd. Ran argv dd \<in> set es \<longrightarrow>
     (\<exists>host t. safe_host host \<and> argv = ping_argv host t)
     \<or> (\<exists>p. managed p \<and>
         (argv = ACTIVE (mp_service_name p)
          \<or> argv = STOP (mp_service_name p) \<and> intent dd (mp_profile_id p) \<in> {Some Stop_watchdog, Some Stop_maintenance}
          \<or> argv = START (mp_service_name p) \<and> intent dd (mp_profile_id p) \<noteq> None))))"
proof -
  have "safe_from (effects d) d" using assms(1) by (simp add: safe_from_def)
  from wp_run [OF daemon_run_wp [OF this assms(2)] assms(3)] have "safe_from (effects d) d'"
    by (cases r) auto
  then obtain es where es: "wf_db (db d')" "effects d' = effects d @ es" "\<forall>e\<in>set es. good_effect e"
    by (auto simp: safe_from_def)
  show ?thesis
  proof (intro conjI exI [of _ es] allI impI es(1,2))
    fix argv dd assume "Ran argv dd \<in> set es"
    with es(3) have "good_effect (Ran argv dd)" by blast
    then show "(\<exists>host t. safe_host host \<and> argv = ping_argv host t)
     \<or> (\<exists>p. managed p \<and>
         (argv = ACTIVE (mp_service_name p)
          \<or> argv = STOP (mp_service_name p) \<and> intent dd (mp_profile_id p) \<in> {Some Stop_watchdog, Some Stop_maintenance}
          \<or> argv = START (mp_service_name p) \<and> intent dd (mp_profile_id p) \<noteq> None))"
      unfolding good_effect_def covered.simps STOP_INTENTS_def by blast
  qed
qed

text \<open>One profile's failure never ends a cycle. Whatever raises while the profiles are
  reconciled, probed and processed is turned into a recorded error; \<open>run_cycle\<close> itself raises only
  when recording or pruning the history met a fault of the database, or when loading the
  configuration failed with something else than a configuration error.\<close>

theorem run_cycle_isolates_failures:
  assumes "wf_db (db d)" and "sound_setup S" and "run_cycle S d = (Inl e, d')"
  shows "e = SqliteError \<or> (\<exists>x. runtime_load (ld S) (look S x) = Inl e \<and> (\<forall>c. e \<noteq> ConfigError c))"
proof -
  have "safe_from (effects d) d" using assms(1) by (simp add: safe_from_def)
  from wp_run [OF run_cycle_wp [OF this assms(2)] assms(3)] show ?thesis by (auto simp: load_fails_def)
qed


text \<open>A concrete daemon: one profile, a service that is up, and a database that may fail.\<close>

definition daemon_fs :: fs where
  "daemon_fs = sample_fs\<lparr>fs_exists := (\<lambda>p. True),
     fs_read := (\<lambda>p. Some (if last p = ''g'' then default_global_config_text else if last p = ''iran-1.conf'' then ''MODE=auto'' else ''KHAREJ_IP=a'')),
     fs_listdir := (\<lambda>_. [''iran-1.env''])\<rparr>"

definition daemon_setup_of :: "bool \<Rightarrow> unit daemon_setup" where
  "daemon_setup_of fault =
     \<lparr>env = \<lparr>runner = (\<lambda>_ x. (Completed 0, x)), db_fault = (\<lambda>x. (fault, x)), wall_clock = (\<lambda>x. (100, x)),
        monotonic_clock = (\<lambda>x. (0, x)), jitter_source = (\<lambda>_ x. (0, x))\<rparr>,
      ld = \<lparr>global_config_path = [''g''], profile_config_dir = [''c''], env_dir = [''e''], unit_dir = [''u''],
        ld_expected_uid = None, ld_boundary = None\<rparr>,
      look = (\<lambda>_. daemon_fs), order = rev, pick = rev\<rparr>"

definition sample_daemon :: "unit daemon" where
  "sample_daemon = \<lparr>db = empty_database, outside = (), effects = [], next_due = [], reported_errors = [], next_prune = 0\<rparr>"

lemma sample_daemon_start: "wf_db (db sample_daemon)" "sound_setup (daemon_setup_of b)"
  by (simp_all add: sample_daemon_def empty_database_def wf_db_def stored_state_def sound_setup_def daemon_setup_of_def)

theorem record_errors_once_witness:
  "\<exists>d'. record_errors (daemon_setup_of False) [(None, Invalid_profile), (None, Invalid_profile)] 7 sample_daemon = (Inr (), d')
     \<and> length (events_table (db d')) = 1"
proof -
  let ?run = "record_errors (daemon_setup_of False) [(None, Invalid_profile), (None, Invalid_profile)] 7 sample_daemon"
  have "case fst ?run of Inl _ \<Rightarrow> False | Inr _ \<Rightarrow> True" by code_simp
  then obtain d' where run: "?run = (Inr (), d')" by (cases ?run) (auto split: sum.splits)
  from record_errors_once [OF sample_daemon_start(2) run] obtain new where
      new: "distinct new" "set new = {(None, Invalid_profile)}"
      "map snd (events_table (db d')) = map (error_event 7) new"
    by (auto simp: sample_daemon_def empty_database_def)
  then have "length (events_table (db d')) = length new" by (metis length_map)
  moreover have "length new = 1" using new(1,2) distinct_card [of new] by simp
  ultimately show ?thesis using run by auto
qed

theorem daemon_run_safe_witness:
  "\<exists>r d'. daemon_run 2 (daemon_setup_of False) (\<lambda>x. (False, x)) (\<lambda>_ x. x) sample_daemon = (r, d')
     \<and> map (\<lambda>e. case e of Ran argv _ \<Rightarrow> argv) (effects d') \<noteq> [] \<and> wf_db (db d')"
proof -
  let ?run = "daemon_run 2 (daemon_setup_of False) (\<lambda>x. (False, x)) (\<lambda>_ x. x) sample_daemon"
  have ran: "map (\<lambda>e. case e of Ran argv _ \<Rightarrow> argv) (effects (snd ?run)) \<noteq> []" by code_simp
  obtain r d' where run: "?run = (r, d')" by fastforce
  from daemon_run_safe [OF sample_daemon_start run] run ran show ?thesis by auto
qed

theorem run_cycle_isolates_failures_witness:
  "\<exists>d'. run_cycle (daemon_setup_of True) sample_daemon = (Inl SqliteError, d')"
proof -
  let ?run = "run_cycle (daemon_setup_of True) sample_daemon"
  have "case fst ?run of Inl _ \<Rightarrow> True | Inr _ \<Rightarrow> False"
    and ok: "case runtime_load (ld (daemon_setup_of True)) daemon_fs of Inl _ \<Rightarrow> False | Inr _ \<Rightarrow> True" by code_simp+
  then obtain e d' where run: "?run = (Inl e, d')" by (cases ?run) (auto split: sum.splits)
  from run_cycle_isolates_failures [OF sample_daemon_start run] ok have "e = SqliteError"
    by (auto simp: daemon_setup_of_def)
  with run show ?thesis by simp
qed

end
