(* ===== verification/Watchdog_Admin.thy ===== *)
theory Watchdog_Admin
  imports Watchdog_Daemon
begin

text \<open>
  \<open>src/gost_watchdog/admin_cli.py\<close>: the operator's commands. A command reads the configuration
  files through \<open>view\<close> (the file system as the outside and the disk show it), opens the store,
  calls the engine, and may rewrite a configuration file on the disk. What it prints is returned
  as a report, before formatting; \<open>admin_main\<close> maps the outcome to the exit code, where an exception
  that no clause catches gives none.
\<close>

section \<open>Context and errors\<close>

datatype admin_exn = AdminInputError | AdminRuntimeError | Wd wd_exn

record 'w admin = "'w world" +
  disk :: disk

type_synonym ('w, 'a) command_act = "('w admin, admin_exn, 'a) act"

record 'w system =
  sy_env :: "'w env"
  view :: "'w \<Rightarrow> disk \<Rightarrow> fs"
  write_fault :: "write_step \<Rightarrow> bool"
  temporary :: path
  euid :: int

record admin_context =
  cx_global_config_path :: path
  cx_profile_config_dir :: path
  cx_env_dir :: path
  cx_unit_dir :: path
  cx_db_path :: path
  cx_boundary :: "path option"
  cx_expected_uid :: "int option"
  cx_owner_uid :: "int option"

record arguments =
  ar_installed :: bool
  ar_path_root :: "(bool \<times> path) option"
  ar_config :: "bool \<times> path"
  ar_profile_config_dir :: "bool \<times> path"
  ar_env_dir :: "bool \<times> path"
  ar_unit_dir :: "bool \<times> path"
  ar_db :: "bool \<times> path"

definition make_context :: "fs \<Rightarrow> int \<Rightarrow> arguments \<Rightarrow> (wd_exn, admin_context) result" where
  "make_context F uid args =
     (let base = ar_path_root args;
          expected_uid = (if ar_installed args then Some (if base = None then 0 else uid) else None)
      in bindR (rooted_path F (ar_config args) base) (\<lambda>config.
         bindR (rooted_path F (ar_profile_config_dir args) base) (\<lambda>profiles.
         bindR (rooted_path F (ar_env_dir args) base) (\<lambda>envs.
         bindR (rooted_path F (ar_unit_dir args) base) (\<lambda>units.
         bindR (rooted_path F (ar_db args) base) (\<lambda>dbp.
           Inr \<lparr>cx_global_config_path = config, cx_profile_config_dir = profiles, cx_env_dir = envs,
                cx_unit_dir = units, cx_db_path = dbp, cx_boundary = map_option snd base,
                cx_expected_uid = expected_uid, cx_owner_uid = expected_uid\<rparr>))))))"

text \<open>Running a Watchdog operation from a command: on the world, with its exceptions wrapped.\<close>

definition wd :: "('s, wd_exn, 'a) act \<Rightarrow> ('s, admin_exn, 'a) act" where
  "wd act = (\<lambda>s. case act s of (Inl e, s') \<Rightarrow> (Inl (Wd e), s') | (Inr x, s') \<Rightarrow> (Inr x, s'))"

definition wd_world :: "('w world, wd_exn, 'a) act \<Rightarrow> ('w, 'a) command_act" where
  "wd_world act = (\<lambda>s. case act (world.truncate s) of
     (r, w) \<Rightarrow> (case r of Inl e \<Rightarrow> Inl (Wd e) | Inr x \<Rightarrow> Inr x,
                s\<lparr>db := db w, outside := outside w, effects := effects w\<rparr>))"

definition files_now :: "'w system \<Rightarrow> ('w, fs) command_act" where
  "files_now S = gets (\<lambda>s. view S (outside s) (disk s))"

section \<open>Shared steps\<close>

definition load_global :: "'w system \<Rightarrow> admin_context \<Rightarrow> ('w, global_config) command_act" where
  "load_global S c = bindE (files_now S) (\<lambda>F.
     wd (liftR (load_global_config F (cx_global_config_path c) (cx_expected_uid c) (cx_boundary c))))"

definition list_profiles ::
  "'w system \<Rightarrow> admin_context \<Rightarrow> bool \<Rightarrow> ('w, managed_profile list \<times> discovery_error list) command_act" where
  "list_profiles S c require_all_valid =
     bindE (load_global S c) (\<lambda>g. bindE (files_now S) (\<lambda>F.
     bindE (wd (liftR (discover_profiles F (cx_env_dir c) (cx_unit_dir c) (cx_profile_config_dir c) g
              (cx_expected_uid c) (cx_boundary c)))) (\<lambda>found.
       if require_all_valid \<and> snd found \<noteq> [] then raise AdminInputError else ret found)))"

definition find_profile :: "'w system \<Rightarrow> admin_context \<Rightarrow> string \<Rightarrow> ('w, managed_profile) command_act" where
  "find_profile S c profile_id =
     (if PROFILE_RE profile_id = None then raise AdminInputError
      else bindE (list_profiles S c False) (\<lambda>found.
        case find (\<lambda>p. mp_profile_id p = profile_id) (fst found) of
          None \<Rightarrow> raise AdminInputError
        | Some p \<Rightarrow> ret p))"

definition conf_path :: "admin_context \<Rightarrow> string \<Rightarrow> path" where
  "conf_path c profile_id = cx_profile_config_dir c @ [profile_id @ ''.conf'']"

fun is_ConfigError :: "wd_exn \<Rightarrow> bool" where
  "is_ConfigError (ConfigError _) = True"
| "is_ConfigError _ = False"

definition existing_profile_values ::
  "'w system \<Rightarrow> admin_context \<Rightarrow> string \<Rightarrow> ('w, (string, string) dict) command_act" where
  "existing_profile_values S c profile_id = bindE (files_now S) (\<lambda>F.
     let p = conf_path c profile_id
     in if \<not> fs_exists F p \<and> \<not> fs_is_symlink F p then ret []
        else case fs_read F p of
               None \<Rightarrow> raise AdminInputError
             | Some text \<Rightarrow>
                 (case parse_profile_values text of
                    Inl e \<Rightarrow> if is_ConfigError e then raise AdminInputError else raise (Wd e)
                  | Inr values \<Rightarrow> ret values))"

definition write_config ::
  "'w system \<Rightarrow> admin_context \<Rightarrow> path \<Rightarrow> string \<Rightarrow> bool \<Rightarrow> ('w, unit) command_act" where
  "write_config S c p text recovery = bindE (files_now S) (\<lambda>F. wd (\<lambda>s.
     case atomic_write_config F (write_fault S) (temporary S) p text (cx_owner_uid c) (cx_boundary c)
            recovery (disk s) of
       (r, d) \<Rightarrow> (r, s\<lparr>disk := d\<rparr>)))"

definition write_profile_values ::
  "'w system \<Rightarrow> admin_context \<Rightarrow> string \<Rightarrow> (string, string) dict \<Rightarrow> ('w, unit) command_act" where
  "write_profile_values S c profile_id values =
     bindE (load_global S c) (\<lambda>g.
     bindE (wd (liftR (profile_config_from_mapping values g))) (\<lambda>_.
     bindE (wd (liftR (render_profile_values values g))) (\<lambda>text.
       write_config S c (conf_path c profile_id) text False)))"

definition open_store :: "'w system \<Rightarrow> ('w, unit) command_act" where
  "open_store S =
     bindE (wd (read_wall (sy_env S))) (\<lambda>now.
     handle (wd (transaction (sy_env S) (\<lambda>d. bindR (migrate_database now d) (\<lambda>d'. Inr ((), d')))))
       (\<lambda>e. case e of
              Wd (RuntimeError _) \<Rightarrow> raise AdminRuntimeError
            | Wd (CommandError _) \<Rightarrow> raise AdminRuntimeError
            | Wd OSError \<Rightarrow> raise AdminRuntimeError
            | _ \<Rightarrow> raise e))"

text \<open>\<open>except (ValueError, CommandError) as exc: raise AdminRuntimeError\<close>.\<close>

definition as_runtime_error :: "('s, admin_exn, 'a) act \<Rightarrow> ('s, admin_exn, 'a) act" where
  "as_runtime_error act = handle act (\<lambda>e. case e of
     Wd x \<Rightarrow> if is_ValueError x \<or> is_CommandError x then raise AdminRuntimeError else raise e
   | _ \<Rightarrow> raise e)"


section \<open>Reports\<close>

record status_item =
  si_profile_id :: string
  si_kharej_ip :: string
  si_mode :: mode
  si_watchdog_state :: display
  si_service_active :: "bool option"
  si_maintenance :: bool
  si_manual_override :: bool
  si_stopped_by_watchdog :: bool
  si_stopped_by_maintenance :: bool
  si_failure_count :: int
  si_success_count :: int
  si_check_status :: check_status
  si_probe_error_category :: "error_category option"
  si_pending_action :: "pending option"
  si_config :: profile_config
  si_last_check_at :: "int option"
  si_last_transition_at :: "int option"
  si_outage_duration_seconds :: "int option"
  si_summary_24h :: summary24

definition state_dict ::
  "managed_profile \<Rightarrow> profile_state \<Rightarrow> bool option \<Rightarrow> summary24 \<Rightarrow> int \<Rightarrow> status_item" where
  "state_dict p s service_active summ now =
     \<lparr>si_profile_id = mp_profile_id p, si_kharej_ip = mp_kharej_ip p, si_mode = mode (config p),
      si_watchdog_state = display_state s, si_service_active = service_active,
      si_maintenance = maintenance s, si_manual_override = manual_override s,
      si_stopped_by_watchdog = stopped_by_watchdog s, si_stopped_by_maintenance = stopped_by_maintenance s,
      si_failure_count = failure_count s, si_success_count = success_count s,
      si_check_status = check_status s, si_probe_error_category = last_probe_error_category s,
      si_pending_action = pending_action s, si_config = config p,
      si_last_check_at = last_check_at s, si_last_transition_at = last_transition_at s,
      si_outage_duration_seconds = map_option (\<lambda>t. max 0 (now - t)) (outage_started_at s),
      si_summary_24h = summ\<rparr>"

datatype report =
  Silent
| Config_valid
| Schema_version int
| Profile_lines "(string \<times> string \<times> mode) list" "string list"
| Effective_profile profile_config
| Effective_global_config global_config
| Status_report "status_item list" "discovery_error list"
| Mode_set string mode bool
| Profile_reset string
| Global_text string
| Ping_report string check_status
| Event_rows "(int \<times> event) list"
| Summaries "(string \<times> summary24) list"
| Maintenance_report string bool
| Override_report string bool


section \<open>The commands\<close>

definition command_validate :: "'w system \<Rightarrow> admin_context \<Rightarrow> bool \<Rightarrow> ('w, int \<times> report) command_act" where
  "command_validate S c all_profiles =
     bindE (load_global S c) (\<lambda>_.
     seqE (whenE all_profiles (bindE (list_profiles S c True) (\<lambda>_. ret ())))
       (ret (0, Config_valid)))"

text \<open>\<open>permissions\<close>: whether \<open>chmod\<close> and \<open>chown\<close> of the database file succeed.\<close>

definition command_migrate :: "'w system \<Rightarrow> bool \<Rightarrow> ('w, int \<times> report) command_act" where
  "command_migrate S permissions =
     seqE (open_store S)
       (if permissions then ret (0, Schema_version SCHEMA_VERSION) else raise AdminRuntimeError)"

definition command_profiles :: "'w system \<Rightarrow> admin_context \<Rightarrow> ('w, int \<times> report) command_act" where
  "command_profiles S c = bindE (list_profiles S c False) (\<lambda>found.
     ret (0, Profile_lines
       (map (\<lambda>p. (mp_profile_id p, mp_kharej_ip p, mode (config p))) (fst found))
       (List.map_filter fst (snd found))))"

definition command_effective :: "'w system \<Rightarrow> admin_context \<Rightarrow> string \<Rightarrow> ('w, int \<times> report) command_act" where
  "command_effective S c profile_id =
     bindE (find_profile S c profile_id) (\<lambda>p. ret (0, Effective_profile (config p)))"

definition command_effective_global :: "'w system \<Rightarrow> admin_context \<Rightarrow> ('w, int \<times> report) command_act" where
  "command_effective_global S c = bindE (load_global S c) (\<lambda>g. ret (0, Effective_global_config g))"

definition select_profiles ::
  "managed_profile list \<Rightarrow> string option \<Rightarrow> ('s, admin_exn, managed_profile list) act" where
  "select_profiles profiles profile_id =
     (case profile_id of
        None \<Rightarrow> ret profiles
      | Some i \<Rightarrow>
          (let chosen = filter (\<lambda>p. mp_profile_id p = i) profiles
           in if chosen = [] then raise AdminInputError else ret chosen))"

fun status_items ::
  "'w system \<Rightarrow> int \<Rightarrow> managed_profile list \<Rightarrow> status_item list \<Rightarrow> ('w, status_item list) command_act" where
  "status_items S now [] out = ret out"
| "status_items S now (p # ps) out =
     bindE (wd (get_state (sy_env S) (mp_profile_id p) (mp_service_name p) (mp_kharej_ip p))) (\<lambda>s.
     bindE (handle (bindE (wd (is_active (sy_env S) (mp_service_name p))) (\<lambda>b. ret (Some b)))
              (\<lambda>e. case e of
                 Wd x \<Rightarrow> if is_CommandError x then ret None else raise e
               | _ \<Rightarrow> raise e)) (\<lambda>active.
     bindE (wd (transaction (sy_env S) (\<lambda>d. Inr (summary d now (mp_profile_id p), d)))) (\<lambda>summ.
       status_items S now ps (out @ [state_dict p s active summ now]))))"

definition command_status :: "'w system \<Rightarrow> admin_context \<Rightarrow> string option \<Rightarrow> ('w, int \<times> report) command_act" where
  "command_status S c profile_id =
     bindE (list_profiles S c False) (\<lambda>found.
     bindE (select_profiles (fst found) profile_id) (\<lambda>profiles.
     seqE (open_store S)
     (bindE (wd (read_wall (sy_env S))) (\<lambda>now.
     bindE (status_items S now profiles []) (\<lambda>out. ret (0, Status_report out (snd found)))))))"

datatype owned_action = Keep_stopped | Start_if_healthy

text \<open>The \<open>try\<close> block of \<open>command_set_mode\<close>: whether leaving auto mode concerns a service the Watchdog
  has stopped, which needs the operator's choice, and the start the operator may choose.\<close>

definition mode_choice ::
  "'w system \<Rightarrow> managed_profile \<Rightarrow> mode \<Rightarrow> owned_action option \<Rightarrow> ('w, bool) command_act" where
  "mode_choice S p new_mode owned = as_runtime_error
     (bindE (wd (get_state (sy_env S) (mp_profile_id p) (mp_service_name p) (mp_kharej_ip p))) (\<lambda>s.
        let needs_choice = mode (config p) = Auto \<and> new_mode \<in> {Monitor, Disabled} \<and> stopped_by_watchdog s
        in if needs_choice \<and> owned = None then raise AdminInputError
           else if needs_choice \<and> owned = Some Start_if_healthy
           then bindE (wd_world (start_owned_for_mode_change (sy_env S) p)) (\<lambda>_. ret needs_choice)
           else ret needs_choice))"

definition command_set_mode ::
  "'w system \<Rightarrow> admin_context \<Rightarrow> string \<Rightarrow> mode \<Rightarrow> owned_action option \<Rightarrow> ('w, int \<times> report) command_act" where
  "command_set_mode S c profile_id new_mode owned =
     bindE (find_profile S c profile_id) (\<lambda>p.
     if owned \<noteq> None \<and> \<not> (mode (config p) = Auto \<and> new_mode \<in> {Monitor, Disabled})
     then raise AdminInputError
     else seqE (open_store S)
       (bindE (mode_choice S p new_mode owned)
          (\<lambda>needs_choice.
             bindE (existing_profile_values S c profile_id) (\<lambda>values.
             seqE (write_profile_values S c (mp_profile_id p)
                     (AList.update ''MODE'' (mode_text new_mode) values))
               (ret (0, Mode_set profile_id new_mode (needs_choice \<and> owned = Some Keep_stopped)))))))"

record timing_args =
  ta_check_interval :: "int option"
  ta_ping_timeout :: "int option"
  ta_failure_threshold :: "int option"
  ta_success_threshold :: "int option"
  ta_recovery_hold :: "int option"
  ta_recovery_jitter :: "int option"

definition timing_options :: "timing_args \<Rightarrow> (string \<times> string) list" where
  "timing_options a = List.map_filter (\<lambda>kv. map_option (\<lambda>v. (fst kv, str_int v)) (snd kv))
     [(''CHECK_INTERVAL_SECONDS'', ta_check_interval a), (''PING_TIMEOUT_SECONDS'', ta_ping_timeout a),
      (''FAILURE_THRESHOLD'', ta_failure_threshold a), (''SUCCESS_THRESHOLD'', ta_success_threshold a),
      (''RECOVERY_HOLD_SECONDS'', ta_recovery_hold a),
      (''RECOVERY_JITTER_MAX_SECONDS'', ta_recovery_jitter a)]"

definition override_all :: "(string \<times> string) list \<Rightarrow> (string, string) dict \<Rightarrow> (string, string) dict" where
  "override_all options values = fold (\<lambda>kv d. AList.update (fst kv) (snd kv) d) options values"

definition command_configure_profile ::
  "'w system \<Rightarrow> admin_context \<Rightarrow> string \<Rightarrow> mode option \<Rightarrow> timing_args \<Rightarrow> ('w, int \<times> report) command_act" where
  "command_configure_profile S c profile_id new_mode a =
     bindE (find_profile S c profile_id) (\<lambda>p.
     if new_mode \<noteq> None \<and> new_mode \<noteq> Some (mode (config p)) then raise AdminInputError
     else bindE (existing_profile_values S c profile_id) (\<lambda>values.
       let options = (case new_mode of None \<Rightarrow> [] | Some m \<Rightarrow> [(''MODE'', mode_text m)]) @ timing_options a
       in if options = [] then raise AdminInputError
          else seqE (write_profile_values S c (mp_profile_id p) (override_all options values))
                 (command_effective S c profile_id)))"

definition command_reset_profile :: "'w system \<Rightarrow> admin_context \<Rightarrow> string \<Rightarrow> ('w, int \<times> report) command_act" where
  "command_reset_profile S c profile_id =
     bindE (load_global S c) (\<lambda>g0. bindE (files_now S) (\<lambda>F.
     bindE (handle (wd (liftR (load_managed_profile_identity F profile_id (cx_env_dir c) (cx_unit_dir c)
               (cx_profile_config_dir c) g0 (cx_expected_uid c))))
             (\<lambda>e. case e of Wd (ProfileError _) \<Rightarrow> raise AdminInputError | _ \<Rightarrow> raise e)) (\<lambda>p.
     bindE (load_global S c) (\<lambda>g.
     bindE (wd (liftR (render_profile_values [(''MODE'', ''disabled'')] g))) (\<lambda>text.
     seqE (write_config S c (conf_path c (mp_profile_id p)) text True)
       (ret (0, Profile_reset profile_id)))))))"

definition command_set_global :: "'w system \<Rightarrow> admin_context \<Rightarrow> timing_args \<Rightarrow> ('w, int \<times> report) command_act" where
  "command_set_global S c a =
     bindE (load_global S c) (\<lambda>cfg.
       let options = timing_options a
       in if options = [] then raise AdminInputError
          else bindE (wd (liftR (global_config_from_mapping (override_all options (global_values cfg))))) (\<lambda>updated.
            seqE (write_config S c (cx_global_config_path c) (render_global_config updated) False)
              (ret (0, Global_text (render_global_config updated)))))"

definition command_ping :: "'w system \<Rightarrow> admin_context \<Rightarrow> string \<Rightarrow> ('w, int \<times> report) command_act" where
  "command_ping S c profile_id =
     bindE (find_profile S c profile_id) (\<lambda>p.
     bindE (wd (SubprocessPingExecutor (sy_env S) (mp_kharej_ip p) (ping_timeout_seconds (config p)))) (\<lambda>r.
       ret (if status r = Success then 0 else 1, Ping_report (mp_profile_id p) (status r))))"

definition command_events ::
  "'w system \<Rightarrow> string option \<Rightarrow> int \<Rightarrow> ('w, int \<times> report) command_act" where
  "command_events S profile_id limit =
     seqE (case profile_id of
             None \<Rightarrow> ret ()
           | Some i \<Rightarrow> bindE (wd (liftR (validate_profile_id i))) (\<lambda>_. ret ()))
     (seqE (open_store S)
     (bindE (wd (read_wall (sy_env S))) (\<lambda>now.
      bindE (wd (transaction (sy_env S) (\<lambda>d. Inr (events d now profile_id limit, d)))) (\<lambda>rows.
        ret (0, Event_rows rows)))))"

fun summaries ::
  "'w system \<Rightarrow> int \<Rightarrow> managed_profile list \<Rightarrow> (string \<times> summary24) list
     \<Rightarrow> ('w, (string \<times> summary24) list) command_act" where
  "summaries S now [] out = ret out"
| "summaries S now (p # ps) out =
     bindE (wd (transaction (sy_env S) (\<lambda>d. Inr (summary d now (mp_profile_id p), d)))) (\<lambda>x.
       summaries S now ps (out @ [(mp_profile_id p, x)]))"

definition command_summary :: "'w system \<Rightarrow> admin_context \<Rightarrow> string option \<Rightarrow> ('w, int \<times> report) command_act" where
  "command_summary S c profile_id =
     bindE (list_profiles S c False) (\<lambda>found.
     bindE (select_profiles (fst found) profile_id) (\<lambda>profiles.
     seqE (open_store S)
     (bindE (wd (read_wall (sy_env S))) (\<lambda>now.
      bindE (summaries S now profiles []) (\<lambda>out. ret (0, Summaries out))))))"

definition command_maintenance ::
  "'w system \<Rightarrow> admin_context \<Rightarrow> string \<Rightarrow> maintenance_action \<Rightarrow> ('w, int \<times> report) command_act" where
  "command_maintenance S c profile_id action =
     bindE (find_profile S c profile_id) (\<lambda>p.
     seqE (open_store S)
     (bindE (as_runtime_error (wd_world (apply_maintenance (sy_env S) p action))) (\<lambda>s.
       ret (0, Maintenance_report profile_id (maintenance s)))))"

definition command_rearm :: "'w system \<Rightarrow> admin_context \<Rightarrow> string \<Rightarrow> ('w, int \<times> report) command_act" where
  "command_rearm S c profile_id =
     bindE (find_profile S c profile_id) (\<lambda>p.
     seqE (open_store S)
     (bindE (as_runtime_error (wd_world (rearm (sy_env S) p))) (\<lambda>s.
       ret (0, Override_report profile_id (manual_override s)))))"

datatype command =
  Validate_config bool | Migrate bool | Profiles | Effective string | Effective_global
| Status "string option" | Set_mode string mode "owned_action option"
| Configure_profile string "mode option" timing_args | Reset_profile string | Set_global timing_args
| Ping string | Events "string option" int | Summary "string option"
| Maintenance string maintenance_action | Rearm_command string | Unsupported

fun dispatch :: "'w system \<Rightarrow> admin_context \<Rightarrow> command \<Rightarrow> ('w, int \<times> report) command_act" where
  "dispatch S c (Validate_config a) = command_validate S c a"
| "dispatch S c (Migrate perms) = command_migrate S perms"
| "dispatch S c Profiles = command_profiles S c"
| "dispatch S c (Effective i) = command_effective S c i"
| "dispatch S c Effective_global = command_effective_global S c"
| "dispatch S c (Status i) = command_status S c i"
| "dispatch S c (Set_mode i m own) = command_set_mode S c i m own"
| "dispatch S c (Configure_profile i m a) = command_configure_profile S c i m a"
| "dispatch S c (Reset_profile i) = command_reset_profile S c i"
| "dispatch S c (Set_global a) = command_set_global S c a"
| "dispatch S c (Ping i) = command_ping S c i"
| "dispatch S c (Events i l) = command_events S i l"
| "dispatch S c (Summary i) = command_summary S c i"
| "dispatch S c (Maintenance i a) = command_maintenance S c i a"
| "dispatch S c (Rearm_command i) = command_rearm S c i"
| "dispatch S c Unsupported = raise AdminInputError"

fun exit_code :: "admin_exn \<Rightarrow> int option" where
  "exit_code AdminInputError = Some 2"
| "exit_code AdminRuntimeError = Some 3"
| "exit_code (Wd (ConfigError _)) = Some 2"
| "exit_code (Wd (ProfileError _)) = Some 2"
| "exit_code (Wd OSError) = Some 3"
| "exit_code (Wd (CommandError _)) = Some 3"
| "exit_code (Wd _) = None"

definition admin_main :: "'w system \<Rightarrow> arguments \<Rightarrow> command \<Rightarrow> 'w admin \<Rightarrow> int option \<times> report \<times> 'w admin" where
  "admin_main S args cmd s =
     (case bindE (files_now S) (\<lambda>F. bindE (wd (liftR (make_context F (euid S) args))) (\<lambda>c. dispatch S c cmd)) s of
        (Inr (code, out), s') \<Rightarrow> (Some code, out, s')
      | (Inl e, s') \<Rightarrow> (exit_code e, Silent, s'))"


section \<open>What a command keeps\<close>

lemma wp_wd [wp_simps]: "wp (wd act) Q X = wp act Q (\<lambda>e. X (Wd e))"
  by (simp add: fun_eq_iff wp_def wd_def split: prod.splits sum.splits)

lemma wp_files_now [wp_simps]: "wp (files_now S) Q X s = Q (view S (outside s) (disk s)) s"
  by (simp add: files_now_def wp_gets)

lemma safe_from_world [simp]:
  "safe_from base (s\<lparr>disk := x\<rparr>) = safe_from base s" "safe_from base (w\<lparr>outside := y\<rparr>) = safe_from base w"
  by (simp_all add: safe_from_def)

text \<open>The reading steps leave the state alone, and what they return is managed.\<close>

lemma load_global_wp: "wp (load_global S c) (\<lambda>_ s'. s' = s) (\<lambda>_ s'. s' = s) s"
  by (auto simp: load_global_def wp_simps split: sum.splits)

lemma discovered_managed:
  assumes "discover_profiles F e u c g uid b = Inr (ps, es)"
  shows "\<forall>p\<in>set ps. managed p"
  using assms unfolding discover_profiles_def by (auto split: if_splits dest: discover_loop_managed)

lemma list_profiles_wp:
  "wp (list_profiles S c all) (\<lambda>found s'. s' = s \<and> (\<forall>p\<in>set (fst found). managed p)) (\<lambda>_ s'. s' = s) s"
  unfolding list_profiles_def wp_bindE
  by (rule wp_weaken [OF load_global_wp])
     (auto simp: wp_simps split: sum.splits dest!: discovered_managed)

lemma find_profile_wp:
  "wp (find_profile S c pid) (\<lambda>p s'. s' = s \<and> managed p \<and> mp_profile_id p = pid) (\<lambda>_ s'. s' = s) s"
proof -
  have "wp (case find (\<lambda>p. mp_profile_id p = pid) ps of None \<Rightarrow> raise AdminInputError | Some p \<Rightarrow> ret p)
     (\<lambda>p s'. s' = s \<and> managed p \<and> mp_profile_id p = pid) (\<lambda>_ s'. s' = s) s" if "\<forall>p\<in>set ps. managed p" for ps
    using that by (auto simp: wp_simps find_Some_iff split: option.splits)
  then show ?thesis
    unfolding find_profile_def
    by (auto simp: wp_raise wp_bindE intro!: wp_weaken [OF list_profiles_wp])
qed

lemma select_profiles_wp:
  assumes "\<forall>p\<in>set ps. managed p"
  shows "wp (select_profiles ps i) (\<lambda>ps' s'. s' = s \<and> (\<forall>p\<in>set ps'. managed p)) (\<lambda>_ s'. s' = s) s"
  using assms by (auto simp: select_profiles_def wp_simps Let_def split: option.splits)

lemma existing_profile_values_wp: "wp (existing_profile_values S c i) (\<lambda>_ s'. s' = s) (\<lambda>_ s'. s' = s) s"
  by (auto simp: existing_profile_values_def Let_def wp_simps split: option.splits sum.splits)

text \<open>Opening a store of the current schema changes nothing; the statements that only read
  keep the world's invariant.\<close>

lemma open_store_wp:
  assumes "current_schema (db s)"
  shows "wp (open_store S) (\<lambda>_ s'. \<exists>x. s' = s\<lparr>outside := x\<rparr>) (\<lambda>_ s'. \<exists>x. s' = s\<lparr>outside := x\<rparr>) s"
  unfolding open_store_def wp_bindE wp_wd
  by (rule read_wallI, unfold wp_handle wp_wd, rule transactionI)
     (use assms in \<open>auto simp: migrate_database_current wp_simps split: wd_exn.splits\<close>)

lemma read_transaction_wp:
  assumes "safe_from base s" and "\<And>d r. body d = Inr r \<Longrightarrow> snd r = d"
  shows "wp (transaction E body) (\<lambda>_. safe_from base) (\<lambda>_. safe_from base) s"
  by (rule transactionI) (use assms in \<open>auto simp: safe_from_def dest: assms(2)\<close>)

lemma get_state_safe:
  "safe_from base s \<Longrightarrow> wp (get_state E i svc ip) (\<lambda>_. safe_from base) (\<lambda>_. safe_from base) s"
  unfolding get_state_def by (rule read_transaction_wp) (auto simp: bindR_eq_Inr)

lemma read_wall_safe: "safe_from base s \<Longrightarrow> wp (read_wall E) (\<lambda>_. safe_from base) (\<lambda>_. safe_from base) s"
  by (rule read_wallI) simp

lemma is_active_safe:
  assumes "safe_from base s" and "managed p"
  shows "wp (is_active E (mp_service_name p)) (\<lambda>_. safe_from base) (\<lambda>_. safe_from base) s"
proof -
  have "good_effect (Ran (ACTIVE (mp_service_name p)) d)" for d
    using assms(2) by (auto simp: good_effect_def)
  then show ?thesis
    using assms(1) by (intro is_activeI) (auto simp: safe_from_def)
qed

lemma write_config_safe:
  "safe_from base s \<Longrightarrow> wp (write_config S c p text rec) (\<lambda>_. safe_from base) (\<lambda>_. safe_from base) s"
  by (auto simp: write_config_def wp_simps) (auto simp: wp_def split: prod.splits sum.splits)

lemma write_profile_values_safe:
  "safe_from base s \<Longrightarrow> wp (write_profile_values S c i vals) (\<lambda>_. safe_from base) (\<lambda>_. safe_from base) s"
  unfolding write_profile_values_def wp_bindE
  by (rule wp_weaken [OF load_global_wp]) (auto simp: wp_simps write_config_safe split: sum.splits)

lemma wd_world_safe:
  fixes s :: "'w admin"
  assumes "safe_from base s" and "managed p" and "contract False p act"
  shows "wp (wd_world act) (\<lambda>_. safe_from base) (\<lambda>_. safe_from base) s"
proof -
  obtain r w where run: "act (world.truncate s) = (r, w)" by fastforce
  have wf: "wf_db (db (world.truncate s))" using assms(1) by (simp add: safe_from_def world.truncate_def)
  from assms(3) have "wp act (\<lambda>_ w'. cov p (effects (world.truncate s)) (effects w') \<and> wf_db (db w') \<and>
      (False \<longrightarrow> intent (db w') (mp_profile_id p) = None))
      (\<lambda>_ w'. cov p (effects (world.truncate s)) (effects w') \<and> wf_db (db w')) (world.truncate s)"
    unfolding contract_def by (elim allE [where x = "world.truncate s"] mp) (rule wf)
  from wp_run [OF this run] have w: "cov p (effects s) (effects w)" "wf_db (db w)"
    by (cases r; simp add: world.truncate_def)+
  then obtain es where es: "effects w = effects s @ es" "list_all (covered p) es" unfolding cov_def by blast
  then have "\<forall>e\<in>set es. good_effect e" using assms(2) by (auto simp: list_all_iff good_effect_def)
  then have "safe_from base (s\<lparr>db := db w, outside := outside w, effects := effects w\<rparr>)"
    by (rule safe_from_more [OF assms(1), rotated 2]) (use es(1) w(2) in simp_all)
  with run show ?thesis by (cases r) (simp_all add: wp_def wd_world_def)
qed

lemma as_runtime_error_safe:
  "wp act (\<lambda>_. safe_from base) (\<lambda>_. safe_from base) s \<Longrightarrow>
     wp (as_runtime_error act) (\<lambda>_. safe_from base) (\<lambda>_. safe_from base) s"
  unfolding as_runtime_error_def wp_handle
  by (erule wp_weaken) (auto simp: wp_raise split: admin_exn.splits)

text \<open>Every command keeps the invariant, whatever it returns or raises. \<open>keeps\<close> composes.\<close>

definition keeps :: "effect list \<Rightarrow> ('w, 'a) command_act \<Rightarrow> 'w admin \<Rightarrow> bool" where
  "keeps base act s \<longleftrightarrow> wp act (\<lambda>_. safe_from base) (\<lambda>_. safe_from base) s"

lemma keeps_ret [simp]: "keeps base (ret x) s = safe_from base s"
  and keeps_raise [simp]: "keeps base (raise e) s = safe_from base s"
  by (simp_all add: keeps_def wp_simps)

lemma keeps_bind:
  assumes "wp act (\<lambda>x s'. keeps base (f x) s') (\<lambda>_. safe_from base) s"
  shows "keeps base (bindE act f) s"
  using assms by (simp add: keeps_def wp_bindE)

lemma keeps_then:
  assumes "keeps base act s" and "\<And>x s'. safe_from base s' \<Longrightarrow> keeps base (f x) s'"
  shows "keeps base (bindE act f) s"
  by (rule keeps_bind, rule wp_weaken [OF assms(1) [unfolded keeps_def]]) (auto intro: assms(2))

lemma keeps_seq:
  assumes "keeps base act s" and "\<And>s'. safe_from base s' \<Longrightarrow> keeps base act' s'"
  shows "keeps base (seqE act act') s"
  using assms unfolding seqE_def by (rule keeps_then)

lemma keeps_read:
  assumes "wp act (\<lambda>x s'. s' = s \<and> P x) (\<lambda>_ s'. s' = s) s" and "safe_from base s" and "\<And>x. P x \<Longrightarrow> keeps base (f x) s"
  shows "keeps base (bindE act f) s"
  by (rule keeps_bind, rule wp_weaken [OF assms(1)]) (use assms(2,3) in auto)

lemma keeps_store:
  fixes s :: "'w admin"
  assumes "safe_from base s" and "current_schema (db s)" and "\<And>s' :: 'w admin. safe_from base s' \<Longrightarrow> keeps base act s'"
  shows "keeps base (seqE (open_store S) act) s"
  unfolding seqE_def
  by (rule keeps_bind, rule wp_weaken [OF open_store_wp [OF assms(2)]]) (use assms(1,3) in auto)

lemmas keeps_profile = keeps_read [where P = "\<lambda>p. managed p \<and> mp_profile_id p = i" for i, OF find_profile_wp]
lemmas keeps_listed = keeps_read [where P = "\<lambda>found. \<forall>p\<in>set (fst found). managed p", OF list_profiles_wp]
lemmas keeps_selected = keeps_read [where P = "\<lambda>ps. \<forall>p\<in>set ps. managed p", OF select_profiles_wp]
lemmas keeps_global = keeps_read [where P = "\<lambda>_. True", simplified, OF load_global_wp]
lemmas keeps_values = keeps_read [where P = "\<lambda>_. True", simplified, OF existing_profile_values_wp]

lemma keeps_wd: "wp act (\<lambda>_. safe_from base) (\<lambda>_. safe_from base) s \<Longrightarrow> keeps base (wd act) s"
  by (simp add: keeps_def wp_wd)

lemma keeps_lift [simp]: "keeps base (wd (liftR r)) s = safe_from base s"
  by (simp add: keeps_def wp_simps split: sum.splits)

lemma keeps_wall: "safe_from base s \<Longrightarrow> keeps base (wd (read_wall E)) s"
  by (rule keeps_wd) (rule read_wall_safe)

lemma keeps_query: "safe_from base s \<Longrightarrow> keeps base (wd (transaction E (\<lambda>d. Inr (f d, d)))) s"
  by (rule keeps_wd, rule read_transaction_wp) auto

lemma keeps_write: "safe_from base s \<Longrightarrow> keeps base (write_config S c p text b) s"
  "safe_from base s \<Longrightarrow> keeps base (write_profile_values S c i vals) s"
  by (simp_all add: keeps_def write_config_safe write_profile_values_safe)

lemma keeps_engine: "safe_from base s \<Longrightarrow> managed p \<Longrightarrow> contract False p act \<Longrightarrow> keeps base (as_runtime_error (wd_world act)) s"
  unfolding keeps_def by (intro as_runtime_error_safe wd_world_safe)

lemma keeps_status_items:
  "safe_from base s \<Longrightarrow> \<forall>p\<in>set ps. managed p \<Longrightarrow> keeps base (status_items S now ps out) s"
proof (induction ps arbitrary: out s)
  case (Cons p ps)
  have active: "keeps base (handle (bindE (wd (is_active (sy_env S) (mp_service_name p))) (\<lambda>b. ret (Some b)))
              (\<lambda>e. case e of Wd x \<Rightarrow> if is_CommandError x then ret None else raise e | _ \<Rightarrow> raise e)) s'"
    if "safe_from base s'" for s' :: "'a admin"
    unfolding keeps_def wp_handle wp_bindE wp_wd
    by (rule wp_weaken [OF is_active_safe [OF that]])
       (use Cons.prems(2) in \<open>auto simp: wp_simps split: admin_exn.splits\<close>)
  show ?case
    unfolding status_items.simps
    by (rule keeps_then [OF keeps_wd [OF get_state_safe [OF Cons.prems(1)]]], rule keeps_then [OF active], assumption,
        rule keeps_then [OF keeps_query], assumption, rule Cons.IH, assumption) (use Cons.prems(2) in simp)
qed simp

lemma keeps_summaries: "safe_from base s \<Longrightarrow> keeps base (summaries S now ps out) s"
proof (induction ps arbitrary: out s)
  case (Cons p ps)
  show ?case
    unfolding summaries.simps by (rule keeps_then [OF keeps_query [OF Cons.prems]], rule Cons.IH)
qed simp

lemma keeps_files: "(\<And>F. keeps base (f F) s) \<Longrightarrow> keeps base (bindE (files_now S) f) s"
  by (simp add: keeps_def wp_simps)

lemma keeps_if: "(b \<Longrightarrow> keeps base x s) \<Longrightarrow> (\<not> b \<Longrightarrow> keeps base y s) \<Longrightarrow> keeps base (if b then x else y) s"
  by simp

lemma engine_contracts:
  assumes "managed p"
  shows "contract False p (apply_maintenance E p a)" "contract False p (rearm E p)"
    "contract False p (start_owned_for_mode_change E p)"
  using assms eng.op_contract [of p "Maintain a" E] eng.op_contract [of p Rearm E] eng.op_contract [of p Start_owned E]
  by simp_all

lemma mode_choice_keeps:
  assumes "safe_from base s" and "managed p"
  shows "keeps base (mode_choice S p m own) s"
  unfolding keeps_def mode_choice_def
  by (rule as_runtime_error_safe, unfold wp_bindE wp_wd Let_def, rule wp_weaken [OF get_state_safe [OF assms(1)]])
     (auto simp: wp_simps intro!: wd_world_safe engine_contracts assms(2))

lemma set_mode_keeps:
  assumes "safe_from base s" and "current_schema (db s)"
  shows "keeps base (command_set_mode S c i m own) s"
  unfolding command_set_mode_def
  by (rule keeps_profile [OF assms(1)], rule keeps_if, simp add: assms(1), rule keeps_store [OF assms],
      rule keeps_then [OF mode_choice_keeps], assumption, blast, rule keeps_values, assumption,
      rule keeps_seq [OF keeps_write(2)], assumption, simp)

lemma configure_keeps:
  assumes "safe_from base s"
  shows "keeps base (command_configure_profile S c i m a) s"
  unfolding command_configure_profile_def command_effective_def
  by (rule keeps_profile [OF assms])
     (auto simp: assms Let_def intro!: keeps_values keeps_seq [OF keeps_write(2)] keeps_profile)

lemma reset_keeps: "safe_from base s \<Longrightarrow> keeps base (command_reset_profile S c i) s"
  unfolding command_reset_profile_def
  by (rule keeps_global, assumption, rule keeps_files)
     (auto intro!: keeps_then keeps_global keeps_seq [OF keeps_write(1)]
       simp: keeps_def [of _ "handle _ _"] wp_simps split: sum.splits admin_exn.splits wd_exn.splits)

lemma dispatch_keeps:
  assumes "safe_from base s" and "current_schema (db s)"
  shows "keeps base (dispatch S c cmd) s"
proof (cases cmd)
  case (Validate_config a)
  show ?thesis
    unfolding Validate_config dispatch.simps command_validate_def
    by (rule keeps_global [OF assms(1)], rule keeps_seq)
       (auto simp: whenE_def assms(1) intro!: keeps_listed)
next
  case (Migrate perms)
  show ?thesis
    unfolding Migrate dispatch.simps command_migrate_def by (rule keeps_store [OF assms]) simp
next
  case Profiles
  show ?thesis
    unfolding Profiles dispatch.simps command_profiles_def by (rule keeps_listed [OF assms(1)]) (simp add: assms(1))
next
  case (Effective i)
  show ?thesis
    unfolding Effective dispatch.simps command_effective_def by (rule keeps_profile [OF assms(1)]) (simp add: assms(1))
next
  case Effective_global
  show ?thesis
    unfolding Effective_global dispatch.simps command_effective_global_def
    by (rule keeps_global [OF assms(1)]) (simp add: assms(1))
next
  case (Status i)
  show ?thesis
    unfolding Status dispatch.simps command_status_def
    by (rule keeps_listed [OF assms(1)], rule keeps_selected [OF _ assms(1)], assumption, rule keeps_store [OF assms],
        rule keeps_then [OF keeps_wall], assumption, rule keeps_then [OF keeps_status_items]) auto
next
  case (Set_mode i m own)
  show ?thesis unfolding Set_mode dispatch.simps by (rule set_mode_keeps [OF assms])
next
  case (Configure_profile i m a)
  show ?thesis unfolding Configure_profile dispatch.simps by (rule configure_keeps [OF assms(1)])
next
  case (Reset_profile i)
  show ?thesis unfolding Reset_profile dispatch.simps by (rule reset_keeps [OF assms(1)])
next
  case (Set_global a)
  show ?thesis
    unfolding Set_global dispatch.simps command_set_global_def Let_def
    by (rule keeps_global [OF assms(1)]) (auto simp: assms(1) intro!: keeps_then keeps_seq [OF keeps_write(1)])
next
  case (Ping i)
  have ping: "keeps base (wd (SubprocessPingExecutor (sy_env S) (mp_kharej_ip p) t)) s" if "managed p" for p and t :: int
  proof -
    from ping_run [OF managed_safe_host [OF that], of "sy_env S" t s] obtain v x where "SubprocessPingExecutor (sy_env S) (mp_kharej_ip p) t s
        = (v, s\<lparr>outside := x, effects := effects s @ [Ran (ping_argv (mp_kharej_ip p) t) (db s)]\<rparr>)"
      by blast
    moreover have "safe_from base (s\<lparr>outside := x, effects := effects s @ [Ran (ping_argv (mp_kharej_ip p) t) (db s)]\<rparr>)"
    proof (rule safe_from_more [OF assms(1)])
      show "\<forall>e\<in>set [Ran (ping_argv (mp_kharej_ip p) t) (db s)]. good_effect e"
        using managed_safe_host [OF that] by (auto simp: good_effect_def)
    qed (use assms(1) in \<open>simp_all add: safe_from_def\<close>)
    ultimately show ?thesis by (auto simp: keeps_def wp_wd wp_def split: sum.splits)
  qed
  show ?thesis
    unfolding Ping dispatch.simps command_ping_def
    by (rule keeps_profile [OF assms(1)]) (auto intro!: keeps_then [OF ping])
next
  case (Events i l)
  have "wp (case i of None \<Rightarrow> ret () | Some i \<Rightarrow> bindE (wd (liftR (validate_profile_id i))) (\<lambda>_. ret ()))
     (\<lambda>x s'. s' = s \<and> True) (\<lambda>(_ :: admin_exn) s'. s' = s) s"
    by (auto simp: wp_simps split: option.splits sum.splits)
  note checked = keeps_read [OF this assms(1)]
  show ?thesis
    unfolding Events dispatch.simps command_events_def seqE_def [of "case_option _ _ _"]
    by (rule checked, rule keeps_store [OF assms], rule keeps_then [OF keeps_wall], assumption,
        rule keeps_then [OF keeps_query]) simp_all
next
  case (Summary i)
  show ?thesis
    unfolding Summary dispatch.simps command_summary_def
    by (rule keeps_listed [OF assms(1)], rule keeps_selected [OF _ assms(1)], assumption, rule keeps_store [OF assms],
        rule keeps_then [OF keeps_wall], assumption, rule keeps_then [OF keeps_summaries]) auto
next
  case (Maintenance i a)
  show ?thesis
    unfolding Maintenance dispatch.simps command_maintenance_def
    by (rule keeps_profile [OF assms(1)], rule keeps_store [OF assms], rule keeps_then [OF keeps_engine])
       (auto intro: engine_contracts)
next
  case (Rearm_command i)
  show ?thesis
    unfolding Rearm_command dispatch.simps command_rearm_def
    by (rule keeps_profile [OF assms(1)], rule keeps_store [OF assms], rule keeps_then [OF keeps_engine])
       (auto intro: engine_contracts)
next
  case Unsupported
  with assms(1) show ?thesis by simp
qed


section \<open>Properties\<close>

lemma good_effect_argv:
  "good_effect (Ran argv dd) \<Longrightarrow>
     (\<exists>host t. safe_host host \<and> argv = ping_argv host t)
     \<or> (\<exists>p. managed p \<and>
         (argv = ACTIVE (mp_service_name p)
          \<or> argv = STOP (mp_service_name p) \<and> intent dd (mp_profile_id p) \<in> {Some Stop_watchdog, Some Stop_maintenance}
          \<or> argv = START (mp_service_name p) \<and> intent dd (mp_profile_id p) \<noteq> None))"
  unfolding good_effect_def covered.simps STOP_INTENTS_def by blast

text \<open>C24: the operator's commands are as safe as the daemon. On a database of the current schema whose
  states are well formed, any command, whatever the files, the services and the database
  do and however it ends, leaves the stored states well formed, and every command it has run is
  the ping of a safe address or concerns the unit of a managed profile and is its state query,
  a stop under a stored stop intent, or a start under a stored intent.\<close>

theorem admin_commands_safe:
  assumes "wf_db (db s)" and "current_schema (db s)" and "dispatch S c cmd s = (r, s')"
  shows "wf_db (db s') \<and> (\<exists>es. effects s' = effects s @ es \<and> (\<forall>argv dd. Ran argv dd \<in> set es \<longrightarrow>
     (\<exists>host t. safe_host host \<and> argv = ping_argv host t)
     \<or> (\<exists>p. managed p \<and>
         (argv = ACTIVE (mp_service_name p)
          \<or> argv = STOP (mp_service_name p) \<and> intent dd (mp_profile_id p) \<in> {Some Stop_watchdog, Some Stop_maintenance}
          \<or> argv = START (mp_service_name p) \<and> intent dd (mp_profile_id p) \<noteq> None))))"
proof -
  have "safe_from (effects s) s" using assms(1) by (simp add: safe_from_def)
  from dispatch_keeps [OF this assms(2), of S c cmd] assms(3) have "safe_from (effects s) s'"
    by (auto simp: keeps_def wp_def split: sum.splits)
  then obtain es where es: "wf_db (db s')" "effects s' = effects s @ es" "\<forall>e\<in>set es. good_effect e"
    unfolding safe_from_def by blast
  then show ?thesis
    using good_effect_argv by (intro conjI exI [of _ es] allI impI) blast+
qed

lemma wp_after: "act s = (Inr x, s') \<Longrightarrow> wp (f x) Q X s' \<Longrightarrow> wp (bindE act f) Q X s"
  by (simp add: wp_def bindE_def)

text \<open>C25: leaving automatic mode never silently abandons a stopped service. When the Watchdog has
  stopped the service of a profile in auto mode and the operator sets another mode without
  saying what to do with the service, the command is refused as invalid input (or the
  database failed): no configuration file is written, no command is run and the database is
  unchanged.\<close>

theorem set_mode_needs_choice:
  assumes "find_profile S c pid s = (Inr p, s)" and "mode (config p) = Auto" and "m = Monitor \<or> m = Disabled"
    and "current_schema (db s)" and "get_state_db (db s) (mp_profile_id p) (mp_service_name p) (mp_kharej_ip p) = Inr cur"
    and "stopped_by_watchdog cur"
  shows "case command_set_mode S c pid m None s of (r, s') \<Rightarrow>
    (r = Inl AdminInputError \<or> r = Inl (Wd SqliteError))
    \<and> disk s' = disk s \<and> effects s' = effects s \<and> db s' = db s"
proof -
  let ?X = "\<lambda>e s'. (e = AdminInputError \<or> e = Wd SqliteError)
    \<and> disk s' = disk s \<and> effects s' = effects s \<and> db s' = db s"
  have get: "wp (get_state (sy_env S) (mp_profile_id p) (mp_service_name p) (mp_kharej_ip p)) (\<lambda>r s'. r = cur \<and> (\<exists>x. s' = s\<lparr>outside := x\<rparr>))
      (\<lambda>e s'. e = SqliteError \<and> (\<exists>x. s' = s\<lparr>outside := x\<rparr>)) (s\<lparr>outside := y\<rparr>)" for y
    unfolding get_state_def by (rule transactionI) (auto simp: assms(5))
  have store: "wp (open_store S) (\<lambda>_ s'. \<exists>x. s' = s\<lparr>outside := x\<rparr>) (\<lambda>e s'. e = Wd SqliteError \<and> (\<exists>x. s' = s\<lparr>outside := x\<rparr>)) s"
    unfolding open_store_def wp_bindE wp_wd
    by (rule read_wallI, unfold wp_handle wp_wd, rule transactionI)
       (use assms(4) in \<open>auto simp: migrate_database_current wp_simps\<close>)
  have choice: "wp (mode_choice S p m None) (\<lambda>_ _. False) ?X (s\<lparr>outside := y\<rparr>)" for y
    unfolding mode_choice_def as_runtime_error_def wp_handle wp_bindE wp_wd
    by (rule wp_weaken [OF get]) (use assms(2,3,6) in \<open>auto simp: wp_simps\<close>)
  have "wp (seqE (open_store S) (bindE (mode_choice S p m None) f)) (\<lambda>_ _. False) ?X s" for f
    unfolding wp_seqE wp_bindE [of "mode_choice _ _ _ _"]
    by (rule wp_weaken [OF store]) (auto intro!: wp_weaken [OF choice])
  then have "wp (command_set_mode S c pid m None) (\<lambda>_ _. False) ?X s"
    unfolding command_set_mode_def by (intro wp_after [where act = "find_profile S c pid", OF assms(1)]) simp
  then show ?thesis by (auto simp: wp_def split: prod.splits sum.splits)
qed

lemma mode_written:
  assumes "profile_config_from_mapping (AList.update ''MODE'' (mode_text m) values) g = Inr cfg"
  shows "mode cfg = m"
proof -
  have "mode_of_text (mode_text m) = Some m"
    by (cases m) (simp_all add: mode_of_text_def mode_text_def MODES_def)
  with assms show ?thesis
    by (auto simp: profile_config_from_mapping_def Let_def dict_get_update bindR_eq_Inr split: if_splits)
qed

definition wrote_mode :: "'w system \<Rightarrow> path \<Rightarrow> mode \<Rightarrow> disk \<Rightarrow> disk \<Rightarrow> bool" where
  "wrote_mode S p m d d' \<longleftrightarrow> (\<exists>text g cfg. files d' p = Some text \<and> parse_profile_config text g = Inr cfg \<and> mode cfg = m)
     \<and> (\<forall>q. q \<noteq> p \<and> q \<noteq> temporary S \<longrightarrow> files d' q = files d q)"

lemma write_mode_wp:
  assumes "files (disk s) (temporary S) = None" and "temporary S \<noteq> conf_path c i"
  shows "wp (write_profile_values S c i (AList.update ''MODE'' (mode_text m) values))
    (\<lambda>_ s'. wrote_mode S (conf_path c i) m (disk s) (disk s')) (\<lambda>_ _. True) s"
proof -
  have wrote: "wp (write_config S c (conf_path c i) tx False) (\<lambda>_ s'. wrote_mode S (conf_path c i) m (disk s) (disk s')) (\<lambda>_ _. True) s"
    if "profile_config_from_mapping (AList.update ''MODE'' (mode_text m) values) g = Inr cfg"
      and "render_profile_values (AList.update ''MODE'' (mode_text m) values) g = Inr tx" for g cfg tx
  proof -
    have "AList.update ''MODE'' (mode_text m) values \<noteq> []" by (cases "values") auto
    from profile_text_read_back [OF that(2) this] that(1) mode_written [OF that(1)]
    have rb: "parse_profile_config tx g = Inr cfg" "mode cfg = m" by simp_all
    show ?thesis
      unfolding write_config_def wp_bindE wp_files_now wp_wd
      using atomic_write_outcome [OF assms] rb
      by (auto simp: wp_def wrote_mode_def split: prod.splits sum.splits)
  qed
  show ?thesis
    unfolding write_profile_values_def wp_bindE
    by (rule wp_weaken [OF load_global_wp]) (auto simp: wp_simps intro!: wrote split: sum.splits)
qed

lemma wp_ifI: "(b \<Longrightarrow> wp x Q X s) \<Longrightarrow> (\<not> b \<Longrightarrow> wp y Q X s) \<Longrightarrow> wp (if b then x else y) Q X s"
  by simp

lemma wd_world_disk: "wp (wd_world act) (\<lambda>_ s'. disk s' = disk s) (\<lambda>_ s'. disk s' = disk s) s"
  by (auto simp: wp_def wd_world_def split: prod.splits sum.splits)

lemma mode_choice_disk: "wp (mode_choice S p m own) (\<lambda>_ s'. disk s' = disk s) (\<lambda>_ _. True) s"
proof -
  have get: "wp (get_state (sy_env S) (mp_profile_id p) (mp_service_name p) (mp_kharej_ip p))
      (\<lambda>_ s'. disk s' = disk s) (\<lambda>_ _. True) s"
    unfolding get_state_def by (rule transactionI) auto
  have start: "wp (wd_world (start_owned_for_mode_change (sy_env S) p)) (\<lambda>_ s'. disk s' = disk s) (\<lambda>_ _. True) s1"
    if "disk s1 = disk s" for s1
    using that by (auto intro: wp_weaken [OF wd_world_disk])
  show ?thesis
    unfolding mode_choice_def as_runtime_error_def wp_handle wp_bindE wp_wd
    by (rule wp_weaken [OF get])
       (auto simp: wp_simps Let_def split: admin_exn.splits intro!: wp_weaken [OF start])
qed

lemma parsed_config_valid: "parse_profile_config t g = Inr cfg \<Longrightarrow> valid_profile_config cfg"
  by (auto simp: parse_profile_config_def bindR_eq_Inr dest: profile_config_from_mapping_valid)

text \<open>A mode that was set is what the configuration then says. When \<open>set-mode\<close> returns, the profile's
  configuration file holds a text that parses back to a valid configuration with exactly that
  mode, and no other configuration file has changed.\<close>

theorem set_mode_takes_effect:
  assumes "command_set_mode S c pid m own s = (Inr out, s')" and "current_schema (db s)"
    and "files (disk s) (temporary S) = None" and "temporary S \<noteq> conf_path c pid"
  shows "(\<exists>text g cfg. files (disk s') (conf_path c pid) = Some text
      \<and> parse_profile_config text g = Inr cfg \<and> mode cfg = m \<and> valid_profile_config cfg)
    \<and> (\<forall>q. q \<noteq> conf_path c pid \<and> q \<noteq> temporary S \<longrightarrow> files (disk s') q = files (disk s) q)"
proof -
  let ?Q = "\<lambda>_ s'. wrote_mode S (conf_path c pid) m (disk s) (disk s')"
  have rest: "wp (bindE (existing_profile_values S c pid) (\<lambda>values.
       seqE (write_profile_values S c pid (AList.update ''MODE'' (mode_text m) values)) (ret (r values)))) ?Q (\<lambda>_ _. True) s1"
    if "disk s1 = disk s" for s1 and r :: "(string, string) dict \<Rightarrow> int \<times> report"
    unfolding wp_bindE wp_seqE wp_ret
    by (rule wp_weaken [OF existing_profile_values_wp]) (use write_mode_wp [of s1 S c pid m] that assms(3,4) in auto)
  have store: "wp (seqE (open_store S) (bindE (mode_choice S p m own) (\<lambda>nc. bindE (existing_profile_values S c pid) (\<lambda>values.
       seqE (write_profile_values S c pid (AList.update ''MODE'' (mode_text m) values)) (ret (r nc values)))))) ?Q (\<lambda>_ _. True) s"
    for p and r :: "bool \<Rightarrow> (string, string) dict \<Rightarrow> int \<times> report"
    unfolding wp_seqE [of "open_store S"] wp_bindE [of "mode_choice _ _ _ _"]
    by (rule wp_weaken [OF open_store_wp [OF assms(2)]])
       (auto intro!: wp_weaken [OF mode_choice_disk] rest)
  have "wp (command_set_mode S c pid m own) ?Q (\<lambda>_ _. True) s"
    unfolding command_set_mode_def wp_bindE [of "find_profile _ _ _"]
    by (rule wp_weaken [OF find_profile_wp], rule wp_ifI, simp only: wp_raise, elim conjE, simp only: store, simp)
  with assms(1) have "wrote_mode S (conf_path c pid) m (disk s) (disk s')" by (simp add: wp_def)
  then show ?thesis
    unfolding wrote_mode_def using parsed_config_valid by blast
qed

text \<open>A fault of the database is not reported as one. When \<open>sqlite3\<close> raises while a command opens
  the store, \<open>_open_store\<close> does not translate the exception (it is neither an \<open>OSError\<close> nor a
  \<open>RuntimeError\<close>) and no clause of \<open>main\<close> catches it: the command ends without an exit code of its own
  instead of reporting that the database is unavailable.\<close>

theorem database_fault_escapes:
  assumes "make_context (view S (outside s) (disk s)) (euid S) args = Inr c"
    and "fst (db_fault (sy_env S) (snd (wall_clock (sy_env S) (outside s))))"
  shows "fst (admin_main S args (Events None limit) s) = None"
  using assms
  by (auto simp: admin_main_def command_events_def open_store_def files_now_def gets_def bindE_def seqE_def wd_def
      liftR_def ret_def read_wall_def transaction_def handle_def raise_def Let_def split: prod.splits sum.splits)


text \<open>Concrete commands: a service the Watchdog has stopped, in auto mode.\<close>

definition sample_system :: "bool \<Rightarrow> unit system" where
  "sample_system fault =
     \<lparr>sy_env = \<lparr>runner = (\<lambda>_ x. (Completed 0, x)), db_fault = (\<lambda>x. (fault, x)), wall_clock = (\<lambda>x. (100, x)),
        monotonic_clock = (\<lambda>x. (0, x)), jitter_source = (\<lambda>_ x. (0, x))\<rparr>,
      view = (\<lambda>_ _. daemon_fs), write_fault = (\<lambda>_. False), temporary = [''c'', ''.tmp''], euid = 0\<rparr>"

definition sample_context :: admin_context where
  "sample_context = \<lparr>cx_global_config_path = [''g''], cx_profile_config_dir = [''c''], cx_env_dir = [''e''],
     cx_unit_dir = [''u''], cx_db_path = [''d''], cx_boundary = None, cx_expected_uid = None, cx_owner_uid = None\<rparr>"

definition sample_admin :: "bool \<Rightarrow> unit admin" where
  "sample_admin stopped = \<lparr>db = (case bindR (migrate_database 1 empty_database) (persist_db
       ((ProfileState ''iran-1'' ''gost-iran-1.service'' ''a'')\<lparr>stopped_by_watchdog := stopped\<rparr>) [] 5) of
      Inl _ \<Rightarrow> empty_database | Inr d \<Rightarrow> d), outside = (), effects = [],
     disk = \<lparr>files = [[''c'', ''iran-1.conf''] \<mapsto> ''MODE=auto''], modes = (\<lambda>_. 384)\<rparr>\<rparr>"

definition sample_arguments :: arguments where
  "sample_arguments = \<lparr>ar_installed = True, ar_path_root = None, ar_config = (True, [''g'']),
     ar_profile_config_dir = (True, [''c'']), ar_env_dir = (True, [''e'']), ar_unit_dir = (True, [''u'']),
     ar_db = (True, [''d''])\<rparr>"

lemma sample_migrated:
  "migrate_database 1 empty_database = Inr (empty_database\<lparr>profile_columns := Some PROFILE_COLUMNS, migrations := [(2, 1)]\<rparr>)"
  by (simp add: migrate_database_def empty_database_def additions_def add_column_def PROFILE_COLUMNS_def SCHEMA_VERSION_def Let_def)

lemma sample_admin_db: "current_schema (db (sample_admin b))" "wf_db (db (sample_admin b))"
  "get_state_db (db (sample_admin b)) ''iran-1'' ''gost-iran-1.service'' ''a''
     = Inr ((ProfileState ''iran-1'' ''gost-iran-1.service'' ''a'')\<lparr>stopped_by_watchdog := b\<rparr>)"
proof -
  let ?d = "empty_database\<lparr>profile_columns := Some PROFILE_COLUMNS, migrations := [(2, 1)]\<rparr>"
  let ?s = "(ProfileState ''iran-1'' ''gost-iran-1.service'' ''a'')\<lparr>stopped_by_watchdog := b\<rparr>"
  obtain d where d: "persist_db ?s [] 5 ?d = Inr d"
    by (simp add: persist_db_def save_state_def ProfileState_def HEALTH_STATES_def CHECK_STATUSES_def PENDING_ACTIONS_def)
  then have db: "db (sample_admin b) = d" by (simp add: sample_admin_def sample_migrated)
  have cols: "profile_columns d = profile_columns ?d" "migrations d = migrations ?d"
    using d by (auto simp: persist_db_def save_state_def split: if_splits)
  then show "current_schema (db (sample_admin b))"
    unfolding db current_schema_def cols by (auto simp: PROFILE_COLUMNS_def SCHEMA_VERSION_def)
  show "wf_db (db (sample_admin b))"
    unfolding db
    by (rule wf_db_persist [OF _ _ d])
       (auto simp: wf_db_def stored_state_def empty_database_def wf_state_def ProfileState_def HEALTH_STATES_def CHECK_STATUSES_def)
  have "stored_state d ''iran-1'' = Some ?s" using pt.load_save_same [OF d] by (simp add: ProfileState_def)
  then show "get_state_db (db (sample_admin b)) ''iran-1'' ''gost-iran-1.service'' ''a'' = Inr ?s"
    unfolding db by (simp add: get_state_db_stored ProfileState_def)
qed

theorem database_fault_escapes_witness:
  "fst (admin_main (sample_system True) sample_arguments (Events None 10) (sample_admin False)) = None"
proof (rule database_fault_escapes)
  show "make_context (view (sample_system True) (outside (sample_admin False)) (disk (sample_admin False)))
     (euid (sample_system True)) sample_arguments =
     Inr (sample_context\<lparr>cx_expected_uid := Some 0, cx_owner_uid := Some 0\<rparr>)"
    by (simp add: make_context_def sample_arguments_def rooted_path_def Let_def sample_context_def)
qed (simp add: sample_system_def)

lemma sample_found:
  "\<exists>p. find_profile (sample_system False) sample_context ''iran-1'' (sample_admin b) = (Inr p, sample_admin b)
     \<and> mode (config p) = Auto \<and> mp_profile_id p = ''iran-1'' \<and> mp_service_name p = ''gost-iran-1.service'' \<and> mp_kharej_ip p = ''a''"
proof -
  let ?run = "find_profile (sample_system False) sample_context ''iran-1'' (sample_admin b)"
  have "case fst ?run of Inl _ \<Rightarrow> False | Inr p \<Rightarrow> mode (config p) = Auto \<and> mp_profile_id p = ''iran-1''
     \<and> mp_service_name p = ''gost-iran-1.service'' \<and> mp_kharej_ip p = ''a''" by code_simp
  moreover have "snd ?run = sample_admin b"
    using find_profile_wp [of "sample_system False" sample_context "''iran-1''" "sample_admin b"]
    by (auto simp: wp_def split: prod.splits sum.splits)
  ultimately show ?thesis by (cases ?run) (auto split: sum.splits)
qed

theorem set_mode_needs_choice_witness:
  "disk (snd (command_set_mode (sample_system False) sample_context ''iran-1'' Disabled None (sample_admin True)))
     = disk (sample_admin True)"
proof -
  obtain p where p: "find_profile (sample_system False) sample_context ''iran-1'' (sample_admin True) = (Inr p, sample_admin True)"
      "mode (config p) = Auto" "mp_profile_id p = ''iran-1''" "mp_service_name p = ''gost-iran-1.service''" "mp_kharej_ip p = ''a''"
    using sample_found by blast
  have g: "get_state_db (db (sample_admin True)) (mp_profile_id p) (mp_service_name p) (mp_kharej_ip p)
     = Inr ((ProfileState ''iran-1'' ''gost-iran-1.service'' ''a'')\<lparr>stopped_by_watchdog := True\<rparr>)"
    unfolding p by (rule sample_admin_db)
  from set_mode_needs_choice [OF p(1,2) _ sample_admin_db(1) g, of Disabled] show ?thesis
    by (auto split: prod.splits)
qed

theorem set_mode_takes_effect_witness:
  "\<exists>out s' text. command_set_mode (sample_system False) sample_context ''iran-1'' Monitor None (sample_admin False) = (Inr out, s')
     \<and> files (disk s') [''c'', ''iran-1.conf''] = Some text"
proof -
  let ?run = "command_set_mode (sample_system False) sample_context ''iran-1'' Monitor None (sample_admin False)"
  have "case fst ?run of Inl _ \<Rightarrow> False | Inr _ \<Rightarrow> True" by code_simp
  then obtain out s' where run: "?run = (Inr out, s')" by (cases ?run) (auto split: sum.splits)
  have "files (disk (sample_admin False)) (temporary (sample_system False)) = None"
    "temporary (sample_system False) \<noteq> conf_path sample_context ''iran-1''"
    by (simp_all add: sample_admin_def sample_system_def conf_path_def sample_context_def)
  from set_mode_takes_effect [OF run sample_admin_db(1) this] run show ?thesis
    by (auto simp: conf_path_def sample_context_def)
qed

theorem admin_commands_safe_witness:
  "\<exists>r s'. dispatch (sample_system False) sample_context (Ping ''iran-1'') (sample_admin False) = (r, s')
     \<and> wf_db (db s') \<and> effects s' \<noteq> []"
proof -
  let ?run = "dispatch (sample_system False) sample_context (Ping ''iran-1'') (sample_admin False)"
  have ran: "0 < length (effects (snd ?run))" by code_simp
  obtain r s' where run: "?run = (r, s')" by fastforce
  have "wf_db (db s')" using admin_commands_safe [OF sample_admin_db(2,1) run] by (rule conjunct1)
  with ran run show ?thesis by auto
qed

end
