(* ===== verification/Monitoring_Semantics.thy ===== *)
theory Monitoring_Semantics
  imports Gost_Prelude
begin

text \<open>
  \<open>src/monitoring/metric_semantics.py\<close>: which statistics a metric series may be given, by its name
  and unit. The lemmas show that the policy is consistent: a series never has both numeric
  statistics and transitions, and nothing cumulative, categorical or unknown is averaged.
\<close>

datatype category = Gauge | Rate | Cumulative_counter | Categorical | Identity | Timestamp | Unknown_kind

record metric_semantics =
  category :: category
  supports_range :: bool
  supports_average :: bool
  supports_p95 :: bool
  supports_transitions :: bool

definition MetricSemantics :: "category \<Rightarrow> metric_semantics" where
  "MetricSemantics c = \<lparr>category = c, supports_range = False, supports_average = False, supports_p95 = False,
     supports_transitions = False\<rparr>"

definition STATISTICAL :: metric_semantics where
  "STATISTICAL = (MetricSemantics Gauge)\<lparr>supports_range := True, supports_average := True, supports_p95 := True\<rparr>"

definition RATE_STATISTICAL :: metric_semantics where
  "RATE_STATISTICAL = (MetricSemantics Rate)\<lparr>supports_range := True, supports_average := True, supports_p95 := True\<rparr>"

definition COUNTER :: metric_semantics where "COUNTER = MetricSemantics Cumulative_counter"

definition STATE :: metric_semantics where
  "STATE = (MetricSemantics Categorical)\<lparr>supports_transitions := True\<rparr>"

definition IDENTIFIER :: metric_semantics where
  "IDENTIFIER = (MetricSemantics Identity)\<lparr>supports_transitions := True\<rparr>"

definition TIME_VALUE :: metric_semantics where
  "TIME_VALUE = (MetricSemantics Timestamp)\<lparr>supports_transitions := True\<rparr>"

definition CONSERVATIVE :: metric_semantics where "CONSERVATIVE = MetricSemantics Unknown_kind"

lemmas semantics_defs =
  STATISTICAL_def RATE_STATISTICAL_def COUNTER_def STATE_def IDENTIFIER_def TIME_VALUE_def
  CONSERVATIVE_def MetricSemantics_def

definition CATEGORICAL_NAMES :: "string list" where
  "CATEGORICAL_NAMES =
     [''checkpoint_success'', ''cycle_status'', ''env_source_valid'', ''listener_ownership_exact'',
      ''service_active'']"

definition IDENTITY_NAMES :: "string list" where
  "IDENTITY_NAMES = [''service_main_pid'', ''service_start_monotonic_us'']"

definition CUMULATIVE_NAMES :: "string list" where
  "CUMULATIVE_NAMES =
     [''cpu_jiffies_total'', ''overrun_count'', ''service_restart_count'', ''source_errors_total'',
      ''tcp_abort_on_data'', ''tcp_abort_on_memory'', ''tcp_active_opens'', ''tcp_attempt_failures'',
      ''tcp_established_resets'', ''tcp_listen_drops'', ''tcp_listen_overflows'', ''tcp_outbound_resets'',
      ''tcp_passive_opens'', ''tcp_retransmitted_segments'', ''tcp_timeouts'']"

definition GAUGE_NAMES :: "string list" where
  "GAUGE_NAMES =
     [''conntrack_count'', ''conntrack_max'', ''cpu_logical_count'', ''events_written'',
      ''file_handles_allocated'', ''file_handles_max'', ''metrics_written'', ''missed_deadlines'',
      ''rows_write_attempted'', ''source_error_codes'', ''source_errors'', ''target_count'',
      ''tunnels_discovered'']"

definition GAUGE_SUFFIXES :: "string list" where
  "GAUGE_SUFFIXES =
     [''_current_bytes'', ''_duration_seconds'', ''_free_bytes'', ''_hard_limit'', ''_max'', ''_open_fds'',
      ''_peak_bytes'', ''_rss_bytes'', ''_rss_anon_bytes'', ''_rss_file_bytes'', ''_size_bytes'',
      ''_soft_limit'', ''_state_estab'', ''_state_syn_recv'', ''_state_syn_sent'', ''_state_close_wait'',
      ''_state_time_wait'', ''_tasks'', ''_threads'', ''_total_bytes'', ''_used_bytes'']"

definition GAUGE_COUNT_SUFFIXES :: "string list" where
  "GAUGE_COUNT_SUFFIXES =
     [''_listener_count'', ''_listener_owned_count'', ''_process_count'', ''_socket_count'', ''_sockets_total'']"

definition CUMULATIVE_SUFFIXES :: "string list" where
  "CUMULATIVE_SUFFIXES =
     [''_cpu_ticks'', ''_io_time_ms'', ''_jiffies'', ''_read_bytes'', ''_reads_completed'', ''_written_bytes'',
      ''_writes_completed'']"

definition ends_with_any :: "string \<Rightarrow> string list \<Rightarrow> bool" where
  "ends_with_any s suffixes \<longleftrightarrow> list_ex (ends_with s) suffixes"

definition classify_metric :: "string \<Rightarrow> string \<Rightarrow> metric_semantics" where
  "classify_metric metric_name unit =
     (if unit \<in> {''state'', ''text''} then STATE
      else if unit = ''endpoint'' then IDENTIFIER
      else if unit = ''boolean'' \<or> metric_name \<in> set CATEGORICAL_NAMES then STATE
      else if unit = ''pid'' \<or> metric_name \<in> set IDENTITY_NAMES \<or> ends_with metric_name ''_pid'' then IDENTIFIER
      else if unit = ''unix_seconds'' \<or> ends_with metric_name ''_timestamp'' then TIME_VALUE
      else if ends_with metric_name ''_per_second'' \<or> unit \<in> {''B/s'', ''pps'', ''ops/s''} then RATE_STATISTICAL
      else if metric_name \<in> set CUMULATIVE_NAMES
        \<or> metric_name \<in> {''rx_bytes'', ''rx_packets'', ''rx_errors'', ''rx_drops'',
             ''tx_bytes'', ''tx_packets'', ''tx_errors'', ''tx_drops''}
        \<or> starts_with metric_name ''cpu_'' \<and> ends_with metric_name ''_jiffies''
        \<or> starts_with metric_name ''systemd_ip_'' \<and> ends_with metric_name ''_bytes''
        \<or> ends_with_any metric_name CUMULATIVE_SUFFIXES
      then COUNTER
      else if metric_name \<in> set GAUGE_NAMES
        \<or> metric_name \<in> {''load1'', ''load5'', ''load15''}
        \<or> ends_with metric_name ''_percent''
        \<or> ends_with_any metric_name GAUGE_SUFFIXES
        \<or> ends_with_any metric_name GAUGE_COUNT_SUFFIXES
        \<or> starts_with metric_name ''filesystem_''
        \<or> starts_with metric_name ''memory_''
        \<or> starts_with metric_name ''swap_''
        \<or> starts_with metric_name ''cgroup_memory_''
        \<or> starts_with metric_name ''tcp_state_''
        \<or> metric_name \<in> {''configured_listener_count'', ''observed_listener_count'', ''listener_owned_count'',
             ''established_remote_sockets'', ''process_count'', ''process_threads'', ''service_tasks''}
      then STATISTICAL
      else CONSERVATIVE)"

lemma if_member: "x \<in> A \<Longrightarrow> y \<in> A \<Longrightarrow> (if b then x else y) \<in> A"
  by simp

lemma classify_range: "classify_metric name unit \<in>
    {STATISTICAL, RATE_STATISTICAL, COUNTER, STATE, IDENTIFIER, TIME_VALUE, CONSERVATIVE}"
  unfolding classify_metric_def by (intro if_member insertI1 insertI2)

lemma classify_text: "unit = ''state'' \<or> unit = ''text'' \<Longrightarrow> classify_metric name unit = STATE"
  by (rule if_P [THEN trans [OF classify_metric_def]]) auto

lemma range_no_transitions:
  "supports_range (classify_metric name unit) \<Longrightarrow> \<not> supports_transitions (classify_metric name unit)"
  "supports_average (classify_metric name unit) = supports_range (classify_metric name unit)"
  using classify_range [of name unit] by (auto simp: semantics_defs)

text \<open>The statistics policy is consistent and conservative, for every metric name and unit: the
  numeric statistics (range, average, 95th percentile) are granted together, exactly to gauges
  and rates; changes are counted exactly for states, identities and timestamps; no series is given
  both; and text or state units never get numeric statistics, whatever the metric is called.\<close>

theorem classify_metric_consistent:
  "let m = classify_metric name unit in
     supports_range m = supports_average m \<and> supports_average m = supports_p95 m
     \<and> (supports_range m \<longleftrightarrow> category m = Gauge \<or> category m = Rate)
     \<and> (supports_transitions m \<longleftrightarrow> category m = Categorical \<or> category m = Identity \<or> category m = Timestamp)
     \<and> \<not> (supports_range m \<and> supports_transitions m)
     \<and> (if unit = ''state'' \<or> unit = ''text'' then category m = Categorical else True)"
  using classify_range [of name unit] classify_text [of unit name]
  unfolding Let_def semantics_defs by (elim insertE) (auto simp del: list.inject)

end
