(* ===== verification/Monitoring_Summaries.thy ===== *)
theory Monitoring_Summaries
  imports Monitoring_Semantics "HOL-Library.Multiset"
begin

text \<open>
  The statistics of \<open>src/monitoring/query_engine.py\<close>: the summary of one metric series over a window,
  from raw points held in memory (\<open>_raw_summary\<close>), from raw points read once in order
  (\<open>_StreamingRawSummary\<close>), from minute rollups (\<open>_rollup_summary\<close>), and from both
  (\<open>_combine_hybrid\<close>). Floats are exact reals; a point list of one series is what the database
  returns for it.

  The main lemma: streaming computes the summary that holding all the points does.
\<close>

section \<open>Data\<close>

text \<open>The exceptions of \<open>query_models.py\<close>, and those the statistics can raise.\<close>

datatype query_exn =
    QueryInputError string | QueryDatabaseError string | QueryLimitError string | QueryNotFoundError string
  | IndexError | AssertionError | ValueError | KeyError

record metric_point =
  pt_entity_type :: string
  pt_entity_id :: string
  pt_metric_name :: string
  pt_ts :: int
  pt_numeric :: "real option"
  pt_text :: "string option"
  pt_unit :: string
  pt_quality :: string
  pt_reset :: int
  pt_gap :: int

record rollup_point =
  rp_entity_type :: string
  rp_entity_id :: string
  rp_metric_name :: string
  minute_start :: int
  samples :: int
  expected_samples :: int
  min_value :: "real option"
  avg_value :: "real option"
  max_value :: "real option"
  rp_unavailable_count :: int
  rp_reset_count :: int
  rp_gap_count :: int
  rp_coverage :: real
  rp_unit :: string
  rp_quality :: string

text \<open>\<open>float | str\<close>, the type of a latest value.\<close>

datatype observed = Number real | Words string

datatype source_mode = Raw | Rollup | Hybrid

record series_summary =
  entity_type :: string
  entity_id :: string
  metric_name :: string
  unit_name :: string
  source_mode :: source_mode
  quality :: string
  semantics :: category
  latest :: "observed option"
  latest_timestamp :: "int option"
  minimum :: "real option"
  average :: "real option"
  maximum :: "real option"
  p95 :: "real option"
  sample_count :: int
  expected_sample_count :: int
  coverage :: real
  unavailable_count :: int
  reset_count :: int
  gap_count :: int
  first_timestamp :: "int option"
  last_timestamp :: "int option"
  transition_count :: "int option"
  data_age_seconds :: "int option"
  numeric :: bool
  weighted_seconds :: real

type_synonym series_key = "string \<times> string \<times> string"

definition SeriesSummary :: "series_key \<Rightarrow> string \<Rightarrow> source_mode \<Rightarrow> string \<Rightarrow> category \<Rightarrow> series_summary" where
  "SeriesSummary key u md q c = (case key of (t, i, n) \<Rightarrow>
     \<lparr>entity_type = t, entity_id = i, metric_name = n, unit_name = u, source_mode = md, quality = q, semantics = c,
      latest = None, latest_timestamp = None, minimum = None, average = None, maximum = None, p95 = None,
      sample_count = 0, expected_sample_count = 0, coverage = 0, unavailable_count = 0, reset_count = 0,
      gap_count = 0, first_timestamp = None, last_timestamp = None, transition_count = None,
      data_age_seconds = None, numeric = True, weighted_seconds = 0\<rparr>)"

definition QUALITY_RANK :: "(string \<times> nat) list" where
  "QUALITY_RANK = [(''exact'', 0), (''derived'', 1), (''estimated'', 2), (''unavailable'', 3)]"

definition quality_rank :: "string \<Rightarrow> nat" where
  "quality_rank q = dict_get QUALITY_RANK q 3"

text \<open>\<open>max(values, key=...)\<close> keeps the first of several largest values.\<close>

fun worst_quality :: "string list \<Rightarrow> string" where
  "worst_quality [] = ''unavailable''"
| "worst_quality (v # vs) = fold (\<lambda>q m. if quality_rank m < quality_rank q then q else m) vs v"

text \<open>\<open>min(xs) if xs else None\<close>, and \<open>max\<close>.\<close>

fun least :: "real list \<Rightarrow> real option" where
  "least [] = None"
| "least (x # xs) = Some (fold min xs x)"

fun greatest :: "real list \<Rightarrow> real option" where
  "greatest [] = None"
| "greatest (x # xs) = Some (fold max xs x)"

text \<open>\<open>int(x)\<close> of a float.\<close>

definition py_trunc :: "real \<Rightarrow> int" where
  "py_trunc x = (if 0 \<le> x then \<lfloor>x\<rfloor> else \<lceil>x\<rceil>)"


section \<open>Cadence and percentiles\<close>

definition split_registry :: "string \<Rightarrow> (string \<times> string) option" where
  "split_registry key = split_first CHR '':'' key"

text \<open>The last registered cadence that matches wins; a pattern may end in a star.\<close>

definition registered_cadence :: "string \<Rightarrow> string \<Rightarrow> (string, real) dict \<Rightarrow> real \<Rightarrow> real" where
  "registered_cadence etype name registry base =
     fold (\<lambda>(key, seconds) cadence.
       case split_registry key of
         None \<Rightarrow> cadence
       | Some (registered, pattern) \<Rightarrow>
           if registered \<noteq> etype then cadence
           else if ends_with pattern ''*'' \<and> starts_with name (butlast pattern) then seconds
           else if pattern = name then seconds
           else cadence) registry base"

definition cadence_for :: "string \<Rightarrow> string \<Rightarrow> (string, real) dict \<Rightarrow> real \<Rightarrow> real" where
  "cadence_for etype name registry fallback =
     max 1 (registered_cadence etype name registry
       (if etype = ''host'' \<and> starts_with name ''tcp_state_'' then 30
        else if etype = ''service'' \<and> name \<in> {''established_sockets_total'', ''process_open_fds''}
        then (if name = ''established_sockets_total'' then 30 else 60)
        else if etype = ''tunnel'' \<and> name = ''established_remote_sockets'' then 30
        else if etype = ''filesystem'' \<or> etype = ''collector'' \<and> starts_with name ''database_'' then 60
        else if etype = ''collector'' \<and> starts_with name ''checkpoint'' then 900
        else fallback))"

fun reach :: "real \<Rightarrow> real \<Rightarrow> (real \<times> real) list \<Rightarrow> real option" where
  "reach target cumulative [] = None"
| "reach target cumulative ((v, w) # rest) =
     (if target \<le> cumulative + w then Some v else reach target (cumulative + w) rest)"

definition weighted_percentile :: "(real \<times> real) list \<Rightarrow> real \<Rightarrow> real option" where
  "weighted_percentile values percentile =
     (let positive = sort_key fst (sort_key snd (filter (\<lambda>vw. 0 < snd vw) values));
          total = sum_list (map snd positive)
      in if positive = [] \<or> total \<le> 0 then None
         else (case reach (total * percentile) 0 positive of
                 None \<Rightarrow> Some (fst (last positive))
               | Some v \<Rightarrow> Some v))"


section \<open>Raw points held in memory\<close>

definition inside :: "int \<Rightarrow> int \<Rightarrow> metric_point \<Rightarrow> bool" where
  "inside start stop p \<longleftrightarrow> start \<le> pt_ts p \<and> pt_ts p < stop"

definition value_of :: "metric_point \<Rightarrow> observed option" where
  "value_of p = (case pt_numeric p of Some x \<Rightarrow> Some (Number x) | None \<Rightarrow> map_option Words (pt_text p))"

definition is_unavailable :: "metric_point \<Rightarrow> bool" where
  "is_unavailable p \<longleftrightarrow> pt_quality p = ''unavailable'' \<or> pt_numeric p = None \<and> pt_text p = None"

fun changes :: "observed list \<Rightarrow> int" where
  "changes (x # y # rest) = (if x \<noteq> y then 1 else 0) + changes (y # rest)"
| "changes _ = 0"

definition expected_count :: "int \<Rightarrow> int \<Rightarrow> real \<Rightarrow> int" where
  "expected_count start stop cadence = max 1 \<lceil>of_int (max 0 (stop - start)) / cadence\<rceil>"

text \<open>How long a point stands for its value: from it (or the start) to the next point, the end of the
  window, or the largest gap, whichever comes first.\<close>

definition weighted_point :: "int \<Rightarrow> int \<Rightarrow> real \<Rightarrow> metric_point \<Rightarrow> int \<Rightarrow> (real \<times> real) list" where
  "weighted_point start stop max_gap p next_ts =
     (case pt_numeric p of
        None \<Rightarrow> []
      | Some v \<Rightarrow>
          if pt_quality p = ''unavailable'' then []
          else if pt_ts p < start \<and> max_gap < of_int (start - pt_ts p) then []
          else let segment_start = max start (pt_ts p);
                   segment_end = min stop (min next_ts (py_trunc (of_int (pt_ts p) + max_gap)))
               in if segment_start < segment_end then [(v, of_int (segment_end - segment_start))] else [])"

fun weighted_points :: "int \<Rightarrow> int \<Rightarrow> real \<Rightarrow> metric_point list \<Rightarrow> (real \<times> real) list" where
  "weighted_points start stop max_gap [] = []"
| "weighted_points start stop max_gap [p] = weighted_point start stop max_gap p stop"
| "weighted_points start stop max_gap (p # q # rest) =
     weighted_point start stop max_gap p (pt_ts q) @ weighted_points start stop max_gap (q # rest)"

definition raw_summary ::
  "series_key \<Rightarrow> metric_point list \<Rightarrow> int \<Rightarrow> int \<Rightarrow> real \<Rightarrow> int \<Rightarrow> real \<Rightarrow> bool \<Rightarrow> query_exn + series_summary" where
  "raw_summary key points start stop cadence now max_gap_multiplier allow_p95 =
     (if points = [] then Inl IndexError
      else
        let ordered = sort_key pt_ts points;
            ins = filter (inside start stop) ordered;
            u = pt_unit (last (if ins = [] then ordered else ins));
            sem = classify_metric (snd (snd key)) u;
            expected = expected_count start stop cadence;
            s0 = (SeriesSummary key u Raw (worst_quality (map pt_quality ins)) (category sem))
              \<lparr>sample_count := int (length ins), expected_sample_count := expected,
               coverage := min 1 (of_int (int (length ins)) / of_int expected),
               unavailable_count := int (length (filter is_unavailable ins)),
               reset_count := sum_list (map pt_reset ins), gap_count := sum_list (map pt_gap ins),
               first_timestamp := (if ins = [] then None else Some (pt_ts (hd ins))),
               last_timestamp := (if ins = [] then None else Some (pt_ts (last ins))),
               numeric := list_all (\<lambda>p. pt_text p = None) ins\<rparr>;
            s1 = (if ins = [] then s0
                  else s0\<lparr>latest := value_of (last ins), latest_timestamp := Some (pt_ts (last ins)),
                          data_age_seconds := Some (max 0 (now - pt_ts (last ins)))\<rparr>);
            s2 = (if supports_transitions sem
                  then s1\<lparr>transition_count := Some (changes (List.map_filter value_of ins))\<rparr> else s1)
        in if \<not> supports_range sem then Inr s2
           else
             let values = List.map_filter (\<lambda>p. if pt_quality p \<noteq> ''unavailable'' then pt_numeric p else None) ins;
                 weighted = weighted_points start stop (cadence * max_gap_multiplier) ordered;
                 total = sum_list (map snd weighted);
                 s3 = s2\<lparr>minimum := least values, maximum := greatest values, weighted_seconds := total\<rparr>
             in Inr (if 0 < total
                     then s3\<lparr>average := Some (sum_list (map (\<lambda>(v, w). v * w) weighted) / total),
                             p95 := (if allow_p95 \<and> supports_p95 sem then weighted_percentile weighted (95 / 100) else None)\<rparr>
                     else s3))"


section \<open>Raw points read once\<close>

record stream =
  st_key :: series_key
  st_start :: int
  st_end :: int
  st_cadence :: real
  st_now :: int
  st_max_gap :: real
  st_summary :: "series_summary option"
  st_previous :: "metric_point option"
  st_transition :: "observed option"
  st_total :: real

definition StreamingRawSummary :: "series_key \<Rightarrow> int \<Rightarrow> int \<Rightarrow> real \<Rightarrow> int \<Rightarrow> real \<Rightarrow> stream" where
  "StreamingRawSummary key start stop cadence now max_gap_multiplier =
     \<lparr>st_key = key, st_start = start, st_end = stop, st_cadence = cadence, st_now = now,
      st_max_gap = cadence * max_gap_multiplier, st_summary = None, st_previous = None, st_transition = None,
      st_total = 0\<rparr>"

text \<open>\<open>_segment\<close>: add what a point stood for until the next one.\<close>

definition stream_segment :: "metric_point \<Rightarrow> int \<Rightarrow> stream \<Rightarrow> query_exn + stream" where
  "stream_segment p next_ts z =
     (case pt_numeric p of
        None \<Rightarrow> Inr z
      | Some v \<Rightarrow>
          if pt_quality p = ''unavailable'' then Inr z
          else if pt_ts p < st_start z \<and> st_max_gap z < of_int (st_start z - pt_ts p) then Inr z
          else let segment_start = max (st_start z) (pt_ts p);
                   segment_end = min (st_end z) (min next_ts (py_trunc (of_int (pt_ts p) + st_max_gap z)))
               in if segment_end \<le> segment_start then Inr z
                  else let seconds = segment_end - segment_start
                       in (case st_summary z of
                             None \<Rightarrow> Inl AssertionError
                           | Some s \<Rightarrow> Inr (z\<lparr>st_summary := Some (s\<lparr>weighted_seconds := weighted_seconds s + of_int seconds\<rparr>),
                               st_total := st_total z + v * of_int seconds\<rparr>)))"

definition first_summary :: "stream \<Rightarrow> metric_point \<Rightarrow> series_summary" where
  "first_summary z p =
     (SeriesSummary (st_key z) (pt_unit p) Raw ''unavailable'' (category (classify_metric (pt_metric_name p) (pt_unit p))))
       \<lparr>expected_sample_count := expected_count (st_start z) (st_end z) (st_cadence z), numeric := (pt_text p = None)\<rparr>"

text \<open>The body of \<open>if self.start <= point.ts < self.end\<close>, on the summary and the last value seen.\<close>

definition count_point :: "int \<Rightarrow> metric_point \<Rightarrow> series_summary \<times> observed option \<Rightarrow> series_summary \<times> observed option" where
  "count_point now p sp =
     (case sp of (s, prev) \<Rightarrow>
        let s1 = s\<lparr>sample_count := sample_count s + 1,
              coverage := min 1 (of_int (sample_count s + 1) / of_int (expected_sample_count s)),
              quality := (if sample_count s = 0 then pt_quality p else worst_quality [quality s, pt_quality p]),
              unavailable_count := unavailable_count s + (if is_unavailable p then 1 else 0),
              reset_count := reset_count s + pt_reset p, gap_count := gap_count s + pt_gap p,
              first_timestamp := (case first_timestamp s of None \<Rightarrow> Some (pt_ts p) | Some t \<Rightarrow> Some t),
              last_timestamp := Some (pt_ts p), latest := value_of p, latest_timestamp := Some (pt_ts p),
              data_age_seconds := Some (max 0 (now - pt_ts p))\<rparr>;
            sem = classify_metric (pt_metric_name p) (pt_unit p);
            s2 = (case pt_numeric p of
                    None \<Rightarrow> s1
                  | Some v \<Rightarrow>
                      if supports_range sem \<and> \<not> is_unavailable p
                      then s1\<lparr>minimum := Some (case minimum s1 of None \<Rightarrow> v | Some x \<Rightarrow> min x v),
                              maximum := Some (case maximum s1 of None \<Rightarrow> v | Some x \<Rightarrow> max x v)\<rparr>
                      else s1)
        in if supports_transitions sem
           then (case value_of p of
                   None \<Rightarrow> (s2, prev)
                 | Some v \<Rightarrow>
                     ((if prev \<noteq> None \<and> prev \<noteq> Some v
                       then s2\<lparr>transition_count := Some ((case transition_count s2 of None \<Rightarrow> 0 | Some n \<Rightarrow> n) + 1)\<rparr>
                       else if transition_count s2 = None then s2\<lparr>transition_count := Some 0\<rparr> else s2), Some v))
           else (s2, prev))"

definition stream_add :: "stream \<Rightarrow> metric_point \<Rightarrow> query_exn + stream" where
  "stream_add z p =
     bindR (case st_previous z of None \<Rightarrow> Inr z | Some q \<Rightarrow> stream_segment q (pt_ts p) z) (\<lambda>z1.
       let s = (case st_summary z1 of None \<Rightarrow> first_summary z1 p | Some s \<Rightarrow> s);
           (s', prev) = (if inside (st_start z1) (st_end z1) p then count_point (st_now z1) p (s, st_transition z1)
                         else (s, st_transition z1))
       in Inr (z1\<lparr>st_summary := Some s', st_transition := prev, st_previous := Some p\<rparr>))"

definition stream_finish :: "stream \<Rightarrow> query_exn + series_summary" where
  "stream_finish z =
     (case st_summary z of
        None \<Rightarrow> Inl AssertionError
      | Some _ \<Rightarrow>
          bindR (case st_previous z of None \<Rightarrow> Inr z | Some q \<Rightarrow> stream_segment q (st_end z) z) (\<lambda>z1.
            case st_summary z1 of
              None \<Rightarrow> Inl AssertionError
            | Some s \<Rightarrow>
                Inr ((if supports_average (classify_metric (metric_name s) (unit_name s)) \<and> weighted_seconds s \<noteq> 0
                      then s\<lparr>average := Some (st_total z1 / weighted_seconds s)\<rparr> else s)\<lparr>p95 := None\<rparr>)))"

fun stream_all :: "stream \<Rightarrow> metric_point list \<Rightarrow> query_exn + stream" where
  "stream_all z [] = Inr z"
| "stream_all z (p # ps) = bindR (stream_add z p) (\<lambda>z'. stream_all z' ps)"


section \<open>Minute rollups\<close>

text \<open>The samples a stretch without data should have had.\<close>

definition missing_samples :: "int \<Rightarrow> real \<Rightarrow> int" where
  "missing_samples seconds cadence = (if seconds \<noteq> 0 then max 1 \<lceil>of_int seconds / cadence\<rceil> else 0)"

definition rollup_weight :: "int \<Rightarrow> int \<Rightarrow> rollup_point \<Rightarrow> (real \<times> real) list" where
  "rollup_weight start stop r =
     (let seconds = max 0 (min stop (minute_start r + 60) - max start (minute_start r));
          valid_samples = max 0 (samples r - rp_unavailable_count r);
          numeric_coverage = min 1 (of_int valid_samples / of_int (max 1 (expected_samples r)));
          covered = of_int seconds * numeric_coverage
      in case avg_value r of None \<Rightarrow> [] | Some v \<Rightarrow> if 0 < covered then [(v, covered)] else [])"

definition rollup_summary ::
  "series_key \<Rightarrow> rollup_point list \<Rightarrow> int \<Rightarrow> int \<Rightarrow> real \<Rightarrow> query_exn + series_summary" where
  "rollup_summary key points start stop cadence =
     (if points = [] then Inl IndexError
      else
        let ordered = sort_key minute_start points;
            u = rp_unit (last ordered);
            sem = classify_metric (snd (snd key)) u;
            missing_seconds = max 0 (stop - start - int (length ordered) * 60);
            expected = max 1 (sum_list (map expected_samples ordered) + missing_samples missing_seconds cadence);
            count = sum_list (map samples ordered);
            worst = worst_quality (map rp_quality ordered);
            counted = (\<lambda>q. (SeriesSummary key u Rollup q (category sem))
              \<lparr>sample_count := count, expected_sample_count := expected,
               coverage := min 1 (of_int count / of_int expected),
               unavailable_count := sum_list (map rp_unavailable_count ordered),
               reset_count := sum_list (map rp_reset_count ordered),
               gap_count := sum_list (map rp_gap_count ordered),
               first_timestamp := Some (minute_start (hd ordered)),
               last_timestamp := Some (minute_start (last ordered) + 59)\<rparr>)
        in if \<not> supports_range sem
           then Inr ((counted (if supports_transitions sem then ''unavailable'' else worst))
                  \<lparr>numeric := (u \<notin> {''state'', ''endpoint'', ''text''})\<rparr>)
           else
             let weighted = concat (map (rollup_weight start stop) ordered);
                 total = sum_list (map snd weighted)
             in Inr ((counted worst)
                  \<lparr>minimum := least (List.map_filter min_value ordered),
                   average := (if total \<noteq> 0 then Some (sum_list (map (\<lambda>(v, w). v * w) weighted) / total) else None),
                   maximum := greatest (List.map_filter max_value ordered),
                   weighted_seconds := total\<rparr>))"


section \<open>Rollups and raw points together\<close>

definition earliest_of :: "int list \<Rightarrow> int option" where
  "earliest_of ts = (if ts = [] then None else Some (fold min (tl ts) (hd ts)))"

definition latest_of :: "int list \<Rightarrow> int option" where
  "latest_of ts = (if ts = [] then None else Some (fold max (tl ts) (hd ts)))"

text \<open>Seconds of an interval whose ends may be absent.\<close>

definition interval_seconds :: "bool \<Rightarrow> int option \<Rightarrow> int option \<Rightarrow> int" where
  "interval_seconds present a b =
     (case (a, b) of (Some a, Some b) \<Rightarrow> if present then max 0 (b - a) else 0 | _ \<Rightarrow> 0)"

definition combine_hybrid ::
  "series_summary option \<Rightarrow> series_summary option \<Rightarrow> series_key \<Rightarrow> int \<Rightarrow> int \<Rightarrow> real \<Rightarrow>
   int option \<Rightarrow> int option \<Rightarrow> int option \<Rightarrow> int option \<Rightarrow> query_exn + series_summary" where
  "combine_hybrid raw rollup key start stop cadence rollup_start rollup_end raw_start raw_end =
     (let parts = List.map_filter (\<lambda>x. x) [rollup, raw]
      in case (if raw \<noteq> None then raw else rollup) of
           None \<Rightarrow> Inl AssertionError
         | Some base \<Rightarrow>
             let sem = classify_metric (snd (snd key)) (unit_name base);
                 total = sum_list (map weighted_seconds parts);
                 averages = sum_list (List.map_filter (\<lambda>s. map_option (\<lambda>a. a * weighted_seconds s) (average s)) parts);
                 represented = interval_seconds (rollup \<noteq> None) rollup_start rollup_end
                   + interval_seconds (raw \<noteq> None) raw_start raw_end;
                 expected = sum_list (map expected_sample_count parts)
                   + missing_samples (max 0 (stop - start - represented)) cadence;
                 count = sum_list (map sample_count parts)
             in Inr ((SeriesSummary key (unit_name base) Hybrid (worst_quality (map quality parts)) (category sem))
                  \<lparr>latest := Option.bind raw latest, latest_timestamp := Option.bind raw latest_timestamp,
                   minimum := (if supports_range sem then least (List.map_filter minimum parts) else None),
                   average := (if total \<noteq> 0 \<and> supports_average sem then Some (averages / total) else None),
                   maximum := (if supports_range sem then greatest (List.map_filter maximum parts) else None),
                   sample_count := count, expected_sample_count := expected,
                   coverage := (if expected \<noteq> 0 then min 1 (of_int count / of_int expected) else 0),
                   unavailable_count := sum_list (map unavailable_count parts),
                   reset_count := sum_list (map reset_count parts), gap_count := sum_list (map gap_count parts),
                   first_timestamp := earliest_of (List.map_filter first_timestamp parts),
                   last_timestamp := latest_of (List.map_filter last_timestamp parts),
                   transition_count := Option.bind raw transition_count,
                   data_age_seconds := Option.bind raw data_age_seconds,
                   numeric := list_all numeric parts, weighted_seconds := total\<rparr>))"


section \<open>Streaming is equivalent to holding the points\<close>

lemma worst_quality_one: "worst_quality [q] = q"
  by simp

lemma worst_quality_snoc:
  "worst_quality (qs @ [q]) = (if qs = [] then q else worst_quality [worst_quality qs, q])"
  by (cases qs) simp_all

lemma least_snoc: "least (xs @ [x]) = Some (case least xs of None \<Rightarrow> x | Some y \<Rightarrow> min y x)"
  and greatest_snoc: "greatest (xs @ [x]) = Some (case greatest xs of None \<Rightarrow> x | Some y \<Rightarrow> max y x)"
  by (cases xs; simp add: min.commute max.commute)+

fun closed_points :: "int \<Rightarrow> int \<Rightarrow> real \<Rightarrow> metric_point list \<Rightarrow> (real \<times> real) list" where
  "closed_points start stop max_gap (p # q # rest) =
     weighted_point start stop max_gap p (pt_ts q) @ closed_points start stop max_gap (q # rest)"
| "closed_points start stop max_gap _ = []"

lemma weighted_points_snoc:
  "weighted_points start stop g (ps @ [p]) = closed_points start stop g (ps @ [p]) @ weighted_point start stop g p stop"
proof (induction ps)
  case (Cons q qs)
  then show ?case by (cases qs) simp_all
qed simp

lemma closed_points_snoc:
  "ps \<noteq> [] \<Longrightarrow> closed_points start stop g (ps @ [p]) = closed_points start stop g ps @ weighted_point start stop g (last ps) (pt_ts p)"
proof (induction ps)
  case (Cons q qs)
  then show ?case by (cases qs) simp_all
qed simp

abbreviation weight :: "(real \<times> real) list \<Rightarrow> real" where
  "weight vws \<equiv> sum_list (map snd vws)"

abbreviation moment :: "(real \<times> real) list \<Rightarrow> real" where
  "moment vws \<equiv> sum_list (map (\<lambda>(v, w). v * w) vws)"

lemma stream_segment_eq:
  assumes "st_summary z = Some s"
  shows "stream_segment p t z =
    (let vws = weighted_point (st_start z) (st_end z) (st_max_gap z) p t
     in Inr (z\<lparr>st_summary := Some (s\<lparr>weighted_seconds := weighted_seconds s + weight vws\<rparr>),
           st_total := st_total z + moment vws\<rparr>))"
proof (cases "pt_numeric p")
  case None
  then show ?thesis using assms by (simp add: stream_segment_def weighted_point_def)
next
  case (Some v)
  define e where "e = min (st_end z) (min t (py_trunc (of_int (pt_ts p) + st_max_gap z)))"
  define b where "b = max (st_start z) (pt_ts p)"
  have "z\<lparr>st_summary := Some s, st_total := st_total z\<rparr> = z" using assms by simp
  then show ?thesis using assms Some
    unfolding stream_segment_def weighted_point_def Let_def e_def [symmetric] b_def [symmetric]
    by (simp add: not_le not_less)
qed

text \<open>The statistics of the points counted so far, when \<open>w\<close> seconds have been weighted.\<close>

definition progress ::
  "series_key \<Rightarrow> string \<Rightarrow> int \<Rightarrow> int \<Rightarrow> metric_point list \<Rightarrow> real \<Rightarrow> series_summary" where
  "progress key u expected now ins w =
     (SeriesSummary key u Raw (worst_quality (map pt_quality ins)) (category (classify_metric (snd (snd key)) u)))
       \<lparr>sample_count := int (length ins), expected_sample_count := expected,
        coverage := min 1 (of_int (int (length ins)) / of_int expected),
        unavailable_count := int (length (filter is_unavailable ins)),
        reset_count := sum_list (map pt_reset ins), gap_count := sum_list (map pt_gap ins),
        first_timestamp := (if ins = [] then None else Some (pt_ts (hd ins))),
        last_timestamp := (if ins = [] then None else Some (pt_ts (last ins))),
        latest := (if ins = [] then None else value_of (last ins)),
        latest_timestamp := (if ins = [] then None else Some (pt_ts (last ins))),
        data_age_seconds := (if ins = [] then None else Some (max 0 (now - pt_ts (last ins)))),
        minimum := least (List.map_filter (\<lambda>p. if pt_quality p \<noteq> ''unavailable'' then pt_numeric p else None) ins),
        maximum := greatest (List.map_filter (\<lambda>p. if pt_quality p \<noteq> ''unavailable'' then pt_numeric p else None) ins),
        weighted_seconds := w\<rparr>"

lemma map_filter_snoc: "List.map_filter f (xs @ [x]) = List.map_filter f xs @ (case f x of None \<Rightarrow> [] | Some y \<Rightarrow> [y])"
  by (induction xs) (auto split: option.splits)

abbreviation counted :: "metric_point list \<Rightarrow> real list" where
  "counted \<equiv> List.map_filter (\<lambda>p. if pt_quality p \<noteq> ''unavailable'' then pt_numeric p else None)"

lemma counted_snoc:
  "counted (ins @ [p]) = counted ins @ (case pt_numeric p of None \<Rightarrow> [] | Some v \<Rightarrow> if is_unavailable p then [] else [v])"
  by (simp add: map_filter_snoc is_unavailable_def split: option.splits)

lemma first_and_quality_snoc:
  fixes ins :: "metric_point list"
  shows "(case (if ins = [] then None else Some (pt_ts (hd ins))) of None \<Rightarrow> Some (pt_ts p) | Some t \<Rightarrow> Some t)
     = Some (pt_ts (hd (ins @ [p])))"
  "(if int (length ins) = 0 then pt_quality p else worst_quality [worst_quality (map pt_quality ins), pt_quality p])
     = worst_quality (map pt_quality (ins @ [p]))"
  by (cases ins; simp add: worst_quality_snoc)+

lemma count_point_progress:
  assumes "pt_metric_name p = snd (snd key)" and "pt_unit p = u" and "supports_range (classify_metric (snd (snd key)) u)"
  shows "count_point now p (progress key u expected now ins w, None) = (progress key u expected now (ins @ [p]) w, None)"
proof -
  obtain t i n where key: "key = (t, i, n)" by (cases key)
  have nt: "\<not> supports_transitions (classify_metric n u)" using assms(3) range_no_transitions(1) key by simp
  show ?thesis
  proof (cases "pt_numeric p")
    case None
    show ?thesis using assms nt None first_and_quality_snoc [where ins = ins and p = p]
      by (cases "ins = []")
        (simp_all add: key count_point_def progress_def SeriesSummary_def Let_def counted_snoc add.commute
          worst_quality_one del: worst_quality.simps)
  next
    case (Some v)
    have "is_unavailable p \<longleftrightarrow> pt_quality p = ''unavailable''" using Some by (simp add: is_unavailable_def)
    then show ?thesis using assms nt Some first_and_quality_snoc [where ins = ins and p = p]
      by (cases "is_unavailable p"; cases "ins = []")
        (simp_all add: key count_point_def progress_def SeriesSummary_def Let_def counted_snoc least_snoc greatest_snoc
          add.commute worst_quality_one del: worst_quality.simps)
  qed
qed

lemma stream_all_snoc: "stream_all z (ps @ [p]) = bindR (stream_all z ps) (\<lambda>z'. stream_add z' p)"
  by (induction ps arbitrary: z) (simp_all add: bindR_def split: sum.splits)

text \<open>A series of one numeric metric: one name, one unit, no text values.\<close>

definition uniform :: "series_key \<Rightarrow> string \<Rightarrow> metric_point list \<Rightarrow> bool" where
  "uniform key u pts \<longleftrightarrow> list_all (\<lambda>p. pt_metric_name p = snd (snd key) \<and> pt_unit p = u \<and> pt_text p = None) pts"

definition streamed :: "series_key \<Rightarrow> string \<Rightarrow> int \<Rightarrow> int \<Rightarrow> real \<Rightarrow> int \<Rightarrow> real \<Rightarrow> metric_point list \<Rightarrow> stream" where
  "streamed key u start stop cadence now k pts =
     (let vws = closed_points start stop (cadence * k) pts
      in (StreamingRawSummary key start stop cadence now k)
        \<lparr>st_summary := Some (progress key u (expected_count start stop cadence) now (filter (inside start stop) pts) (weight vws)),
         st_previous := Some (last pts), st_total := moment vws\<rparr>)"

lemma first_summary_progress:
  assumes "pt_metric_name p = snd (snd key)" and "pt_text p = None"
  shows "first_summary (StreamingRawSummary key start stop cadence now k) p
    = progress key (pt_unit p) (expected_count start stop cadence) now [] 0"
  using assms by (cases key) (simp add: first_summary_def StreamingRawSummary_def progress_def SeriesSummary_def)

lemma progress_weight: "(progress key u e now ins w)\<lparr>weighted_seconds := w'\<rparr> = progress key u e now ins w'"
  "weighted_seconds (progress key u e now ins w) = w"
  by (simp_all add: progress_def)

lemma stream_invariant:
  assumes "pts \<noteq> []" and "uniform key u pts" and range: "supports_range (classify_metric (snd (snd key)) u)"
  shows "stream_all (StreamingRawSummary key start stop cadence now k) pts = Inr (streamed key u start stop cadence now k pts)"
  using assms(1,2)
proof (induction pts rule: rev_nonempty_induct)
  case (single p)
  then show ?case using count_point_progress [OF _ _ range, of p now]
      first_summary_progress [of p key start stop cadence now k]
    by (simp add: uniform_def stream_add_def streamed_def Let_def StreamingRawSummary_def)
next
  case (snoc p pts)
  let ?z = "streamed key u start stop cadence now k pts"
  have ih: "stream_all (StreamingRawSummary key start stop cadence now k) pts = Inr ?z"
    and p: "pt_metric_name p = snd (snd key)" "pt_unit p = u"
    using snoc by (simp_all add: uniform_def)
  have "stream_add ?z p = Inr (streamed key u start stop cadence now k (pts @ [p]))"
    using count_point_progress [OF p range, of now] snoc.hyps
    by (simp add: stream_add_def streamed_def StreamingRawSummary_def Let_def stream_segment_eq progress_weight closed_points_snoc)
  then show ?case by (simp add: stream_all_snoc ih)
qed

lemma weighted_points_nonneg: "0 \<le> weight (weighted_points start stop g pts)"
  by (induction start stop g pts rule: weighted_points.induct)
    (auto simp: weighted_point_def Let_def split: option.splits)

lemma raw_summary_progress:
  assumes "pts \<noteq> []" and "uniform key u pts" and "sorted (map pt_ts pts)"
    and range: "supports_range (classify_metric (snd (snd key)) u)"
  shows "raw_summary key pts start stop cadence now k False =
    (let vws = weighted_points start stop (cadence * k) pts;
         s = progress key u (expected_count start stop cadence) now (filter (inside start stop) pts) (weight vws)
     in Inr (if 0 < weight vws then s\<lparr>average := Some (moment vws / weight vws)\<rparr> else s))"
proof -
  obtain t i n where key: "key = (t, i, n)" by (cases key)
  let ?ins = "filter (inside start stop) pts"
  have ordered: "sort_key pt_ts pts = pts" using assms(3) by (rule sort_key_id_if_sorted)
  have unit: "pt_unit (last (if ?ins = [] then pts else ?ins)) = u"
    using assms(1,2) last_in_set [of pts] last_in_set [of ?ins] by (auto simp: uniform_def list_all_iff)
  have no_text: "list_all (\<lambda>p. pt_text p = None) ?ins" using assms(2) by (simp add: uniform_def list_all_iff)
  have nt: "\<not> supports_transitions (classify_metric n u)" using range range_no_transitions(1) key by simp
  show ?thesis using assms(1) range nt no_text
    unfolding raw_summary_def ordered Let_def unit
    by (cases "?ins = []") (simp_all add: key progress_def SeriesSummary_def)
qed

lemma stream_equals_raw:
  assumes "pts \<noteq> []" and "uniform key u pts" and "sorted (map pt_ts pts)"
    and "supports_range (classify_metric (snd (snd key)) u)"
  shows "bindR (stream_all (StreamingRawSummary key start stop cadence now k) pts) stream_finish
    = raw_summary key pts start stop cadence now k False"
proof -
  obtain t i n where key: "key = (t, i, n)" by (cases key)
  obtain ps p where pts: "pts = ps @ [p]" using assms(1) by (cases pts rule: rev_cases) auto
  have avg: "supports_average (classify_metric n u)" using assms(4) range_no_transitions(2) key by simp
  let ?vws = "weighted_points start stop (cadence * k) pts"
  have nz: "weight ?vws \<noteq> 0 \<longleftrightarrow> 0 < weight ?vws" using weighted_points_nonneg [of start stop "cadence * k" pts] by linarith
  have vws: "?vws = closed_points start stop (cadence * k) pts @ weighted_point start stop (cadence * k) (last pts) stop"
    unfolding pts weighted_points_snoc by simp
  show ?thesis
    unfolding stream_invariant [OF assms(1,2,4)] raw_summary_progress [OF assms] bindR_simps stream_finish_def
    using avg nz vws
    by (simp add: streamed_def StreamingRawSummary_def Let_def stream_segment_eq progress_weight)
      (simp add: key progress_def SeriesSummary_def)
qed

text \<open>Reading the points of a numeric series once, in time order, gives exactly the summary that
  holding all of them in memory does (without a percentile): every counter, extreme, quality, timestamp,
  coverage and the time-weighted average agree.\<close>

theorem stream_summary_equals_raw:
  assumes "pts \<noteq> []" and "uniform key u pts" and "sorted (map pt_ts pts)"
    and "supports_range (classify_metric (snd (snd key)) u)"
  shows "bindR (stream_all (StreamingRawSummary key start stop cadence now k) pts) stream_finish
    = raw_summary key pts start stop cadence now k False"
  using assms by (rule stream_equals_raw)

definition sample_points :: "metric_point list" where
  "sample_points =
     map (\<lambda>(t, v). \<lparr>pt_entity_type = ''host'', pt_entity_id = ''local'', pt_metric_name = ''load1'', pt_ts = t,
         pt_numeric = v, pt_text = None, pt_unit = ''load'', pt_quality = (if v = None then ''unavailable'' else ''exact''),
         pt_reset = 0, pt_gap = 0\<rparr>)
       [(95, Some 2), (105, Some 4), (115, None), (125, Some 1)]"

lemma load_statistical: "classify_metric ''load1'' ''load'' = STATISTICAL"
  by code_simp

theorem stream_summary_equals_raw_witness:
  "bindR (stream_all (StreamingRawSummary (''host'', ''local'', ''load1'') 100 130 10 140 3) sample_points) stream_finish
     = raw_summary (''host'', ''local'', ''load1'') sample_points 100 130 10 140 3 False
   \<and> length sample_points = 4"
proof -
  have "supports_range (classify_metric (snd (snd (''host'', ''local'', ''load1''))) ''load'')"
    by (simp add: load_statistical semantics_defs)
  then show ?thesis
    using stream_summary_equals_raw [of sample_points "(''host'', ''local'', ''load1'')" "''load''" 100 130 10 140 3]
    by (simp add: sample_points_def uniform_def)
qed

section \<open>Percentiles\<close>

lemma weight_nonneg: "\<forall>vw \<in> set vws. 0 < snd vw \<Longrightarrow> 0 \<le> weight vws"
  by (induction vws) auto

lemma reach_quantile:
  assumes "sorted (map fst ps)" and "\<forall>vw \<in> set ps. 0 < snd vw" and "c < target" and "target \<le> c + weight ps"
  shows "\<exists>v. reach target c ps = Some v \<and> v \<in> fst ` set ps
    \<and> target \<le> c + weight (filter (\<lambda>vw. fst vw \<le> v) ps) \<and> c + weight (filter (\<lambda>vw. fst vw < v) ps) < target"
  using assms
proof (induction ps arbitrary: c)
  case (Cons p ps)
  obtain x w where p: "p = (x, w)" by (cases p)
  show ?case
  proof (cases "target \<le> c + w")
    case True
    have "filter (\<lambda>vw. fst vw < x) ps = []" using Cons.prems(1) p by (auto simp: filter_empty_conv)
    moreover have "0 \<le> weight (filter (\<lambda>vw. fst vw \<le> x) ps)" using Cons.prems(2) by (intro weight_nonneg) simp
    ultimately show ?thesis using True p Cons.prems by simp
  next
    case False
    then obtain v where v: "reach target (c + w) ps = Some v" "v \<in> fst ` set ps"
      "target \<le> c + w + weight (filter (\<lambda>vw. fst vw \<le> v) ps)" "c + w + weight (filter (\<lambda>vw. fst vw < v) ps) < target"
      using Cons.IH [of "c + w"] Cons.prems p by auto
    moreover have "x \<le> v" using v(2) Cons.prems(1) p by auto
    ultimately show ?thesis using False p Cons.prems(2) by (intro exI [of _ v]) auto
  qed
qed simp

lemma weight_filter_sort: "weight (filter P (sort_key f (sort_key g xs))) = weight (filter P xs)"
proof -
  have "mset (filter P (sort_key f (sort_key g xs))) = mset (filter P xs)" by (simp add: mset_filter)
  then show ?thesis by (metis mset_map sum_mset_sum_list)
qed

lemma weight_pos: "vws \<noteq> [] \<Longrightarrow> \<forall>vw \<in> set vws. 0 < snd vw \<Longrightarrow> 0 < weight vws"
  using weight_nonneg by (induction vws) (auto simp: add_pos_nonneg)

text \<open>The weighted percentile of a series with some positive weight is a value of the series, at or
  below which at least that share of the weighted time lies, and strictly below which less than
  that share lies: it is the quantile, and it exists.\<close>

theorem weighted_percentile_is_quantile:
  assumes "\<exists>vw \<in> set xs. 0 < snd vw" and "0 < q" and "q \<le> 1"
  shows "\<exists>v. weighted_percentile xs q = Some v \<and> v \<in> fst ` set xs
    \<and> q * weight (filter (\<lambda>vw. 0 < snd vw) xs) \<le> weight (filter (\<lambda>vw. fst vw \<le> v) (filter (\<lambda>vw. 0 < snd vw) xs))
    \<and> weight (filter (\<lambda>vw. fst vw < v) (filter (\<lambda>vw. 0 < snd vw) xs)) < q * weight (filter (\<lambda>vw. 0 < snd vw) xs)"
proof -
  let ?pos = "filter (\<lambda>vw. 0 < snd vw) xs"
  define ps where "ps = sort_key fst (sort_key snd ?pos)"
  have set_ps: "set ps = set ?pos" by (simp add: ps_def)
  have positive: "\<forall>vw \<in> set ps. 0 < snd vw" and ne: "ps \<noteq> []"
    using assms(1) set_ps by (auto simp del: set_filter simp: filter_empty_conv) (auto simp: set_ps)
  have total: "0 < weight ps" using ne positive by (rule weight_pos)
  have weights: "weight (filter P ps) = weight (filter P ?pos)" for P unfolding ps_def by (rule weight_filter_sort)
  have same: "weight ps = weight ?pos" using weights [of "\<lambda>_. True"] by simp
  have target: "0 < weight ps * q" "weight ps * q \<le> 0 + weight ps" using total assms(2,3) by (simp_all add: mult_left_le)
  obtain v where v: "reach (weight ps * q) 0 ps = Some v" "v \<in> fst ` set ps"
      "weight ps * q \<le> weight (filter (\<lambda>vw. fst vw \<le> v) ps)" "weight (filter (\<lambda>vw. fst vw < v) ps) < weight ps * q"
    using reach_quantile [OF _ positive target] by (auto simp: ps_def)
  have "weighted_percentile xs q = Some v"
    using v(1) ne total unfolding weighted_percentile_def ps_def [symmetric] Let_def by simp
  then show ?thesis using v weights same set_ps by (auto simp: mult.commute)
qed

theorem weighted_percentile_is_quantile_witness:
  "weighted_percentile [(5, 10), (1, 30), (3, 0), (9, 60)] (95 / 100) = Some 9
   \<and> (\<exists>v. weighted_percentile [(5, 10), (1, 30), (3, 0), (9, 60)] (95 / 100) = Some v
        \<and> v \<in> fst ` set [(5, 10), (1, 30), (3, 0), (9::real, 60::real)])"
proof -
  have "weighted_percentile [(5, 10), (1, 30), (3, 0), (9, 60)] (95 / 100) = Some 9"
    by (simp add: weighted_percentile_def)
  then show ?thesis
    using weighted_percentile_is_quantile [of "[(5, 10), (1, 30), (3, 0), (9, 60)]" "95 / 100"] by auto
qed


section \<open>Averages stay within their range\<close>

lemma weighted_mean_bounds:
  assumes "\<forall>vw \<in> set vws. 0 < snd vw \<and> lo \<le> fst vw \<and> fst vw \<le> hi"
  shows "lo * weight vws \<le> moment vws" and "moment vws \<le> hi * weight vws"
  using assms by (induction vws) (auto simp: distrib_left intro!: add_mono mult_right_mono)

lemma least_le: "x \<in> set xs \<Longrightarrow> \<exists>m. least xs = Some m \<and> m \<le> x"
proof (induction xs rule: rev_induct)
  case (snoc y xs)
  then show ?case by (auto simp: least_snoc split: option.splits)
qed simp

lemma greatest_ge: "x \<in> set xs \<Longrightarrow> \<exists>m. greatest xs = Some m \<and> x \<le> m"
proof (induction xs rule: rev_induct)
  case (snoc y xs)
  then show ?case by (auto simp: greatest_snoc split: option.splits)
qed simp

lemma in_map_filter: "y \<in> set (List.map_filter f xs) \<longleftrightarrow> (\<exists>x \<in> set xs. f x = Some y)"
  by (induction xs) (auto simp: List.map_filter_simps split: option.splits)

text \<open>A row, or a summary, whose average lies between its extremes.\<close>

definition bracketed :: "real option \<Rightarrow> real option \<Rightarrow> real option \<Rightarrow> bool" where
  "bracketed lo a hi = (case a of None \<Rightarrow> True
     | Some v \<Rightarrow> (case (lo, hi) of (Some l, Some h) \<Rightarrow> l \<le> v \<and> v \<le> h | _ \<Rightarrow> False))"

definition sane :: "series_summary \<Rightarrow> bool" where
  "sane s \<longleftrightarrow> 0 \<le> coverage s \<and> coverage s \<le> 1 \<and> 0 \<le> sample_count s \<and> 0 \<le> expected_sample_count s
     \<and> 0 \<le> weighted_seconds s \<and> (average s = None \<longrightarrow> weighted_seconds s = 0)
     \<and> bracketed (minimum s) (average s) (maximum s)"

lemma bracketed_Some: "bracketed lo (Some v) hi \<longleftrightarrow> (\<exists>l h. lo = Some l \<and> hi = Some h \<and> l \<le> v \<and> v \<le> h)"
  by (auto simp: bracketed_def split: option.splits)

lemma bracketed_None [simp]: "bracketed lo None hi"
  by (simp add: bracketed_def)

text \<open>A weighted average of values that lie between members of two lists lies between their extremes.\<close>

lemma mean_bracketed:
  assumes "\<forall>vw \<in> set vws. 0 < snd vw \<and> (\<exists>l \<in> set ls. l \<le> fst vw) \<and> (\<exists>h \<in> set hs. fst vw \<le> h)" and "weight vws \<noteq> 0"
  shows "bracketed (least ls) (Some (moment vws / weight vws)) (greatest hs)"
proof -
  have ne: "vws \<noteq> []" using assms(2) by auto
  then have pos: "0 < weight vws" using assms(1) by (intro weight_pos) auto
  obtain l h where "l \<in> set ls" "h \<in> set hs" using assms(1) ne by (cases vws) auto
  then obtain lo hi where lo: "least ls = Some lo" and hi: "greatest hs = Some hi"
    using least_le greatest_ge by metis
  have "\<forall>vw \<in> set vws. 0 < snd vw \<and> lo \<le> fst vw \<and> fst vw \<le> hi"
    using assms(1) least_le [of _ ls] greatest_ge [of _ hs] lo hi by fastforce
  from weighted_mean_bounds [OF this] show ?thesis
    using pos by (simp add: bracketed_Some lo hi pos_le_divide_eq pos_divide_le_eq)
qed

lemma rollup_weight_elem:
  "vw \<in> set (rollup_weight start stop r) \<Longrightarrow> avg_value r = Some (fst vw) \<and> 0 < snd vw"
proof -
  assume vw: "vw \<in> set (rollup_weight start stop r)"
  then obtain v where v: "avg_value r = Some v" by (cases "avg_value r") (simp_all add: rollup_weight_def Let_def)
  define covered where "covered = of_int (max 0 (min stop (minute_start r + 60) - max start (minute_start r)))
    * min 1 (of_int (max 0 (samples r - rp_unavailable_count r)) / of_int (max 1 (expected_samples r)) :: real)"
  have "rollup_weight start stop r = (if 0 < covered then [(v, covered)] else [])"
    unfolding rollup_weight_def Let_def covered_def v by simp
  then show ?thesis using vw v by (simp split: if_splits)
qed

lemma expected_pos: "0 \<le> missing_samples t c"
  by (simp add: missing_samples_def max.coboundedI1)

lemma at_least_one: "0 \<le> max 1 (x::int)"
  by simp

lemma share_bounds: "0 \<le> n \<Longrightarrow> 0 \<le> e \<Longrightarrow> 0 \<le> min 1 (of_int n / (of_int e :: real)) \<and> min 1 (of_int n / (of_int e :: real)) \<le> 1"
  by (auto intro: divide_nonneg_nonneg)

lemma rollup_summary_sane:
  assumes "points \<noteq> []" and rows: "\<forall>r \<in> set points. 0 \<le> samples r \<and> bracketed (min_value r) (avg_value r) (max_value r)"
  shows "\<exists>s. rollup_summary key points start stop cadence = Inr s \<and> sane s"
proof -
  let ?rs = "sort_key minute_start points"
  let ?vws = "concat (map (rollup_weight start stop) ?rs)"
  have count: "0 \<le> sum_list (map samples ?rs)" using rows by (auto intro!: sum_list_nonneg)
  have elem: "0 < snd vw \<and> (\<exists>l \<in> set (List.map_filter min_value ?rs). l \<le> fst vw)
      \<and> (\<exists>h \<in> set (List.map_filter max_value ?rs). fst vw \<le> h)" if vw: "vw \<in> set ?vws" for vw
  proof -
    obtain r where "r \<in> set points" "vw \<in> set (rollup_weight start stop r)" using vw by auto
    then have r: "r \<in> set points" "avg_value r = Some (fst vw)" "0 < snd vw" using rollup_weight_elem by auto
    then obtain l h where "min_value r = Some l" "max_value r = Some h" "l \<le> fst vw" "fst vw \<le> h"
      using rows bracketed_Some by metis
    then have "l \<in> set (List.map_filter min_value ?rs)" "h \<in> set (List.map_filter max_value ?rs)" "l \<le> fst vw" "fst vw \<le> h"
      using r(1) by (auto simp: in_map_filter)
    then show ?thesis using r(3) by blast
  qed
  then have mean: "weight ?vws \<noteq> 0 \<Longrightarrow> bracketed (least (List.map_filter min_value ?rs)) (Some (moment ?vws / weight ?vws))
      (greatest (List.map_filter max_value ?rs))"
    by (intro mean_bracketed) auto
  have w: "0 \<le> weight ?vws" using elem by (intro weight_nonneg) auto
  show ?thesis
    using assms(1) count w mean share_bounds [OF count, of "max 1 _"]
    unfolding rollup_summary_def Let_def
    by (cases key) (simp add: sane_def SeriesSummary_def at_least_one)
qed

definition averaged :: "series_summary list \<Rightarrow> (real \<times> real) list" where
  "averaged = List.map_filter (\<lambda>s. if 0 < weighted_seconds s then map_option (\<lambda>a. (a, weighted_seconds s)) (average s) else None)"

lemma averaged_sums:
  assumes "list_all sane parts"
  shows "weight (averaged parts) = sum_list (map weighted_seconds parts)"
    and "moment (averaged parts) = sum_list (List.map_filter (\<lambda>s. map_option (\<lambda>a. a * weighted_seconds s) (average s)) parts)"
  using assms by (induction parts) (auto simp: averaged_def List.map_filter_simps sane_def split: option.splits)

lemma averaged_bracketed:
  assumes "list_all sane parts" and "weight (averaged parts) \<noteq> 0"
  shows "bracketed (least (List.map_filter minimum parts)) (Some (moment (averaged parts) / weight (averaged parts)))
    (greatest (List.map_filter maximum parts))"
proof (rule mean_bracketed [OF _ assms(2)], rule ballI)
  fix vw assume "vw \<in> set (averaged parts)"
  then obtain s where s: "s \<in> set parts" "average s = Some (fst vw)" "0 < snd vw"
    by (auto simp: averaged_def in_map_filter split: if_splits)
  then have "bracketed (minimum s) (Some (fst vw)) (maximum s)" using assms(1) by (auto simp: list_all_iff sane_def)
  then obtain l h where "minimum s = Some l" "maximum s = Some h" "l \<le> fst vw" "fst vw \<le> h"
    by (auto simp: bracketed_Some)
  then have "l \<in> set (List.map_filter minimum parts)" "h \<in> set (List.map_filter maximum parts)" "l \<le> fst vw" "fst vw \<le> h"
    using s(1) by (auto simp: in_map_filter)
  then show "0 < snd vw \<and> (\<exists>l \<in> set (List.map_filter minimum parts). l \<le> fst vw)
      \<and> (\<exists>h \<in> set (List.map_filter maximum parts). fst vw \<le> h)"
    using s(3) by blast
qed

lemma combine_hybrid_sane:
  assumes "sane ro" and raw: "case raw of None \<Rightarrow> True | Some s \<Rightarrow> sane s"
    and range: "supports_range (classify_metric (snd (snd key)) (unit_name (case raw of None \<Rightarrow> ro | Some s \<Rightarrow> s)))"
  shows "\<exists>s. combine_hybrid raw (Some ro) key start stop cadence a b c d = Inr s \<and> sane s"
proof -
  define parts where "parts = List.map_filter (\<lambda>x. x) [Some ro, raw]"
  have parts: "list_all sane parts" using assms(1) raw by (auto simp: parts_def List.map_filter_simps split: option.splits)
  have base: "(if raw \<noteq> None then raw else Some ro) = Some (case raw of None \<Rightarrow> ro | Some s \<Rightarrow> s)"
    by (cases raw) simp_all
  have avg: "supports_average (classify_metric (snd (snd key)) (unit_name (case raw of None \<Rightarrow> ro | Some s \<Rightarrow> s)))"
    using range range_no_transitions(2) by simp
  have sums: "0 \<le> sum_list (map weighted_seconds parts)" "0 \<le> sum_list (map sample_count parts)"
      "0 \<le> sum_list (map expected_sample_count parts)"
    using parts by (auto intro!: sum_list_nonneg simp: sane_def list_all_iff)
  define e where "e = sum_list (map expected_sample_count parts)
    + missing_samples (max 0 (stop - start - (interval_seconds (Some ro \<noteq> None) a b + interval_seconds (raw \<noteq> None) c d))) cadence"
  have e: "0 \<le> e" unfolding e_def using sums(3) expected_pos by simp
  show ?thesis
    using averaged_bracketed [OF parts] averaged_sums [OF parts] sums e share_bounds [OF sums(2) e] range avg
    unfolding combine_hybrid_def Let_def parts_def [symmetric] base option.case e_def [symmetric]
    by (cases key) (simp add: sane_def SeriesSummary_def)
qed

text \<open>The average reported for minute rollups, alone or combined with a raw summary, is a true weighted
  mean: it lies between the reported minimum and maximum, and the coverage is a share between 0 and 1,
  provided that holds of every stored row and of the raw part.\<close>

theorem hybrid_average_in_range:
  assumes "points \<noteq> []" and "\<forall>r \<in> set points. 0 \<le> samples r \<and> bracketed (min_value r) (avg_value r) (max_value r)"
    and "rollup_summary key points start stop cadence = Inr ro"
    and "case raw of None \<Rightarrow> True | Some s \<Rightarrow> sane s"
    and "supports_range (classify_metric (snd (snd key)) (unit_name (case raw of None \<Rightarrow> ro | Some s \<Rightarrow> s)))"
  shows "sane ro \<and> (\<exists>s. combine_hybrid raw (Some ro) key start stop cadence rs re ws we = Inr s \<and> sane s)"
  using rollup_summary_sane [OF assms(1,2), of key start stop cadence] combine_hybrid_sane [OF _ assms(4,5)] assms(3)
  by auto

definition sample_rows :: "rollup_point list" where
  "sample_rows =
     map (\<lambda>(t, v). \<lparr>rp_entity_type = ''host'', rp_entity_id = ''local'', rp_metric_name = ''load1'', minute_start = t,
         samples = 5, expected_samples = 6, min_value = Some (v - 1), avg_value = Some v, max_value = Some (v + 2),
         rp_unavailable_count = 0, rp_reset_count = 0, rp_gap_count = 0, rp_coverage = 5 / 6, rp_unit = ''load'',
         rp_quality = ''exact''\<rparr>) [(60, 4), (0, 2)]"

theorem hybrid_average_in_range_witness:
  "\<exists>ro s. rollup_summary (''host'', ''local'', ''load1'') sample_rows 0 120 10 = Inr ro \<and> sane ro
     \<and> combine_hybrid None (Some ro) (''host'', ''local'', ''load1'') 0 120 10 (Some 0) (Some 120) None None = Inr s \<and> sane s"
proof -
  let ?key = "(''host'', ''local'', ''load1'')"
  have rows: "sample_rows \<noteq> []" "\<forall>r \<in> set sample_rows. 0 \<le> samples r \<and> bracketed (min_value r) (avg_value r) (max_value r)"
    by (simp_all add: sample_rows_def bracketed_Some)
  have "last (sort_key minute_start sample_rows) = hd sample_rows" by (simp add: sample_rows_def)
  then have u: "rp_unit (last (sort_key minute_start sample_rows)) = ''load''" by (simp add: sample_rows_def)
  obtain ro where ro: "rollup_summary ?key sample_rows 0 120 10 = Inr ro" "unit_name ro = ''load''"
    using rows(1) u by (simp add: rollup_summary_def Let_def load_statistical semantics_defs SeriesSummary_def)
  then show ?thesis
    using hybrid_average_in_range [OF rows ro(1), of None "Some 0" "Some 120" None None]
    by (simp add: load_statistical semantics_defs)
qed

end
