(* ===== verification/Monitoring_Query.thy ===== *)
theory Monitoring_Query
  imports Monitoring_Summaries
begin

text \<open>
  \<open>src/monitoring/query_window.py\<close>, the queries of \<open>query_db.py\<close> that select points, and the planning of
  \<open>query_engine.py\<close>: which interval is asked for, which part of it is read from raw points and which
  from minute rollups, and within which row budgets.

  The monitoring database is the record \<open>metrics_db\<close>: its points and rollups are the rows of
  \<open>metric_points\<close> and \<open>minute_rollups\<close> joined with their entity, in table order. SQL conditions are
  predicates on these rows. What \<open>datetime.fromisoformat\<close> accepts differs between versions of Python
  and is a parameter.
\<close>

section \<open>Windows\<close>

definition MAX_WINDOW_SECONDS :: int where "MAX_WINDOW_SECONDS = 24 * 60 * 60"
definition MAX_DURATION_NUMBER :: int where "MAX_DURATION_NUMBER = 10000000"

definition DURATION_FACTORS :: "(char, int) dict" where
  "DURATION_FACTORS = [(CHR ''s'', 1), (CHR ''m'', 60), (CHR ''h'', 3600), (CHR ''d'', 24 * 3600)]"

record retention_policy =
  raw_seconds :: int
  rollup_seconds :: int
  event_seconds :: int

definition RetentionPolicy :: retention_policy where
  "RetentionPolicy = \<lparr>raw_seconds = 6 * 60 * 60, rollup_seconds = 24 * 60 * 60, event_seconds = 24 * 60 * 60\<rparr>"

record query_window =
  requested_start :: int
  requested_end :: int
  effective_start :: int
  effective_end :: int
  truncated :: bool

definition duration_seconds :: "query_window \<Rightarrow> int" where
  "duration_seconds w = max 0 (effective_end w - effective_start w)"

text \<open>\<open>DURATION_RE.fullmatch\<close>: up to eight digits, the first not zero, and a unit letter.\<close>

definition match_duration :: "string \<Rightarrow> (string \<times> char) option" where
  "match_duration s =
     (if s \<noteq> [] \<and> all_digits (butlast s) \<and> hd s \<noteq> CHR ''0'' \<and> length (butlast s) \<le> 8 \<and> last s \<in> fst ` set DURATION_FACTORS
      then Some (butlast s, last s) else None)"

definition parse_duration :: "string \<Rightarrow> int \<Rightarrow> (query_exn, int) result" where
  "parse_duration value limit =
     (case match_duration (strip value) of
        None \<Rightarrow> Inl (QueryInputError ''duration must use an explicit form such as 90s, 10m, 1h, or 24h'')
      | Some (digits, unit) \<Rightarrow>
          let number = int (nat_of_text digits);
              seconds = number * dict_get DURATION_FACTORS unit 1
          in if number \<le> 0 \<or> MAX_DURATION_NUMBER < number
             then Inl (QueryInputError ''duration is outside the safe range'')
             else if seconds \<le> 0 \<or> limit < seconds
             then Inl (QueryInputError (''window exceeds the maximum of '' @ str_int limit @ '' seconds''))
             else Inr seconds)"

text \<open>What \<open>fromisoformat\<close> answers: the UTC offset, if the text has one, and the value of
  \<open>timestamp()\<close>, if that does not overflow.\<close>

record moment_read =
  utcoffset :: "int option"
  timestamp :: "real option"

type_synonym iso_parser = "string \<Rightarrow> moment_read option"

definition parse_timestamp :: "iso_parser \<Rightarrow> string \<Rightarrow> (query_exn, int) result" where
  "parse_timestamp fromisoformat value =
     (let t = strip value;
          t' = (if ends_with t ''Z'' then butlast t @ ''+00:00'' else t)
      in case fromisoformat t' of
           None \<Rightarrow> Inl (QueryInputError ''timestamp must be ISO-8601 with Z or an explicit UTC offset'')
         | Some parsed \<Rightarrow>
             if utcoffset parsed = None
             then Inl (QueryInputError ''timestamp must include Z or an explicit UTC offset'')
             else (case timestamp parsed of
                     None \<Rightarrow> Inl (QueryInputError ''timestamp is outside the supported range'')
                   | Some x \<Rightarrow> Inr (py_trunc x)))"

definition requested_window ::
  "iso_parser \<Rightarrow> int \<Rightarrow> string option \<Rightarrow> string option \<Rightarrow> string option \<Rightarrow> int \<Rightarrow> (query_exn, int \<times> int) result" where
  "requested_window parser now duration start_text end_text limit =
     (case (start_text, end_text) of
        (None, None) \<Rightarrow>
          bindR (parse_duration (case duration of None \<Rightarrow> ''10m'' | Some d \<Rightarrow> if d = [] then ''10m'' else d) limit)
            (\<lambda>seconds. Inr (now - seconds, now))
      | (Some s, Some e) \<Rightarrow>
          if duration \<noteq> None then Inl (QueryInputError ''use either --window or --start/--end, not both'')
          else bindR (parse_timestamp parser s) (\<lambda>a. bindR (parse_timestamp parser e) (\<lambda>b. Inr (a, b)))
      | _ \<Rightarrow> Inl (QueryInputError ''--start and --end must be provided together''))"

definition clip_window :: "int \<Rightarrow> retention_policy \<Rightarrow> int \<Rightarrow> int \<times> int \<Rightarrow> (query_exn, query_window) result" where
  "clip_window now retention limit se =
     (let (s, e) = se;
          oldest = now - max (rollup_seconds retention) (event_seconds retention);
          a = max s oldest; b = min e now
      in if e \<le> s then Inl (QueryInputError ''window start must be earlier than window end'')
         else if now \<le> s then Inl (QueryInputError ''future-only windows are not allowed'')
         else if limit < e - s then Inl (QueryInputError ''window exceeds the 24-hour safety limit'')
         else if e \<le> oldest then Inl (QueryInputError ''requested window is outside retained monitoring history'')
         else if b \<le> a then Inl (QueryInputError ''requested window has no retained interval'')
         else Inr \<lparr>requested_start = s, requested_end = e, effective_start = a, effective_end = b,
                    truncated = (a \<noteq> s \<or> b \<noteq> e)\<rparr>)"

definition resolve_window ::
  "iso_parser \<Rightarrow> int \<Rightarrow> string option \<Rightarrow> string option \<Rightarrow> string option \<Rightarrow> retention_policy \<Rightarrow> int
     \<Rightarrow> (query_exn, query_window) result" where
  "resolve_window parser now duration start_text end_text retention limit =
     bindR (requested_window parser now duration start_text end_text limit) (clip_window now retention limit)"

record query_plan =
  plan_mode :: source_mode
  raw_start :: "int option"
  raw_end :: "int option"
  rollup_start :: "int option"
  rollup_end :: "int option"
  estimated_rows :: "int option"
  reason :: string
  stream_raw :: bool
  rollup_watermark :: "int option"
  rollup_watermark_status :: string

definition QueryPlan :: "source_mode \<Rightarrow> query_plan" where
  "QueryPlan md = \<lparr>plan_mode = md, raw_start = None, raw_end = None, rollup_start = None, rollup_end = None,
     estimated_rows = None, reason = ''retention'', stream_raw = False, rollup_watermark = None,
     rollup_watermark_status = ''missing''\<rparr>"

definition plan_window :: "query_window \<Rightarrow> int \<Rightarrow> retention_policy \<Rightarrow> query_plan" where
  "plan_window w now retention =
     (let raw_cutoff = now - raw_seconds retention; s = effective_start w; e = effective_end w
      in if raw_cutoff \<le> s then (QueryPlan Raw)\<lparr>raw_start := Some s, raw_end := Some e\<rparr>
         else if e \<le> raw_cutoff then (QueryPlan Rollup)\<lparr>rollup_start := Some s, rollup_end := Some e\<rparr>
         else (QueryPlan Hybrid)\<lparr>raw_start := Some (max s raw_cutoff), raw_end := Some e, rollup_start := Some s,
                rollup_end := Some (min (max (raw_cutoff div 60 * 60) s) e)\<rparr>)"

section \<open>Filters and counts\<close>

definition SAFE_FILTER_RE :: "string \<Rightarrow> bool" where
  "SAFE_FILTER_RE s \<longleftrightarrow> 1 \<le> length s \<and> length s \<le> 160 \<and> (\<forall>c\<in>set s. is_alnum c \<or> c \<in> set ''_.:/-'')"

definition validate_filter :: "string \<Rightarrow> string \<Rightarrow> (query_exn, string) result" where
  "validate_filter value label =
     (if SAFE_FILTER_RE value then Inr value else Inl (QueryInputError (''invalid '' @ label @ '' filter'')))"

record selection =
  sel_type :: "string option"
  sel_id :: "string option"
  sel_metrics :: "string list"

text \<open>\<open>_filter_clause\<close>: the condition on a series, once every filter value is valid.\<close>

definition optional_filter :: "string option \<Rightarrow> string \<Rightarrow> (query_exn, unit) result" where
  "optional_filter v label =
     (case v of None \<Rightarrow> Inr () | Some x \<Rightarrow> bindR (validate_filter x label) (\<lambda>_. Inr ()))"

definition filter_clause :: "selection \<Rightarrow> (query_exn, series_key \<Rightarrow> bool) result" where
  "filter_clause f =
     bindR (optional_filter (sel_type f) ''entity type'') (\<lambda>_.
     bindR (optional_filter (sel_id f) ''entity id'') (\<lambda>_.
       if 100 < length (sel_metrics f) then Inl (QueryLimitError ''metric filter exceeds the safe limit of 100 names'')
       else bindR (mapR (\<lambda>n. validate_filter n ''metric'') (sel_metrics f)) (\<lambda>names.
         Inr (\<lambda>(t, i, n). (case sel_type f of None \<Rightarrow> True | Some x \<Rightarrow> t = x)
            \<and> (case sel_id f of None \<Rightarrow> True | Some x \<Rightarrow> i = x) \<and> (names = [] \<or> n \<in> set names)))))"

record metrics_db =
  md_version :: int
  md_tables :: "string list"
  md_entities :: "(string \<times> string) list"
  md_points :: "metric_point list"
  md_rollups :: "rollup_point list"
  md_events :: "(int \<times> string) list"
  md_cycles :: "int list"
  md_samples :: "int list"
  collector_state :: "(string, string) dict"

definition point_key :: "metric_point \<Rightarrow> series_key" where
  "point_key p = (pt_entity_type p, pt_entity_id p, pt_metric_name p)"

definition rollup_key :: "rollup_point \<Rightarrow> series_key" where
  "rollup_key r = (rp_entity_type r, rp_entity_id r, rp_metric_name r)"

text \<open>\<open>SELECT COUNT(*) FROM (SELECT 1 ... LIMIT limit+1)\<close>; a negative limit is none to SQLite. Integer
  division of SQLite truncates.\<close>

definition limited :: "int \<Rightarrow> nat \<Rightarrow> int" where
  "limited limit n = (if limit + 1 < 0 then int n else min (int n) (limit + 1))"

definition bounded_point_count ::
  "metrics_db \<Rightarrow> string \<Rightarrow> int \<Rightarrow> int \<Rightarrow> int \<Rightarrow> selection \<Rightarrow> (query_exn, int) result" where
  "bounded_point_count db source s e limit f =
     bindR (filter_clause f) (\<lambda>keep.
       let raws = filter (\<lambda>p. s \<le> pt_ts p \<and> pt_ts p < e \<and> keep (point_key p)) (md_points db)
       in if source = ''raw'' then Inr (limited limit (length raws))
          else if source = ''rollup''
          then Inr (limited limit (length (filter (\<lambda>r. s \<le> minute_start r \<and> minute_start r < e \<and> keep (rollup_key r)) (md_rollups db))))
          else if source = ''raw_minute''
          then Inr (limited limit (length (remdups (map (\<lambda>p. (point_key p, py_trunc (of_int (pt_ts p) / 60))) raws))))
          else Inl (QueryInputError ''invalid query source''))"

text \<open>\<open>int(text)\<close>: surrounding space, a sign, digits grouped by single underscores, at most 4300 of them.\<close>

definition text_int :: "string \<Rightarrow> int option" where
  "text_int s =
     (let t = strip s;
          body = (if t \<noteq> [] \<and> hd t \<in> {CHR ''+'', CHR ''-''} then tl t else t);
          digits = filter is_digit body
      in if list_all all_digits (split_on CHR ''_'' body) \<and> length digits \<le> 4300
         then Some (if t \<noteq> [] \<and> hd t = CHR ''-'' then - int (nat_of_text digits) else int (nat_of_text digits))
         else None)"

definition rollup_watermark_of :: "metrics_db \<Rightarrow> int \<Rightarrow> int option \<times> string" where
  "rollup_watermark_of db now =
     (case map_of (collector_state db) ''minute_rollup_watermark'' of
        None \<Rightarrow> (None, ''missing'')
      | Some row \<Rightarrow>
          (case text_int row of
             None \<Rightarrow> (None, ''invalid_nonnumeric'')
           | Some v \<Rightarrow>
               if v < 0 then (None, ''invalid_negative'')
               else if v mod 60 \<noteq> 0 then (None, ''invalid_misaligned'')
               else if now div 60 * 60 < v then (None, ''invalid_future'')
               else (Some v, ''valid'')))"


section \<open>The cost-aware plan\<close>

record query_limits =
  max_query_rows :: int
  max_series :: int
  max_events :: int
  max_export_rows :: int
  max_seed_seconds :: int
  max_gap_multiplier :: real
  max_entities :: int
  max_materialized_rows :: int
  max_health_events :: int
  max_stream_scan_rows :: int

definition QueryLimits :: query_limits where
  "QueryLimits = \<lparr>max_query_rows = 100000, max_series = 5000, max_events = 2000, max_export_rows = 100000,
     max_seed_seconds = 300, max_gap_multiplier = 5 / 2, max_entities = 256, max_materialized_rows = 110000,
     max_health_events = 200, max_stream_scan_rows = 1000000\<rparr>"

definition minute_ceil :: "int \<Rightarrow> int" where
  "minute_ceil t = \<lceil>of_int t / (60::real)\<rceil> * 60"

definition minute_floor :: "int \<Rightarrow> int" where
  "minute_floor t = \<lfloor>of_int t / (60::real)\<rfloor> * 60"

text \<open>The rows of the raw part, and whether they have to be streamed.\<close>

definition raw_cost :: "query_limits \<Rightarrow> metrics_db \<Rightarrow> int \<Rightarrow> int option \<Rightarrow> selection \<Rightarrow> (query_exn, int \<times> bool) result" where
  "raw_cost limits db s e f =
     (case e of
        None \<Rightarrow> Inr (0, False)
      | Some stop \<Rightarrow>
          bindR (bounded_point_count db ''raw'' s stop (max_query_rows limits) f) (\<lambda>raw_count.
            if raw_count \<le> max_query_rows limits then Inr (raw_count, False)
            else bindR (bounded_point_count db ''raw'' s stop (max_stream_scan_rows limits) f) (\<lambda>stream_count.
              if max_stream_scan_rows limits < stream_count
              then Inl (QueryLimitError (''stream_scan_limit: raw query exceeds the maximum scan budget of ''
                     @ str_int (max_stream_scan_rows limits) @ '' rows''))
              else Inr (stream_count, True))))"

text \<open>Whether the rollups leave too little room for raw points held in memory.\<close>

definition rollup_crowds ::
  "query_limits \<Rightarrow> metrics_db \<Rightarrow> int \<Rightarrow> int option \<Rightarrow> int option \<Rightarrow> selection \<Rightarrow> (query_exn, bool) result" where
  "rollup_crowds limits db raw_count rs re f =
     (case (rs, re) of
        (Some s, Some e) \<Rightarrow>
          let complete_start = minute_ceil s; complete_end = minute_floor e;
              remaining = max 0 (max_materialized_rows limits - raw_count)
          in if complete_start < complete_end
             then bindR (bounded_point_count db ''rollup'' complete_start complete_end remaining f)
               (\<lambda>rollup_count. Inr (remaining < rollup_count))
             else Inr False
      | _ \<Rightarrow> Inr False)"

definition plan_reason :: "int option \<Rightarrow> string \<Rightarrow> bool \<Rightarrow> string" where
  "plan_reason watermark status streaming =
     (if watermark = None
      then (if status = ''missing'' then ''missing'' else ''invalid'') @
        (if streaming then ''_rollup_watermark_streaming'' else ''_rollup_watermark'')
      else if streaming then ''rollup_watermark_streaming'' else ''rollup_watermark'')"

definition watermark_plan ::
  "query_limits \<Rightarrow> metrics_db \<Rightarrow> int \<Rightarrow> query_window \<Rightarrow> int option \<times> string \<Rightarrow> selection \<Rightarrow> (query_exn, query_plan) result" where
  "watermark_plan limits db raw_cutoff w ws f =
     (let (watermark, status) = ws;
          s = effective_start w; e = effective_end w;
          finalized_end = (case watermark of None \<Rightarrow> s | Some m \<Rightarrow> min e (max s m));
          rs0 = (if watermark = None then s else max s finalized_end);
          rs = (if watermark \<noteq> None \<and> rs0 < raw_cutoff then min e raw_cutoff else rs0);
          roll_start = (if watermark \<noteq> None \<and> s < finalized_end then Some s else None);
          roll_end = (if roll_start \<noteq> None then Some finalized_end else None);
          re = (if rs < e then Some e else None)
      in bindR (raw_cost limits db rs re f) (\<lambda>(raw_count, streaming).
         bindR (if \<not> streaming \<and> re \<noteq> None then rollup_crowds limits db raw_count roll_start roll_end f else Inr streaming)
           (\<lambda>streaming'.
              Inr \<lparr>plan_mode = (if roll_start \<noteq> None \<and> re \<noteq> None then Hybrid else if roll_start \<noteq> None then Rollup else Raw),
                   raw_start = (if re \<noteq> None then Some rs else None), raw_end = re,
                   rollup_start = roll_start, rollup_end = roll_end, estimated_rows = Some raw_count,
                   reason = plan_reason watermark status streaming', stream_raw = streaming',
                   rollup_watermark = watermark, rollup_watermark_status = status\<rparr>)))"

definition cost_aware_plan ::
  "query_limits \<Rightarrow> retention_policy \<Rightarrow> metrics_db \<Rightarrow> int \<Rightarrow> query_window \<Rightarrow> selection \<Rightarrow> (query_exn, query_plan) result" where
  "cost_aware_plan limits retention db now w f =
     (let s = effective_start w; e = effective_end w;
          raw_cutoff = now - raw_seconds retention;
          ws = rollup_watermark_of db now
      in if raw_cutoff \<le> s
         then bindR (bounded_point_count db ''raw'' s e (max_query_rows limits) f) (\<lambda>n.
           if n \<le> max_query_rows limits
           then Inr ((QueryPlan Raw)\<lparr>raw_start := Some s, raw_end := Some e, estimated_rows := Some n,
                  reason := ''raw_within_budget'', rollup_watermark := fst ws, rollup_watermark_status := snd ws\<rparr>)
           else watermark_plan limits db raw_cutoff w ws f)
         else watermark_plan limits db raw_cutoff w ws f)"

section \<open>What a window selects\<close>

definition retained :: "int \<Rightarrow> retention_policy \<Rightarrow> int set" where
  "retained now retention = {now - max (rollup_seconds retention) (event_seconds retention)..<now}"

lemma interval_eq: "a < b \<Longrightarrow> {x..<y} = {a..<b} \<longleftrightarrow> x = a \<and> y = b" for a b x y :: int
  by (cases "x < y") (auto simp: atLeastLessThan_eq_iff)

lemma clip_window_eq:
  assumes "0 < max (rollup_seconds retention) (event_seconds retention)"
  shows "clip_window now retention limit (a, b) = Inr w \<longleftrightarrow>
    b - a \<le> limit \<and> {a..<b} \<inter> retained now retention \<noteq> {}
    \<and> requested_start w = a \<and> requested_end w = b
    \<and> {effective_start w..<effective_end w} = {a..<b} \<inter> retained now retention
    \<and> truncated w = (\<not> {a..<b} \<subseteq> retained now retention)"
proof -
  define lo where "lo = now - max (rollup_seconds retention) (event_seconds retention)"
  have lo: "lo < now" using assms by (simp add: lo_def)
  have meet: "{a..<b} \<inter> {lo..<now} = {max a lo..<min b now}" by auto
  show ?thesis
  proof (cases "a < b \<and> a < now \<and> b - a \<le> limit \<and> lo < b")
    case True
    then have ne: "max a lo < min b now" using lo by auto
    have sub: "{a..<b} \<subseteq> {lo..<now} \<longleftrightarrow> max a lo = a \<and> min b now = b" using True by auto
    obtain s e x y t where w: "w = \<lparr>requested_start = s, requested_end = e, effective_start = x, effective_end = y, truncated = t\<rparr>"
      by (cases w)
    show ?thesis using True ne
      unfolding clip_window_def Let_def retained_def lo_def [symmetric] meet w query_window.simps interval_eq [OF ne] sub
      by auto
  next
    case False
    then have "{a..<b} \<inter> {lo..<now} = {} \<or> limit < b - a" using lo by (auto simp: meet)
    moreover have "clip_window now retention limit (a, b) \<noteq> Inr w"
      using False unfolding clip_window_def Let_def lo_def [symmetric] by auto
    ultimately show ?thesis unfolding retained_def lo_def [symmetric] by auto
  qed
qed

text \<open>A window is accepted exactly when the requested interval is no longer than the limit and meets
  the retained past; what is then queried is exactly the part of it that is retained, and the window says
  it was truncated exactly when some of the request is not.\<close>

theorem resolve_window_exact:
  assumes "0 < max (rollup_seconds retention) (event_seconds retention)"
  shows "resolve_window parser now duration start_text end_text retention limit = Inr w \<longleftrightarrow>
    (\<exists>a b. requested_window parser now duration start_text end_text limit = Inr (a, b)
      \<and> b - a \<le> limit \<and> {a..<b} \<inter> retained now retention \<noteq> {}
      \<and> requested_start w = a \<and> requested_end w = b
      \<and> {effective_start w..<effective_end w} = {a..<b} \<inter> retained now retention
      \<and> truncated w = (\<not> {a..<b} \<subseteq> retained now retention))"
  unfolding resolve_window_def bindR_eq_Inr split_paired_Ex clip_window_eq [OF assms] by blast

theorem resolve_window_exact_witness:
  "\<exists>w. resolve_window (\<lambda>_. None) 100000 (Some ''2h'') None None RetentionPolicy MAX_WINDOW_SECONDS = Inr w
     \<and> {effective_start w..<effective_end w} = {92800..<100000}"
proof -
  have req: "requested_window (\<lambda>_. None) 100000 (Some ''2h'') None None MAX_WINDOW_SECONDS = Inr (92800, 100000)"
    by (simp add: requested_window_def parse_duration_def match_duration_def all_digits_def is_digit_def strip_def is_space_def
        DURATION_FACTORS_def MAX_DURATION_NUMBER_def MAX_WINDOW_SECONDS_def nat_of_text_def digit_value_def dict_get_def Let_def)
  have lim: "7200 \<le> MAX_WINDOW_SECONDS" by (simp add: MAX_WINDOW_SECONDS_def)
  have "resolve_window (\<lambda>_. None) 100000 (Some ''2h'') None None RetentionPolicy MAX_WINDOW_SECONDS
      = Inr \<lparr>requested_start = 92800, requested_end = 100000, effective_start = 92800, effective_end = 100000, truncated = False\<rparr>"
    using lim by (subst resolve_window_exact) (auto simp: RetentionPolicy_def req retained_def)
  then show ?thesis by auto
qed


section \<open>What a plan reads\<close>

text \<open>The seconds of an interval whose ends may be absent.\<close>

definition span_of :: "int option \<Rightarrow> int option \<Rightarrow> int set" where
  "span_of a b = (case (a, b) of (Some x, Some y) \<Rightarrow> {x..<y} | _ \<Rightarrow> {})"

lemma watermark_plan_fields:
  assumes "watermark_plan limits db cutoff w (m, status) f = Inr p"
  defines "s \<equiv> effective_start w" and "e \<equiv> effective_end w"
  defines "fin \<equiv> (case m of None \<Rightarrow> s | Some t \<Rightarrow> min e (max s t))"
  defines "rs \<equiv> (if m \<noteq> None \<and> max s fin < cutoff then min e cutoff else if m = None then s else max s fin)"
  shows "rollup_watermark p = m"
    and "raw_start p = (if rs < e then Some rs else None)" and "raw_end p = (if rs < e then Some e else None)"
    and "rollup_start p = (if m \<noteq> None \<and> s < fin then Some s else None)"
    and "rollup_end p = (if m \<noteq> None \<and> s < fin then Some fin else None)"
  using assms(1)
  unfolding watermark_plan_def Let_def prod.case s_def [symmetric] e_def [symmetric] fin_def [symmetric] rs_def
  by (auto simp: bindR_eq_Inr split del: if_split) (auto simp: fin_def split: if_splits)

lemma watermark_plan_spans:
  assumes p: "watermark_plan limits db cutoff w (m, status) f = Inr p" and "effective_start w < effective_end w"
  shows "span_of (raw_start p) (raw_end p) \<inter> span_of (rollup_start p) (rollup_end p) = {}"
    and "span_of (raw_start p) (raw_end p) \<union> span_of (rollup_start p) (rollup_end p)
      = {effective_start w..<effective_end w} - (case m of None \<Rightarrow> {} | Some t \<Rightarrow> {t..<cutoff})"
    and "span_of (rollup_start p) (rollup_end p) \<subseteq> (case m of None \<Rightarrow> {} | Some t \<Rightarrow> {..<t})"
  using assms(2) unfolding watermark_plan_fields [OF p] span_of_def
  by (cases m; simp; (auto simp: min_def max_def)?)+


text \<open>The rows of the raw table a plan selects.\<close>

definition raw_rows :: "metrics_db \<Rightarrow> int set \<Rightarrow> (series_key \<Rightarrow> bool) \<Rightarrow> int" where
  "raw_rows db seconds keep = int (length (filter (\<lambda>p. pt_ts p \<in> seconds \<and> keep (point_key p)) (md_points db)))"

lemma raw_count_eq:
  assumes "filter_clause f = Inr keep"
  shows "bounded_point_count db ''raw'' s e limit f = Inr (limited limit (nat (raw_rows db {s..<e} keep)))"
  using assms by (simp add: bounded_point_count_def raw_rows_def Let_def conj_assoc)

lemma limited_exact: "0 \<le> limit \<Longrightarrow> limited limit n \<le> limit \<Longrightarrow> limited limit n = int n"
  by (auto simp: limited_def min_def split: if_splits)

lemma raw_rows_nonneg: "0 \<le> raw_rows db S keep"
  by (simp add: raw_rows_def)

lemma raw_cost_exact:
  assumes "raw_cost limits db s e f = Inr (n, streaming)" and "filter_clause f = Inr keep"
    and "0 \<le> max_query_rows limits" and "0 \<le> max_stream_scan_rows limits"
  shows "n = raw_rows db (span_of (Some s) e) keep \<and> (\<not> streaming \<longrightarrow> n \<le> max_query_rows limits)
    \<and> (streaming \<longrightarrow> n \<le> max_stream_scan_rows limits)"
proof (cases e)
  case None
  then show ?thesis using assms by (simp add: raw_cost_def span_of_def raw_rows_def)
next
  case (Some stop)
  let ?k = "raw_rows db {s..<stop} keep"
  have k: "int (nat ?k) = ?k" using raw_rows_nonneg by simp
  have count: "bounded_point_count db ''raw'' s stop l f = Inr (limited l (nat ?k))" for l
    using assms(2) by (rule raw_count_eq)
  show ?thesis
  proof (cases "limited (max_query_rows limits) (nat ?k) \<le> max_query_rows limits")
    case True
    then show ?thesis using assms(1) limited_exact [OF assms(3) True] k by (simp add: raw_cost_def Some count span_of_def)
  next
    case False
    then show ?thesis using assms(1) limited_exact [OF assms(4), of "nat ?k"] k
      by (auto simp: raw_cost_def Some count span_of_def split: if_splits)
  qed
qed

lemma watermark_plan_cost:
  assumes p: "watermark_plan limits db cutoff w (m, status) f = Inr p"
  shows "\<exists>n streaming. raw_cost limits db (case raw_start p of None \<Rightarrow> 0 | Some s \<Rightarrow> s) (raw_end p) f = Inr (n, streaming)
    \<and> estimated_rows p = Some n \<and> (streaming \<longrightarrow> stream_raw p)"
proof -
  define rs where "rs = (if m \<noteq> None \<and> (if m = None then effective_start w
        else max (effective_start w) (case m of None \<Rightarrow> effective_start w | Some t \<Rightarrow> min (effective_end w) (max (effective_start w) t))) < cutoff
      then min (effective_end w) cutoff
      else if m = None then effective_start w
        else max (effective_start w) (case m of None \<Rightarrow> effective_start w | Some t \<Rightarrow> min (effective_end w) (max (effective_start w) t)))"
  define re where "re = (if rs < effective_end w then Some (effective_end w) else None)"
  have none: "raw_cost limits db a None f = raw_cost limits db b None f" for a b by (simp add: raw_cost_def)
  note unfolded = p [unfolded watermark_plan_def Let_def prod.case, folded rs_def, folded re_def]
  obtain n st where cost: "raw_cost limits db rs re f = Inr (n, st)"
    using unfolded by (cases "raw_cost limits db rs re f") auto
  have fields: "raw_start p = (if re \<noteq> None then Some rs else None)" "raw_end p = re" "estimated_rows p = Some n" "st \<longrightarrow> stream_raw p"
    using unfolded unfolding cost bindR_simps prod.case bindR_eq_Inr by auto
  then show ?thesis using cost none [of rs 0] by (cases re) auto
qed

text \<open>Planning keeps the row budgets: the estimate of an accepted plan is the exact number of raw rows
  its raw interval selects; rows held in memory never exceed the query limit, streamed rows never the
  scan limit.\<close>

theorem plan_within_budget:
  assumes "cost_aware_plan limits retention db now w f = Inr p" and "filter_clause f = Inr keep"
    and "0 \<le> max_query_rows limits" and "max_query_rows limits \<le> max_stream_scan_rows limits"
  shows "estimated_rows p = Some (raw_rows db (span_of (raw_start p) (raw_end p)) keep)
    \<and> raw_rows db (span_of (raw_start p) (raw_end p)) keep
      \<le> (if stream_raw p then max_stream_scan_rows limits else max_query_rows limits)"
proof -
  obtain m status where ws: "rollup_watermark_of db now = (m, status)" by fastforce
  let ?s = "effective_start w" and ?e = "effective_end w" and ?cutoff = "now - raw_seconds retention"
  let ?k = "raw_rows db {?s..<?e} keep"
  have count: "bounded_point_count db ''raw'' ?s ?e l f = Inr (limited l (nat ?k))" for l using assms(2) by (rule raw_count_eq)
  show ?thesis
  proof (cases "?cutoff \<le> ?s \<and> limited (max_query_rows limits) (nat ?k) \<le> max_query_rows limits")
    case True
    then show ?thesis
      using assms(1) limited_exact [OF assms(3), of "nat ?k"] raw_rows_nonneg [of db "{?s..<?e}" keep]
      by (auto simp: cost_aware_plan_def Let_def count span_of_def QueryPlan_def)
  next
    case False
    then have "watermark_plan limits db ?cutoff w (m, status) f = Inr p"
      using assms(1) by (auto simp: cost_aware_plan_def Let_def count ws split: if_splits)
    from watermark_plan_cost [OF this] obtain n st where
      n: "raw_cost limits db (case raw_start p of None \<Rightarrow> 0 | Some s \<Rightarrow> s) (raw_end p) f = Inr (n, st)"
      "estimated_rows p = Some n" "st \<longrightarrow> stream_raw p" by auto
    have none: "raw_start p = None \<longleftrightarrow> raw_end p = None"
      using \<open>watermark_plan limits db ?cutoff w (m, status) f = Inr p\<close> watermark_plan_fields(2,3) by simp
    have "span_of (Some (case raw_start p of None \<Rightarrow> 0 | Some s \<Rightarrow> s)) (raw_end p) = span_of (raw_start p) (raw_end p)"
      using none by (cases "raw_start p"; cases "raw_end p") (auto simp: span_of_def)
    then show ?thesis using raw_cost_exact [OF n(1) assms(2)] n(2,3) assms(3,4) by auto
  qed
qed

definition sample_db :: metrics_db where
  "sample_db = \<lparr>md_version = 4,
     md_tables = [''schema_migrations'', ''sample_cycles'', ''entities'', ''metric_points'', ''minute_rollups'', ''events'', ''collector_state''],
     md_entities = [(''host'', ''local'')], md_points = sample_points, md_rollups = sample_rows, md_events = [], md_cycles = [], md_samples = [],
     collector_state = [(''minute_rollup_watermark'', ''60'')]\<rparr>"

definition sample_retention :: retention_policy where
  "sample_retention = \<lparr>raw_seconds = 100, rollup_seconds = 1000, event_seconds = 1000\<rparr>"

definition sample_window :: query_window where
  "sample_window = \<lparr>requested_start = 30, requested_end = 130, effective_start = 30, effective_end = 130, truncated = False\<rparr>"

definition sample_selection :: selection where
  "sample_selection = \<lparr>sel_type = Some ''host'', sel_id = None, sel_metrics = []\<rparr>"

lemma sample_plan:
  "\<exists>p. cost_aware_plan QueryLimits sample_retention sample_db 140 sample_window sample_selection = Inr p
     \<and> span_of (raw_start p) (raw_end p) = {60..<130} \<and> span_of (rollup_start p) (rollup_end p) = {30..<60} \<and> \<not> stream_raw p"
proof -
  have "case cost_aware_plan QueryLimits sample_retention sample_db 140 sample_window sample_selection of
      Inl _ \<Rightarrow> False
    | Inr p \<Rightarrow> raw_start p = Some 60 \<and> raw_end p = Some 130 \<and> rollup_start p = Some 30 \<and> rollup_end p = Some 60 \<and> \<not> stream_raw p"
    by code_simp
  then show ?thesis by (auto simp: span_of_def split: sum.splits)
qed


theorem plan_within_budget_witness:
  "\<exists>p keep. cost_aware_plan QueryLimits sample_retention sample_db 140 sample_window sample_selection = Inr p
     \<and> filter_clause sample_selection = Inr keep
     \<and> estimated_rows p = Some (raw_rows sample_db {60..<130} keep) \<and> raw_rows sample_db {60..<130} keep \<le> 100000"
proof -
  obtain p where p: "cost_aware_plan QueryLimits sample_retention sample_db 140 sample_window sample_selection = Inr p"
    "span_of (raw_start p) (raw_end p) = {60..<130}" "\<not> stream_raw p" using sample_plan by auto
  obtain keep where keep: "filter_clause sample_selection = Inr keep"
    by (simp add: filter_clause_def sample_selection_def optional_filter_def validate_filter_def SAFE_FILTER_RE_def is_alnum_def
        is_lower_def)
  from plan_within_budget [OF p(1) keep] show ?thesis using p keep by (simp add: QueryLimits_def)
qed

end
