(* ===== verification/Monitoring_Rollups.thy ===== *)
theory Monitoring_Rollups
  imports Monitoring_Query
begin

text \<open>
  The bounded maintenance of \<open>src/monitoring/schema.py\<close>: the collector state, the minute rollups of
  completed minutes behind their watermark, and retention. \<open>json.loads\<close> is a parameter; an entity is
  identified by its type and id (unique in the table), so that a rollup row has the key
  (series, minute); the time of a point is that of its collection cycle, so that deleting a cycle
  cascades to points the time condition deletes as well.

  The lemmas connect the writer with the readers of \<open>Monitoring_Query\<close> and
  \<open>Monitoring_Summaries\<close>: the watermark the maintenance stores is one the planner accepts, every
  completed minute below it has exactly the row its points determine, and every row it writes has
  the shape the summaries rely on.
\<close>

section \<open>Collector state\<close>

datatype json =
    JNull | JBool bool | JNumber real | JString string | JArray "json list" | JObject "(string \<times> json) list"

type_synonym json_parser = "string \<Rightarrow> json option"

definition get_state :: "metrics_db \<Rightarrow> string \<Rightarrow> string option" where
  "get_state db key = map_of (collector_state db) key"

definition set_state :: "string \<Rightarrow> string \<Rightarrow> metrics_db \<Rightarrow> metrics_db" where
  "set_state key value db = db\<lparr>collector_state := AList.update key value (collector_state db)\<rparr>"

definition get_json_state :: "json_parser \<Rightarrow> metrics_db \<Rightarrow> string \<Rightarrow> json option" where
  "get_json_state loads db key = Option.bind (get_state db key) loads"

text \<open>A bool is an int in Python.\<close>

fun number_of :: "json \<Rightarrow> real option" where
  "number_of (JNumber x) = Some x"
| "number_of (JBool b) = Some (if b then 1 else 0)"
| "number_of _ = None"

definition positive_cadences :: "json option \<Rightarrow> (string, real) dict" where
  "positive_cadences v =
     (case v of
        Some (JObject items) \<Rightarrow>
          List.map_filter (\<lambda>(k, x). case number_of x of None \<Rightarrow> None | Some s \<Rightarrow> if 0 < s then Some (k, s) else None) items
      | _ \<Rightarrow> [])"

definition cadence_registry :: "json_parser \<Rightarrow> metrics_db \<Rightarrow> (string, real) dict" where
  "cadence_registry loads db = positive_cadences (get_json_state loads db ''metric_cadence_seconds'')"


section \<open>Minute rollups\<close>

definition ROLLUP_BATCH_MINUTES :: int where "ROLLUP_BATCH_MINUTES = 240"
definition DEFAULT_SAMPLE_INTERVAL_SECONDS :: real where "DEFAULT_SAMPLE_INTERVAL_SECONDS = 10"

text \<open>\<open>quality_worst\<close> indexes the ranks, so that an unknown quality raises; the column admits none.\<close>

definition quality_worst :: "string list \<Rightarrow> (query_exn, string) result" where
  "quality_worst qs =
     (if list_all (\<lambda>q. map_of QUALITY_RANK q \<noteq> None) qs then Inr (worst_quality qs) else Inl KeyError)"

text \<open>\<open>groups.setdefault(key, []).append(row)\<close>.\<close>

definition add_to_group :: "('a \<Rightarrow> 'k) \<Rightarrow> 'a \<Rightarrow> ('k, 'a list) dict \<Rightarrow> ('k, 'a list) dict" where
  "add_to_group key r groups = AList.update (key r) (dict_get groups (key r) [] @ [r]) groups"

definition group_by :: "('a \<Rightarrow> 'k) \<Rightarrow> 'a list \<Rightarrow> ('k, 'a list) dict" where
  "group_by key rows = fold (add_to_group key) rows []"

type_synonym minute_key = "series_key \<times> int \<times> string"

definition minute_key :: "metric_point \<Rightarrow> minute_key" where
  "minute_key p = (point_key p, pt_ts p div 60 * 60, pt_unit p)"

definition rollup_row ::
  "real \<Rightarrow> (string, real) dict \<Rightarrow> minute_key \<Rightarrow> metric_point list \<Rightarrow> (query_exn, rollup_point) result" where
  "rollup_row interval registry mk points =
     (case mk of ((t, i, n), minute, u) \<Rightarrow>
        let cadence = registered_cadence t n registry interval;
            expected = max 1 \<lceil>60 / cadence\<rceil>;
            nums = List.map_filter pt_numeric points
        in bindR (quality_worst (map pt_quality points)) (\<lambda>q.
             Inr \<lparr>rp_entity_type = t, rp_entity_id = i, rp_metric_name = n, minute_start = minute,
                  samples = int (length points), expected_samples = expected,
                  min_value = least nums,
                  avg_value = (if nums = [] then None else Some (sum_list nums / of_nat (length nums))),
                  max_value = greatest nums,
                  rp_unavailable_count = int (length (filter (\<lambda>p. pt_quality p = ''unavailable'') points)),
                  rp_reset_count = sum_list (map pt_reset points), rp_gap_count = sum_list (map pt_gap points),
                  rp_coverage = min 1 (of_int (int (length points)) / of_int expected), rp_unit = u, rp_quality = q\<rparr>))"

text \<open>\<open>INSERT OR REPLACE\<close> on the key (entity, metric, minute).\<close>

definition put_rollup :: "rollup_point \<Rightarrow> rollup_point list \<Rightarrow> rollup_point list" where
  "put_rollup r rows =
     filter (\<lambda>x. \<not> (rollup_key x = rollup_key r \<and> minute_start x = minute_start r)) rows @ [r]"

fun put_groups ::
  "real \<Rightarrow> (string, real) dict \<Rightarrow> (minute_key \<times> metric_point list) list \<Rightarrow> rollup_point list
     \<Rightarrow> (query_exn, rollup_point list) result" where
  "put_groups interval registry [] rows = Inr rows"
| "put_groups interval registry ((mk, points) # groups) rows =
     bindR (rollup_row interval registry mk points) (\<lambda>r. put_groups interval registry groups (put_rollup r rows))"

definition stored_watermark :: "metrics_db \<Rightarrow> (query_exn, int) result" where
  "stored_watermark db =
     (case get_state db ''minute_rollup_watermark'' of
        None \<Rightarrow> Inr 0
      | Some s \<Rightarrow> if s = [] then Inr 0 else (case text_int s of None \<Rightarrow> Inl ValueError | Some v \<Rightarrow> Inr v))"

definition first_ts :: "metrics_db \<Rightarrow> int option" where
  "first_ts db = (if md_points db = [] then None else Some (Min (set (map pt_ts (md_points db)))))"

definition rollup_completed_minutes ::
  "json_parser \<Rightarrow> int \<Rightarrow> real \<Rightarrow> int \<Rightarrow> (string, real) dict option \<Rightarrow> metrics_db \<Rightarrow> (query_exn, metrics_db) result" where
  "rollup_completed_minutes loads now interval batch_minutes registry db =
     (let complete_before = now div 60 * 60
      in bindR (stored_watermark db) (\<lambda>state.
           case first_ts db of
             None \<Rightarrow> Inr (set_state ''minute_rollup_watermark'' (str_int complete_before) db)
           | Some first \<Rightarrow>
               let start = (if state \<le> 0 then first div 60 * 60 else state);
                   stop = min complete_before (start + batch_minutes * 60)
               in if stop \<le> start then Inr db
                  else let cadences = (case registry of None \<Rightarrow> cadence_registry loads db | Some r \<Rightarrow> r);
                           rows = filter (\<lambda>p. start \<le> pt_ts p \<and> pt_ts p < stop) (md_points db)
                       in bindR (put_groups interval cadences (group_by minute_key rows) (md_rollups db)) (\<lambda>rollups.
                            Inr (set_state ''minute_rollup_watermark'' (str_int stop) (db\<lparr>md_rollups := rollups\<rparr>)))))"

text \<open>Retention, and the two together.\<close>

definition apply_retention :: "int \<Rightarrow> metrics_db \<Rightarrow> metrics_db" where
  "apply_retention now db =
     (let raw_cut = now - raw_seconds RetentionPolicy
      in db\<lparr>md_samples := filter (\<lambda>t. \<not> t < raw_cut) (md_samples db),
            md_cycles := filter (\<lambda>t. \<not> t < raw_cut) (md_cycles db),
            md_points := filter (\<lambda>p. \<not> pt_ts p < raw_cut) (md_points db),
            md_rollups := filter (\<lambda>r. \<not> minute_start r < now - rollup_seconds RetentionPolicy) (md_rollups db),
            md_events := filter (\<lambda>e. \<not> fst e < now - event_seconds RetentionPolicy) (md_events db)\<rparr>)"

definition run_maintenance :: "json_parser \<Rightarrow> int \<Rightarrow> metrics_db \<Rightarrow> (query_exn, metrics_db) result" where
  "run_maintenance loads now db =
     bindR (rollup_completed_minutes loads now DEFAULT_SAMPLE_INTERVAL_SECONDS ROLLUP_BATCH_MINUTES None db)
       (\<lambda>db'. Inr (apply_retention now db'))"

section \<open>Groups\<close>

lemma group_by_snoc: "group_by key (rows @ [r]) = add_to_group key r (group_by key rows)"
  by (simp add: group_by_def)

lemma group_by_lookup:
  "map_of (group_by key rows) k = (if k \<in> key ` set rows then Some (filter (\<lambda>r. key r = k) rows) else None)"
proof (induction rows rule: rev_induct)
  case Nil
  then show ?case by (simp add: group_by_def)
next
  case (snoc r rows)
  have "filter (\<lambda>r. key r = k) rows = []" if "k \<notin> key ` set rows" using that by (auto simp: filter_empty_conv)
  with snoc show ?case
    by (auto simp: group_by_snoc add_to_group_def update_conv' dict_get_def)
qed

lemma group_by_distinct: "distinct (map fst (group_by key rows))"
  by (induction rows rule: rev_induct) (simp_all add: group_by_snoc add_to_group_def distinct_update, simp add: group_by_def)

lemma group_by_elem:
  "(k, g) \<in> set (group_by key rows) \<longleftrightarrow> k \<in> key ` set rows \<and> g = filter (\<lambda>r. key r = k) rows"
  using map_of_eq_Some_iff [OF group_by_distinct, of key rows k g] by (auto simp: group_by_lookup split: if_splits)


section \<open>Rows\<close>

definition known_qualities :: "metric_point list \<Rightarrow> bool" where
  "known_qualities ps \<longleftrightarrow> list_all (\<lambda>p. map_of QUALITY_RANK (pt_quality p) \<noteq> None) ps"

lemma rollup_row_total: "known_qualities ps \<Longrightarrow> \<exists>r. rollup_row interval registry mk ps = Inr r"
  by (auto simp: rollup_row_def quality_worst_def known_qualities_def list_all_iff Let_def split: prod.splits)

lemma rollup_row_fields:
  "rollup_row interval registry (k, m, u) ps = Inr r \<Longrightarrow> rollup_key r = k \<and> minute_start r = m \<and> rp_unit r = u"
  by (cases k) (auto simp: rollup_row_def rollup_key_def Let_def bindR_eq_Inr)

definition sane_row :: "rollup_point \<Rightarrow> bool" where
  "sane_row r \<longleftrightarrow> 0 \<le> samples r \<and> bracketed (min_value r) (avg_value r) (max_value r)"

lemma mean_of_list_bracketed:
  assumes "xs \<noteq> []"
  shows "bracketed (least xs) (Some (sum_list xs / of_nat (length xs))) (greatest xs)"
proof -
  let ?vws = "map (\<lambda>x. (x, 1)) xs"
  have "weight ?vws = of_nat (length xs)" "moment ?vws = sum_list xs"
    by (simp_all add: o_def sum_list_triv)
  moreover have "bracketed (least xs) (Some (moment ?vws / weight ?vws)) (greatest xs)"
    using assms calculation by (intro mean_bracketed) auto
  ultimately show ?thesis by simp
qed

lemma rollup_row_sane: "rollup_row interval registry mk ps = Inr r \<Longrightarrow> sane_row r"
  by (auto simp: rollup_row_def Let_def bindR_eq_Inr sane_row_def mean_of_list_bracketed split: prod.splits)

lemma put_groups_total:
  "\<forall>(mk, ps) \<in> set groups. known_qualities ps \<Longrightarrow> \<exists>rows'. put_groups interval registry groups rows = Inr rows'"
proof (induction groups arbitrary: rows)
  case (Cons g groups)
  obtain mk ps where g: "g = (mk, ps)" by (cases g)
  then have "known_qualities ps" using Cons.prems by simp
  then obtain r where "rollup_row interval registry mk ps = Inr r" using rollup_row_total by blast
  with Cons g show ?case by auto
qed simp

lemma put_groups_sane:
  "put_groups interval registry groups rows = Inr rows' \<Longrightarrow> list_all sane_row rows \<Longrightarrow> list_all sane_row rows'"
proof (induction groups arbitrary: rows)
  case (Cons g groups)
  obtain mk ps where g: "g = (mk, ps)" by (cases g)
  with Cons.prems obtain r where r: "rollup_row interval registry mk ps = Inr r"
    "put_groups interval registry groups (put_rollup r rows) = Inr rows'" by (auto simp: bindR_eq_Inr)
  have "list_all sane_row (put_rollup r rows)"
    using Cons.prems(2) rollup_row_sane [OF r(1)] by (auto simp: put_rollup_def list_all_iff)
  then show ?case using Cons.IH r(2) by blast
qed simp

text \<open>With one group per key, the rows of the groups replace the old rows of their keys and nothing else changes.\<close>

abbreviation row_key :: "minute_key \<Rightarrow> series_key \<times> int" where
  "row_key mk \<equiv> (fst mk, fst (snd mk))"

lemma put_groups_rows:
  assumes "put_groups interval registry groups rows = Inr rows'" and "distinct (map (row_key \<circ> fst) groups)"
  shows "r \<in> set rows' \<longleftrightarrow>
    (\<exists>(mk, ps) \<in> set groups. rollup_row interval registry mk ps = Inr r)
    \<or> r \<in> set rows \<and> (rollup_key r, minute_start r) \<notin> (row_key \<circ> fst) ` set groups"
  using assms
proof (induction groups arbitrary: rows)
  case (Cons g groups)
  obtain k m u ps where g: "g = ((k, m, u), ps)" by (metis prod.collapse)
  with Cons.prems(1) obtain x where x: "rollup_row interval registry (k, m, u) ps = Inr x"
    "put_groups interval registry groups (put_rollup x rows) = Inr rows'" by (auto simp: bindR_eq_Inr)
  have kx: "rollup_key x = k" "minute_start x = m" using rollup_row_fields [OF x(1)] by auto
  have new: "(k, m) \<notin> (row_key \<circ> fst) ` set groups" using Cons.prems(2) g by auto
  have "r \<in> set rows' \<longleftrightarrow> (\<exists>(mk, ps) \<in> set groups. rollup_row interval registry mk ps = Inr r)
    \<or> r \<in> set (put_rollup x rows) \<and> (rollup_key r, minute_start r) \<notin> (row_key \<circ> fst) ` set groups"
    using Cons.IH [OF x(2)] Cons.prems(2) by simp
  then show ?case using x(1) kx new unfolding g put_rollup_def by (auto 0 3)
qed simp


section \<open>The watermark\<close>

lemma length_str_nat_digits: "n < 10 ^ k \<Longrightarrow> 0 < k \<Longrightarrow> length (str_nat n) \<le> k"
proof (induction k arbitrary: n)
  case (Suc k)
  show ?case
  proof (cases "n < 10")
    case True
    then show ?thesis by (simp add: str_nat.simps)
  next
    case False
    then have "k \<noteq> 0" "n div 10 < 10 ^ k" using Suc.prems by (auto intro: ccontr)
    then have "length (str_nat (n div 10)) \<le> k" using Suc.IH by simp
    then show ?thesis using False by (subst str_nat.simps) simp
  qed
qed simp

lemma split_on_none: "c \<notin> set s \<Longrightarrow> split_on c s = [s]"
  by (induction s) auto

lemma text_int_str_nat:
  assumes "length (str_nat n) \<le> 4300"
  shows "text_int (str_nat n) = Some (int n)"
proof -
  let ?s = "str_nat n"
  have digits: "\<forall>c \<in> set ?s. is_digit c" using str_nat_digits by blast
  then have nsp: "\<forall>c \<in> set ?s. \<not> is_space c" and sign: "\<forall>c \<in> set ?s. c \<notin> {CHR ''+'', CHR ''-'', CHR ''_''}"
    using digit_not_space by (auto simp: is_digit_def)
  have ne: "?s \<noteq> []" by (rule str_nat_nonempty)
  have strip: "strip ?s = ?s"
    using nsp ne by (simp add: strip_def strip_left_id hd_rev)
  have "filter is_digit ?s = ?s" using digits by (simp add: filter_id_conv)
  moreover have "hd ?s \<in> set ?s" using ne by simp
  moreover have "split_on CHR ''_'' ?s = [?s]" using sign by (intro split_on_none) auto
  ultimately show ?thesis
    using sign assms by (auto simp: text_int_def Let_def strip all_digits_str_nat nat_of_text_str_nat)
qed

lemma text_int_str_int:
  assumes "0 \<le> n" and "n < 10 ^ 15"
  shows "text_int (str_int n) = Some n"
proof -
  have "nat n < 10 ^ 15" using assms by simp
  then have "length (str_nat (nat n)) \<le> 4300" using length_str_nat_digits [of "nat n" 15] by simp
  then show ?thesis using text_int_str_nat [of "nat n"] assms(1) by (simp add: str_int_nonneg)
qed

lemma stored_watermark_set:
  assumes "0 \<le> v" and "v < 10 ^ 15"
  shows "stored_watermark (set_state ''minute_rollup_watermark'' (str_int v) db) = Inr v"
  using text_int_str_int [OF assms] assms(1)
  by (simp add: stored_watermark_def get_state_def set_state_def update_conv' str_int_nonneg str_nat_nonempty)

lemma watermark_accepted:
  assumes "0 \<le> v" and "v < 10 ^ 15" and "v mod 60 = 0" and "v \<le> now div 60 * 60"
  shows "rollup_watermark_of (set_state ''minute_rollup_watermark'' (str_int v) db) now = (Some v, ''valid'')"
  using text_int_str_int [OF assms(1,2)] assms
  by (simp add: rollup_watermark_of_def set_state_def update_conv')


section \<open>What a maintenance run does\<close>

text \<open>The points of one series in one minute.\<close>

definition minute_points :: "metrics_db \<Rightarrow> series_key \<Rightarrow> int \<Rightarrow> metric_point list" where
  "minute_points db k m = filter (\<lambda>p. point_key p = k \<and> pt_ts p div 60 * 60 = m) (md_points db)"

text \<open>A series does not change its unit within a minute.\<close>

definition one_unit :: "metric_point list \<Rightarrow> bool" where
  "one_unit ps \<longleftrightarrow> (\<forall>p \<in> set ps. \<forall>q \<in> set ps.
     point_key p = point_key q \<and> pt_ts p div 60 = pt_ts q div 60 \<longrightarrow> pt_unit p = pt_unit q)"

definition rollup_from :: "metrics_db \<Rightarrow> int \<Rightarrow> int" where
  "rollup_from db state = (if state \<le> 0 then (case first_ts db of None \<Rightarrow> 0 | Some t \<Rightarrow> t div 60 * 60) else state)"

lemma minute_in_range:
  fixes t s e :: int
  assumes "s mod 60 = 0" and "e mod 60 = 0"
  shows "s \<le> t \<and> t < e \<longleftrightarrow> s \<le> t div 60 * 60 \<and> t div 60 * 60 < e"
proof -
  define q where "q = t div 60"
  obtain a b where "s = 60 * a" "e = 60 * b" using assms by (auto simp: mod_eq_0_iff_dvd elim!: dvdE)
  moreover have "60 * q \<le> t" "t < 60 * q + 60" unfolding q_def by linarith+
  then have "60 * c \<le> t \<longleftrightarrow> c \<le> q" for c by (cases "c \<le> q") auto
  ultimately show ?thesis unfolding q_def [symmetric] by (simp add: not_le [symmetric])
qed

lemma group_rows:
  fixes db :: metrics_db
  assumes unit: "one_unit (md_points db)" and "s mod 60 = 0" and "e mod 60 = 0"
  defines "rows \<equiv> filter (\<lambda>p. s \<le> pt_ts p \<and> pt_ts p < e) (md_points db)"
  shows "((k, m, u), ps) \<in> set (group_by minute_key rows) \<longleftrightarrow>
    s \<le> m \<and> m < e \<and> minute_points db k m \<noteq> [] \<and> u = pt_unit (hd (minute_points db k m)) \<and> ps = minute_points db k m"
proof -
  have same: "filter (\<lambda>p. minute_key p = (k, m, u)) rows = (if s \<le> m \<and> m < e
      then filter (\<lambda>p. pt_unit p = u) (minute_points db k m) else [])"
    using minute_in_range [OF assms(2,3)]
    by (auto simp: rows_def minute_points_def minute_key_def filter_empty_conv intro!: filter_cong)
  have units: "pt_unit p = pt_unit (hd (minute_points db k m))" if p: "p \<in> set (minute_points db k m)" for p
  proof -
    have "hd (minute_points db k m) \<in> set (minute_points db k m)" using p by (intro hd_in_set) auto
    then show ?thesis using unit p unfolding one_unit_def minute_points_def by simp
  qed
  have "(k, m, u) \<in> minute_key ` set rows \<longleftrightarrow> filter (\<lambda>p. minute_key p = (k, m, u)) rows \<noteq> []"
    by (force simp: filter_empty_conv)
  moreover have "filter (\<lambda>p. pt_unit p = u) (minute_points db k m)
      = (if u = pt_unit (hd (minute_points db k m)) then minute_points db k m else [])"
    using units by (auto simp: filter_id_conv filter_empty_conv)
  ultimately show ?thesis unfolding group_by_elem same by auto
qed

lemma group_rows_distinct:
  fixes db :: metrics_db
  assumes unit: "one_unit (md_points db)" and "s mod 60 = 0" and "e mod 60 = 0"
  shows "distinct (map (row_key \<circ> fst) (group_by minute_key (filter (\<lambda>p. s \<le> pt_ts p \<and> pt_ts p < e) (md_points db))))"
proof -
  let ?g = "group_by minute_key (filter (\<lambda>p. s \<le> pt_ts p \<and> pt_ts p < e) (md_points db))"
  have "inj_on row_key (fst ` set ?g)"
    using group_rows [OF assms] by (auto simp: inj_on_def)
  then show ?thesis using group_by_distinct [of minute_key] distinct_map
    by (metis (no_types, lifting) list.map_comp list.set_map)
qed

lemma rollup_run:
  fixes now batch :: int
  assumes "stored_watermark db = Inr state" and "md_points db \<noteq> []"
  defines "start \<equiv> rollup_from db state"
  defines "stop \<equiv> min (now div 60 * 60) (start + batch * 60)"
  shows "rollup_completed_minutes loads now interval batch registry db =
    (if stop \<le> start then Inr db
     else bindR (put_groups interval (case registry of None \<Rightarrow> cadence_registry loads db | Some r \<Rightarrow> r)
           (group_by minute_key (filter (\<lambda>p. start \<le> pt_ts p \<and> pt_ts p < stop) (md_points db))) (md_rollups db))
         (\<lambda>rows. Inr (set_state ''minute_rollup_watermark'' (str_int stop) (db\<lparr>md_rollups := rows\<rparr>))))"
proof -
  obtain t where t: "first_ts db = Some t" using assms(2) by (simp add: first_ts_def)
  show ?thesis
    unfolding rollup_completed_minutes_def assms(1) bindR_simps t option.case Let_def stop_def start_def
    by (simp add: rollup_from_def t)
qed

lemma rollup_from_aligned: "state mod 60 = 0 \<Longrightarrow> rollup_from db state mod 60 = 0"
  by (simp add: rollup_from_def split: option.splits)

lemma stop_aligned: "s mod 60 = 0 \<Longrightarrow> min (n div 60 * 60) (s + b * 60) mod 60 = (0::int)"
  by (simp add: min_def)

text \<open>C27: a maintenance run rolls up whole minutes exactly: after it, the rows of the minutes it went over
  are those of the minutes that have points, each computed from all the points of its series in that
  minute; every other row is untouched, and no raw point is changed.\<close>

theorem rollup_rows_exact:
  fixes db :: metrics_db
  assumes run: "rollup_completed_minutes loads now interval batch registry db = Inr db'"
    and state: "stored_watermark db = Inr state" "state mod 60 = 0" and points: "md_points db \<noteq> []" "one_unit (md_points db)"
  defines "start \<equiv> rollup_from db state"
  defines "stop \<equiv> min (now div 60 * 60) (start + batch * 60)"
  defines "cadences \<equiv> (case registry of None \<Rightarrow> cadence_registry loads db | Some r \<Rightarrow> r)"
  shows "md_points db' = md_points db \<and>
    (r \<in> set (md_rollups db') \<longleftrightarrow>
      (let ps = minute_points db (rollup_key r) (minute_start r)
       in if start \<le> minute_start r \<and> minute_start r < stop \<and> ps \<noteq> []
          then rollup_row interval cadences (rollup_key r, minute_start r, pt_unit (hd ps)) ps = Inr r
          else r \<in> set (md_rollups db)))"
proof (cases "stop \<le> start")
  case True
  then have "db' = db" using run rollup_run [OF state(1) points(1)] by (simp add: start_def stop_def)
  then show ?thesis using True by (auto simp: Let_def)
next
  case False
  let ?g = "group_by minute_key (filter (\<lambda>p. start \<le> pt_ts p \<and> pt_ts p < stop) (md_points db))"
  have al: "start mod 60 = 0" "stop mod 60 = 0"
    using rollup_from_aligned [OF state(2), of db] stop_aligned by (auto simp: start_def stop_def)
  obtain rows where rows: "put_groups interval cadences ?g (md_rollups db) = Inr rows"
      and db': "db' = set_state ''minute_rollup_watermark'' (str_int stop) (db\<lparr>md_rollups := rows\<rparr>)"
    using run False unfolding rollup_run [OF state(1) points(1)] start_def [symmetric] stop_def [symmetric] cadences_def [symmetric]
    by (auto simp: bindR_eq_Inr)
  let ?ps = "minute_points db (rollup_key r) (minute_start r)"
  have in_group: "(\<exists>(mk, ps) \<in> set ?g. rollup_row interval cadences mk ps = Inr r) \<longleftrightarrow>
      start \<le> minute_start r \<and> minute_start r < stop \<and> ?ps \<noteq> []
      \<and> rollup_row interval cadences (rollup_key r, minute_start r, pt_unit (hd ?ps)) ?ps = Inr r"
  proof -
    have "(\<exists>(mk, ps) \<in> set ?g. rollup_row interval cadences mk ps = Inr r) \<longleftrightarrow>
        (\<exists>k m u ps. ((k, m, u), ps) \<in> set ?g \<and> rollup_row interval cadences (k, m, u) ps = Inr r)"
      by (simp add: Bex_def split_paired_Ex)
    also have "\<dots> \<longleftrightarrow> (\<exists>u ps. ((rollup_key r, minute_start r, u), ps) \<in> set ?g
        \<and> rollup_row interval cadences (rollup_key r, minute_start r, u) ps = Inr r)"
    proof (intro iffI; elim exE conjE)
      fix k m u ps assume g: "((k, m, u), ps) \<in> set ?g" and row: "rollup_row interval cadences (k, m, u) ps = Inr r"
      have "k = rollup_key r" "m = minute_start r" using rollup_row_fields [OF row] by auto
      with g row show "\<exists>u ps. ((rollup_key r, minute_start r, u), ps) \<in> set ?g
        \<and> rollup_row interval cadences (rollup_key r, minute_start r, u) ps = Inr r" by blast
    qed blast
    finally show ?thesis unfolding group_rows [OF points(2) al] by simp
  qed
  have in_keys: "(rollup_key r, minute_start r) \<in> (row_key \<circ> fst) ` set ?g \<longleftrightarrow>
      start \<le> minute_start r \<and> minute_start r < stop \<and> ?ps \<noteq> []"
  proof -
    have "(rollup_key r, minute_start r) \<in> (row_key \<circ> fst) ` set ?g
        \<longleftrightarrow> (\<exists>u ps. ((rollup_key r, minute_start r, u), ps) \<in> set ?g)" by force
    then show ?thesis unfolding group_rows [OF points(2) al] by simp
  qed
  show ?thesis
    using put_groups_rows [OF rows group_rows_distinct [OF points(2) al], of r] unfolding in_group in_keys
    by (auto simp: db' set_state_def Let_def)
qed

fun rollup_runs ::
  "json_parser \<Rightarrow> int \<Rightarrow> real \<Rightarrow> int \<Rightarrow> (string, real) dict option \<Rightarrow> nat \<Rightarrow> metrics_db \<Rightarrow> (query_exn, metrics_db) result" where
  "rollup_runs loads now interval batch registry 0 db = Inr db"
| "rollup_runs loads now interval batch registry (Suc n) db =
     bindR (rollup_completed_minutes loads now interval batch registry db) (rollup_runs loads now interval batch registry n)"

lemma stored_watermark_accepted:
  assumes "stored_watermark db = Inr s" and "0 < s" and "s mod 60 = 0" and "s \<le> now div 60 * 60"
  shows "rollup_watermark_of db now = (Some s, ''valid'')"
  using assms
  by (auto simp: stored_watermark_def rollup_watermark_of_def get_state_def split: option.splits if_splits)

lemma points_set_state: "md_points (set_state k v db) = md_points db"
  by (simp add: set_state_def)

lemma rollup_step:
  fixes db :: metrics_db and now batch :: int
  assumes "known_qualities (md_points db)" and "md_points db \<noteq> []" and "stored_watermark db = Inr s"
    and "0 < s" and "s \<le> now div 60 * 60" and "0 < batch" and "now < 10 ^ 15"
  shows "\<exists>db'. rollup_completed_minutes loads now interval batch registry db = Inr db' \<and> md_points db' = md_points db
    \<and> stored_watermark db' = Inr (min (now div 60 * 60) (s + batch * 60))"
proof -
  define stop where "stop = min (now div 60 * 60) (s + batch * 60)"
  have begins: "rollup_from db s = s" using assms(4) by (simp add: rollup_from_def)
  show ?thesis
  proof (cases "stop \<le> s")
    case True
    then have "stop = s" using assms(5,6) by (simp add: stop_def min_def split: if_splits)
    then show ?thesis using True assms(3) rollup_run [OF assms(3,2)] by (simp add: begins stop_def [symmetric])
  next
    case False
    let ?g = "group_by minute_key (filter (\<lambda>p. s \<le> pt_ts p \<and> pt_ts p < stop) (md_points db))"
    have "\<forall>(mk, ps) \<in> set ?g. known_qualities ps"
      using assms(1) by (auto simp: group_by_elem known_qualities_def list_all_iff)
    then obtain rows where "put_groups interval (case registry of None \<Rightarrow> cadence_registry loads db | Some r \<Rightarrow> r) ?g (md_rollups db) = Inr rows"
      using put_groups_total by blast
    then have "rollup_completed_minutes loads now interval batch registry db
        = Inr (set_state ''minute_rollup_watermark'' (str_int stop) (db\<lparr>md_rollups := rows\<rparr>))"
      using False rollup_run [OF assms(3,2)] by (simp add: begins stop_def [symmetric])
    moreover have "0 \<le> stop" "stop < 10 ^ 15" using False assms(4,7) by (auto simp: stop_def min_def split: if_splits)
    ultimately show ?thesis
      using stored_watermark_set [of stop "db\<lparr>md_rollups := rows\<rparr>"] unfolding stop_def [symmetric] by (simp add: points_set_state)
  qed
qed

text \<open>C28: rolling up makes progress and ends: from a valid watermark, \<open>n\<close> runs never fail and move the
  watermark by \<open>n\<close> batches, up to the last completed minute, where it stays; what they leave is a
  watermark the query planner accepts.\<close>

theorem rollups_catch_up:
  fixes db :: metrics_db and now batch :: int
  assumes "known_qualities (md_points db)" and "md_points db \<noteq> []" and "stored_watermark db = Inr s"
    and "0 < s" and "s mod 60 = 0" and "s \<le> now div 60 * 60" and "0 < batch" and "now < 10 ^ 15"
  shows "\<exists>db'. rollup_runs loads now interval batch registry n db = Inr db'
    \<and> rollup_watermark_of db' now = (Some (min (now div 60 * 60) (s + int n * (batch * 60))), ''valid'')"
  using assms(1-6)
proof (induction n arbitrary: db s)
  case 0
  then show ?case using stored_watermark_accepted [of db s now] by simp
next
  case (Suc n)
  let ?cb = "now div 60 * 60"
  define s' where "s' = min ?cb (s + batch * 60)"
  obtain db1 where db1: "rollup_completed_minutes loads now interval batch registry db = Inr db1"
      "md_points db1 = md_points db" "stored_watermark db1 = Inr s'"
    using rollup_step [OF Suc.prems(1-4,6) assms(7,8)] s'_def by blast
  have s': "0 < s'" "s' mod 60 = 0" "s' \<le> ?cb"
    using Suc.prems(4-6) assms(7) stop_aligned [of s now batch] by (auto simp: s'_def)
  have eq: "min ?cb (s' + int n * (batch * 60)) = min ?cb (s + int (Suc n) * (batch * 60))"
  proof -
    define d where "d = int n * (batch * 60)"
    have "0 \<le> d" using assms(7) by (simp add: d_def)
    moreover have "int (Suc n) * (batch * 60) = batch * 60 + d" by (simp add: d_def distrib_right)
    ultimately show ?thesis unfolding s'_def d_def [symmetric] by (simp add: min_def)
  qed
  show ?case
    using Suc.IH [OF _ _ db1(3) s'] Suc.prems(1,2) unfolding db1(2) eq by (simp add: db1(1))
qed

lemma rollup_keeps_sane:
  assumes "rollup_completed_minutes loads now interval batch registry db = Inr db'" and "list_all sane_row (md_rollups db)"
  shows "list_all sane_row (md_rollups db')"
proof (cases "md_points db = []")
  case True
  then show ?thesis using assms by (auto simp: rollup_completed_minutes_def first_ts_def Let_def bindR_eq_Inr set_state_def)
next
  case False
  obtain state where "stored_watermark db = Inr state"
    using assms(1) by (auto simp: rollup_completed_minutes_def bindR_eq_Inr Let_def)
  then show ?thesis
    using assms put_groups_sane unfolding rollup_run [OF \<open>stored_watermark db = Inr state\<close> False]
    by (auto simp: bindR_eq_Inr set_state_def split: if_splits)
qed

text \<open>C29: maintenance keeps every stored rollup row well formed (its average between its extremes), so that
  whatever rows a query later selects from the table it left, their summary succeeds with an average
  between the reported extremes and a coverage between 0 and 1; and it leaves no raw point, rollup or
  event older than its retention.\<close>

theorem maintained_rollups_summarise:
  assumes "run_maintenance loads now db = Inr db'" and "list_all sane_row (md_rollups db)"
  shows "list_all sane_row (md_rollups db')
    \<and> (\<forall>p \<in> set (md_points db'). now - 21600 \<le> pt_ts p) \<and> (\<forall>r \<in> set (md_rollups db'). now - 86400 \<le> minute_start r)
    \<and> (\<forall>rows. rows \<noteq> [] \<and> set rows \<subseteq> set (md_rollups db')
         \<longrightarrow> (\<exists>s. rollup_summary key rows start stop cadence = Inr s \<and> sane s))"
proof -
  obtain db1 where db1: "rollup_completed_minutes loads now DEFAULT_SAMPLE_INTERVAL_SECONDS ROLLUP_BATCH_MINUTES None db = Inr db1"
    and db': "db' = apply_retention now db1" using assms(1) by (auto simp: run_maintenance_def bindR_eq_Inr)
  have rows: "list_all sane_row (md_rollups db')"
    using rollup_keeps_sane [OF db1 assms(2)] by (auto simp: db' apply_retention_def Let_def list_all_iff)
  have "\<exists>s. rollup_summary key rs start stop cadence = Inr s \<and> sane s" if "rs \<noteq> [] \<and> set rs \<subseteq> set (md_rollups db')" for rs
    using that rows by (intro rollup_summary_sane) (auto simp: list_all_iff sane_row_def)
  then show ?thesis using rows by (auto simp: db' apply_retention_def Let_def RetentionPolicy_def)
qed


section \<open>A maintenance run on a sample database\<close>

lemma sample_watermark: "stored_watermark sample_db = Inr 60"
  by code_simp

lemma sample_points_good: "known_qualities sample_points" "one_unit sample_points" "sample_points \<noteq> []"
  by (auto simp: known_qualities_def one_unit_def sample_points_def QUALITY_RANK_def)

lemma sample_db_points: "md_points sample_db = sample_points" "md_rollups sample_db = sample_rows"
  by (simp_all add: sample_db_def)

lemma rollup_row_samples: "rollup_row interval registry mk ps = Inr r \<Longrightarrow> samples r = int (length ps)"
  by (auto simp: rollup_row_def Let_def bindR_eq_Inr split: prod.splits)

theorem rollup_rows_exact_witness:
  "\<exists>db'. rollup_completed_minutes (\<lambda>_. None) 200 10 1 None sample_db = Inr db'
     \<and> md_points db' = sample_points \<and> hd sample_rows \<notin> set (md_rollups db')"
proof -
  obtain db' where db': "rollup_completed_minutes (\<lambda>_. None) 200 10 1 None sample_db = Inr db'"
    using rollup_step [of sample_db 60 200 1 "\<lambda>_. None" 10 None] sample_points_good sample_watermark by (auto simp: sample_db_points)
  have ps: "length (minute_points sample_db (rollup_key (hd sample_rows)) (minute_start (hd sample_rows))) = 3"
    by code_simp
  have row: "samples (hd sample_rows) = 5" "minute_start (hd sample_rows) = 60" by (simp_all add: sample_rows_def)
  have "\<not> rollup_row i c mk (minute_points sample_db (rollup_key (hd sample_rows)) (minute_start (hd sample_rows))) = Inr (hd sample_rows)" for i c mk
    using rollup_row_samples [of i c mk _ "hd sample_rows"] ps row by auto
  then show ?thesis
    using rollup_rows_exact [OF db' sample_watermark, of "hd sample_rows"] sample_points_good ps row db'
    by (auto simp: sample_db_points rollup_from_def Let_def)
qed

theorem rollups_catch_up_witness:
  "\<exists>db'. rollup_runs (\<lambda>_. None) 200 10 1 None 5 sample_db = Inr db' \<and> rollup_watermark_of db' 200 = (Some 180, ''valid'')"
  using rollups_catch_up [of sample_db 60 200 1 "\<lambda>_. None" 10 None 5] sample_points_good sample_watermark
  by (simp add: sample_db_points)

theorem maintained_rollups_summarise_witness:
  "\<exists>db'. run_maintenance (\<lambda>_. None) 200 sample_db = Inr db' \<and> list_all sane_row (md_rollups db')"
proof -
  have sane: "list_all sane_row (md_rollups sample_db)"
    by (simp add: sample_db_points sample_rows_def sane_row_def bracketed_Some)
  obtain db' where db': "run_maintenance (\<lambda>_. None) 200 sample_db = Inr db'"
    using rollup_step [of sample_db 60 200 ROLLUP_BATCH_MINUTES "\<lambda>_. None" DEFAULT_SAMPLE_INTERVAL_SECONDS None] sample_points_good sample_watermark
    by (auto simp: sample_db_points run_maintenance_def ROLLUP_BATCH_MINUTES_def)
  then show ?thesis using maintained_rollups_summarise [OF db' sane] by blast
qed

end
