(* ===== verification/Monitoring_Engine.thy ===== *)
theory Monitoring_Engine
  imports Monitoring_Rollups "HOL-Library.List_Lexorder" "HOL-Library.Char_ord" "HOL-Library.Product_Lexorder"
begin

text \<open>
  The reads of \<open>src/monitoring/query_db.py\<close> and \<open>QueryEngine.summary\<close> of \<open>query_engine.py\<close>: the points and
  rollups of a plan, streamed or held, grouped into series and summarised under the row and series
  limits. Strings are compared by code point, by SQLite and by Python alike; rows that tie in every
  sort column keep their table order.

  The lemmas: streaming through the sorted rows of many series gives each numeric series the summary
  that grouping them in memory does, and an accepted query respects every limit and lists its
  series once each, in order.
\<close>

section \<open>The read-only connection\<close>

definition SCHEMA_VERSION :: int where "SCHEMA_VERSION = 4"

definition REQUIRED_TABLES :: "string list" where
  "REQUIRED_TABLES = [''schema_migrations'', ''sample_cycles'', ''entities'', ''metric_points'', ''minute_rollups'',
     ''events'', ''collector_state'']"

fun join :: "string \<Rightarrow> string list \<Rightarrow> string" where
  "join sep [] = []"
| "join sep [x] = x"
| "join sep (x # y # rest) = x @ sep @ join sep (y # rest)"

definition validate_schema :: "metrics_db \<Rightarrow> (query_exn, unit) result" where
  "validate_schema db =
     (if ''schema_migrations'' \<notin> set (md_tables db)
      then Inl (QueryDatabaseError ''monitoring database has no supported schema'')
      else if md_version db \<noteq> SCHEMA_VERSION
      then Inl (QueryDatabaseError (''unsupported monitoring schema version '' @ str_int (md_version db) @
             ''; expected '' @ str_int SCHEMA_VERSION))
      else let missing = filter (\<lambda>t. t \<notin> set (md_tables db)) REQUIRED_TABLES
           in if missing \<noteq> [] then Inl (QueryDatabaseError (''monitoring database is missing required tables: '' @ join '', '' (sort missing)))
              else Inr ())"


section \<open>Reading points\<close>

text \<open>\<open>ORDER BY p.ts DESC LIMIT 1\<close> of the points of one series.\<close>

definition newest :: "metric_point list \<Rightarrow> metric_point option" where
  "newest ps = (if ps = [] then None else Some (hd (sort_key (\<lambda>p. - pt_ts p) ps)))"

text \<open>The points of an interval, and of each series the newest one within \<open>seed_seconds\<close> before it.\<close>

definition selected_points :: "metrics_db \<Rightarrow> int \<Rightarrow> int \<Rightarrow> int \<Rightarrow> (series_key \<Rightarrow> bool) \<Rightarrow> metric_point list" where
  "selected_points db s e seed_seconds keep =
     (let in_window = filter (\<lambda>p. s \<le> pt_ts p \<and> pt_ts p < e \<and> keep (point_key p)) (md_points db);
          before = filter (\<lambda>p. s - seed_seconds \<le> pt_ts p \<and> pt_ts p < s \<and> keep (point_key p)) (md_points db);
          seeds = List.map_filter (newest \<circ> snd) (group_by point_key before)
      in sort_key (\<lambda>p. (point_key p, pt_ts p)) (in_window @ seeds))"

definition raw_points ::
  "metrics_db \<Rightarrow> int \<Rightarrow> int \<Rightarrow> int \<Rightarrow> int \<Rightarrow> int \<Rightarrow> selection \<Rightarrow> (query_exn, metric_point list) result" where
  "raw_points db s e seed_seconds max_rows max_seed_rows f =
     bindR (filter_clause f) (\<lambda>keep.
       let rows = selected_points db s e seed_seconds keep
       in if max_rows + max_seed_rows < limited (max_rows + max_seed_rows) (length rows)
          then Inl (QueryLimitError ''raw query exceeds the safe row limit'') else Inr rows)"

definition iter_raw_points :: "metrics_db \<Rightarrow> int \<Rightarrow> int \<Rightarrow> int \<Rightarrow> selection \<Rightarrow> (query_exn, metric_point list) result" where
  "iter_raw_points db s e seed_seconds f =
     bindR (filter_clause f) (\<lambda>keep. Inr (selected_points db s e seed_seconds keep))"

definition rollup_points :: "metrics_db \<Rightarrow> int \<Rightarrow> int \<Rightarrow> int \<Rightarrow> selection \<Rightarrow> (query_exn, rollup_point list) result" where
  "rollup_points db s e max_rows f =
     bindR (filter_clause f) (\<lambda>keep.
       let rows = sort_key (\<lambda>r. (rollup_key r, minute_start r))
             (filter (\<lambda>r. s \<le> minute_start r \<and> minute_start r < e \<and> keep (rollup_key r)) (md_rollups db))
       in if max_rows < limited max_rows (length rows)
          then Inl (QueryLimitError ''rollup query exceeds the safe row limit'') else Inr rows)"

definition SNAPSHOT_METRICS_BY_ENTITY :: "(string, string list) dict" where
  "SNAPSHOT_METRICS_BY_ENTITY =
     [(''host'', [''cpu_utilization_percent'', ''memory_used_percent'', ''memory_used_bytes'',
         ''memory_available_bytes'', ''swap_used_bytes'', ''load1'', ''load5'', ''load15'',
         ''conntrack_utilization_percent'', ''file_handles_utilization_percent'',
         ''tcp_state_estab'', ''tcp_state_syn_sent'', ''tcp_state_syn_recv'',
         ''tcp_state_close_wait'', ''tcp_state_time_wait'',
         ''tcp_retransmitted_segments_per_second'', ''tcp_listen_drops'', ''tcp_listen_overflows'']),
      (''filesystem'', [''filesystem_used_percent'']),
      (''interface'', [''rx_bytes_per_second'', ''tx_bytes_per_second'', ''rx_packets_per_second'',
         ''tx_packets_per_second'', ''rx_errors'', ''tx_errors'', ''rx_drops'', ''tx_drops'']),
      (''service'', [''service_active'', ''service_active_state'', ''process_cpu_percent'',
         ''process_rss_bytes'', ''process_count'', ''process_open_fds'',
         ''listener_owned_count'', ''established_sockets_total'', ''service_restart_count'']),
      (''tunnel'', [''service_active'', ''configured_listener_count'', ''observed_listener_count'',
         ''listener_ownership_exact'', ''remote_endpoint'', ''established_remote_sockets'',
         ''process_cpu_percent'', ''process_rss_bytes'', ''process_open_fds'', ''service_restart_count'']),
      (''collector'', [''cycle_status'', ''duration_seconds'', ''missed_deadlines'', ''source_errors_total'',
         ''database_size_bytes'', ''database_wal_size_bytes'', ''checkpoint_success'',
         ''checkpoint_duration_seconds'', ''last_successful_cycle_timestamp''])]"

definition wanted_specs :: "selection \<Rightarrow> (query_exn, (string \<times> string) list) result" where
  "wanted_specs f =
     (let kinds = (case sel_type f of None \<Rightarrow> map fst SNAPSHOT_METRICS_BY_ENTITY | Some t \<Rightarrow> [t])
      in if sel_metrics f \<noteq> []
         then if 100 < length (sel_metrics f) then Inl (QueryLimitError ''metric filter exceeds the safe limit of 100 names'')
              else bindR (mapR (\<lambda>n. validate_filter n ''metric'') (sel_metrics f)) (\<lambda>names.
                Inr (concat (map (\<lambda>k. map (Pair k) names) kinds)))
         else Inr (concat (map (\<lambda>k. map (Pair k) (dict_get SNAPSHOT_METRICS_BY_ENTITY k [])) kinds)))"

text \<open>\<open>latest_points\<close>, over all entities (\<open>current_only\<close> false).\<close>

definition latest_points :: "metrics_db \<Rightarrow> int \<Rightarrow> selection \<Rightarrow> int \<Rightarrow> (query_exn, metric_point list) result" where
  "latest_points db max_rows f max_ents =
     bindR (optional_filter (sel_type f) ''entity type'') (\<lambda>_.
     bindR (optional_filter (sel_id f) ''entity id'') (\<lambda>_.
       let active = filter (\<lambda>(t, i). (case sel_type f of None \<Rightarrow> t \<in> fst ` set SNAPSHOT_METRICS_BY_ENTITY | Some x \<Rightarrow> t = x)
             \<and> (case sel_id f of None \<Rightarrow> True | Some x \<Rightarrow> i = x)) (md_entities db)
       in if max_ents < limited max_ents (length active)
          then Inl (QueryLimitError ''snapshot entity count exceeds the safe limit'')
          else bindR (wanted_specs f) (\<lambda>specs.
            let rows = sort_key point_key (concat (map (\<lambda>(t, i). List.map_filter (\<lambda>(kind, name).
                  if kind = t then newest (filter (\<lambda>p. point_key p = (t, i, name)) (md_points db)) else None) specs) active))
            in if max_rows < limited max_rows (length rows)
               then Inl (QueryLimitError ''snapshot exceeds the safe series limit'') else Inr rows)))"


section \<open>Streaming many series\<close>

definition finish_group ::
  "int \<Rightarrow> (series_key \<times> stream) option \<Rightarrow> (series_key, series_summary) dict \<Rightarrow> (query_exn, (series_key, series_summary) dict) result" where
  "finish_group limit cur d =
     (case cur of
        None \<Rightarrow> Inr d
      | Some (k, z) \<Rightarrow>
          if limit \<le> int (length d) then Inl (QueryLimitError ''query exceeds the safe series limit'')
          else bindR (stream_finish z) (\<lambda>s. Inr (AList.update k s d)))"

fun stream_groups ::
  "int \<Rightarrow> (series_key \<Rightarrow> stream) \<Rightarrow> (series_key \<times> stream) option \<Rightarrow> (series_key, series_summary) dict \<Rightarrow> metric_point list
     \<Rightarrow> (query_exn, (series_key, series_summary) dict) result" where
  "stream_groups limit fresh cur d [] = finish_group limit cur d"
| "stream_groups limit fresh cur d (p # ps) =
     (let key = point_key p
      in case cur of
           Some (k, z) \<Rightarrow>
             if k = key then bindR (stream_add z p) (\<lambda>z'. stream_groups limit fresh (Some (key, z')) d ps)
             else bindR (finish_group limit cur d) (\<lambda>d'.
               bindR (stream_add (fresh key) p) (\<lambda>z'. stream_groups limit fresh (Some (key, z')) d' ps))
         | None \<Rightarrow> bindR (stream_add (fresh key) p) (\<lambda>z'. stream_groups limit fresh (Some (key, z')) d ps))"

section \<open>The summary query\<close>

record query_result =
  res_window :: query_window
  res_mode :: source_mode
  res_series :: "series_summary list"
  res_generated_at :: int
  res_schema_version :: int
  res_filters :: selection
  res_reason :: string
  res_watermark :: "int option"
  res_watermark_status :: string
  res_max_scan :: int
  materialized_rows :: int
  rows_scanned :: int
  maximum_rows_buffered :: int

text \<open>What a query holds after reading its raw part: points, or summaries of streamed points.\<close>

record raw_read =
  rd_points :: "metric_point list"
  rd_summaries :: "(series_key, series_summary) dict"
  rd_scanned :: int
  rd_buffered :: int

definition cadence_of :: "(string, real) dict \<Rightarrow> series_key \<Rightarrow> real" where
  "cadence_of registry key = cadence_for (fst key) (snd (snd key)) registry DEFAULT_SAMPLE_INTERVAL_SECONDS"

definition fresh_stream :: "query_limits \<Rightarrow> (string, real) dict \<Rightarrow> int \<Rightarrow> int \<Rightarrow> int \<Rightarrow> series_key \<Rightarrow> stream" where
  "fresh_stream limits registry now s e key =
     StreamingRawSummary key s e (cadence_of registry key) now (max_gap_multiplier limits)"

definition seed_seconds :: "query_limits \<Rightarrow> (string, real) dict \<Rightarrow> int" where
  "seed_seconds limits registry =
     min (max_seed_seconds limits)
       (py_trunc ((if registry = [] then 60 else fold max (map snd (tl registry)) (snd (hd registry))) * max_gap_multiplier limits))"

definition read_raw ::
  "query_limits \<Rightarrow> metrics_db \<Rightarrow> (string, real) dict \<Rightarrow> int \<Rightarrow> query_plan \<Rightarrow> selection \<Rightarrow> (query_exn, raw_read) result" where
  "read_raw limits db registry now plan f =
     (case (raw_start plan, raw_end plan) of
        (Some s, Some e) \<Rightarrow>
          let seed = seed_seconds limits registry
          in if stream_raw plan
             then bindR (iter_raw_points db s e seed f) (\<lambda>ps.
               bindR (stream_groups (max_series limits) (fresh_stream limits registry now s e) None [] ps) (\<lambda>d.
                 Inr \<lparr>rd_points = [], rd_summaries = d, rd_scanned = int (length ps),
                      rd_buffered = max 0 (int (length d) + (if ps \<noteq> [] then 1 else 0))\<rparr>))
             else bindR (raw_points db s e seed (max_query_rows limits) (max_series limits) f) (\<lambda>ps.
               Inr \<lparr>rd_points = ps, rd_summaries = [], rd_scanned = int (length ps), rd_buffered = int (length ps)\<rparr>)
      | _ \<Rightarrow> Inr \<lparr>rd_points = [], rd_summaries = [], rd_scanned = 0, rd_buffered = 0\<rparr>)"

definition read_rollups ::
  "query_limits \<Rightarrow> metrics_db \<Rightarrow> query_plan \<Rightarrow> selection \<Rightarrow> (query_exn, rollup_point list) result" where
  "read_rollups limits db plan f =
     (case (rollup_start plan, rollup_end plan) of
        (Some s, Some e) \<Rightarrow>
          if minute_ceil s < minute_floor e
          then rollup_points db (minute_ceil s) (minute_floor e) (max_query_rows limits) f else Inr []
      | _ \<Rightarrow> Inr [])"

definition read_catalog ::
  "query_limits \<Rightarrow> metrics_db \<Rightarrow> query_plan \<Rightarrow> selection \<Rightarrow> (query_exn, metric_point list) result" where
  "read_catalog limits db plan f =
     (if rollup_start plan \<noteq> None \<and> rollup_end plan \<noteq> None \<and> plan_mode plan = Rollup
      then bindR (latest_points db (max_series limits) f 256) (\<lambda>ps.
        Inr (filter (\<lambda>p. \<not> supports_range (classify_metric (pt_metric_name p) (pt_unit p))) ps))
      else Inr [])"

definition unavailable_series :: "query_window \<Rightarrow> query_plan \<Rightarrow> (string, real) dict \<Rightarrow> series_key \<Rightarrow> metric_point \<Rightarrow> series_summary" where
  "unavailable_series w plan registry key p =
     (SeriesSummary key (pt_unit p) (plan_mode plan) ''unavailable'' (category (classify_metric (pt_metric_name p) (pt_unit p))))
       \<lparr>expected_sample_count := max 1 \<lceil>of_int (duration_seconds w) / cadence_of registry key\<rceil>, numeric := (pt_text p = None)\<rparr>"

definition raw_part ::
  "query_limits \<Rightarrow> query_window \<Rightarrow> query_plan \<Rightarrow> (string, real) dict \<Rightarrow> int \<Rightarrow> (series_key, metric_point list) dict
   \<Rightarrow> (series_key, series_summary) dict \<Rightarrow> series_key \<Rightarrow> (query_exn, series_summary option) result" where
  "raw_part limits w plan registry now raw_groups raw_summaries key =
     (case map_of raw_summaries key of
        Some s \<Rightarrow> Inr (Some s)
      | None \<Rightarrow>
          (case (map_of raw_groups key, raw_start plan, raw_end plan) of
             (Some ps, Some s, Some e) \<Rightarrow>
               bindR (raw_summary key ps s e (cadence_of registry key) now (max_gap_multiplier limits)
                   (plan_mode plan = Raw \<and> \<not> stream_raw plan \<and> s \<le> effective_start w)) (\<lambda>x. Inr (Some x))
           | _ \<Rightarrow> Inr None))"

definition rollup_part ::
  "query_plan \<Rightarrow> (string, real) dict \<Rightarrow> (series_key, rollup_point list) dict \<Rightarrow> series_key
     \<Rightarrow> (query_exn, series_summary option) result" where
  "rollup_part plan registry rollup_groups key =
     (case (map_of rollup_groups key, rollup_start plan, rollup_end plan) of
        (Some rs, Some s, Some e) \<Rightarrow> bindR (rollup_summary key rs s e (cadence_of registry key)) (\<lambda>x. Inr (Some x))
      | _ \<Rightarrow> Inr None)"

definition summarise_parts ::
  "query_limits \<Rightarrow> query_window \<Rightarrow> query_plan \<Rightarrow> (string, real) dict \<Rightarrow> int \<Rightarrow> (series_key, metric_point list) dict
   \<Rightarrow> (series_key, series_summary) dict \<Rightarrow> (series_key, rollup_point list) dict
   \<Rightarrow> series_key \<Rightarrow> (query_exn, series_summary) result" where
  "summarise_parts limits w plan registry now raw_groups raw_summaries rollup_groups key =
     bindR (raw_part limits w plan registry now raw_groups raw_summaries key) (\<lambda>raw.
     bindR (rollup_part plan registry rollup_groups key) (\<lambda>rollup.
       if plan_mode plan = Hybrid
       then combine_hybrid raw rollup key (effective_start w) (effective_end w) (cadence_of registry key)
              (rollup_start plan) (rollup_end plan) (raw_start plan) (raw_end plan)
       else (case (if raw \<noteq> None then raw else rollup) of None \<Rightarrow> Inl AssertionError | Some s \<Rightarrow> Inr s)))"

definition summarise_series ::
  "query_limits \<Rightarrow> query_window \<Rightarrow> query_plan \<Rightarrow> (string, real) dict \<Rightarrow> int \<Rightarrow> (series_key, metric_point list) dict
   \<Rightarrow> (series_key, series_summary) dict \<Rightarrow> (series_key, rollup_point list) dict \<Rightarrow> (series_key, metric_point) dict
   \<Rightarrow> series_key \<Rightarrow> (query_exn, series_summary) result" where
  "summarise_series limits w plan registry now raw_groups raw_summaries rollup_groups catalog key =
     (case map_of catalog key of
        Some p \<Rightarrow>
          if map_of raw_groups key = None \<and> map_of rollup_groups key = None
          then Inr (unavailable_series w plan registry key p)
          else summarise_parts limits w plan registry now raw_groups raw_summaries rollup_groups key
      | None \<Rightarrow> summarise_parts limits w plan registry now raw_groups raw_summaries rollup_groups key)"

text \<open>The series of a query: the groups, the limits, and the summary of each key in order.\<close>

definition summarise ::
  "query_limits \<Rightarrow> query_window \<Rightarrow> query_plan \<Rightarrow> (string, real) dict \<Rightarrow> int \<Rightarrow> bool \<Rightarrow> raw_read \<Rightarrow> rollup_point list
   \<Rightarrow> metric_point list \<Rightarrow> (query_exn, series_summary list) result" where
  "summarise limits w plan registry now require_match rd rollups catalog =
     (let raw_groups = group_by point_key (rd_points rd);
          rollup_groups = group_by rollup_key rollups;
          catalog_keys = fold (\<lambda>p d. AList.update (point_key p) p d) catalog [];
          keys = sort (remdups (map fst raw_groups @ map fst (rd_summaries rd) @ map fst rollup_groups @ map fst catalog_keys))
      in if max_series limits < int (length keys) then Inl (QueryLimitError ''query exceeds the safe series limit'')
         else if require_match \<and> keys = [] then Inl (QueryNotFoundError ''no matching monitoring entity or metric'')
         else mapR (summarise_series limits w plan registry now raw_groups (rd_summaries rd) rollup_groups catalog_keys) keys)"

definition open_readonly :: "string \<Rightarrow> metrics_db option \<Rightarrow> (query_exn, metrics_db) result" where
  "open_readonly path file =
     (case file of
        None \<Rightarrow> Inl (QueryDatabaseError (''monitoring database does not exist: '' @ path))
      | Some db \<Rightarrow> bindR (validate_schema db) (\<lambda>_. Inr db))"

definition query_summary ::
  "query_limits \<Rightarrow> retention_policy \<Rightarrow> json_parser \<Rightarrow> string \<Rightarrow> metrics_db option \<Rightarrow> int \<Rightarrow> query_window \<Rightarrow> selection \<Rightarrow> bool
     \<Rightarrow> (query_exn, query_result) result" where
  "query_summary limits retention loads path file now w f require_match =
     bindR (open_readonly path file) (\<lambda>db.
     let registry = cadence_registry loads db
     in bindR (cost_aware_plan limits retention db now w f) (\<lambda>plan.
        bindR (read_raw limits db registry now plan f) (\<lambda>rd.
        bindR (read_rollups limits db plan f) (\<lambda>rollups.
        bindR (read_catalog limits db plan f) (\<lambda>catalog.
        let held = int (length (rd_points rd)) + int (length rollups) + int (length (rd_summaries rd))
        in if max_materialized_rows limits < held then Inl (QueryLimitError ''combined query exceeds the safe row limit'')
           else bindR (summarise limits w plan registry now require_match rd rollups catalog) (\<lambda>series.
             Inr \<lparr>res_window = w, res_mode = plan_mode plan, res_series = series, res_generated_at = now,
                  res_schema_version = md_version db, res_filters = f, res_reason = reason plan,
                  res_watermark = rollup_watermark plan, res_watermark_status = rollup_watermark_status plan,
                  res_max_scan = max_stream_scan_rows limits, materialized_rows = held,
                  rows_scanned = rd_scanned rd + int (length rollups),
                  maximum_rows_buffered =
                    (case (rollup_start plan, rollup_end plan) of
                       (Some s, Some e) \<Rightarrow>
                         if minute_ceil s < minute_floor e
                         then max (rd_buffered rd) (int (length rollups) +
                           (if stream_raw plan then int (length (rd_summaries rd)) else int (length (rd_points rd))))
                         else rd_buffered rd
                     | _ \<Rightarrow> rd_buffered rd)\<rparr>))))))"

section \<open>Streaming equals grouping\<close>

lemma stream_groups_run:
  assumes "\<forall>p \<in> set g. point_key p = k"
  shows "stream_groups limit fresh (Some (k, z)) d (g @ rest)
    = bindR (stream_all z g) (\<lambda>z'. stream_groups limit fresh (Some (k, z')) d rest)"
  using assms by (induction g arbitrary: z) (auto simp: bindR_def split: sum.splits)

lemma stream_groups_switch:
  assumes "rest = [] \<or> point_key (hd rest) \<noteq> k"
  shows "stream_groups limit fresh (Some (k, z)) d rest
    = bindR (finish_group limit (Some (k, z)) d) (\<lambda>d'. stream_groups limit fresh None d' rest)"
  using assms by (cases rest) (auto simp: bindR_def finish_group_def split: sum.splits)

lemma stream_groups_first:
  assumes "g \<noteq> []" and "\<forall>p \<in> set g. point_key p = k" and "rest = [] \<or> point_key (hd rest) \<noteq> k"
  shows "stream_groups limit fresh None d (g @ rest)
    = bindR (stream_all (fresh k) g) (\<lambda>z. bindR (finish_group limit (Some (k, z)) d) (\<lambda>d'. stream_groups limit fresh None d' rest))"
proof -
  obtain p ps where g: "g = p # ps" using assms(1) by (cases g) auto
  then have p: "point_key p = k" and ps: "\<forall>p \<in> set ps. point_key p = k" using assms(2) by auto
  show ?thesis
    by (simp add: g p stream_groups_run [OF ps] stream_groups_switch [OF assms(3)] bindR_def split: sum.splits)
qed

text \<open>Sorted rows fall into one run per series.\<close>

lemma sorted_group:
  assumes "sorted (map point_key (p # ps))"
  obtains g rest where "p # ps = g @ rest" "g = filter (\<lambda>q. point_key q = point_key p) (p # ps)"
    "g \<noteq> []" "rest = filter (\<lambda>q. point_key q \<noteq> point_key p) (p # ps)" "sorted (map point_key rest)"
    "length rest < length (p # ps)"
proof -
  let ?k = "point_key p"
  have split: "xs = filter (\<lambda>q. point_key q = ?k) xs @ filter (\<lambda>q. point_key q \<noteq> ?k) xs"
    if "sorted (map point_key xs)" "\<forall>q \<in> set xs. ?k \<le> point_key q" for xs
    using that
  proof (induction xs)
    case (Cons x xs)
    show ?case
    proof (cases "point_key x = ?k")
      case False
      then have "\<forall>q \<in> set xs. point_key q \<noteq> ?k" using Cons.prems by fastforce
      then show ?thesis using False by (simp add: filter_empty_conv filter_id_conv)
    qed (use Cons in simp)
  qed simp
  have "p # ps = filter (\<lambda>q. point_key q = ?k) (p # ps) @ filter (\<lambda>q. point_key q \<noteq> ?k) (p # ps)"
    using assms by (intro split) auto
  moreover have "sorted (map point_key (filter (\<lambda>q. point_key q \<noteq> ?k) (p # ps)))" using assms sorted_filter by blast
  moreover have "length (filter (\<lambda>q. point_key q \<noteq> ?k) (p # ps)) < length (p # ps)"
    by (simp add: le_imp_less_Suc)
  ultimately show ?thesis using that by (metis (mono_tags, lifting) filter.simps(2) list.distinct(1))
qed

lemma stream_groups_lookup:
  assumes "stream_groups limit fresh None d pts = Inr d'" and "sorted (map point_key pts)"
  shows "if k \<in> point_key ` set pts
    then \<exists>s. map_of d' k = Some s \<and> bindR (stream_all (fresh k) (filter (\<lambda>p. point_key p = k) pts)) stream_finish = Inr s
    else map_of d' k = map_of d k"
  using assms
proof (induction "length pts" arbitrary: pts d rule: less_induct)
  case less
  show ?case
  proof (cases pts)
    case Nil
    then show ?thesis using less.prems by (simp add: finish_group_def)
  next
    case (Cons p ps)
    let ?k = "point_key p"
    obtain g rest where pts: "pts = g @ rest" and g: "g = filter (\<lambda>q. point_key q = ?k) pts" "g \<noteq> []"
      and rest: "rest = filter (\<lambda>q. point_key q \<noteq> ?k) pts" "sorted (map point_key rest)" "length rest < length pts"
      using sorted_group [of p ps] less.prems(2) Cons by metis
    have keys: "\<forall>q \<in> set g. point_key q = ?k" unfolding g(1) by auto
    have other: "\<forall>q \<in> set rest. point_key q \<noteq> ?k" unfolding rest(1) by auto
    then have hd: "rest = [] \<or> point_key (hd rest) \<noteq> ?k" by (cases rest) auto
    obtain z s d1 where z: "stream_all (fresh ?k) g = Inr z" "stream_finish z = Inr s" "d1 = AList.update ?k s d"
        "stream_groups limit fresh None d1 rest = Inr d'"
      using less.prems(1) unfolding pts stream_groups_first [OF g(2) keys hd]
      by (auto simp: bindR_eq_Inr finish_group_def split: if_splits)
    note ih = less.hyps [OF rest(3) z(4) rest(2)]
    show ?thesis
    proof (cases "k = ?k")
      case True
      then have "k \<notin> point_key ` set rest" using other by auto
      then have "map_of d' k = Some s" using ih True by (simp add: z(3) update_conv')
      then show ?thesis using True z(1,2) Cons by (auto simp: g(1))
    next
      case False
      then have "filter (\<lambda>q. point_key q = k) pts = filter (\<lambda>q. point_key q = k) rest"
        using keys by (auto simp: pts filter_empty_conv)
      moreover have "k \<in> point_key ` set pts \<longleftrightarrow> k \<in> point_key ` set rest" using False keys by (auto simp: pts)
      ultimately show ?thesis using ih False by (auto simp: z(3) update_conv' split: if_splits)
    qed
  qed
qed

lemma selected_points_sorted:
  "sorted (map (\<lambda>p. (point_key p, pt_ts p)) (selected_points db s e seed keep))"
  by (simp add: selected_points_def Let_def)

lemma sorted_keys:
  fixes f :: "'a \<Rightarrow> 'b::linorder" and h :: "'a \<Rightarrow> 'c::linorder"
  shows "sorted (map (\<lambda>p. (f p, h p)) ps) \<Longrightarrow> sorted (map f ps) \<and> sorted (map h (filter (\<lambda>p. f p = k) ps))"
  by (induction ps) (auto simp: less_eq_prod_def less_imp_le)

text \<open>C26: streaming is only an optimisation: when a query streams its raw rows, every numeric series gets
  from the one pass over all rows the very summary that grouping the rows in memory and summarising
  the group gives.\<close>

theorem streamed_query_equals_grouped:
  assumes rows: "iter_raw_points db s e seed f = Inr pts"
    and run: "stream_groups limit (fresh_stream limits registry now s e) None [] pts = Inr d"
    and plan: "stream_raw plan" "raw_start plan = Some s" "raw_end plan = Some e"
    and group: "map_of (group_by point_key pts) k = Some g"
    and series: "uniform k u g" "supports_range (classify_metric (snd (snd k)) u)"
  shows "raw_part limits w plan registry now [] d k = raw_part limits w plan registry now (group_by point_key pts) [] k
    \<and> (\<exists>x. raw_part limits w plan registry now [] d k = Inr (Some x))"
proof -
  obtain keep where pts: "pts = selected_points db s e seed keep" using rows by (auto simp: iter_raw_points_def bindR_eq_Inr)
  have sorted: "sorted (map point_key pts)" "sorted (map pt_ts g)" and g: "k \<in> point_key ` set pts" "g = filter (\<lambda>p. point_key p = k) pts"
    using sorted_keys [OF selected_points_sorted, of db s e seed keep k] group by (auto simp: pts group_by_lookup split: if_splits)
  then have ne: "g \<noteq> []" by (auto simp: filter_empty_conv)
  obtain x where x: "map_of d k = Some x"
      "bindR (stream_all (fresh_stream limits registry now s e k) g) stream_finish = Inr x"
    using stream_groups_lookup [OF run sorted(1), of k] g by auto
  then have "raw_summary k g s e (cadence_of registry k) now (max_gap_multiplier limits) False = Inr x"
    using stream_equals_raw [OF ne series(1) sorted(2) series(2)] by (simp add: fresh_stream_def)
  then show ?thesis using x(1) plan group by (simp add: raw_part_def)
qed

definition sample_plan_streamed :: query_plan where
  "sample_plan_streamed = (QueryPlan Raw)\<lparr>raw_start := Some 100, raw_end := Some 130, stream_raw := True\<rparr>"

theorem streamed_query_equals_grouped_witness:
  "\<exists>d x. stream_groups 10 (fresh_stream QueryLimits [] 140 100 130) None [] sample_points = Inr d
     \<and> raw_part QueryLimits sample_window sample_plan_streamed [] 140 [] d (''host'', ''local'', ''load1'') = Inr (Some x)
     \<and> raw_part QueryLimits sample_window sample_plan_streamed [] 140 (group_by point_key sample_points) [] (''host'', ''local'', ''load1'') = Inr (Some x)"
proof -
  let ?k = "(''host'', ''local'', ''load1'')"
  have rows: "iter_raw_points sample_db 100 130 10 sample_selection = Inr sample_points" by code_simp
  have "case stream_groups 10 (fresh_stream QueryLimits [] 140 100 130) None [] sample_points of Inl _ \<Rightarrow> False | Inr _ \<Rightarrow> True"
    by code_simp
  then obtain d where d: "stream_groups 10 (fresh_stream QueryLimits [] 140 100 130) None [] sample_points = Inr d"
    by (auto split: sum.splits)
  have group: "map_of (group_by point_key sample_points) ?k = Some sample_points"
    by (simp add: group_by_lookup sample_points_def point_key_def image_iff)
  have plan: "stream_raw sample_plan_streamed" "raw_start sample_plan_streamed = Some 100" "raw_end sample_plan_streamed = Some 130"
    by (simp_all add: sample_plan_streamed_def QueryPlan_def)
  have series: "uniform ?k ''load'' sample_points" "supports_range (classify_metric (snd (snd ?k)) ''load'')"
    by (simp_all add: uniform_def sample_points_def load_statistical semantics_defs)
  from streamed_query_equals_grouped [OF rows d plan group series, of sample_window] d show ?thesis by metis
qed


section \<open>Limits\<close>

definition skey :: "series_summary \<Rightarrow> series_key" where
  "skey s = (entity_type s, entity_id s, metric_name s)"

lemma skey_simps [simp]:
  "skey (SeriesSummary key u md q c) = key"
  "skey (s\<lparr>weighted_seconds := w\<rparr>) = skey s" "skey (s\<lparr>average := a\<rparr>) = skey s" "skey (s\<lparr>p95 := a\<rparr>) = skey s"
  "skey (s\<lparr>transition_count := t\<rparr>) = skey s" "skey (s\<lparr>minimum := a\<rparr>) = skey s" "skey (s\<lparr>maximum := a\<rparr>) = skey s"
  "skey (s\<lparr>numeric := b\<rparr>) = skey s" "skey (s\<lparr>sample_count := i\<rparr>) = skey s" "skey (s\<lparr>expected_sample_count := i\<rparr>) = skey s"
  "skey (s\<lparr>coverage := w\<rparr>) = skey s" "skey (s\<lparr>quality := q\<rparr>) = skey s" "skey (s\<lparr>unavailable_count := i\<rparr>) = skey s"
  "skey (s\<lparr>reset_count := i\<rparr>) = skey s" "skey (s\<lparr>gap_count := i\<rparr>) = skey s" "skey (s\<lparr>first_timestamp := ti\<rparr>) = skey s"
  "skey (s\<lparr>last_timestamp := ti\<rparr>) = skey s" "skey (s\<lparr>latest := l\<rparr>) = skey s" "skey (s\<lparr>latest_timestamp := ti\<rparr>) = skey s"
  "skey (s\<lparr>data_age_seconds := ti\<rparr>) = skey s"
  by (simp_all add: skey_def SeriesSummary_def split: prod.splits)

lemma count_point_skey: "skey (fst (count_point now p (s, prev))) = skey s"
  by (simp add: count_point_def Let_def split: option.splits)

definition keyed :: "stream \<Rightarrow> bool" where
  "keyed z \<longleftrightarrow> (case st_summary z of None \<Rightarrow> True | Some s \<Rightarrow> skey s = st_key z)"

lemma stream_segment_keyed:
  "stream_segment p t z = Inr z' \<Longrightarrow> keyed z \<Longrightarrow> keyed z' \<and> st_key z' = st_key z"
  by (auto simp: stream_segment_def keyed_def Let_def split: option.splits if_splits)

lemma stream_add_keyed:
  assumes "stream_add z p = Inr z'" and "keyed z"
  shows "keyed z' \<and> st_key z' = st_key z"
proof -
  obtain z1 where z1: "(case st_previous z of None \<Rightarrow> Inr z | Some q \<Rightarrow> stream_segment q (pt_ts p) z) = Inr z1"
    using assms(1) by (auto simp: stream_add_def bindR_eq_Inr)
  then have k: "keyed z1" "st_key z1 = st_key z" using assms(2) stream_segment_keyed by (auto split: option.splits)
  let ?s = "case st_summary z1 of None \<Rightarrow> first_summary z1 p | Some s \<Rightarrow> s"
  have "skey ?s = st_key z1" using k(1) by (auto simp: keyed_def first_summary_def split: option.splits)
  moreover define r where "r = (if inside (st_start z1) (st_end z1) p then count_point (st_now z1) p (?s, st_transition z1)
      else (?s, st_transition z1))"
  ultimately have "skey (fst r) = st_key z1" by (simp add: count_point_skey)
  moreover have "z' = z1\<lparr>st_summary := Some (fst r), st_transition := snd r, st_previous := Some p\<rparr>"
    using assms(1) unfolding stream_add_def z1 bindR_simps Let_def r_def [symmetric] split_beta by simp
  ultimately show ?thesis using k(2) by (simp add: keyed_def)
qed

lemma stream_all_keyed: "stream_all z ps = Inr z' \<Longrightarrow> keyed z \<Longrightarrow> keyed z' \<and> st_key z' = st_key z"
  by (induction ps arbitrary: z) (auto simp: bindR_eq_Inr dest: stream_add_keyed)

lemma stream_finish_keyed:
  assumes "stream_finish z = Inr s" and "keyed z"
  shows "skey s = st_key z"
proof -
  obtain s0 where s0: "st_summary z = Some s0" using assms(1) by (auto simp: stream_finish_def split: option.splits)
  obtain z1 where z1: "(case st_previous z of None \<Rightarrow> Inr z | Some q \<Rightarrow> stream_segment q (st_end z) z) = Inr z1"
    using assms(1) unfolding stream_finish_def s0 option.case by (auto simp: bindR_eq_Inr)
  then have k: "keyed z1" "st_key z1 = st_key z" using assms(2) stream_segment_keyed by (auto split: option.splits)
  then show ?thesis
    using assms(1) unfolding stream_finish_def s0 option.case z1 bindR_simps by (cases "st_summary z1") (auto simp: keyed_def)
qed

lemma raw_summary_skey:
  assumes "raw_summary key ps a b c n k al = Inr s"
  shows "skey s = key"
proof -
  have ne: "ps \<noteq> []" using assms by (auto simp: raw_summary_def)
  show ?thesis
    using assms unfolding raw_summary_def Let_def
    by (simp add: ne split del: if_split) (auto split: if_splits)
qed

lemma rollup_summary_skey:
  assumes "rollup_summary key rs a b c = Inr s"
  shows "skey s = key"
proof -
  have ne: "rs \<noteq> []" using assms by (auto simp: rollup_summary_def)
  show ?thesis using assms unfolding rollup_summary_def Let_def by (auto simp: ne split: if_splits)
qed

lemma combine_hybrid_skey: "combine_hybrid raw ro key a b c d e f g = Inr s \<Longrightarrow> skey s = key"
  unfolding combine_hybrid_def Let_def
  by (cases "if raw \<noteq> None then raw else ro") auto

lemma mapR_elems: "mapR f xs = Inr ys \<Longrightarrow> list_all2 (\<lambda>x y. f x = Inr y) xs ys"
  by (induction xs arbitrary: ys) (auto simp: bindR_eq_Inr)

lemma list_all2_inverse: "list_all2 P xs ys \<Longrightarrow> (\<And>x y. P x y \<Longrightarrow> g y = x) \<Longrightarrow> map g ys = xs"
  by (induction xs ys rule: list_all2_induct) auto

definition keyed_dict :: "(series_key, series_summary) dict \<Rightarrow> bool" where
  "keyed_dict d \<longleftrightarrow> (\<forall>k s. map_of d k = Some s \<longrightarrow> skey s = k)"

lemma stream_groups_keyed:
  assumes "stream_groups limit (fresh_stream limits registry now s e) None [] pts = Inr d" and "sorted (map point_key pts)"
  shows "keyed_dict d"
  unfolding keyed_dict_def
proof (intro allI impI)
  fix k x assume "map_of d k = Some x"
  then have x: "bindR (stream_all (fresh_stream limits registry now s e k) (filter (\<lambda>p. point_key p = k) pts)) stream_finish = Inr x"
    using stream_groups_lookup [OF assms, of k] by (auto split: if_splits)
  have "keyed (fresh_stream limits registry now s e k)" "st_key (fresh_stream limits registry now s e k) = k"
    by (simp_all add: fresh_stream_def StreamingRawSummary_def keyed_def)
  then show "skey x = k" using x stream_all_keyed stream_finish_keyed by (fastforce simp: bindR_eq_Inr)
qed

lemma keyed_dictD: "keyed_dict d \<Longrightarrow> map_of d k = Some s \<Longrightarrow> skey s = k"
  unfolding keyed_dict_def by blast

lemma read_raw_keyed:
  assumes "read_raw limits db registry now plan f = Inr rd"
  shows "keyed_dict (rd_summaries rd)"
proof (cases "\<exists>s e. raw_start plan = Some s \<and> raw_end plan = Some e \<and> stream_raw plan")
  case True
  then obtain s e ps d where ps: "iter_raw_points db s e (seed_seconds limits registry) f = Inr ps"
      and d: "stream_groups (max_series limits) (fresh_stream limits registry now s e) None [] ps = Inr d" "rd_summaries rd = d"
    using assms by (auto simp: read_raw_def Let_def bindR_eq_Inr)
  have "sorted (map point_key ps)"
    using ps sorted_keys [OF selected_points_sorted] by (auto simp: iter_raw_points_def bindR_eq_Inr)
  then show ?thesis using stream_groups_keyed [OF d(1)] d(2) by simp
next
  case False
  then have "rd_summaries rd = []"
    using assms by (cases "raw_start plan"; cases "raw_end plan") (auto simp: read_raw_def Let_def bindR_eq_Inr)
  then show ?thesis by (simp add: keyed_dict_def)
qed

lemma summarise_parts_skey:
  assumes "summarise_parts limits w plan registry now rg d og k = Inr s" and "keyed_dict d"
  shows "skey s = k"
proof -
  obtain raw ro where raw: "raw_part limits w plan registry now rg d k = Inr raw" and ro: "rollup_part plan registry og k = Inr ro"
    using assms(1) by (auto simp: summarise_parts_def bindR_eq_Inr)
  have "skey x = k" if "raw = Some x" for x
    using raw that assms(2)
    by (auto simp: raw_part_def bindR_eq_Inr split: option.splits dest: raw_summary_skey keyed_dictD)
  moreover have "skey x = k" if "ro = Some x" for x
    using ro that by (auto simp: rollup_part_def bindR_eq_Inr split: option.splits dest: rollup_summary_skey)
  ultimately show ?thesis
    using assms(1) combine_hybrid_skey unfolding summarise_parts_def raw ro bindR_simps
    by (auto split: if_splits option.splits)
qed

lemma summarise_series_skey:
  "summarise_series limits w plan registry now rg d og c k = Inr s \<Longrightarrow> keyed_dict d \<Longrightarrow> skey s = k"
  by (auto simp: summarise_series_def unavailable_series_def split: option.splits if_splits dest: summarise_parts_skey)

lemma summarise_limits:
  assumes "summarise limits w plan registry now req rd rollups catalog = Inr series" and "keyed_dict (rd_summaries rd)"
  shows "int (length series) \<le> max_series limits \<and> sorted_wrt (<) (map skey series) \<and> (req \<longrightarrow> series \<noteq> [])"
proof -
  define F where "F = summarise_series limits w plan registry now (group_by point_key (rd_points rd)) (rd_summaries rd)
    (group_by rollup_key rollups) (fold (\<lambda>p d. AList.update (point_key p) p d) catalog [])"
  define ks where "ks = sort (remdups (map fst (group_by point_key (rd_points rd)) @ map fst (rd_summaries rd)
    @ map fst (group_by rollup_key rollups) @ map fst (fold (\<lambda>p d. AList.update (point_key p) p d) catalog [])))"
  have run: "mapR F ks = Inr series" and ks: "int (length ks) \<le> max_series limits" "req \<longrightarrow> ks \<noteq> []"
    using assms(1) unfolding summarise_def Let_def F_def [symmetric] ks_def [symmetric] by (auto split: if_splits)
  have "skey s = k" if "F k = Inr s" for k s using that assms(2) unfolding F_def by (rule summarise_series_skey)
  then have "map skey series = ks" using mapR_elems [OF run] list_all2_inverse [of "\<lambda>x y. F x = Inr y" ks series skey] by blast
  moreover have "sorted ks" "distinct ks" by (simp_all add: ks_def)
  ultimately show ?thesis using ks by (auto simp: strict_sorted_iff)
qed

text \<open>An answered query respects its limits: it holds no more rows than the materialisation limit,
  lists no more series than the series limit, each series once and in order of its key, and a query
  that requires a match lists at least one.\<close>

theorem query_within_limits:
  assumes "query_summary limits retention loads path file now w f req = Inr r"
  shows "materialized_rows r \<le> max_materialized_rows limits \<and> int (length (res_series r)) \<le> max_series limits
    \<and> sorted_wrt (<) (map skey (res_series r)) \<and> (req \<longrightarrow> res_series r \<noteq> [])"
proof -
  obtain db plan rd rollups catalog series where
      rd: "read_raw limits db (cadence_registry loads db) now plan f = Inr rd"
    and series: "summarise limits w plan (cadence_registry loads db) now req rd rollups catalog = Inr series"
    and r: "res_series r = series" "materialized_rows r = int (length (rd_points rd)) + int (length rollups) + int (length (rd_summaries rd))"
      "materialized_rows r \<le> max_materialized_rows limits"
    using assms unfolding query_summary_def Let_def by (auto simp: bindR_eq_Inr split: if_splits)
  then show ?thesis using summarise_limits [OF series read_raw_keyed [OF rd]] by simp
qed

theorem query_within_limits_witness:
  "\<exists>r. query_summary QueryLimits sample_retention (\<lambda>_. None) ''metrics.sqlite3'' (Some sample_db) 140 sample_window sample_selection True = Inr r
     \<and> materialized_rows r \<le> 110000 \<and> sorted_wrt (<) (map skey (res_series r)) \<and> res_series r \<noteq> []"
proof -
  have "case query_summary QueryLimits sample_retention (\<lambda>_. None) ''metrics.sqlite3'' (Some sample_db) 140 sample_window sample_selection True of
      Inl _ \<Rightarrow> False | Inr r \<Rightarrow> length (res_series r) = 1" by code_simp
  then obtain r where
    r: "query_summary QueryLimits sample_retention (\<lambda>_. None) ''metrics.sqlite3'' (Some sample_db) 140 sample_window sample_selection True = Inr r"
    by (auto split: sum.splits)
  from query_within_limits [OF r] r show ?thesis by (simp add: QueryLimits_def)
qed

end
