(* ===== verification/Monitoring_Health.thy ===== *)
theory Monitoring_Health
  imports Monitoring_Rollups "HOL-Library.Sublist"
begin

text \<open>
  \<open>src/monitoring/health.py\<close>: the health of the node, of its services and of its tunnels, from one
  snapshot of the newest observations. A snapshot is what \<open>QueryEngine.snapshot\<close> builds, so its
  dictionaries are records here; a reason text that formats a percentage keeps the number. The order
  in which the code goes through the required services that have no observation is the order of
  the entities (a set in the code).

  The lemmas: the overall verdict is the worst of all relevant verdicts, a node is called healthy only
  on fresh, successful, complete and unremarkable observations, and of several events of one
  subject only the newest counts.
\<close>

section \<open>Snapshots and results\<close>

record snap_metric =
  sm_entity_type :: string
  sm_entity_id :: string
  sm_name :: string
  sm_ts :: int
  sm_value :: "real option"
  sm_quality :: string
  sm_stale :: bool

record snap_entity =
  se_type :: string
  se_id :: string
  se_updated_at :: int
  se_service :: string

record snap_event =
  sv_ts :: int
  sv_severity :: string
  sv_code :: string
  sv_details :: "(string, string) dict"

record snap_cycle =
  cy_collected_at :: int
  cy_success :: bool

record snapshot =
  sn_generated_at :: int
  sn_cycle :: "snap_cycle option"
  sn_metrics :: "snap_metric list"
  sn_entities :: "snap_entity list"
  sn_health_events :: "snap_event list"
  sn_truncated :: bool
  sn_authoritative :: bool
  sn_invalid_sources :: bool

record health_policy =
  stale_after_seconds :: int
  cpu_degraded_percent :: real
  memory_degraded_percent :: real
  filesystem_degraded_percent :: real
  filesystem_critical_percent :: real
  conntrack_degraded_percent :: real
  conntrack_critical_percent :: real
  file_handles_degraded_percent :: real
  file_handles_critical_percent :: real
  recent_event_seconds :: int

definition HealthPolicy :: health_policy where
  "HealthPolicy = \<lparr>stale_after_seconds = 20, cpu_degraded_percent = 80, memory_degraded_percent = 85,
     filesystem_degraded_percent = 85, filesystem_critical_percent = 95, conntrack_degraded_percent = 85,
     conntrack_critical_percent = 95, file_handles_degraded_percent = 85, file_handles_critical_percent = 95,
     recent_event_seconds = 3600\<rparr>"

datatype node_status = Is_healthy | Is_degraded | Is_unknown | Is_critical | Is_down

text \<open>A reason text: plain, or a text that ends in a value printed with one decimal and a percent sign in brackets.\<close>

datatype message = Text string | Percent string real

record health_result =
  hr_status :: node_status
  reason_codes :: "string list"
  reasons :: "message list"
  evaluated_at :: int
  hr_age :: "int option"
  source_quality :: string
  hr_entity_type :: string
  hr_entity_id :: string

definition result ::
  "node_status \<Rightarrow> (string \<times> message) list \<Rightarrow> int \<Rightarrow> int option \<Rightarrow> string \<Rightarrow> string \<Rightarrow> string \<Rightarrow> health_result" where
  "result st rs now age q t i = \<lparr>hr_status = st, reason_codes = map fst rs, reasons = map snd rs, evaluated_at = now,
     hr_age = age, source_quality = q, hr_entity_type = t, hr_entity_id = i\<rparr>"


section \<open>Lookups\<close>

definition required_services :: "snapshot \<Rightarrow> string list" where
  "required_services snap =
     remdups (map se_service (filter (\<lambda>e. se_type e = ''tunnel'' \<and> se_service e \<noteq> []) (sn_entities snap)))"

definition metric_key :: "snap_metric \<Rightarrow> series_key" where
  "metric_key x = (sm_entity_type x, sm_entity_id x, sm_name x)"

definition metric_map :: "snapshot \<Rightarrow> (series_key, snap_metric) dict" where
  "metric_map snap = fold (\<lambda>x d. AList.update (metric_key x) x d) (sn_metrics snap) []"

definition unavailable :: "snap_metric option \<Rightarrow> bool" where
  "unavailable x = (case x of None \<Rightarrow> True | Some v \<Rightarrow> sm_quality v = ''unavailable'' \<or> sm_stale v)"

definition quality_of :: "snap_metric list \<Rightarrow> string" where
  "quality_of xs = worst_quality (map sm_quality xs)"

definition lower :: "string \<Rightarrow> string" where
  "lower = map (\<lambda>c. if is_upper c then char_of (of_char c + (32::nat)) else c)"


section \<open>Events that still matter\<close>

definition paired :: "(string, string \<times> bool) dict" where
  "paired =
     [(''listener_disappeared'', (''listener'', True)), (''listener_returned'', (''listener'', False)),
      (''metric_source_unavailable'', (''source'', True)), (''metric_source_available'', (''source'', False)),
      (''collection_failed'', (''collection'', True)), (''collection_recovered'', (''collection'', False)),
      (''wal_checkpoint_failed'', (''checkpoint'', True)), (''wal_checkpoint_recovered'', (''checkpoint'', False)),
      (''database_retention_failed'', (''retention'', True)), (''database_retention_recovered'', (''retention'', False)),
      (''env_parse_error'', (''managed_env'', True)), (''env_parse_recovered'', (''managed_env'', False))]"

definition detail :: "snap_event \<Rightarrow> string \<Rightarrow> string" where
  "detail e k = dict_get (sv_details e) k []"

definition current_tunnels :: "snapshot \<Rightarrow> (string, int) dict" where
  "current_tunnels snap =
     fold (\<lambda>e d. AList.update (se_id e) (se_updated_at e) d) (filter (\<lambda>e. se_type e = ''tunnel'') (sn_entities snap)) []"

text \<open>The conditions under which the loop goes on to the next event at once.\<close>

definition considered :: "snapshot \<Rightarrow> int \<Rightarrow> health_policy \<Rightarrow> snap_event \<Rightarrow> bool" where
  "considered snap now policy e \<longleftrightarrow>
     \<not> recent_event_seconds policy < now - sv_ts e
     \<and> (let tunnel = detail e ''tunnel_id''
        in tunnel = [] \<or> (case map_of (current_tunnels snap) tunnel of None \<Rightarrow> False | Some t \<Rightarrow> \<not> sv_ts e < t))
     \<and> (let service = detail e ''service'' in service = [] \<or> service \<in> set (required_services snap))
     \<and> (let source = detail e ''source''
        in sv_code e \<in> {''metric_source_unavailable'', ''metric_source_available''} \<and> source \<noteq> []
           \<longrightarrow> source \<in> {''proc_stat'', ''proc_meminfo'', ''filesystem:/''}
             \<or> list_ex (\<lambda>r. sublist r source) (required_services snap))"

definition confirmed :: "snap_metric option \<Rightarrow> int \<Rightarrow> bool" where
  "confirmed x ts = (case x of None \<Rightarrow> False | Some v \<Rightarrow> sm_quality v = ''exact'' \<and> sm_value v = Some 1 \<and> ts \<le> sm_ts v)"

text \<open>What one event says: the subject it settles, if any, whether it is a problem, and the code it raises.\<close>

definition first_word :: "string list \<Rightarrow> string \<Rightarrow> string" where
  "first_word xs fallback = (case filter (\<lambda>x. x \<noteq> []) xs of [] \<Rightarrow> fallback | x # _ \<Rightarrow> x)"

definition event_verdict :: "snapshot \<Rightarrow> snap_event \<Rightarrow> (string \<times> string) option \<times> bool \<times> string" where
  "event_verdict snap e =
     (let metrics = metric_map snap; code = sv_code e; service = detail e ''service''; tunnel = detail e ''tunnel_id'';
          serious = lower (sv_severity e) \<in> {''warning'', ''error'', ''critical''}
      in if code = ''service_state_changed''
         then (Some (''service'', first_word [service] ''unknown''),
               serious \<and> lower (detail e ''current'') \<in> {''failed'', ''inactive''}
                 \<and> \<not> confirmed (map_of metrics (''service'', service, ''service_active'')) (sv_ts e),
               code)
         else (case map_of paired code of
                 Some (family, bad) \<Rightarrow>
                   (Some (family, first_word [tunnel, service, detail e ''source''] (dict_get (sv_details e) ''path'' ''global'')),
                    bad \<and> \<not> (family = ''listener'' \<and> tunnel \<noteq> []
                        \<and> confirmed (map_of metrics (''tunnel'', tunnel, ''listener_ownership_exact'')) (sv_ts e))
                      \<and> (family = ''managed_env'' \<longrightarrow> sn_invalid_sources snap),
                    if family = ''managed_env'' then ''managed_env_invalid'' else code)
               | None \<Rightarrow> (None, code = ''pid_replaced'' \<or> serious, code)))"

definition settle_event :: "(string \<times> string) option \<times> bool \<times> string
    \<Rightarrow> string set \<times> (string \<times> string) set \<Rightarrow> string set \<times> (string \<times> string) set" where
  "settle_event v acc =
     (case (v, acc) of ((subject, bad, code), (codes, resolved)) \<Rightarrow>
        (case subject of
           None \<Rightarrow> (if bad then insert code codes else codes, resolved)
         | Some i \<Rightarrow> if i \<in> resolved then acc else (if bad then insert code codes else codes, insert i resolved)))"

definition newest_first :: "snap_event list \<Rightarrow> snap_event list" where
  "newest_first = sort_key (\<lambda>e. - sv_ts e)"

definition required_event_codes :: "snapshot \<Rightarrow> int \<Rightarrow> health_policy \<Rightarrow> string set" where
  "required_event_codes snap now policy =
     fst (fold (\<lambda>e. settle_event (event_verdict snap e)) (filter (considered snap now policy) (newest_first (sn_health_events snap))) ({}, {}))
       \<union> (if sn_invalid_sources snap then {''managed_env_invalid''} else {})"


section \<open>The node\<close>

definition rank :: "node_status \<Rightarrow> nat" where
  "rank s = (case s of Is_healthy \<Rightarrow> 0 | Is_degraded \<Rightarrow> 1 | Is_unknown \<Rightarrow> 2 | Is_critical \<Rightarrow> 3 | Is_down \<Rightarrow> 0)"

definition threshold_status ::
  "snap_metric option \<Rightarrow> real \<Rightarrow> real \<Rightarrow> string \<Rightarrow> node_status option \<times> (string \<times> message) option" where
  "threshold_status x degraded critical code =
     (case Option.bind x sm_value of
        None \<Rightarrow> (None, None)
      | Some v \<Rightarrow>
          if critical \<le> v
          then if sm_quality (the x) \<in> {''exact'', ''derived''}
               then (Some Is_critical, Some (code @ ''_critical'', Percent (code @ '' is critically high'') v))
               else (Some Is_degraded, Some (code @ ''_estimated_high'', Percent (code @ '' estimate is high'') v))
          else if degraded \<le> v then (Some Is_degraded, Some (code @ ''_degraded'', Percent (code @ '' is high'') v))
          else (None, None))"

definition node_checks :: "(series_key, snap_metric) dict \<Rightarrow> health_policy \<Rightarrow> (snap_metric option \<times> real \<times> real \<times> string) list" where
  "node_checks metrics policy =
     [(map_of metrics (''host'', ''local'', ''cpu_utilization_percent''), cpu_degraded_percent policy, 101, ''cpu''),
      (map_of metrics (''host'', ''local'', ''memory_used_percent''), memory_degraded_percent policy, 101, ''memory''),
      (map_of metrics (''filesystem'', ''fs:/'', ''filesystem_used_percent''), filesystem_degraded_percent policy,
        filesystem_critical_percent policy, ''filesystem''),
      (map_of metrics (''host'', ''local'', ''conntrack_utilization_percent''), conntrack_degraded_percent policy,
        conntrack_critical_percent policy, ''conntrack''),
      (map_of metrics (''host'', ''local'', ''file_handles_utilization_percent''), file_handles_degraded_percent policy,
        file_handles_critical_percent policy, ''file_handles'')]"

definition apply_check :: "snap_metric option \<times> real \<times> real \<times> string \<Rightarrow> node_status \<times> (string \<times> message) list
    \<Rightarrow> node_status \<times> (string \<times> message) list" where
  "apply_check c acc =
     (case (c, acc) of ((x, degraded, critical, code), (st, rs)) \<Rightarrow>
        let (candidate, reason) = threshold_status x degraded critical code
        in (case candidate of None \<Rightarrow> st | Some s \<Rightarrow> if rank st < rank s then s else st,
            case reason of None \<Rightarrow> rs | Some r \<Rightarrow> rs @ [r]))"

definition required_metrics :: "(series_key, snap_metric) dict \<Rightarrow> snap_metric option list" where
  "required_metrics metrics =
     [map_of metrics (''host'', ''local'', ''cpu_utilization_percent''),
      map_of metrics (''host'', ''local'', ''memory_used_percent''),
      map_of metrics (''filesystem'', ''fs:/'', ''filesystem_used_percent'')]"

definition RECENT_CODES :: "string list" where
  "RECENT_CODES =
     [''metric_source_unavailable'', ''service_state_changed'', ''pid_replaced'', ''collection_failed'',
      ''database_retention_failed'', ''wal_checkpoint_failed'', ''listener_disappeared'', ''sampling_gap'']"

text \<open>\<open>if cond: status = "degraded" if it was healthy; reasons.append(...)\<close>.\<close>

definition degrade_if :: "bool \<Rightarrow> string \<times> string \<Rightarrow> node_status \<times> (string \<times> message) list \<Rightarrow> node_status \<times> (string \<times> message) list" where
  "degrade_if b r acc =
     (if b then (if fst acc = Is_healthy then Is_degraded else fst acc, snd acc @ [(fst r, Text (snd r))]) else acc)"

definition evaluate_node :: "snapshot \<Rightarrow> int \<Rightarrow> health_policy \<Rightarrow> health_result" where
  "evaluate_node snap now policy =
     (case sn_cycle snap of
        None \<Rightarrow> result Is_unknown [(''no_data'', Text ''No collector cycle is available'')] now None ''unavailable'' ''node'' ''local''
      | Some cycle \<Rightarrow>
          let age = max 0 (now - cy_collected_at cycle)
          in if stale_after_seconds policy < age
             then result Is_unknown [(''stale_data'', Text (''Latest sample is '' @ str_int age @ ''s old''))] now (Some age)
                    ''unavailable'' ''node'' ''local''
             else if \<not> cy_success cycle
             then result Is_critical [(''collector_cycle_failed'', Text ''Latest collector cycle failed'')] now (Some age)
                    ''exact'' ''node'' ''local''
             else
               let metrics = metric_map snap;
                   host = map snd (filter (\<lambda>((t, i, n), _). t \<in> {''host'', ''filesystem''}
                     \<and> i \<in> {''local'', ''fs:/'', ''fs:/var/lib/gost-manager''}) metrics);
                   (st1, rs1) = fold apply_check (node_checks metrics policy) (Is_healthy, []);
                   (st2, rs2) = (if list_ex unavailable (required_metrics metrics)
                     then (if st1 \<noteq> Is_critical then Is_unknown else st1,
                           rs1 @ [(''required_data_unavailable'', Text ''Required host utilization data is unavailable'')])
                     else (st1, rs1));
                   codes = required_event_codes snap now policy;
                   acc3 = degrade_if (list_ex (\<lambda>c. c \<in> codes) RECENT_CODES)
                     (''recent_monitoring_event'', ''A recent service or source transition was recorded'') (st2, rs2);
                   acc4 = degrade_if (''managed_env_invalid'' \<in> codes)
                     (''managed_env_invalid'', ''A managed tunnel environment source is malformed'') acc3;
                   (st5, rs5) = degrade_if (sn_truncated snap)
                     (''health_event_overflow'', ''Health event volume exceeded the bounded evaluation window'') acc4;
                   rs6 = (if rs5 = [] then [(''observations_current'', Text ''Current observations are within configured thresholds'')]
                     else rs5)
               in result st5 rs6 now (Some age) (quality_of host) ''node'' ''local'')"


section \<open>Services and tunnels\<close>

text \<open>\<open>float(metric.get("numeric_value") or 0) == 0\<close>.\<close>

definition is_zero :: "snap_metric option \<Rightarrow> bool" where
  "is_zero x = (case Option.bind x sm_value of None \<Rightarrow> True | Some v \<Rightarrow> v = 0)"

definition is_exact :: "snap_metric option \<Rightarrow> bool" where
  "is_exact x = (case x of None \<Rightarrow> False | Some v \<Rightarrow> sm_quality v = ''exact'')"

definition entity_groups :: "string \<Rightarrow> snapshot \<Rightarrow> (string, snap_metric list) dict" where
  "entity_groups kind snap =
     group_by sm_entity_id (map snd (filter (\<lambda>((t, _, _), _). t = kind) (metric_map snap)))"

definition by_name :: "snap_metric list \<Rightarrow> string \<Rightarrow> snap_metric option" where
  "by_name xs = map_of (fold (\<lambda>x d. AList.update (sm_name x) x d) xs [])"

definition newest_age :: "int \<Rightarrow> snap_metric list \<Rightarrow> int" where
  "newest_age now xs = max 0 (now - Max (set (map sm_ts xs)))"

definition service_verdict :: "(string \<Rightarrow> snap_metric option) \<Rightarrow> node_status \<times> (string \<times> string)" where
  "service_verdict m =
     (let active = m ''service_active''; listener = m ''listener_owned_count''; process = m ''process_rss_bytes''
      in if unavailable active then (Is_unknown, (''service_state_unavailable'', ''Service state is unavailable''))
         else if \<not> is_exact active then (Is_unknown, (''service_state_not_authoritative'', ''Service state is not authoritative''))
         else if is_zero active then (Is_down, (''service_inactive'', ''Service is inactive''))
         else if unavailable process then (Is_unknown, (''process_snapshot_unavailable'', ''Process snapshot is unavailable''))
         else if unavailable listener \<or> \<not> is_exact listener
         then (Is_unknown, (''listener_ownership_unavailable'', ''Listener ownership is unavailable''))
         else if is_zero listener then (Is_down, (''required_listener_missing'', ''No listener is owned by the active service''))
         else (Is_healthy, (''service_observed'', ''Service is active and observations are current'')))"

definition tunnel_verdict :: "(string \<Rightarrow> snap_metric option) \<Rightarrow> node_status \<times> (string \<times> string)" where
  "tunnel_verdict m =
     (let ownership = m ''listener_ownership_exact''; active = m ''service_active''
      in if unavailable active then (Is_unknown, (''service_state_unavailable'', ''Tunnel service state is unavailable''))
         else if is_exact active \<and> is_zero active then (Is_down, (''service_inactive'', ''Tunnel service is inactive''))
         else if \<not> is_exact active
         then (Is_unknown, (''service_state_not_authoritative'', ''Tunnel service state is not authoritative''))
         else if unavailable ownership \<or> \<not> is_exact ownership
         then (Is_unknown, (''listener_ownership_unavailable'', ''Listener ownership is unavailable''))
         else if is_zero ownership \<and> is_exact ownership then (Is_down, (''listener_missing'', ''Configured tunnel listener is missing''))
         else (Is_healthy, (''tunnel_observed'', ''Tunnel listener and service are observed'')))"

definition entity_result ::
  "((string \<Rightarrow> snap_metric option) \<Rightarrow> node_status \<times> (string \<times> string)) \<Rightarrow> string \<Rightarrow> int \<Rightarrow> string \<times> snap_metric list \<Rightarrow> string \<times> health_result" where
  "entity_result verdict kind now g =
     (case g of (i, xs) \<Rightarrow>
        let (st, code, msg) = verdict (by_name xs)
        in (i, result st [(code, Text msg)] now (Some (newest_age now xs)) (quality_of xs) kind i))"

definition evaluate_services :: "snapshot \<Rightarrow> int \<Rightarrow> (string, health_result) dict" where
  "evaluate_services snap now =
     (let results = map (entity_result service_verdict ''service'' now) (entity_groups ''service'' snap)
      in results @
         (if sn_authoritative snap
          then map (\<lambda>i. (i, result Is_unknown [(''service_data_unavailable'', Text ''Required service observations are unavailable'')]
                 now None ''unavailable'' ''service'' i))
               (filter (\<lambda>i. i \<notin> fst ` set results) (required_services snap))
          else []))"

definition evaluate_tunnels :: "snapshot \<Rightarrow> int \<Rightarrow> (string, health_result) dict" where
  "evaluate_tunnels snap now = map (entity_result tunnel_verdict ''tunnel'' now) (entity_groups ''tunnel'' snap)"


section \<open>The overall verdict\<close>

definition status_name :: "node_status \<Rightarrow> string" where
  "status_name s = (case s of Is_healthy \<Rightarrow> ''healthy'' | Is_degraded \<Rightarrow> ''degraded'' | Is_unknown \<Rightarrow> ''unknown''
     | Is_critical \<Rightarrow> ''critical'' | Is_down \<Rightarrow> ''down'')"

definition candidate :: "node_status \<Rightarrow> node_status" where
  "candidate s = (if s = Is_down then Is_critical else s)"

definition include_result ::
  "string \<Rightarrow> string \<Rightarrow> string \<times> health_result \<Rightarrow> node_status \<times> string list \<times> message list \<Rightarrow> node_status \<times> string list \<times> message list" where
  "include_result kind title ir acc =
     (case (ir, acc) of ((i, r), (st, codes, texts)) \<Rightarrow>
        (if rank st < rank (candidate (hr_status r)) then candidate (hr_status r) else st,
         if hr_status r \<noteq> Is_healthy then codes @ [kind @ ''_'' @ status_name (hr_status r)] else codes,
         if hr_status r \<noteq> Is_healthy then texts @ [Text (title @ '' '' @ i @ '' is '' @ status_name (hr_status r))] else texts))"

definition relevant_services :: "snapshot \<Rightarrow> (string, health_result) dict \<Rightarrow> (string, health_result) dict" where
  "relevant_services snap services = filter (\<lambda>(i, _). i \<in> set (required_services snap)) services"

record evaluation =
  overall :: health_result
  ev_services :: "(string, health_result \<times> bool) dict"
  ev_tunnels :: "(string, health_result) dict"

definition evaluate_snapshot :: "snapshot \<Rightarrow> health_policy \<Rightarrow> evaluation" where
  "evaluate_snapshot snap policy =
     (let now = sn_generated_at snap;
          node = evaluate_node snap now policy;
          services = evaluate_services snap now;
          tunnels = evaluate_tunnels snap now;
          (st, codes, texts) = fold (include_result ''tunnel'' ''Tunnel'') tunnels
            (fold (include_result ''service'' ''Service'') (relevant_services snap services)
              (hr_status node, reason_codes node, reasons node));
          paired_reasons = (if list_ex (\<lambda>(_, r). hr_status r \<noteq> Is_healthy) (relevant_services snap services @ tunnels)
            then filter (\<lambda>(c, _). c \<noteq> ''observations_current'') (zip codes texts) else zip codes texts)
      in \<lparr>overall = node\<lparr>hr_status := st, reason_codes := map fst paired_reasons, reasons := map snd paired_reasons\<rparr>,
          ev_services = map (\<lambda>(i, r). (i, r, i \<in> set (required_services snap))) services,
          ev_tunnels = tunnels\<rparr>)"


section \<open>The newest event of a subject decides\<close>

definition newest_about :: "snapshot \<Rightarrow> snap_event list \<Rightarrow> string \<times> string \<Rightarrow> snap_event option" where
  "newest_about snap es i = (case filter (\<lambda>e. fst (event_verdict snap e) = Some i) es of [] \<Rightarrow> None | e # _ \<Rightarrow> Some e)"

lemma first_match:
  "(\<exists>i x. i \<notin> R \<and> (if i = j then Some e else f i) = Some x \<and> P x) \<longleftrightarrow>
     j \<notin> R \<and> P e \<or> (\<exists>i x. i \<notin> insert j R \<and> f i = Some x \<and> P x)"
  by auto

lemma settle_events:
  "c \<in> fst (fold (\<lambda>e. settle_event (event_verdict snap e)) es (codes, resolved)) \<longleftrightarrow>
     c \<in> codes \<or> (\<exists>e \<in> set es. event_verdict snap e = (None, True, c))
     \<or> (\<exists>i e. i \<notin> resolved \<and> newest_about snap es i = Some e \<and> snd (event_verdict snap e) = (True, c))"
proof (induction es arbitrary: codes resolved)
  case Nil
  then show ?case by (simp add: newest_about_def)
next
  case (Cons e es)
  obtain subject bad code where v: "event_verdict snap e = (subject, bad, code)" by (metis prod.exhaust)
  show ?case
  proof (cases subject)
    case None
    have "newest_about snap (e # es) i = newest_about snap es i" for i using v None by (simp add: newest_about_def)
    then show ?thesis using v None Cons.IH [of "if bad then insert code codes else codes" resolved]
      by (auto simp: settle_event_def)
  next
    case (Some j)
    have other: "newest_about snap (e # es) i = (if i = j then Some e else newest_about snap es i)" for i
      using v Some by (auto simp: newest_about_def)
    have not_plain: "event_verdict snap e \<noteq> (None, True, c)" using v Some by simp
    have first: "(\<exists>i x. i \<notin> resolved \<and> newest_about snap (e # es) i = Some x \<and> snd (event_verdict snap x) = (True, c)) \<longleftrightarrow>
        j \<notin> resolved \<and> bad \<and> code = c
        \<or> (\<exists>i x. i \<notin> insert j resolved \<and> newest_about snap es i = Some x \<and> snd (event_verdict snap x) = (True, c))"
      unfolding other first_match using v by simp
    have step: "settle_event (event_verdict snap e) (codes, resolved)
        = (if j \<notin> resolved \<and> bad then insert code codes else codes, insert j resolved)"
      using v Some by (auto simp: settle_event_def insert_absorb)
    show ?thesis
      using not_plain Cons.IH [of "if j \<notin> resolved \<and> bad then insert code codes else codes" "insert j resolved"]
      unfolding first fold_simps(2) step list.set by auto
  qed
qed

text \<open>Of the events that concern a current tunnel, a required service or a required source and are recent,
  only the newest about each subject counts: a code is raised exactly when the newest event about some
  subject is a problem with that code (so that a recovery silences an older failure), when an event
  without a subject says so, or when a managed source is invalid now.\<close>

theorem newest_event_decides:
  "let es = filter (considered snap now policy) (newest_first (sn_health_events snap))
   in required_event_codes snap now policy =
        {c. (\<exists>e. e \<in> set es \<and> event_verdict snap e = (None, True, c))
          \<or> (\<exists>i e. newest_about snap es i = Some e \<and> snd (event_verdict snap e) = (True, c))
          \<or> sn_invalid_sources snap \<and> c = ''managed_env_invalid''}"
  unfolding Let_def required_event_codes_def by (auto simp: settle_events)


section \<open>The overall verdict is the worst\<close>

definition worst :: "node_status list \<Rightarrow> node_status \<Rightarrow> node_status" where
  "worst cs s = fold (\<lambda>c st. if rank st < rank c then c else st) cs s"

lemma worst_bounds:
  "worst cs s \<in> insert s (set cs)" "rank s \<le> rank (worst cs s)" "c \<in> set cs \<Longrightarrow> rank c \<le> rank (worst cs s)"
proof -
  have "worst cs s \<in> insert s (set cs) \<and> rank s \<le> rank (worst cs s) \<and> (\<forall>c \<in> set cs. rank c \<le> rank (worst cs s))"
  proof (induction cs arbitrary: s)
    case (Cons c cs)
    from Cons [of "if rank s < rank c then c else s"] show ?case unfolding worst_def by (auto split: if_splits)
  qed (simp add: worst_def)
  then show "worst cs s \<in> insert s (set cs)" "rank s \<le> rank (worst cs s)" "c \<in> set cs \<Longrightarrow> rank c \<le> rank (worst cs s)"
    by auto
qed

lemma worst_append: "worst (as @ bs) s = worst bs (worst as s)"
  by (simp add: worst_def)

lemma include_all:
  "\<exists>codes' texts'. fold (include_result kind title) rs (st, codes, texts) = (worst (map (candidate \<circ> hr_status \<circ> snd) rs) st, codes', texts')
     \<and> (length codes = length texts \<longrightarrow> length codes' = length texts')"
proof (induction rs arbitrary: st codes texts)
  case (Cons ir rs)
  obtain i r where ir: "ir = (i, r)" by (cases ir)
  define st' where "st' = (if rank st < rank (candidate (hr_status r)) then candidate (hr_status r) else st)"
  define c' where "c' = (if hr_status r \<noteq> Is_healthy then codes @ [kind @ ''_'' @ status_name (hr_status r)] else codes)"
  define t' where "t' = (if hr_status r \<noteq> Is_healthy then texts @ [Text (title @ '' '' @ i @ '' is '' @ status_name (hr_status r))] else texts)"
  have step: "include_result kind title ir (st, codes, texts) = (st', c', t')"
    by (simp add: ir include_result_def st'_def c'_def t'_def)
  have w: "worst (map (candidate \<circ> hr_status \<circ> snd) (ir # rs)) st = worst (map (candidate \<circ> hr_status \<circ> snd) rs) st'"
    by (simp add: worst_def st'_def ir)
  have "length codes = length texts \<longrightarrow> length c' = length t'" by (simp add: c'_def t'_def)
  then show ?case using Cons.IH [of st' c' t'] unfolding w fold_simps(2) step by blast
qed (simp add: worst_def)

lemma evaluate_node_not_down: "hr_status (evaluate_node snap now policy) \<noteq> Is_down"
  and evaluate_node_reasons: "length (reason_codes (evaluate_node snap now policy)) = length (reasons (evaluate_node snap now policy))"
proof -
  have checks: "fst (fold apply_check cs (st, rs)) \<noteq> Is_down" if "st \<noteq> Is_down" for cs st rs
    using that
  proof (induction cs arbitrary: st rs)
    case (Cons c cs)
    obtain x d k code where c: "c = (x, d, k, code)" by (metis prod.exhaust)
    have "fst (apply_check c (st, rs)) \<noteq> Is_down"
      using Cons.prems by (auto simp: c apply_check_def threshold_status_def split: option.splits)
    then show ?case using Cons.IH [of "fst (apply_check c (st, rs))" "snd (apply_check c (st, rs))"] by simp
  qed simp
  have degrade: "fst (degrade_if b r acc) \<noteq> Is_down" if "fst acc \<noteq> Is_down" for b r acc
    using that by (simp add: degrade_if_def)
  show "hr_status (evaluate_node snap now policy) \<noteq> Is_down"
    using checks [of Is_healthy "node_checks (metric_map snap) policy" "[]"]
    by (auto simp: evaluate_node_def result_def Let_def split_beta degrade split: option.split)
  show "length (reason_codes (evaluate_node snap now policy)) = length (reasons (evaluate_node snap now policy))"
    by (simp add: evaluate_node_def result_def Let_def split_beta split: option.split)
qed

text \<open>C33: the overall status is the worst of the node's and of those of every required service and every tunnel,
  where one that is down counts as critical; so it is healthy exactly when all of them are. Every reason
  code has its text, and a healthy-sounding reason is not left beside a problem.\<close>

theorem overall_is_worst:
  "let now = sn_generated_at snap; node = evaluate_node snap now policy;
       relevant = relevant_services snap (evaluate_services snap now) @ evaluate_tunnels snap now;
       all = overall (evaluate_snapshot snap policy)
   in rank (hr_status node) \<le> rank (hr_status all)
    \<and> list_all (\<lambda>(i, r). rank (candidate (hr_status r)) \<le> rank (hr_status all)) relevant
    \<and> hr_status all \<in> insert (hr_status node) (set (map (candidate \<circ> hr_status \<circ> snd) relevant))
    \<and> (hr_status all = Is_healthy \<longleftrightarrow> hr_status node = Is_healthy \<and> list_all (\<lambda>(i, r). hr_status r = Is_healthy) relevant)
    \<and> length (reason_codes all) = length (reasons all)
    \<and> (if list_all (\<lambda>(i, r). hr_status r = Is_healthy) relevant then True else ''observations_current'' \<notin> set (reason_codes all))"
proof -
  let ?now = "sn_generated_at snap"
  define node where "node = evaluate_node snap ?now policy"
  define ss where "ss = relevant_services snap (evaluate_services snap ?now)"
  define ts where "ts = evaluate_tunnels snap ?now"
  let ?cs = "map (candidate \<circ> hr_status \<circ> snd) (ss @ ts)"
  obtain c1 t1 where 1: "fold (include_result ''service'' ''Service'') ss (hr_status node, reason_codes node, reasons node)
      = (worst (map (candidate \<circ> hr_status \<circ> snd) ss) (hr_status node), c1, t1)" "length c1 = length t1"
    using include_all [of "''service''" "''Service''" ss] evaluate_node_reasons unfolding node_def by blast
  obtain c2 t2 where 2: "fold (include_result ''tunnel'' ''Tunnel'') ts (worst (map (candidate \<circ> hr_status \<circ> snd) ss) (hr_status node), c1, t1)
      = (worst ?cs (hr_status node), c2, t2)" "length c2 = length t2"
    using include_all [of "''tunnel''" "''Tunnel''" ts "worst (map (candidate \<circ> hr_status \<circ> snd) ss) (hr_status node)" c1 t1] 1(2)
    unfolding map_append worst_append by blast
  define prs where "prs = (if list_ex (\<lambda>(_, r). hr_status r \<noteq> Is_healthy) (ss @ ts)
    then filter (\<lambda>(c, _). c \<noteq> ''observations_current'') (zip c2 t2) else zip c2 t2)"
  have all: "overall (evaluate_snapshot snap policy)
      = node\<lparr>hr_status := worst ?cs (hr_status node), reason_codes := map fst prs, reasons := map snd prs\<rparr>"
    unfolding evaluate_snapshot_def Let_def node_def [symmetric] ss_def [symmetric] ts_def [symmetric] 1(1) 2(1) prs_def by simp
  have nd: "hr_status node \<noteq> Is_down" unfolding node_def by (rule evaluate_node_not_down)
  have zero: "rank s = 0 \<longleftrightarrow> s = Is_healthy \<or> s = Is_down" for s by (cases s) (simp_all add: rank_def)
  have cand: "candidate s \<noteq> Is_down" "candidate s = Is_healthy \<longleftrightarrow> s = Is_healthy" for s by (simp_all add: candidate_def)
  have healthy: "worst ?cs (hr_status node) = Is_healthy \<longleftrightarrow>
      hr_status node = Is_healthy \<and> list_all (\<lambda>(i, r). hr_status r = Is_healthy) (ss @ ts)"
  proof
    assume h: "worst ?cs (hr_status node) = Is_healthy"
    then have "rank (hr_status node) = 0" "\<forall>c \<in> set ?cs. rank c = 0"
      using worst_bounds(2,3) [where cs = ?cs and s = "hr_status node"] by (auto simp: rank_def [of Is_healthy])
    then have "hr_status node = Is_healthy" "hr_status (snd x) = Is_healthy" if "x \<in> set (ss @ ts)" for x
      using that nd cand [of "hr_status (snd x)"] zero by auto
    moreover have "hr_status node = Is_healthy" using \<open>rank (hr_status node) = 0\<close> nd zero by simp
    ultimately show "hr_status node = Is_healthy \<and> list_all (\<lambda>(i, r). hr_status r = Is_healthy) (ss @ ts)"
      unfolding list_all_iff split_beta by blast
  next
    assume h: "hr_status node = Is_healthy \<and> list_all (\<lambda>(i, r). hr_status r = Is_healthy) (ss @ ts)"
    then have "candidate (hr_status (snd x)) = Is_healthy" if "x \<in> set (ss @ ts)" for x
      using that cand(2) unfolding list_all_iff split_beta by blast
    then have "set ?cs \<subseteq> {Is_healthy}" by auto
    then show "worst ?cs (hr_status node) = Is_healthy" using worst_bounds(1) [of ?cs "hr_status node"] h by auto
  qed
  have bounds: "list_all (\<lambda>(i, r). rank (candidate (hr_status r)) \<le> rank (worst ?cs (hr_status node))) (ss @ ts)"
    unfolding list_all_iff split_beta by (intro ballI worst_bounds(3)) (simp add: image_iff, blast)
  have clean: "\<not> list_all (\<lambda>(i, r). hr_status r = Is_healthy) (ss @ ts) \<longrightarrow> ''observations_current'' \<notin> fst ` set prs"
    by (auto simp: prs_def list_ex_iff list_all_iff)
  show ?thesis
    unfolding Let_def all node_def [symmetric] ss_def [symmetric] ts_def [symmetric]
    using worst_bounds(1,2) [where cs = ?cs and s = "hr_status node"] healthy bounds clean by simp
qed


section \<open>What a healthy node means\<close>

lemma apply_check_healthy:
  "fst (apply_check (x, d, k, code) (st, rs)) = Is_healthy \<longleftrightarrow>
     st = Is_healthy \<and> (case Option.bind x sm_value of None \<Rightarrow> True | Some v \<Rightarrow> v < k \<and> v < d)"
  if "st \<noteq> Is_down"
  using that by (cases st) (auto simp: apply_check_def threshold_status_def rank_def split: option.splits)

lemma apply_check_not_down: "st \<noteq> Is_down \<Longrightarrow> fst (apply_check c (st, rs)) \<noteq> Is_down"
  by (cases c) (auto simp: apply_check_def threshold_status_def split: option.splits)

lemma checks_healthy:
  "st \<noteq> Is_down \<Longrightarrow> fst (fold apply_check cs (st, rs)) = Is_healthy \<longleftrightarrow>
     st = Is_healthy \<and> list_all (\<lambda>(x, d, k, _). case Option.bind x sm_value of None \<Rightarrow> True | Some v \<Rightarrow> v < k \<and> v < d) cs"
proof (induction cs arbitrary: st rs)
  case (Cons c cs)
  obtain x d k code where c: "c = (x, d, k, code)" by (metis prod.exhaust)
  obtain st' rs' where s: "apply_check c (st, rs) = (st', rs')" by fastforce
  have "st' \<noteq> Is_down" using apply_check_not_down [OF Cons.prems, of c rs] s by simp
  then show ?case using Cons.IH [of st' rs'] apply_check_healthy [OF Cons.prems, of x d k code rs] s by (simp add: c)
qed simp

lemma degrade_healthy: "fst (degrade_if b r acc) = Is_healthy \<longleftrightarrow> \<not> b \<and> fst acc = Is_healthy"
  by (simp add: degrade_if_def)

text \<open>The node is called healthy exactly when a collector cycle exists, is recent and succeeded, the three
  required utilisation values are present, available and not stale, every observed value is below both
  of its thresholds, no event of the watched kinds is open, no managed source is invalid and no event
  was cut off.\<close>

theorem healthy_node_iff:
  "hr_status (evaluate_node snap now policy) = Is_healthy \<longleftrightarrow>
     (case sn_cycle snap of
        None \<Rightarrow> False
      | Some cycle \<Rightarrow> max 0 (now - cy_collected_at cycle) \<le> stale_after_seconds policy \<and> cy_success cycle)
     \<and> list_all (\<lambda>x. \<not> unavailable x) (required_metrics (metric_map snap))
     \<and> list_all (\<lambda>(x, d, k, _). case Option.bind x sm_value of None \<Rightarrow> True | Some v \<Rightarrow> v < k \<and> v < d)
         (node_checks (metric_map snap) policy)
     \<and> list_all (\<lambda>c. c \<notin> required_event_codes snap now policy) (''managed_env_invalid'' # RECENT_CODES)
     \<and> \<not> sn_truncated snap"
proof (cases "sn_cycle snap")
  case None
  then show ?thesis by (simp add: evaluate_node_def result_def)
next
  case (Some cycle)
  have ex: "list_ex P xs = (\<not> list_all (\<lambda>x. \<not> P x) xs)" for P and xs :: "'z list" by (simp add: list_ex_iff list_all_iff)
  show ?thesis
    unfolding evaluate_node_def Some option.case Let_def ex
    using checks_healthy [of Is_healthy "node_checks (metric_map snap) policy" "[]"]
    by (auto simp: result_def split_beta degrade_healthy)
qed

end
