(* ===== verification/Monitoring_Metrics.thy ===== *)
theory Monitoring_Metrics
  imports Monitoring_Rollups "HOL-Library.List_Lexorder" "HOL-Library.Char_ord"
begin

text \<open>
  What the readers of the collector share: the text operations of Python they use (\<open>str.split()\<close>,
  \<open>str.rstrip\<close>, \<open>str.isdigit\<close>, \<open>int\<close>, substring tests), the \<open>Metric\<close> and \<open>CounterDelta\<close> of
  \<open>src/monitoring/models.py\<close>, and \<open>counter_delta\<close> of \<open>network_readers.py\<close>, the one place where a rate is
  made of two readings of a counter.

  The lemmas: a metric is accepted exactly when its quality is known; a reading without a value is marked
  unavailable (\<open>honest\<close>), which the readers then keep; the deltas of a counter that grows add up to its growth,
  and a drop is reported as a reset, never as a rate.
\<close>

section \<open>Python text\<close>

datatype reader_exn = ReadValueError string | ReadOSError | ReadKeyError

text \<open>\<open>str.split()\<close>: the maximal runs of characters that are not space.\<close>

fun split_ws :: "string \<Rightarrow> string list" where
  "split_ws [] = []"
| "split_ws (c # cs) =
     (if is_space c then split_ws cs
      else if cs = [] \<or> is_space (hd cs) then [c] # split_ws cs
      else (case split_ws cs of [] \<Rightarrow> [[c]] | w # ws \<Rightarrow> (c # w) # ws))"

definition rstrip_char :: "char \<Rightarrow> string \<Rightarrow> string" where
  "rstrip_char c s = rev (dropWhile (\<lambda>x. x = c) (rev s))"

definition lstrip_char :: "char \<Rightarrow> string \<Rightarrow> string" where
  "lstrip_char c s = dropWhile (\<lambda>x. x = c) s"

text \<open>\<open>sub in s\<close>.\<close>

definition has_sub :: "string \<Rightarrow> string \<Rightarrow> bool" where
  "has_sub sub s \<longleftrightarrow> list_ex (\<lambda>i. starts_with (drop i s) sub) [0..<Suc (length s)]"

text \<open>\<open>str.isdigit\<close> also accepts the superscripts two, three and one, which \<open>int\<close> refuses.\<close>

definition isdigit :: "string \<Rightarrow> bool" where
  "isdigit s \<longleftrightarrow> s \<noteq> [] \<and> list_all (\<lambda>c. is_digit c \<or> of_char c \<in> {178, 179, 185 :: nat}) s"

text \<open>\<open>str.lower\<close> and \<open>str.upper\<close> on the ASCII letters. No other character below code point 256 has an ASCII
  letter as its lower case; the texts the program puts into upper case are ASCII.\<close>

definition lower_char :: "char \<Rightarrow> char" where
  "lower_char c = (if is_upper c then char_of (of_char c + 32 :: nat) else c)"

definition upper_char :: "char \<Rightarrow> char" where
  "upper_char c = (if is_lower c then char_of (of_char c - 32 :: nat) else c)"

definition read_int :: "string \<Rightarrow> (reader_exn, int) result" where
  "read_int s = (case text_int s of None \<Rightarrow> Inl (ReadValueError ''invalid literal for int()'') | Some i \<Rightarrow> Inr i)"

text \<open>A dict comprehension: later entries of a key replace earlier ones in place.\<close>

definition dict_of :: "('k \<times> 'v) list \<Rightarrow> ('k, 'v) dict" where
  "dict_of kvs = fold (\<lambda>(k, v) d. AList.update k v d) kvs []"


section \<open>Metrics\<close>

definition QUALITY :: "string list" where
  "QUALITY = [''exact'', ''derived'', ''estimated'', ''unavailable'']"

datatype metric_value = VInt int | VReal real | VText string

record metric =
  m_scope :: string
  m_name :: string
  m_value :: "metric_value option"
  m_unit :: string
  m_quality :: string
  m_labels :: "(string, string) dict"
  m_entity_type :: "string option"
  m_entity_id :: "string option"
  m_reset :: bool
  m_gap :: bool

definition Metric ::
  "string \<Rightarrow> string \<Rightarrow> metric_value option \<Rightarrow> string \<Rightarrow> string \<Rightarrow> (string, string) dict \<Rightarrow> string \<Rightarrow> string \<Rightarrow> metric" where
  "Metric scope name value un qual labels etype eid =
     \<lparr>m_scope = scope, m_name = name, m_value = value, m_unit = un, m_quality = qual, m_labels = labels,
      m_entity_type = Some etype, m_entity_id = Some eid, m_reset = False, m_gap = False\<rparr>"

definition post_init :: "metric \<Rightarrow> (reader_exn, metric) result" where
  "post_init m = (if m_quality m \<in> set QUALITY then Inr m else Inl (ReadValueError ''invalid metric quality''))"

text \<open>The list of metrics a reader builds: each one is checked as it is made.\<close>

definition metrics :: "metric list \<Rightarrow> (reader_exn, metric list) result" where
  "metrics ms = mapR post_init ms"

definition host_metric :: "string \<Rightarrow> metric_value option \<Rightarrow> string \<Rightarrow> string \<Rightarrow> metric" where
  "host_metric name value un qual = Metric ''host'' name value un qual [] ''host'' ''local''"

definition presence :: "string \<Rightarrow> 'a option \<Rightarrow> string" where
  "presence qual v = (if v = None then ''unavailable'' else qual)"


section \<open>Counter deltas\<close>

record CounterDelta =
  cd_delta :: "int option"
  cd_rate :: "real option"
  cd_quality :: string
  cd_reset :: bool
  cd_gap :: bool

definition over_gap :: "real option \<Rightarrow> real \<Rightarrow> bool" where
  "over_gap max_gap elapsed = (case max_gap of None \<Rightarrow> False | Some g \<Rightarrow> g < elapsed)"

definition counter_delta :: "int option \<Rightarrow> int option \<Rightarrow> real \<Rightarrow> real option \<Rightarrow> CounterDelta" where
  "counter_delta previous current elapsed max_gap =
     (case (previous, current) of
        (Some p, Some c) \<Rightarrow>
          if elapsed \<le> 0 then \<lparr>cd_delta = None, cd_rate = None, cd_quality = ''unavailable'', cd_reset = False, cd_gap = False\<rparr>
          else if c < p
          then \<lparr>cd_delta = None, cd_rate = None, cd_quality = ''unavailable'', cd_reset = True, cd_gap = over_gap max_gap elapsed\<rparr>
          else \<lparr>cd_delta = Some (c - p), cd_rate = Some (of_int (c - p) / elapsed), cd_quality = ''derived'', cd_reset = False,
                cd_gap = over_gap max_gap elapsed\<rparr>
      | _ \<Rightarrow> \<lparr>cd_delta = None, cd_rate = None, cd_quality = ''unavailable'', cd_reset = False, cd_gap = False\<rparr>)"

text \<open>\<open>elapsed or 0.0\<close>.\<close>

abbreviation elapsed_or_0 :: "real option \<Rightarrow> real" where
  "elapsed_or_0 e \<equiv> (case e of None \<Rightarrow> 0 | Some x \<Rightarrow> x)"


section \<open>Well-made metrics\<close>

definition honest :: "metric \<Rightarrow> bool" where
  "honest m \<longleftrightarrow> m_quality m \<in> set QUALITY \<and> (if m_value m = None then m_quality m = ''unavailable'' else True)"

text \<open>A reader that succeeds or fails but whose every metric is honest.\<close>

definition honest_reading :: "(reader_exn, metric list) result \<Rightarrow> bool" where
  "honest_reading r \<longleftrightarrow> (case r of Inl _ \<Rightarrow> True | Inr ms \<Rightarrow> list_all honest ms)"

named_theorems metric_simps \<open>the fields of the metrics the readers build\<close>

lemma metrics_known: "list_all (\<lambda>m. m_quality m \<in> set QUALITY) ms \<Longrightarrow> metrics ms = Inr ms"
  unfolding metrics_def by (induction ms) (simp_all add: post_init_def)

lemma metrics_Inr: "metrics ms = Inr ns \<longleftrightarrow> ns = ms \<and> list_all (\<lambda>m. m_quality m \<in> set QUALITY) ms"
  unfolding metrics_def by (induction ms arbitrary: ns) (auto simp: post_init_def bindR_eq_Inr)

lemma honest_known: "list_all honest ms \<Longrightarrow> metrics ms = Inr ms"
  by (rule metrics_known) (simp add: list_all_iff honest_def)

lemma honest_metrics: "list_all honest ms \<Longrightarrow> \<exists>ns. metrics ms = Inr ns \<and> list_all honest ns"
  by (simp add: honest_known)

lemma list_all_concat_map: "(\<And>x. list_all P (f x)) \<Longrightarrow> list_all P (concat (map f xs))"
  by (induction xs) simp_all

lemma Metric_fields [metric_simps]:
  "m_scope (Metric s n v u q l et i) = s" "m_name (Metric s n v u q l et i) = n" "m_value (Metric s n v u q l et i) = v"
  "m_unit (Metric s n v u q l et i) = u" "m_quality (Metric s n v u q l et i) = q"
  "m_labels (Metric s n v u q l et i) = l" "m_entity_type (Metric s n v u q l et i) = Some et"
  "m_entity_id (Metric s n v u q l et i) = Some i"
  "m_reset (Metric s n v u q l et i) = False" "m_gap (Metric s n v u q l et i) = False"
  by (simp_all add: Metric_def)

lemma QUALITY_members [simp]:
  "''exact'' \<in> set QUALITY" "''derived'' \<in> set QUALITY" "''estimated'' \<in> set QUALITY" "''unavailable'' \<in> set QUALITY"
  by (simp_all add: QUALITY_def)

lemma honest_flags [simp]: "honest (m\<lparr>m_reset := r\<rparr>) = honest m" "honest (m\<lparr>m_gap := g\<rparr>) = honest m"
  by (simp_all add: honest_def)

lemma honest_Metric [metric_simps]:
  "honest (Metric s n v u q l et i) \<longleftrightarrow> q \<in> set QUALITY \<and> (if v = None then q = ''unavailable'' else True)"
  by (simp add: honest_def Metric_fields)

lemma presence_known [simp]: "q \<in> set QUALITY \<Longrightarrow> presence q v \<in> set QUALITY"
  by (simp add: presence_def)

lemma presence_None [simp]: "presence q None = ''unavailable''" "presence q (Some x) = q"
  by (simp_all add: presence_def)

lemma honest_reading_metrics: "list_all honest ms \<Longrightarrow> honest_reading (metrics ms)"
  by (simp add: honest_reading_def honest_known)

lemma honest_reading_bind: "(\<And>x. r = Inr x \<Longrightarrow> honest_reading (f x)) \<Longrightarrow> honest_reading (bindR r f)"
  by (cases r) (auto simp: honest_reading_def)

lemma honest_reading_Inl [simp]: "honest_reading (Inl e)"
  by (simp add: honest_reading_def)

lemma honest_present: "q \<in> set QUALITY \<Longrightarrow> honest (Metric s n (map_option f v) u (presence q v) l et i)"
  by (cases v) (simp_all add: honest_Metric)

lemma honest_value: "q \<in> set QUALITY \<Longrightarrow> honest (Metric s n (Some v) u q l et i)"
  by (simp add: honest_Metric)


section \<open>Rates of a counter\<close>

lemma counter_delta_honest [simp]: "cd_quality (counter_delta p c e g) \<in> set QUALITY"
  by (simp add: counter_delta_def split: option.splits)

lemma rate_None: "cd_rate (counter_delta p c e g) = None \<longleftrightarrow> cd_quality (counter_delta p c e g) = ''unavailable''"
  by (simp add: counter_delta_def split: option.splits)

lemma rate_honest:
  "honest (Metric s n (map_option VReal (cd_rate (counter_delta p c e g))) u (cd_quality (counter_delta p c e g)) l et i)"
  using rate_None [of p c e g] by (simp add: honest_Metric)

lemma counter_delta_Some:
  "cd_rate (counter_delta p c e g) = Some r \<longleftrightarrow>
     (\<exists>a b. p = Some a \<and> c = Some b \<and> 0 < e \<and> a \<le> b \<and> r = of_int (b - a) / e)"
  by (auto simp: counter_delta_def split: option.splits)

lemma counter_delta_reset:
  "cd_reset (counter_delta p c e g) \<longleftrightarrow> (\<exists>a b. p = Some a \<and> c = Some b \<and> 0 < e \<and> b < a)"
  by (auto simp: counter_delta_def split: option.splits)

text \<open>A series of readings (value and time) and the deltas between neighbours.\<close>

fun reading_deltas :: "real option \<Rightarrow> (int \<times> real) list \<Rightarrow> CounterDelta list" where
  "reading_deltas g ((a, s) # (b, t) # rest) = counter_delta (Some a) (Some b) (t - s) g # reading_deltas g ((b, t) # rest)"
| "reading_deltas g _ = []"

definition growth :: "CounterDelta list \<Rightarrow> int" where
  "growth ds = sum_list (map (\<lambda>d. case cd_delta d of None \<Rightarrow> 0 | Some x \<Rightarrow> x) ds)"

fun drops :: "int list \<Rightarrow> int list" where
  "drops (a # b # rest) = (if b < a then (a - b) # drops (b # rest) else drops (b # rest))"
| "drops _ = []"

lemma reading_deltas_conserve:
  assumes "xs \<noteq> []" and "sorted_wrt (<) (map snd xs)"
  shows "growth (reading_deltas g xs) = fst (last xs) - fst (hd xs) + sum_list (drops (map fst xs))
    \<and> length (filter cd_reset (reading_deltas g xs)) = length (drops (map fst xs))"
  using assms
proof (induction g xs rule: reading_deltas.induct)
  case (1 g a s b t rest)
  have lt: "s < t" using "1.prems"(2) by simp
  have ih: "growth (reading_deltas g ((b, t) # rest)) = fst (last ((b, t) # rest)) - b + sum_list (drops (map fst ((b, t) # rest)))"
     "length (filter cd_reset (reading_deltas g ((b, t) # rest))) = length (drops (map fst ((b, t) # rest)))"
    using "1.IH" "1.prems"(2) by simp_all
  show ?case using lt ih by (simp add: growth_def counter_delta_def)
qed (simp_all add: growth_def)

text \<open>The rates of a counter account for all of its movement: over any series of readings in time order,
  the deltas add up to the change of the counter plus what its drops took away, and a reset is flagged for
  exactly the drops; so without a drop the deltas add up to the growth.\<close>

theorem counter_rates_conserve:
  assumes "xs \<noteq> []" and "sorted_wrt (<) (map snd xs)"
  shows "growth (reading_deltas g xs) = fst (last xs) - fst (hd xs) + sum_list (drops (map fst xs))
    \<and> length (filter cd_reset (reading_deltas g xs)) = length (drops (map fst xs))"
  using assms by (rule reading_deltas_conserve)

theorem counter_rates_conserve_witness:
  "growth (reading_deltas (Some 30) [(100, 0), (150, 10), (20, 20), (70, 60)]) = 100
    \<and> length (filter cd_reset (reading_deltas (Some 30) [(100, 0), (150, 10), (20, 20), (70, 60)])) = 1"
  using counter_rates_conserve [of "[(100, 0), (150, 10), (20, 20), (70, 60)]" "Some 30"] by simp


section \<open>Words of a line\<close>

definition word :: "string \<Rightarrow> bool" where
  "word w \<longleftrightarrow> w \<noteq> [] \<and> list_all (\<lambda>c. \<not> is_space c) w"

definition words_line :: "string list \<Rightarrow> string" where
  "words_line ws = concat (map (\<lambda>w. CHR '' '' # w) ws)"

lemma split_ws_word:
  assumes "word w" and "rest = [] \<or> is_space (hd rest)"
  shows "split_ws (w @ rest) = w # split_ws rest"
  using assms
proof (induction w)
  case (Cons c w)
  show ?case
  proof (cases w)
    case Nil
    then show ?thesis using Cons.prems by (auto simp: word_def)
  next
    case (Cons d v)
    then have "word w" using Cons.prems(1) by (simp add: word_def)
    then have "split_ws (w @ rest) = w # split_ws rest" using Cons.IH Cons.prems(2) by blast
    then show ?thesis using Cons Cons.prems(1) by (simp add: word_def)
  qed
qed (simp add: word_def)

lemma split_ws_words: "list_all word ws \<Longrightarrow> split_ws (words_line ws) = ws"
proof (induction ws)
  case (Cons w ws)
  have "words_line ws = [] \<or> is_space (hd (words_line ws))" by (cases ws) (simp_all add: words_line_def is_space_def)
  then have "split_ws (w @ words_line ws) = w # split_ws (words_line ws)"
    using Cons.prems by (intro split_ws_word) simp_all
  then show ?case using Cons by (simp add: words_line_def is_space_def)
qed (simp add: words_line_def)

lemma word_str_nat: "word (str_nat n)"
  using str_nat_digits digit_not_space by (auto simp: word_def list_all_iff str_nat_nonempty)

lemma split_ws_parts: "list_all word (split_ws s)"
  by (induction s rule: split_ws.induct) (auto simp: word_def split: list.splits)

lemma read_int_str_nat: "length (str_nat n) \<le> 4300 \<Longrightarrow> read_int (str_nat n) = Inr (int n)"
  by (simp add: read_int_def text_int_str_nat)

text \<open>The counters of the kernel have 64 bits.\<close>

lemma read_int_counter: "n < 2 ^ 64 \<Longrightarrow> read_int (str_nat n) = Inr (int n)"
  using length_str_nat_digits [of n 20] by (intro read_int_str_nat) simp

lemma mapR_read_counters: "list_all (\<lambda>n. n < 2 ^ 64) ns \<Longrightarrow> mapR read_int (map str_nat ns) = Inr (map int ns)"
  by (induction ns) (simp_all add: read_int_counter)

lemma dict_of_distinct: "distinct (map fst kvs) \<Longrightarrow> dict_of kvs = kvs"
proof -
  have "distinct (map fst (d @ kvs)) \<Longrightarrow> fold (\<lambda>(k, v) d. AList.update k v d) kvs d = d @ kvs" for d
  proof (induction kvs arbitrary: d)
    case (Cons kv kvs)
    have upd: "k \<notin> fst ` set d \<Longrightarrow> AList.update k v d = d @ [(k, v)]" for k v
      by (induction d) auto
    show ?case using Cons.prems Cons.IH [of "d @ [kv]"] upd by (cases kv) auto
  qed simp
  from this [of "[]"] show "distinct (map fst kvs) \<Longrightarrow> dict_of kvs = kvs" by (simp add: dict_of_def)
qed

lemma map_of_dict_of: "map_of (dict_of kvs) k = map_of (rev kvs) k"
proof -
  have "map_of (fold (\<lambda>(k, v) d. AList.update k v d) kvs d) k = (case map_of (rev kvs) k of None \<Rightarrow> map_of d k | Some v \<Rightarrow> Some v)" for d
    by (induction kvs arbitrary: d) (auto simp: update_conv' map_add_Some_iff split: option.splits)
  from this [of "[]"] show ?thesis by (simp add: dict_of_def split: option.splits)
qed

lemma dict_of_keys: "distinct (map fst (dict_of kvs)) \<and> fst ` set (dict_of kvs) = fst ` set kvs"
proof -
  have "distinct (map fst d) \<Longrightarrow> distinct (map fst (fold (\<lambda>(k, v) d. AList.update k v d) kvs d))" for d
    by (induction kvs arbitrary: d) (auto simp: distinct_update)
  moreover have "fst ` set (dict_of kvs) = dom (map_of (dict_of kvs))" by (simp add: dom_map_of_conv_image_fst)
  moreover have "map_of (dict_of kvs) = map_of (rev kvs)" by (rule ext) (rule map_of_dict_of)
  moreover have "dom (map_of (rev kvs)) = fst ` set kvs" by (simp add: dom_map_of_conv_image_fst)
  ultimately show ?thesis by (simp add: dict_of_def)
qed

end
