(* ===== verification/Monitoring_Network.thy ===== *)
theory Monitoring_Network
  imports Monitoring_Metrics
begin

text \<open>
  \<open>src/monitoring/network_readers.py\<close>: the interface table of \<open>/proc/net/dev\<close>, the link attributes below
  \<open>/sys/class/net\<close>, the paired tables of \<open>/proc/net/snmp\<close> and \<open>netstat\<close>, and the metrics made of two readings of
  them. A file read is an answer (\<open>None\<close> where it raises \<open>OSError\<close> or \<open>ValueError\<close>).

  The lemmas: what the parsers accept, that a written table is read back, and that the metrics are well made.
\<close>

section \<open>Interfaces\<close>

record interface_counters =
  if_name :: string
  rx_bytes :: int
  rx_packets :: int
  rx_errors :: int
  rx_drops :: int
  tx_bytes :: int
  tx_packets :: int
  tx_errors :: int
  tx_drops :: int

definition INTERFACE_FIELDS :: "(string \<times> (interface_counters \<Rightarrow> int)) list" where
  "INTERFACE_FIELDS =
     [(''rx_bytes'', rx_bytes), (''rx_packets'', rx_packets), (''rx_errors'', rx_errors), (''rx_drops'', rx_drops),
      (''tx_bytes'', tx_bytes), (''tx_packets'', tx_packets), (''tx_errors'', tx_errors), (''tx_drops'', tx_drops)]"

definition net_dev_row :: "string \<Rightarrow> (reader_exn, interface_counters) result" where
  "net_dev_row raw =
     (case split_first (CHR '':'') raw of
        None \<Rightarrow> Inl (ReadValueError ''malformed /proc/net/dev row'')
      | Some (name_raw, values_raw) \<Rightarrow>
          let name = strip name_raw; fields = split_ws values_raw
          in if name = [] \<or> length fields < 16 then Inl (ReadValueError ''malformed /proc/net/dev row'')
             else (case mapR read_int (take 16 fields) of
                     Inl _ \<Rightarrow> Inl (ReadValueError ''malformed /proc/net/dev counter'')
                   | Inr ns \<Rightarrow>
                       Inr \<lparr>if_name = name, rx_bytes = ns ! 0, rx_packets = ns ! 1, rx_errors = ns ! 2, rx_drops = ns ! 3,
                            tx_bytes = ns ! 8, tx_packets = ns ! 9, tx_errors = ns ! 10, tx_drops = ns ! 11\<rparr>))"

definition parse_net_dev :: "string \<Rightarrow> (reader_exn, (string, interface_counters) dict) result" where
  "parse_net_dev txt =
     (let candidates = filter (\<lambda>raw. CHR '':'' \<in> set raw) (splitlines txt)
      in if candidates = [] then Inl (ReadValueError ''missing /proc/net/dev interface rows'')
         else bindR (mapR net_dev_row candidates) (\<lambda>rows. Inr (dict_of (map (\<lambda>r. (if_name r, r)) rows))))"

definition aggregate_external :: "(string, interface_counters) dict \<Rightarrow> interface_counters" where
  "aggregate_external interfaces =
     (let external = map snd (filter (\<lambda>(name, _). name \<noteq> ''lo'') interfaces);
          total = (\<lambda>f. sum_list (map f external))
      in \<lparr>if_name = ''external-total'', rx_bytes = total rx_bytes, rx_packets = total rx_packets,
          rx_errors = total rx_errors, rx_drops = total rx_drops, tx_bytes = total tx_bytes,
          tx_packets = total tx_packets, tx_errors = total tx_errors, tx_drops = total tx_drops\<rparr>)"

record link_info =
  link_state :: "string option"
  link_up :: "int option"
  link_mtu :: "int option"
  link_speed :: "int option"

text \<open>An attribute that is present and numeric; \<open>int\<close> may still raise.\<close>

definition attribute_int :: "(string \<Rightarrow> bool) \<Rightarrow> string option \<Rightarrow> (reader_exn, int option) result" where
  "attribute_int digits_ok raw =
     (case raw of
        None \<Rightarrow> Inr None
      | Some s \<Rightarrow> if s \<noteq> [] \<and> digits_ok s then bindR (read_int s) (\<lambda>i. Inr (Some i)) else Inr None)"

definition read_interface_link :: "(string \<Rightarrow> string option) \<Rightarrow> (reader_exn, link_info) result" where
  "read_interface_link reader =
     (let optional = (\<lambda>relative. map_option strip (reader relative));
          state = optional ''operstate''
      in bindR (attribute_int isdigit (optional ''mtu'')) (\<lambda>mtu.
         bindR (attribute_int (\<lambda>s. isdigit (lstrip_char (CHR ''-'') s)) (optional ''speed'')) (\<lambda>speed.
           Inr \<lparr>link_state = state,
                link_up = map_option (\<lambda>s. if s = ''up'' then 1 else 0) state,
                link_mtu = mtu,
                link_speed = (case speed of None \<Rightarrow> None | Some x \<Rightarrow> if x < 0 then None else Some x)\<rparr>)))"

definition interface_field_metrics ::
  "string \<Rightarrow> (string, string) dict \<Rightarrow> string \<Rightarrow> interface_counters \<Rightarrow> interface_counters option \<Rightarrow> real option
     \<Rightarrow> real option \<Rightarrow> string \<times> (interface_counters \<Rightarrow> int) \<Rightarrow> metric list" where
  "interface_field_metrics scope labels eid current previous elapsed max_gap field =
     (case field of (name, get) \<Rightarrow>
        let value = get current;
            delta = counter_delta (map_option get previous) (Some value) (elapsed_or_0 elapsed) max_gap
        in [Metric scope name (Some (VInt value)) (if has_sub ''bytes'' name then ''bytes'' else ''packets'') ''exact'' labels ''interface'' eid,
            (Metric scope (name @ ''_per_second'') (map_option VReal (cd_rate delta)) (if has_sub ''bytes'' name then ''B/s'' else ''pps'')
               (cd_quality delta) labels ''interface'' eid)\<lparr>m_reset := cd_reset delta, m_gap := cd_gap delta\<rparr>])"

definition link_metrics :: "string \<Rightarrow> (string, string) dict \<Rightarrow> string \<Rightarrow> link_info \<Rightarrow> metric list" where
  "link_metrics scope labels eid link =
     map (\<lambda>(name, un, value). Metric scope name value un (presence ''exact'' value) labels ''interface'' eid)
       [(''link_up'', ''boolean'', map_option VInt (link_up link)), (''link_state'', ''state'', map_option VText (link_state link)),
        (''mtu'', ''bytes'', map_option VInt (link_mtu link)), (''speed_mbps'', ''Mbit/s'', map_option VInt (link_speed link))]"

definition interface_metrics ::
  "interface_counters \<Rightarrow> interface_counters option \<Rightarrow> real option \<Rightarrow> link_info option \<Rightarrow> real option
     \<Rightarrow> (reader_exn, metric list) result" where
  "interface_metrics current previous elapsed link max_gap =
     (let loopback = if_name current = ''lo'';
          aggregate = if_name current = ''external-total'';
          scope = (if loopback then ''net.loopback'' else ''net.external'');
          eid = (if aggregate then ''interface:external-total'' else ''interface:'' @ if_name current);
          labels = [(''interface'', if_name current)]
      in metrics (concat (map (interface_field_metrics scope labels eid current previous elapsed max_gap) INTERFACE_FIELDS)
           @ (case link of None \<Rightarrow> [] | Some l \<Rightarrow> if aggregate then [] else link_metrics scope labels eid l)))"


section \<open>Protocol tables\<close>

type_synonym protocol_table = "(string, (string, int) dict) dict"

fun protocol_rows :: "string list list \<Rightarrow> (reader_exn, (string \<times> (string, int) dict) list) result" where
  "protocol_rows (header # row # rest) =
     (if header = [] \<or> row = [] \<or> hd header \<noteq> hd row then Inl (ReadValueError ''protocol header/value mismatch'')
      else if length (tl header) \<noteq> length (tl row) then Inl (ReadValueError ''protocol counter length mismatch'')
      else (case mapR read_int (tl row) of
              Inl _ \<Rightarrow> Inl (ReadValueError ''invalid protocol counter'')
            | Inr ns \<Rightarrow>
                bindR (protocol_rows rest) (\<lambda>rs. Inr ((rstrip_char (CHR '':'') (hd header), dict_of (zip (tl header) ns)) # rs))))"
| "protocol_rows _ = Inr []"

definition parse_protocol_table :: "string \<Rightarrow> (reader_exn, protocol_table) result" where
  "parse_protocol_table txt =
     (let lines = map split_ws (filter (\<lambda>l. strip l \<noteq> []) (splitlines txt))
      in if lines = [] \<or> length lines mod 2 \<noteq> 0 then Inl (ReadValueError ''malformed protocol table'')
         else bindR (protocol_rows lines) (\<lambda>rows. Inr (dict_of rows)))"

definition parse_required_protocol_table :: "string \<Rightarrow> string \<Rightarrow> (reader_exn, protocol_table) result" where
  "parse_required_protocol_table txt required =
     bindR (parse_protocol_table txt) (\<lambda>table.
       if map_of table required = None then Inl (ReadValueError (''missing '' @ required @ '' protocol table'')) else Inr table)"

definition TCP_COUNTERS :: "(string \<times> string) list" where
  "TCP_COUNTERS =
     [(''ActiveOpens'', ''tcp_active_opens''), (''PassiveOpens'', ''tcp_passive_opens''),
      (''AttemptFails'', ''tcp_attempt_failures''), (''EstabResets'', ''tcp_established_resets''),
      (''CurrEstab'', ''tcp_current_established''), (''RetransSegs'', ''tcp_retransmitted_segments''),
      (''OutRsts'', ''tcp_outbound_resets'')]"

definition TCPEXT_COUNTERS :: "(string \<times> string) list" where
  "TCPEXT_COUNTERS =
     [(''ListenOverflows'', ''tcp_listen_overflows''), (''ListenDrops'', ''tcp_listen_drops''),
      (''TCPAbortOnData'', ''tcp_abort_on_data''), (''TCPAbortOnMemory'', ''tcp_abort_on_memory''),
      (''TCPTimeouts'', ''tcp_timeouts'')]"

definition pick_counters :: "(string \<times> string) list \<Rightarrow> (string, int) dict \<Rightarrow> (string \<times> int) list" where
  "pick_counters names table =
     List.map_filter (\<lambda>(source, output). map_option (\<lambda>v. (output, v)) (map_of table source)) names"

definition selected_tcp_counters_from_tables :: "protocol_table \<Rightarrow> protocol_table \<Rightarrow> (string, int) dict" where
  "selected_tcp_counters_from_tables snmp netstat =
     dict_of (pick_counters TCP_COUNTERS (dict_get snmp ''Tcp'' []) @ pick_counters TCPEXT_COUNTERS (dict_get netstat ''TcpExt'' []))"

definition selected_tcp_counters :: "string \<Rightarrow> string \<Rightarrow> (reader_exn, (string, int) dict) result" where
  "selected_tcp_counters snmp_text netstat_text =
     bindR (parse_protocol_table snmp_text) (\<lambda>snmp. bindR (parse_protocol_table netstat_text) (\<lambda>netstat.
       Inr (selected_tcp_counters_from_tables snmp netstat)))"

definition tcp_counter_metrics ::
  "(string, int) dict \<Rightarrow> (string, int) dict option \<Rightarrow> real option \<Rightarrow> real option \<Rightarrow> (reader_exn, metric list) result" where
  "tcp_counter_metrics current previous elapsed max_gap =
     metrics (concat (map (\<lambda>(name, value).
       Metric ''tcp'' name (Some (VInt value)) ''count'' ''exact'' [] ''host'' ''local'' #
       (if name = ''tcp_current_established'' then []
        else let delta = counter_delta (Option.bind previous (\<lambda>p. map_of p name)) (Some value) (elapsed_or_0 elapsed) max_gap
             in [(Metric ''tcp'' (name @ ''_per_second'') (map_option VReal (cd_rate delta)) ''events/s'' (cd_quality delta) [] ''host'' ''local'')
                  \<lparr>m_reset := cd_reset delta, m_gap := cd_gap delta\<rparr>]))
       (sort_key fst current)))"


section \<open>Well-made metrics\<close>

lemma interface_fields_honest: "list_all honest (interface_field_metrics scope labels eid current previous elapsed g f)"
  by (cases f) (simp add: interface_field_metrics_def Let_def rate_honest honest_Metric [of _ _ "Some _"])

lemma link_metrics_honest: "list_all honest (link_metrics scope labels eid link)"
  by (simp add: link_metrics_def honest_Metric presence_def)

lemma interface_metrics_honest: "\<exists>ms. interface_metrics current previous elapsed link g = Inr ms \<and> list_all honest ms"
  unfolding interface_metrics_def Let_def
  by (rule honest_metrics)
    (auto simp: interface_fields_honest link_metrics_honest intro!: list_all_concat_map split: option.split)

lemma tcp_counter_metrics_honest: "\<exists>ms. tcp_counter_metrics current previous elapsed g = Inr ms \<and> list_all honest ms"
  unfolding tcp_counter_metrics_def
  by (intro honest_metrics list_all_concat_map)
    (auto simp: Let_def rate_honest honest_Metric [of _ _ "Some _"] split: prod.split)


section \<open>A written table is read back\<close>

text \<open>The lines the kernel writes: header lines without a colon, then one line per interface with its name and
  sixteen counters of 64 bits.\<close>

definition net_dev_line :: "string \<times> nat list \<Rightarrow> string" where
  "net_dev_line row = (case row of (name, ns) \<Rightarrow> '' '' @ name @ '':'' @ words_line (map str_nat ns))"

definition net_dev_name :: "string \<Rightarrow> bool" where
  "net_dev_name name \<longleftrightarrow> word name \<and> CHR '':'' \<notin> set name"

definition counters_of :: "string \<Rightarrow> nat list \<Rightarrow> interface_counters" where
  "counters_of name ns =
     \<lparr>if_name = name, rx_bytes = int (ns ! 0), rx_packets = int (ns ! 1), rx_errors = int (ns ! 2), rx_drops = int (ns ! 3),
      tx_bytes = int (ns ! 8), tx_packets = int (ns ! 9), tx_errors = int (ns ! 10), tx_drops = int (ns ! 11)\<rparr>"

lemma strip_word: "word w \<Longrightarrow> strip (CHR '' '' # w) = w"
  by (simp add: strip_def is_space_def strip_left_id hd_rev word_def list_all_iff)

lemma net_dev_row_line:
  assumes "net_dev_name name" and "length ns = 16" and "list_all (\<lambda>n. n < 2 ^ 64) ns"
  shows "net_dev_row (net_dev_line (name, ns)) = Inr (counters_of name ns)"
proof -
  have "split_first CHR '':'' (net_dev_line (name, ns)) = Some (CHR '' '' # name, words_line (map str_nat ns))"
    using assms(1) split_first_append [of "CHR '':''" "CHR '' '' # name" "words_line (map str_nat ns)"]
    by (simp add: net_dev_line_def net_dev_name_def)
  moreover have "split_ws (words_line (map str_nat ns)) = map str_nat ns"
    by (intro split_ws_words) (simp add: list_all_iff word_str_nat)
  moreover have "mapR read_int (map str_nat ns) = Inr (map int ns)" using assms(3) by (rule mapR_read_counters)
  ultimately show ?thesis
    using assms(1,2) by (auto simp: net_dev_row_def Let_def strip_word net_dev_name_def counters_of_def word_def)
qed

lemma word_no_linebreak: "word w \<Longrightarrow> c \<in> set w \<Longrightarrow> \<not> is_linebreak c"
  using linebreak_is_space by (auto simp: word_def list_all_iff)

lemma words_line_no_linebreak: "list_all word ws \<Longrightarrow> c \<in> set (words_line ws) \<Longrightarrow> \<not> is_linebreak c"
  by (induction ws) (auto simp: words_line_def is_linebreak_def dest: word_no_linebreak)

lemma net_dev_line_no_linebreak: "net_dev_name name \<Longrightarrow> c \<in> set (net_dev_line (name, ns)) \<Longrightarrow> \<not> is_linebreak c"
  using words_line_no_linebreak [of "map str_nat ns" c]
  by (auto simp: net_dev_line_def net_dev_name_def list_all_iff word_str_nat is_linebreak_def dest: word_no_linebreak)

lemma mapR_map: "(\<And>x. x \<in> set xs \<Longrightarrow> f (g x) = Inr (h x)) \<Longrightarrow> mapR f (map g xs) = Inr (map h xs)"
  by (induction xs) simp_all

definition net_dev_text :: "string list \<Rightarrow> (string \<times> nat list) list \<Rightarrow> string" where
  "net_dev_text headers rows = concat (map (\<lambda>l. l @ [LF]) (headers @ map net_dev_line rows))"

definition net_dev_rows :: "(string \<times> nat list) list \<Rightarrow> bool" where
  "net_dev_rows rows \<longleftrightarrow> rows \<noteq> [] \<and> distinct (map fst rows)
     \<and> list_all (\<lambda>(name, ns). net_dev_name name \<and> length ns = 16 \<and> list_all (\<lambda>n. n < 2 ^ 64) ns) rows"

text \<open>The interface table the kernel writes is read back whole: every interface with its own eight counters,
  in the order of the table.\<close>

theorem parse_net_dev_reads_table:
  assumes "list_all (list_all (\<lambda>c. c \<noteq> CHR '':'' \<and> \<not> is_linebreak c)) headers" and "net_dev_rows rows"
  shows "parse_net_dev (net_dev_text headers rows) = Inr (map (\<lambda>(name, ns). (name, counters_of name ns)) rows)"
proof -
  have rows: "net_dev_name n" "length ns = 16" "list_all (\<lambda>n. n < 2 ^ 64) ns" if "(n, ns) \<in> set rows" for n ns
    using assms(2) that by (auto simp: net_dev_rows_def list_all_iff)
  have lines: "splitlines (net_dev_text headers rows) = headers @ map net_dev_line rows"
    unfolding net_dev_text_def
  proof (rule splitlines_concat, intro ballI)
    fix l c assume l: "l \<in> set (headers @ map net_dev_line rows)" and c: "c \<in> set l"
    show "\<not> is_linebreak c"
    proof (cases "l \<in> set headers")
      case True
      then show ?thesis using assms(1) c unfolding list_all_iff by blast
    next
      case False
      then obtain n ns where "(n, ns) \<in> set rows" "l = net_dev_line (n, ns)" using l by auto
      then show ?thesis using net_dev_line_no_linebreak [OF rows(1)] c by blast
    qed
  qed
  have "filter (\<lambda>raw. CHR '':'' \<in> set raw) (headers @ map net_dev_line rows) = map net_dev_line rows"
  proof -
    have "filter (\<lambda>raw. CHR '':'' \<in> set raw) headers = []" using assms(1) by (fastforce simp: list_all_iff filter_empty_conv)
    moreover have "CHR '':'' \<in> set (net_dev_line r)" for r by (simp add: net_dev_line_def split_beta)
    ultimately show ?thesis by (simp add: filter_id_conv)
  qed
  then have cand: "filter (\<lambda>raw. CHR '':'' \<in> set raw) (splitlines (net_dev_text headers rows)) = map net_dev_line rows"
    by (simp only: lines)
  have read: "mapR net_dev_row (map net_dev_line rows) = Inr (map (\<lambda>(name, ns). counters_of name ns) rows)"
    using rows net_dev_row_line by (intro mapR_map) (clarsimp simp: split_beta)
  have keyed: "map (\<lambda>r. (if_name r, r)) (map (\<lambda>(name, ns). counters_of name ns) rows) = map (\<lambda>(name, ns). (name, counters_of name ns)) rows"
    by (simp add: counters_of_def split_beta)
  have "distinct (map fst (map (\<lambda>(name, ns). (name, counters_of name ns)) rows))"
    using assms(2) by (simp add: net_dev_rows_def split_beta comp_def)
  moreover have "rows \<noteq> []" using assms(2) by (simp add: net_dev_rows_def)
  ultimately show ?thesis unfolding parse_net_dev_def cand Let_def read bindR_simps keyed by (simp only: dict_of_distinct map_is_Nil_conv if_False)
qed

definition sample_rows :: "(string \<times> nat list) list" where
  "sample_rows = [(''lo'', replicate 16 7), (''eth0'', [1, 2, 3, 4, 5, 6, 7, 8, 9, 10, 11, 12, 13, 14, 15, 16])]"

theorem parse_net_dev_reads_table_witness:
  "parse_net_dev (net_dev_text [''Inter-| Receive''] sample_rows)
     = Inr (map (\<lambda>(name, ns). (name, counters_of name ns)) sample_rows)"
  by (rule parse_net_dev_reads_table)
    (simp_all add: is_linebreak_def net_dev_rows_def sample_rows_def net_dev_name_def word_def is_space_def list_all_iff)

end
