(* ===== verification/Monitoring_Proc.thy ===== *)
theory Monitoring_Proc
  imports Monitoring_Metrics
begin

text \<open>
  \<open>src/monitoring/proc_readers.py\<close>: the readers of \<open>/proc\<close> for the host, its disks and the processes of a service,
  and the metrics made of them. A file is the text it holds; reading one that fails is \<open>None\<close> and raises \<open>OSError\<close>;
  \<open>statvfs\<close> and the size of a file are answers. \<open>float\<close> on text is a parameter.

  The lemmas: the shares of the processor are percentages that add up to a hundred; a counter that fell back or
  belongs to another process gives no rate; the processes of a service are aggregated whatever order they were
  read in; every metric is well made.
\<close>

section \<open>Processor\<close>

record cpu_counters =
  user :: int
  nice :: int
  system_time :: int
  idle :: int
  iowait :: int
  irq :: int
  softirq :: int
  steal :: int
  logical_cpus :: int

definition total :: "cpu_counters \<Rightarrow> int" where
  "total c = user c + nice c + system_time c + idle c + iowait c + irq c + softirq c + steal c"

fun proc_stat_lines :: "int list option \<Rightarrow> int \<Rightarrow> string list \<Rightarrow> (reader_exn, int list option \<times> int) result" where
  "proc_stat_lines aggregate cpus [] = Inr (aggregate, cpus)"
| "proc_stat_lines aggregate cpus (raw # rest) =
     (case split_ws raw of
        [] \<Rightarrow> proc_stat_lines aggregate cpus rest
      | name # words \<Rightarrow>
          if name = ''cpu'' then bindR (mapR read_int (take 8 words)) (\<lambda>ns. proc_stat_lines (Some ns) cpus rest)
          else if starts_with name ''cpu'' \<and> isdigit (drop 3 name) then proc_stat_lines aggregate (cpus + 1) rest
          else proc_stat_lines aggregate cpus rest)"

definition parse_proc_stat :: "string \<Rightarrow> (reader_exn, cpu_counters) result" where
  "parse_proc_stat txt =
     bindR (proc_stat_lines None 0 (splitlines txt)) (\<lambda>(aggregate, cpus).
       case aggregate of
         None \<Rightarrow> Inl (ReadValueError ''missing aggregate cpu counters'')
       | Some a \<Rightarrow>
           if length a < 8 then Inl (ReadValueError ''missing aggregate cpu counters'')
           else Inr \<lparr>user = a ! 0, nice = a ! 1, system_time = a ! 2, idle = a ! 3, iowait = a ! 4, irq = a ! 5,
                     softirq = a ! 6, steal = a ! 7, logical_cpus = max 1 cpus\<rparr>)"

definition cpu_fields :: "(string \<times> (cpu_counters \<Rightarrow> int)) list" where
  "cpu_fields =
     [(''user'', user), (''nice'', nice), (''system'', system_time), (''idle'', idle), (''iowait'', iowait),
      (''irq'', irq), (''softirq'', softirq), (''steal'', steal)]"

definition cpu_reset :: "cpu_counters \<Rightarrow> cpu_counters option \<Rightarrow> bool" where
  "cpu_reset current previous =
     (case previous of None \<Rightarrow> False | Some p \<Rightarrow> list_ex (\<lambda>(_, get). get current < get p) cpu_fields)"

definition cpu_available :: "cpu_counters \<Rightarrow> cpu_counters option \<Rightarrow> real option \<Rightarrow> bool" where
  "cpu_available current previous elapsed =
     (case previous of
        None \<Rightarrow> False
      | Some p \<Rightarrow> 0 < total current - total p \<and> \<not> cpu_reset current previous \<and> 0 < elapsed_or_0 elapsed)"

definition cpu_share :: "cpu_counters \<Rightarrow> cpu_counters option \<Rightarrow> real option \<Rightarrow> (cpu_counters \<Rightarrow> int) \<Rightarrow> real option" where
  "cpu_share current previous elapsed get =
     (case previous of
        None \<Rightarrow> None
      | Some p \<Rightarrow>
          if cpu_available current previous elapsed
          then Some (of_int (get current - get p) * 100 / of_int (total current - total p)) else None)"

definition busy :: "cpu_counters \<Rightarrow> int" where
  "busy c = total c - idle c - iowait c"

definition cpu_metrics ::
  "cpu_counters \<Rightarrow> cpu_counters option \<Rightarrow> real option \<Rightarrow> real option \<Rightarrow> (reader_exn, metric list) result" where
  "cpu_metrics current previous elapsed max_gap =
     (let gap = (case elapsed of None \<Rightarrow> False | Some e \<Rightarrow> over_gap max_gap e);
          reset = cpu_reset current previous;
          derived = (\<lambda>name value. (host_metric name (map_option VReal value) ''percent''
                        (if cpu_available current previous elapsed then ''derived'' else ''unavailable''))\<lparr>m_reset := reset, m_gap := gap\<rparr>)
      in metrics
           (map (\<lambda>(f, get). host_metric (''cpu_'' @ f @ ''_jiffies'') (Some (VInt (get current))) ''jiffies'' ''exact'') cpu_fields
            @ [host_metric ''cpu_jiffies_total'' (Some (VInt (total current))) ''jiffies'' ''exact'',
               host_metric ''cpu_logical_count'' (Some (VInt (logical_cpus current))) ''count'' ''exact'']
            @ map (\<lambda>(f, get). derived (''cpu_'' @ f @ ''_percent'') (cpu_share current previous elapsed get)) cpu_fields
            @ [derived ''cpu_utilization_percent'' (cpu_share current previous elapsed busy)]))"


section \<open>Memory, load, counters of the host\<close>

fun key_value_lines_of :: "string list \<Rightarrow> (string \<times> int) list" where
  "key_value_lines_of [] = []"
| "key_value_lines_of (raw # rest) =
     (case split_ws raw of
        k # v # _ \<Rightarrow> (case text_int v of None \<Rightarrow> key_value_lines_of rest | Some i \<Rightarrow> (rstrip_char (CHR '':'') k, i) # key_value_lines_of rest)
      | _ \<Rightarrow> key_value_lines_of rest)"

definition parse_key_values :: "string \<Rightarrow> (string, int) dict" where
  "parse_key_values txt = dict_of (key_value_lines_of (splitlines txt))"

definition memory_names :: "(string \<times> string) list" where
  "memory_names =
     [(''MemTotal'', ''memory_total_bytes''), (''MemAvailable'', ''memory_available_bytes''),
      (''Buffers'', ''memory_buffers_bytes''), (''Cached'', ''memory_cache_bytes''),
      (''SwapTotal'', ''swap_total_bytes''), (''SwapFree'', ''swap_free_bytes''),
      (''Dirty'', ''memory_dirty_bytes''), (''Writeback'', ''memory_writeback_bytes'')]"

definition used_bytes :: "int option \<Rightarrow> int option \<Rightarrow> int option" where
  "used_bytes whole free = (case (whole, free) of (Some t, Some f) \<Rightarrow> Some ((t - f) * 1024) | _ \<Rightarrow> None)"

definition used_percent :: "int option \<Rightarrow> int option \<Rightarrow> real option" where
  "used_percent whole used =
     (case (whole, used) of (Some t, Some u) \<Rightarrow> if t = 0 then None else Some (of_int u * 100 / of_int (t * 1024)) | _ \<Rightarrow> None)"

definition memory_metrics :: "string \<Rightarrow> (reader_exn, metric list) result" where
  "memory_metrics txt =
     (let values = parse_key_values txt;
          get = map_of values;
          used = used_bytes (get ''MemTotal'') (get ''MemAvailable'');
          used_pc = used_percent (get ''MemTotal'') used;
          swap_used = used_bytes (get ''SwapTotal'') (get ''SwapFree'');
          swap_pc = used_percent (get ''SwapTotal'') swap_used
      in metrics
           (map (\<lambda>(source, name). host_metric name (map_option (\<lambda>v. VInt (v * 1024)) (get source)) ''bytes'' (presence ''exact'' (get source)))
              memory_names
            @ [host_metric ''memory_used_bytes'' (map_option VInt used) ''bytes'' (presence ''derived'' used),
               host_metric ''memory_used_percent'' (map_option VReal used_pc) ''percent'' (presence ''derived'' used_pc),
               host_metric ''swap_used_bytes'' (map_option VInt swap_used) ''bytes'' (presence ''derived'' swap_used),
               host_metric ''swap_used_percent'' (map_option VReal swap_pc) ''percent'' (presence ''derived'' swap_pc)]))"

definition load_metrics :: "(string \<Rightarrow> real option) \<Rightarrow> string \<Rightarrow> (reader_exn, metric list) result" where
  "load_metrics py_float txt =
     (let parts = split_ws txt
      in if length parts < 3 then Inl (ReadValueError ''invalid loadavg'')
         else bindR (mapR (\<lambda>v. case py_float v of None \<Rightarrow> Inl (ReadValueError ''could not convert string to float'') | Some x \<Rightarrow> Inr x)
                      (take 3 parts))
                (\<lambda>xs. metrics (map (\<lambda>(name, x). host_metric name (Some (VReal x)) ''load'' ''exact'') (zip [''load1'', ''load5'', ''load15''] xs))))"

definition conntrack_metrics :: "string \<Rightarrow> string \<Rightarrow> (reader_exn, metric list) result" where
  "conntrack_metrics count_text max_text =
     bindR (read_int (strip count_text)) (\<lambda>count.
     bindR (read_int (strip max_text)) (\<lambda>limit.
       if count < 0 \<or> limit \<le> 0 then Inl (ReadValueError ''invalid conntrack counters'')
       else metrics
         [host_metric ''conntrack_count'' (Some (VInt count)) ''count'' ''exact'',
          host_metric ''conntrack_max'' (Some (VInt limit)) ''count'' ''exact'',
          host_metric ''conntrack_utilization_percent'' (Some (VReal (of_int count * 100 / of_int limit))) ''percent'' ''derived'']))"

definition file_handle_metrics :: "string \<Rightarrow> string \<Rightarrow> (reader_exn, metric list) result" where
  "file_handle_metrics file_nr_text file_max_text =
     (case split_ws file_nr_text of
        p0 # p1 # p2 # _ \<Rightarrow>
          bindR (read_int p0) (\<lambda>allocated.
          bindR (read_int (strip file_max_text)) (\<lambda>limit.
            let utilization = (if 0 < limit then Some (of_int allocated * 100 / of_int limit) else None)
            in metrics
              [host_metric ''file_handles_allocated'' (Some (VInt allocated)) ''count'' ''exact'',
               host_metric ''file_handles_max'' (Some (VInt limit)) ''count'' ''exact'',
               host_metric ''file_handles_utilization_percent'' (map_option VReal utilization) ''percent'' (presence ''derived'' utilization)]))
      | _ \<Rightarrow> Inl (ReadValueError ''invalid file-nr''))"


section \<open>Disks and file systems\<close>

record disk_counters =
  major :: int
  minor :: int
  dk_name :: string
  reads_completed :: int
  sectors_read :: int
  writes_completed :: int
  sectors_written :: int
  io_ms :: int

definition identity :: "disk_counters \<Rightarrow> string" where
  "identity d = str_int (major d) @ '':'' @ str_int (minor d)"

definition diskstats_row :: "string list \<Rightarrow> disk_counters option" where
  "diskstats_row parts =
     (if length parts < 14 then None
      else (case mapR (\<lambda>i. read_int (parts ! i)) [0, 1, 3, 5, 7, 9, 12] of
              Inl _ \<Rightarrow> None
            | Inr ns \<Rightarrow> Some \<lparr>major = ns ! 0, minor = ns ! 1, dk_name = parts ! 2, reads_completed = ns ! 2, sectors_read = ns ! 3,
                writes_completed = ns ! 4, sectors_written = ns ! 5, io_ms = ns ! 6\<rparr>))"

definition parse_diskstats :: "string \<Rightarrow> (string, disk_counters) dict" where
  "parse_diskstats txt = dict_of (map (\<lambda>d. (dk_name d, d)) (List.map_filter (\<lambda>raw. diskstats_row (split_ws raw)) (splitlines txt)))"

definition disk_cumulative :: "disk_counters \<Rightarrow> (string \<times> int \<times> string) list" where
  "disk_cumulative d =
     [(''disk_reads_completed'', reads_completed d, ''operations''), (''disk_read_bytes'', sectors_read d * 512, ''bytes''),
      (''disk_writes_completed'', writes_completed d, ''operations''), (''disk_written_bytes'', sectors_written d * 512, ''bytes''),
      (''disk_io_time_ms'', io_ms d, ''milliseconds'')]"

definition disk_previous :: "disk_counters \<Rightarrow> disk_counters option \<Rightarrow> (string \<times> int \<times> string) list" where
  "disk_previous current previous =
     (case previous of None \<Rightarrow> [] | Some p \<Rightarrow> if identity p \<noteq> identity current then [] else disk_cumulative p)"

definition disk_rate_metric ::
  "disk_counters \<Rightarrow> disk_counters option \<Rightarrow> real option \<Rightarrow> real option \<Rightarrow> string \<times> int \<times> string \<Rightarrow> metric" where
  "disk_rate_metric current previous elapsed max_gap entry =
     (case entry of (name, value, _) \<Rightarrow>
        let delta = counter_delta (map_option fst (map_of (disk_previous current previous) name)) (Some value) (elapsed_or_0 elapsed) max_gap;
            replacement = (case previous of None \<Rightarrow> False | Some p \<Rightarrow> identity p \<noteq> identity current);
            (rate_name, rate_unit, rate) =
              (if name = ''disk_io_time_ms''
               then (''disk_utilization_percent'', ''percent'', map_option (\<lambda>r. min 100 (r / 10)) (cd_rate delta))
               else (name @ ''_per_second'', if has_sub ''bytes'' name then ''B/s'' else ''ops/s'', cd_rate delta))
        in (Metric ''disk'' rate_name (map_option VReal rate) rate_unit (cd_quality delta)
              [(''device'', dk_name current), (''device_id'', identity current)] ''disk'' (''disk:'' @ identity current))
             \<lparr>m_reset := replacement \<or> cd_reset delta, m_gap := cd_gap delta\<rparr>)"

definition disk_metrics ::
  "disk_counters \<Rightarrow> disk_counters option \<Rightarrow> real option \<Rightarrow> real option \<Rightarrow> (reader_exn, metric list) result" where
  "disk_metrics current previous elapsed max_gap =
     metrics
       (map (\<lambda>(name, value, un). Metric ''disk'' name (Some (VInt value)) un ''exact''
               [(''device'', dk_name current), (''device_id'', identity current)] ''disk'' (''disk:'' @ identity current))
          (disk_cumulative current)
        @ map (disk_rate_metric current previous elapsed max_gap) (disk_cumulative current))"

record statvfs =
  f_frsize :: int
  f_bsize :: int
  f_blocks :: int
  f_bfree :: int
  f_bavail :: int
  f_files :: int
  f_ffree :: int
  f_favail :: int

definition filesystem_metrics :: "string \<Rightarrow> (string \<Rightarrow> statvfs option) \<Rightarrow> (reader_exn, metric list) result" where
  "filesystem_metrics path statvfs =
     (case statvfs path of
        None \<Rightarrow> Inl ReadOSError
      | Some stats \<Rightarrow>
      let block_size = (if f_frsize stats \<noteq> 0 then f_frsize stats else f_bsize stats);
          whole = f_blocks stats * block_size;
          free = f_bfree stats * block_size;
          used = max 0 (whole - free);
          inode_used = max 0 (f_files stats - f_ffree stats);
          percent = (\<lambda>u t :: int. if t = 0 then None else Some (of_int u * 100 / of_int t));
          exact = (\<lambda>name v un. (name, Some (VInt v), un, ''exact''));
          derived = (\<lambda>name v un. (name, Some (VInt v), un, ''derived''))
      in metrics (map (\<lambda>(name, value, un, qual). Metric ''fs'' name value un qual [(''path'', path)] ''filesystem'' (''fs:'' @ path))
           [exact ''filesystem_total_bytes'' whole ''bytes'', derived ''filesystem_used_bytes'' used ''bytes'',
            exact ''filesystem_free_bytes'' free ''bytes'', exact ''filesystem_available_bytes'' (f_bavail stats * block_size) ''bytes'',
            (''filesystem_used_percent'', map_option VReal (percent used whole), ''percent'', presence ''derived'' (percent used whole)),
            exact ''filesystem_inode_total'' (f_files stats) ''count'', derived ''filesystem_inode_used'' inode_used ''count'',
            exact ''filesystem_inode_free'' (f_ffree stats) ''count'', exact ''filesystem_inode_available'' (f_favail stats) ''count'',
            (''filesystem_inode_used_percent'', map_option VReal (percent inode_used (f_files stats)), ''percent'',
             presence ''derived'' (percent inode_used (f_files stats)))]))"

datatype file_size = Size int | File_not_found | Size_error

definition database_size_metrics :: "string \<Rightarrow> (string \<Rightarrow> file_size) \<Rightarrow> (reader_exn, metric list) result" where
  "database_size_metrics db_path size_of =
     metrics (map (\<lambda>(name, path, missing_zero).
       let (value, qual) =
             (case size_of path of
                Size n \<Rightarrow> (Some n, ''exact'')
              | File_not_found \<Rightarrow> (if missing_zero then (Some 0, ''exact'') else (None, ''unavailable''))
              | Size_error \<Rightarrow> (None, ''unavailable''))
       in Metric ''collector'' name (map_option VInt value) ''bytes'' qual [] ''collector'' ''local'')
       [(''database_size_bytes'', db_path, False), (''database_wal_size_bytes'', db_path @ ''-wal'', True)])"


section \<open>Processes\<close>

record process_snapshot =
  pid :: int
  start_ticks :: int
  cpu_ticks :: int
  rss_bytes :: int
  rss_anon_bytes :: "int option"
  rss_file_bytes :: "int option"
  threads :: int
  fd_count :: "int option"
  fd_soft_limit :: "int option"
  fd_hard_limit :: "int option"

record process_slow_snapshot =
  slow_pid :: int
  slow_rss_bytes :: "int option"
  slow_rss_anon_bytes :: "int option"
  slow_rss_file_bytes :: "int option"
  slow_threads :: "int option"
  slow_fd_count :: int
  slow_fd_soft_limit :: "int option"
  slow_fd_hard_limit :: "int option"

record service_process_snapshot =
  sp_identity :: "(int \<times> int) list"
  process_count :: int
  sp_cpu_ticks :: int
  sp_rss_bytes :: int
  sp_rss_anon_bytes :: "int option"
  sp_rss_file_bytes :: "int option"
  sp_threads :: int
  sp_fd_count :: "int option"
  sp_fd_soft_limit :: "int option"
  sp_fd_hard_limit :: "int option"

text \<open>The text up to the first space, without its last character where there is none (\<open>text[:text.find(" ")]\<close>), and
  what follows the last closing parenthesis and one character.\<close>

definition before_space :: "string \<Rightarrow> string" where
  "before_space s = (case split_first (CHR '' '') s of Some (a, _) \<Rightarrow> a | None \<Rightarrow> butlast s)"

definition after_last :: "char \<Rightarrow> string \<Rightarrow> string" where
  "after_last c s = rev (takeWhile (\<lambda>x. x \<noteq> c) (rev s))"

definition parse_process_stat :: "string \<Rightarrow> int \<Rightarrow> (reader_exn, process_snapshot) result" where
  "parse_process_stat txt page_size =
     (if CHR '')'' \<notin> set txt then Inl (ReadValueError ''invalid process stat'')
      else let words = split_ws (drop 1 (after_last (CHR '')'') txt))
           in if length words < 22 then Inl (ReadValueError ''short process stat'')
              else bindR (read_int (before_space txt)) (\<lambda>p.
                   bindR (mapR (\<lambda>i. read_int (words ! i)) [19, 11, 12, 21, 17]) (\<lambda>ns.
                     Inr \<lparr>pid = p, start_ticks = ns ! 0, cpu_ticks = ns ! 1 + ns ! 2, rss_bytes = ns ! 3 * page_size,
                          rss_anon_bytes = None, rss_file_bytes = None, threads = ns ! 4, fd_count = None,
                          fd_soft_limit = None, fd_hard_limit = None\<rparr>)))"

definition limit_number :: "string \<Rightarrow> (reader_exn, int option) result" where
  "limit_number value = (if value = ''unlimited'' then Inr None else bindR (read_int value) (\<lambda>i. Inr (Some i)))"

definition parse_open_file_limits :: "string \<Rightarrow> (reader_exn, int option \<times> int option) result" where
  "parse_open_file_limits txt =
     (case filter (\<lambda>raw. starts_with raw ''Max open files'') (splitlines txt) of
        [] \<Rightarrow> Inr (None, None)
      | raw # _ \<Rightarrow>
          let parts = split_ws raw
          in if length parts < 5 then Inr (None, None)
             else bindR (limit_number (parts ! (length parts - 3))) (\<lambda>soft.
                  bindR (limit_number (parts ! (length parts - 2))) (\<lambda>hard. Inr (soft, hard))))"

text \<open>The files of a process directory, and the names in its \<open>fd\<close>.\<close>

definition read_file :: "(string \<Rightarrow> string option) \<Rightarrow> string \<Rightarrow> (reader_exn, string) result" where
  "read_file reader name = (case reader name of None \<Rightarrow> Inl ReadOSError | Some s \<Rightarrow> Inr s)"

definition read_process_fast_snapshot :: "(string \<Rightarrow> string option) \<Rightarrow> int \<Rightarrow> (reader_exn, process_snapshot) result" where
  "read_process_fast_snapshot reader page_size = bindR (read_file reader ''stat'') (\<lambda>t. parse_process_stat t page_size)"

definition read_process_slow_snapshot ::
  "int \<Rightarrow> (string \<Rightarrow> string option) \<Rightarrow> string list option \<Rightarrow> (reader_exn, process_slow_snapshot) result" where
  "read_process_slow_snapshot p reader fds =
     bindR (read_file reader ''status'') (\<lambda>status_text.
     bindR (read_file reader ''limits'') (\<lambda>limits_text.
     bindR (parse_open_file_limits limits_text) (\<lambda>(soft, hard).
       case fds of
         None \<Rightarrow> Inl ReadOSError
       | Some names \<Rightarrow>
           let values = parse_key_values status_text;
               kilobytes = (\<lambda>k. map_option (\<lambda>v. v * 1024) (map_of values k))
           in Inr \<lparr>slow_pid = p, slow_rss_bytes = kilobytes ''VmRSS'', slow_rss_anon_bytes = kilobytes ''RssAnon'',
                   slow_rss_file_bytes = kilobytes ''RssFile'', slow_threads = map_of values ''Threads'',
                   slow_fd_count = int (length names), slow_fd_soft_limit = soft, slow_fd_hard_limit = hard\<rparr>)))"

definition read_process_snapshot ::
  "int \<Rightarrow> (string \<Rightarrow> string option) \<Rightarrow> string list option \<Rightarrow> int \<Rightarrow> (reader_exn, process_snapshot) result" where
  "read_process_snapshot p reader fds page_size =
     bindR (read_process_fast_snapshot reader page_size) (\<lambda>base.
     bindR (read_process_slow_snapshot p reader fds) (\<lambda>slow.
       Inr \<lparr>pid = p, start_ticks = start_ticks base, cpu_ticks = cpu_ticks base,
            rss_bytes = (case slow_rss_bytes slow of Some r \<Rightarrow> r | None \<Rightarrow> rss_bytes base),
            rss_anon_bytes = slow_rss_anon_bytes slow, rss_file_bytes = slow_rss_file_bytes slow,
            threads = (case slow_threads slow of Some t \<Rightarrow> t | None \<Rightarrow> threads base),
            fd_count = Some (slow_fd_count slow), fd_soft_limit = slow_fd_soft_limit slow, fd_hard_limit = slow_fd_hard_limit slow\<rparr>))"

definition sum_optional :: "bool \<Rightarrow> int option list \<Rightarrow> int option" where
  "sum_optional whole values = (if \<not> whole \<or> None \<in> set values then None else Some (sum_list (map the values)))"

definition aggregate_service_processes ::
  "process_snapshot list \<Rightarrow> (int, process_slow_snapshot) dict \<Rightarrow> (reader_exn, service_process_snapshot) result" where
  "aggregate_service_processes fast slow =
     (if fast = [] then Inl (ReadValueError ''service process set is empty'')
      else let ordered = sort_key pid fast;
               complete_slow = length slow = length ordered \<and> list_all (\<lambda>s. map_of slow (pid s) \<noteq> None) ordered;
               optional = (\<lambda>get. sum_optional complete_slow (map (\<lambda>s. Option.bind (map_of slow (pid s)) get) ordered))
           in Inr \<lparr>sp_identity = map (\<lambda>s. (pid s, start_ticks s)) ordered, process_count = int (length ordered),
                   sp_cpu_ticks = sum_list (map cpu_ticks ordered), sp_rss_bytes = sum_list (map rss_bytes ordered),
                   sp_rss_anon_bytes = optional slow_rss_anon_bytes, sp_rss_file_bytes = optional slow_rss_file_bytes,
                   sp_threads = sum_list (map threads ordered), sp_fd_count = optional (\<lambda>s. Some (slow_fd_count s)),
                   sp_fd_soft_limit = optional slow_fd_soft_limit, sp_fd_hard_limit = optional slow_fd_hard_limit\<rparr>)"

text \<open>The share of one processor a rate of clock ticks means.\<close>

definition cpu_percent :: "CounterDelta \<Rightarrow> int \<Rightarrow> real option" where
  "cpu_percent delta ticks_per_second =
     (case cd_rate delta of None \<Rightarrow> None | Some r \<Rightarrow> if 0 < ticks_per_second then Some (r * 100 / of_int ticks_per_second) else None)"

definition process_metric_list ::
  "string \<Rightarrow> (string, string) dict \<Rightarrow> bool \<Rightarrow> CounterDelta \<Rightarrow> (string \<times> metric_value option \<times> string \<times> string) list
     \<Rightarrow> (reader_exn, metric list) result" where
  "process_metric_list service labels identity_changed delta values =
     metrics (map (\<lambda>(name, value, un, qual).
       (Metric ''service'' name value un qual labels ''service'' service)
         \<lparr>m_reset := identity_changed \<or> (name = ''process_cpu_percent'' \<and> cd_reset delta),
          m_gap := name = ''process_cpu_percent'' \<and> cd_gap delta\<rparr>) values)"

definition optional_ints :: "string \<Rightarrow> (string \<times> int option \<times> string) list \<Rightarrow> (string \<times> metric_value option \<times> string \<times> string) list" where
  "optional_ints qual = map (\<lambda>(name, v, un). (name, map_option VInt v, un, presence qual v))"

definition service_process_metrics ::
  "string \<Rightarrow> service_process_snapshot \<Rightarrow> service_process_snapshot option \<Rightarrow> real option \<Rightarrow> int \<Rightarrow> real option \<Rightarrow> bool \<Rightarrow> string
     \<Rightarrow> (reader_exn, metric list) result" where
  "service_process_metrics service current previous elapsed ticks_per_second max_gap authoritative slow_quality =
     (let identity_changed = (case previous of None \<Rightarrow> False | Some p \<Rightarrow> sp_identity p \<noteq> sp_identity current);
          delta = counter_delta (if identity_changed then None else map_option sp_cpu_ticks previous) (Some (sp_cpu_ticks current))
                    (elapsed_or_0 elapsed) max_gap;
          percent = cpu_percent delta ticks_per_second;
          fast_quality = (if authoritative then ''exact'' else ''estimated'');
          cpu_quality = (if percent \<noteq> None \<and> \<not> authoritative then ''estimated'' else cd_quality delta)
      in process_metric_list service [(''service'', service), (''aggregation'', ''cgroup_pid_set'')] identity_changed delta
           ([(''process_count'', Some (VInt (process_count current)), ''count'', fast_quality),
             (''process_cpu_ticks'', Some (VInt (sp_cpu_ticks current)), ''ticks'', fast_quality),
             (''process_cpu_percent'', map_option VReal percent, ''percent'', cpu_quality),
             (''process_rss_bytes'', Some (VInt (sp_rss_bytes current)), ''bytes'', fast_quality)]
            @ optional_ints slow_quality
                [(''process_rss_anon_bytes'', sp_rss_anon_bytes current, ''bytes''), (''process_rss_file_bytes'', sp_rss_file_bytes current, ''bytes'')]
            @ [(''process_threads'', Some (VInt (sp_threads current)), ''count'', fast_quality)]
            @ optional_ints slow_quality
                [(''process_open_fds'', sp_fd_count current, ''count''), (''process_fd_soft_limit'', sp_fd_soft_limit current, ''count''),
                 (''process_fd_hard_limit'', sp_fd_hard_limit current, ''count'')]))"

definition process_metrics ::
  "string \<Rightarrow> process_snapshot \<Rightarrow> process_snapshot option \<Rightarrow> real option \<Rightarrow> int \<Rightarrow> real option \<Rightarrow> (reader_exn, metric list) result" where
  "process_metrics service current previous elapsed ticks_per_second max_gap =
     (let identity_changed = (case previous of None \<Rightarrow> False | Some p \<Rightarrow> start_ticks p \<noteq> start_ticks current);
          delta = counter_delta (if identity_changed then None else map_option cpu_ticks previous) (Some (cpu_ticks current))
                    (elapsed_or_0 elapsed) max_gap;
          percent = cpu_percent delta ticks_per_second
      in process_metric_list service [(''service'', service)] identity_changed delta
           ([(''process_pid'', Some (VInt (pid current)), ''pid'', ''exact''),
             (''process_start_ticks'', Some (VInt (start_ticks current)), ''ticks'', ''exact''),
             (''process_cpu_ticks'', Some (VInt (cpu_ticks current)), ''ticks'', ''exact''),
             (''process_cpu_percent'', map_option VReal percent, ''percent'', cd_quality delta),
             (''process_rss_bytes'', Some (VInt (rss_bytes current)), ''bytes'', ''exact'')]
            @ optional_ints ''exact''
                [(''process_rss_anon_bytes'', rss_anon_bytes current, ''bytes''), (''process_rss_file_bytes'', rss_file_bytes current, ''bytes'')]
            @ [(''process_threads'', Some (VInt (threads current)), ''count'', ''exact'')]
            @ optional_ints ''exact''
                [(''process_open_fds'', fd_count current, ''count''), (''process_fd_soft_limit'', fd_soft_limit current, ''count''),
                 (''process_fd_hard_limit'', fd_hard_limit current, ''count'')]))"


section \<open>Shares of the processor\<close>

lemma total_fields: "total c = sum_list (map (\<lambda>(_, get). get c) cpu_fields)"
  by (simp add: total_def cpu_fields_def)

lemma cpu_availableD:
  assumes "cpu_available c (Some p) e"
  shows "0 < total c - total p" and "list_all (\<lambda>(_, get). get p \<le> get c) cpu_fields"
  using assms by (auto simp: cpu_available_def cpu_reset_def list_ex_iff list_all_iff not_less)

lemma share_in_range:
  assumes "0 \<le> a" and "a \<le> (t :: int)" and "0 < t"
  shows "0 \<le> of_int a * 100 / (of_int t :: real) \<and> of_int a * 100 / (of_int t :: real) \<le> 100"
  using assms by (simp add: divide_le_eq)

lemma cpu_shares:
  assumes "cpu_available c (Some p) e"
  defines "sh \<equiv> \<lambda>get. of_int (get c - get p) * 100 / (of_int (total c - total p) :: real)"
  shows "list_all (\<lambda>(_, get). 0 \<le> sh get \<and> sh get \<le> 100) cpu_fields"
    and "sum_list (map (\<lambda>(_, get). sh get) cpu_fields) = 100"
    and "0 \<le> sh busy \<and> sh busy \<le> 100" and "sh busy = 100 - sh idle - sh iowait"
proof -
  note t = cpu_availableD(1) [OF assms(1)]
  have le: "user p \<le> user c" "nice p \<le> nice c" "system_time p \<le> system_time c" "idle p \<le> idle c" "iowait p \<le> iowait c"
    "irq p \<le> irq c" "softirq p \<le> softirq c" "steal p \<le> steal c"
    using cpu_availableD(2) [OF assms(1)] by (simp_all add: cpu_fields_def)
  have part: "0 \<le> sh get \<and> sh get \<le> 100" if "0 \<le> get c - get p" "get c - get p \<le> total c - total p" for get
    unfolding sh_def using that t by (intro share_in_range) auto
  show "list_all (\<lambda>(_, get). 0 \<le> sh get \<and> sh get \<le> 100) cpu_fields"
    using le part by (simp add: cpu_fields_def total_def)
  show "0 \<le> sh busy \<and> sh busy \<le> 100" using le by (intro part) (simp_all add: busy_def total_def)
  let ?T = "of_int (total c - total p) :: real"
  have T: "?T \<noteq> 0" using t by simp
  have "sum_list (map (\<lambda>(_, get). sh get) cpu_fields) = of_int (sum_list (map (\<lambda>(_, get). get c - get p) cpu_fields)) * 100 / ?T"
    by (simp add: sh_def cpu_fields_def add_divide_distrib [symmetric] algebra_simps)
  also have "sum_list (map (\<lambda>(_, get). get c - get p) cpu_fields) = total c - total p"
    by (simp add: cpu_fields_def total_def)
  finally show "sum_list (map (\<lambda>(_, get). sh get) cpu_fields) = 100" by (simp only: nonzero_mult_div_cancel_left [OF T])
  have "of_int (busy c - busy p) * 100 = ?T * 100 - of_int (idle c - idle p) * 100 - of_int (iowait c - iowait p) * 100"
    by (simp add: busy_def)
  then have "sh busy = (?T * 100 - of_int (idle c - idle p) * 100 - of_int (iowait c - iowait p) * 100) / ?T" by (simp add: sh_def)
  also have "\<dots> = 100 - sh idle - sh iowait" by (simp only: sh_def diff_divide_distrib nonzero_mult_div_cancel_left [OF T])
  finally show "sh busy = 100 - sh idle - sh iowait" .
qed

lemma cpu_share_available: "cpu_available c (Some p) e \<Longrightarrow> cpu_share c (Some p) e get = Some (of_int (get c - get p) * 100 / of_int (total c - total p))"
  and cpu_share_unavailable: "\<not> cpu_available c prev e \<Longrightarrow> cpu_share c prev e get = None"
  by (auto simp: cpu_share_def split: option.splits)

lemma cpu_available_previous: "cpu_available c prev e \<Longrightarrow> \<exists>p. prev = Some p"
  by (cases prev) (auto simp: cpu_available_def)

lemma cpu_metrics_list:
  "\<exists>ms. cpu_metrics c prev e g = Inr ms \<and> list_all honest ms
     \<and> map m_value (drop 10 ms) = map (\<lambda>get. map_option VReal (cpu_share c prev e get)) (map snd cpu_fields @ [busy])"
proof -
  have q: "(if cpu_available c prev e then ''derived'' else ''unavailable'') \<in> set QUALITY" by simp
  have h: "cpu_share c prev e get = None \<longleftrightarrow> \<not> cpu_available c prev e" for get
    using cpu_share_available cpu_share_unavailable cpu_available_previous by (metis option.distinct(1))
  show ?thesis
    unfolding cpu_metrics_def Let_def
    by (subst honest_known; (rule exI, rule conjI, rule refl)?)
      (auto simp: cpu_fields_def host_metric_def honest_Metric h Metric_fields)
qed

text \<open>C35: the percentages of the processor are shares of the time that passed: when two readings can be compared
  each lies between 0 and 100, the eight add up to 100, and the utilization is what idle and I/O wait leave;
  otherwise (first reading, a counter that fell, no time passed) all nine are reported as unavailable.\<close>

theorem cpu_percentages_add_up:
  "\<exists>ms. cpu_metrics current previous elapsed g = Inr ms \<and>
     (if cpu_available current previous elapsed
      then \<exists>shares u. map m_value (drop 10 ms) = map (\<lambda>x. Some (VReal x)) (shares @ [u])
        \<and> length shares = 8 \<and> list_all (\<lambda>x. 0 \<le> x \<and> x \<le> 100) (u # shares)
        \<and> sum_list shares = 100 \<and> u = 100 - shares ! 3 - shares ! 4
      else map m_value (drop 10 ms) = replicate 9 None \<and> list_all (\<lambda>m. m_quality m = ''unavailable'') (drop 10 ms))"
proof -
  obtain ms where ms: "cpu_metrics current previous elapsed g = Inr ms" "list_all honest ms"
    "map m_value (drop 10 ms) = map (\<lambda>get. map_option VReal (cpu_share current previous elapsed get)) (map snd cpu_fields @ [busy])"
    using cpu_metrics_list by blast
  show ?thesis
  proof (cases "cpu_available current previous elapsed")
    case True
    then obtain p where p: "previous = Some p" using cpu_available_previous by blast
    define sh where "sh get = of_int (get current - get p) * 100 / (of_int (total current - total p) :: real)" for get
    let ?shares = "map sh (map snd cpu_fields)"
    note s = cpu_shares [OF True [unfolded p], folded sh_def]
    have "map m_value (drop 10 ms) = map (\<lambda>x. Some (VReal x)) (?shares @ [sh busy])"
      unfolding ms(3) p using True p by (simp add: cpu_share_available sh_def)
    moreover have "length ?shares = 8" "?shares ! 3 = sh idle" "?shares ! 4 = sh iowait" by (simp_all add: cpu_fields_def)
    moreover have "list_all (\<lambda>x. 0 \<le> x \<and> x \<le> 100) (sh busy # ?shares)" using s(1,3) by (simp add: cpu_fields_def)
    moreover have "sum_list ?shares = 100" using s(2) by (simp add: cpu_fields_def)
    ultimately have "\<exists>shares u. map m_value (drop 10 ms) = map (\<lambda>x. Some (VReal x)) (shares @ [u])
        \<and> length shares = 8 \<and> list_all (\<lambda>x. 0 \<le> x \<and> x \<le> 100) (u # shares)
        \<and> sum_list shares = 100 \<and> u = 100 - shares ! 3 - shares ! 4"
      by (intro exI [of _ ?shares] exI [of _ "sh busy"] conjI) (use s(4) in simp_all)
    then show ?thesis using ms(1) True by (simp only: if_True) blast
  next
    case False
    have v: "map m_value (drop 10 ms) = replicate 9 None"
      unfolding ms(3) using False by (simp add: cpu_share_unavailable cpu_fields_def eval_nat_numeral)
    have "m_quality m = ''unavailable''" if "m \<in> set (drop 10 ms)" for m
    proof -
      have "m_value m \<in> set (map m_value (drop 10 ms))" using that by simp
      then have "m_value m = None" unfolding v by simp
      moreover have "honest m" using ms(2) that by (auto simp: list_all_iff dest: in_set_dropD)
      ultimately show ?thesis by (simp add: honest_def)
    qed
    then show ?thesis using ms(1) False v by (auto simp: list_all_iff)
  qed
qed


section \<open>Well-made metrics\<close>

lemma memory_metrics_honest: "\<exists>ms. memory_metrics txt = Inr ms \<and> list_all honest ms"
  unfolding memory_metrics_def Let_def
  by (rule honest_metrics) (simp add: memory_names_def host_metric_def honest_present)

lemma load_metrics_honest: "honest_reading (load_metrics py_float txt)"
proof -
  have "list_all honest (map (\<lambda>(name, x). host_metric name (Some (VReal x)) ''load'' ''exact'') zs)" for zs
    by (induction zs) (simp_all add: split_beta host_metric_def honest_Metric)
  then show ?thesis by (simp add: load_metrics_def Let_def honest_reading_bind honest_reading_metrics)
qed

lemma conntrack_metrics_honest: "honest_reading (conntrack_metrics a b)"
  unfolding conntrack_metrics_def
  by (intro honest_reading_bind) (simp add: host_metric_def honest_Metric honest_reading_metrics)

lemma file_handle_metrics_honest: "honest_reading (file_handle_metrics a b)"
  unfolding file_handle_metrics_def Let_def
  by (simp split: list.split, intro allI impI honest_reading_bind honest_reading_metrics)
    (simp add: host_metric_def honest_present honest_value)

lemma disk_metrics_honest: "\<exists>ms. disk_metrics current previous elapsed g = Inr ms \<and> list_all honest ms"
  unfolding disk_metrics_def
  by (rule honest_metrics)
    (auto simp: disk_cumulative_def disk_rate_metric_def Let_def honest_Metric rate_None)

lemma filesystem_metrics_honest: "honest_reading (filesystem_metrics path statvfs)"
  unfolding filesystem_metrics_def Let_def
  by (cases "statvfs path") (simp, simp only: option.case, rule honest_reading_metrics, simp only: list.map prod.case list.pred_inject
    honest_present honest_value QUALITY_members simp_thms)

lemma database_size_metrics_honest: "\<exists>ms. database_size_metrics path size_of = Inr ms \<and> list_all honest ms"
  unfolding database_size_metrics_def
  by (rule honest_metrics) (auto simp: honest_Metric split: file_size.split)

lemma optional_ints_honest: "q \<in> set QUALITY \<Longrightarrow> list_all (\<lambda>(_, v, _, q). q \<in> set QUALITY \<and> (if v = None then q = ''unavailable'' else True)) (optional_ints q vs)"
  by (auto simp: optional_ints_def list_all_iff presence_def)

lemma process_metric_list_honest:
  assumes "list_all (\<lambda>(_, v, _, q). q \<in> set QUALITY \<and> (if v = None then q = ''unavailable'' else True)) values"
  shows "\<exists>ms. process_metric_list service labels b delta values = Inr ms \<and> list_all honest ms"
  unfolding process_metric_list_def using assms
  by (intro honest_metrics) (auto simp: list_all_iff honest_Metric split: prod.split)

lemma cpu_percent_None: "0 < t \<Longrightarrow> cpu_percent (counter_delta p c e g) t = None \<longleftrightarrow> cd_quality (counter_delta p c e g) = ''unavailable''"
  by (simp add: cpu_percent_def rate_None [symmetric] split: option.split)

lemma service_process_metrics_honest:
  assumes "0 < t" and "slow \<in> set QUALITY"
  shows "\<exists>ms. service_process_metrics service current previous elapsed t g auth slow = Inr ms \<and> list_all honest ms"
  unfolding service_process_metrics_def Let_def
  by (rule process_metric_list_honest)
    (use assms optional_ints_honest [OF assms(2)] in \<open>auto simp: cpu_percent_None simp del: counter_delta_honest intro!: counter_delta_honest\<close>)

lemma process_metrics_honest:
  assumes "0 < t"
  shows "\<exists>ms. process_metrics service current previous elapsed t g = Inr ms \<and> list_all honest ms"
  unfolding process_metrics_def Let_def
  by (rule process_metric_list_honest)
    (use assms optional_ints_honest [of "''exact''"] in \<open>auto simp: cpu_percent_None\<close>)


section \<open>Processes of a service\<close>

lemma aggregate_permute:
  assumes "mset fast = mset fast'" and "distinct (map pid fast)"
    and "mset slow = mset slow'" and "distinct (map fst slow)"
  shows "aggregate_service_processes fast slow = aggregate_service_processes fast' slow'"
proof -
  have "sort_key pid fast = sort_key pid fast'"
    using assms(1,2) by (intro sort_key_inj_key_eq) (simp_all add: distinct_map)
  moreover have "distinct (map fst slow')" using assms(3,4) by (metis distinct_map mset_eq_imp_distinct_iff mset_map)
  then have "map_of slow k = Some v \<longleftrightarrow> map_of slow' k = Some v" for k v
    using assms(3,4) by (simp add: map_of_eq_Some_iff mset_eq_setD [OF assms(3)])
  then have "map_of slow = map_of slow'" by (metis (no_types, lifting) ext not_None_eq)
  moreover have "length slow = length slow'" using assms(3) by (rule mset_eq_length)
  moreover have "fast = [] \<longleftrightarrow> fast' = []" using assms(1) by (metis mset_zero_iff)
  ultimately show ?thesis unfolding aggregate_service_processes_def by simp
qed

text \<open>The processes of a service are summed the same whatever order \<open>/proc\<close> lists them in and whatever order the
  slow snapshots were taken in, so that two collections of the same processes have the same identity; the identity
  lists them by process number.\<close>

theorem service_identity_order_free:
  assumes "mset fast = mset fast'" and "distinct (map pid fast)"
    and "mset slow = mset slow'" and "distinct (map fst slow)"
  shows "aggregate_service_processes fast slow = aggregate_service_processes fast' slow'
    \<and> (case aggregate_service_processes fast slow of
         Inl _ \<Rightarrow> fast = []
       | Inr a \<Rightarrow> sorted_wrt (<) (map fst (sp_identity a)) \<and> set (sp_identity a) = (\<lambda>s. (pid s, start_ticks s)) ` set fast
           \<and> sp_cpu_ticks a = sum_list (map cpu_ticks fast) \<and> process_count a = int (length fast))"
proof -
  have sum: "sum_list (map f (sort_key pid fast)) = sum_list (map f fast)" for f :: "process_snapshot \<Rightarrow> int"
    by (metis mset_map mset_sort sum_mset_sum_list)
  have "distinct (map pid (sort_key pid fast))" using assms(2) by (metis distinct_map mset_eq_imp_distinct_iff mset_map mset_sort)
  then have "sorted_wrt (<) (map pid (sort_key pid fast))" by (simp add: strict_sorted_iff)
  then have "case aggregate_service_processes fast slow of
         Inl _ \<Rightarrow> fast = []
       | Inr a \<Rightarrow> sorted_wrt (<) (map fst (sp_identity a)) \<and> set (sp_identity a) = (\<lambda>s. (pid s, start_ticks s)) ` set fast
           \<and> sp_cpu_ticks a = sum_list (map cpu_ticks fast) \<and> process_count a = int (length fast)"
    by (simp add: aggregate_service_processes_def Let_def sum comp_def)
  then show ?thesis using aggregate_permute [OF assms] by blast
qed

definition sample_process :: "int \<Rightarrow> int \<Rightarrow> process_snapshot" where
  "sample_process p ticks =
     \<lparr>pid = p, start_ticks = 7, cpu_ticks = ticks, rss_bytes = 4096, rss_anon_bytes = None, rss_file_bytes = None, threads = 1,
      fd_count = None, fd_soft_limit = None, fd_hard_limit = None\<rparr>"

theorem service_identity_order_free_witness:
  "aggregate_service_processes [sample_process 9 3, sample_process 4 5] [] = aggregate_service_processes [sample_process 4 5, sample_process 9 3] []"
  using service_identity_order_free [of "[sample_process 9 3, sample_process 4 5]" "[sample_process 4 5, sample_process 9 3]" "[]" "[]"]
  by (simp add: sample_process_def)

lemma process_metric_list_values:
  assumes "process_metric_list service labels b delta values = Inr ms" and "m \<in> set ms"
  shows "(m_name m, m_value m) \<in> (\<lambda>(n, v, _). (n, v)) ` set values
    \<and> m_reset m = (b \<or> m_name m = ''process_cpu_percent'' \<and> cd_reset delta)"
proof -
  have "ms = map (\<lambda>(name, value, un, qual).
       (Metric ''service'' name value un qual labels ''service'' service)
         \<lparr>m_reset := b \<or> (name = ''process_cpu_percent'' \<and> cd_reset delta),
          m_gap := name = ''process_cpu_percent'' \<and> cd_gap delta\<rparr>) values"
    using assms(1) by (simp add: process_metric_list_def metrics_Inr)
  with assms(2) show ?thesis by (auto simp: Metric_fields split: prod.splits intro: rev_image_eqI)
qed

lemma process_metric_list_has:
  assumes "process_metric_list service labels b delta values = Inr ms" and "(n, v, uq) \<in> set values"
  shows "\<exists>m \<in> set ms. m_name m = n \<and> m_value m = v"
proof -
  have "\<exists>m \<in> set (map (\<lambda>(name, value, un, qual).
       (Metric ''service'' name value un qual labels ''service'' service)
         \<lparr>m_reset := b \<or> (name = ''process_cpu_percent'' \<and> cd_reset delta),
          m_gap := name = ''process_cpu_percent'' \<and> cd_gap delta\<rparr>) values). m_name m = n \<and> m_value m = v"
    using assms(2) by (intro bexI [OF _ imageI [OF assms(2), folded set_map]]) (simp_all add: Metric_fields split: prod.split)
  then show ?thesis using assms(1) by (simp only: process_metric_list_def metrics_Inr)
qed

lemma cpu_percent_Some:
  "cpu_percent (counter_delta p (Some c) e g) t = Some x \<longleftrightarrow>
     (\<exists>a. p = Some a \<and> 0 < e \<and> a \<le> c \<and> 0 < t \<and> x = of_int (c - a) / e * 100 / of_int t)"
proof (cases "cd_rate (counter_delta p (Some c) e g)")
  case None
  then have "\<not> (\<exists>a. p = Some a \<and> 0 < e \<and> a \<le> c)" by (auto simp: counter_delta_def split: option.splits if_splits)
  then show ?thesis using None by (auto simp: cpu_percent_def)
next
  case (Some r)
  then obtain a where "p = Some a" "0 < e" "a \<le> c" "r = of_int (c - a) / e" unfolding counter_delta_Some by blast
  then show ?thesis using Some by (auto simp: cpu_percent_def)
qed

text \<open>The processor use of a service is never computed across a change of its processes: a percentage is
  reported only when the previous reading is of the same processes with the same start times, time has passed and
  the ticks did not fall; it is then the ticks used over that time and not negative. A change of the processes marks every
  metric of the service as reset.\<close>

theorem service_cpu_same_processes:
  assumes "service_process_metrics service current previous elapsed t g auth slow_quality = Inr ms"
    and "m \<in> set ms"
  shows "(if m_name m = ''process_cpu_percent'' \<and> m_value m \<noteq> None
          then \<exists>p e. previous = Some p \<and> elapsed = Some e \<and> 0 < e \<and> 0 < t \<and> sp_identity p = sp_identity current
            \<and> sp_cpu_ticks p \<le> sp_cpu_ticks current
            \<and> m_value m = Some (VReal (of_int (sp_cpu_ticks current - sp_cpu_ticks p) / e * 100 / of_int t))
          else True)
    \<and> (case previous of None \<Rightarrow> True | Some p \<Rightarrow> if sp_identity p \<noteq> sp_identity current then m_reset m else True)"
proof -
  define b where "b = (case previous of None \<Rightarrow> False | Some p \<Rightarrow> sp_identity p \<noteq> sp_identity current)"
  define delta where "delta = counter_delta (if b then None else map_option sp_cpu_ticks previous) (Some (sp_cpu_ticks current)) (elapsed_or_0 elapsed) g"
  note def = assms(1) [unfolded service_process_metrics_def Let_def, folded b_def, folded delta_def]
  note m = process_metric_list_values [OF def assms(2)]
  have reset: "case previous of None \<Rightarrow> True | Some p \<Rightarrow> if sp_identity p \<noteq> sp_identity current then m_reset m else True"
    using m by (auto simp: b_def split: option.splits)
  have "\<exists>p e. previous = Some p \<and> elapsed = Some e \<and> 0 < e \<and> 0 < t \<and> sp_identity p = sp_identity current
            \<and> sp_cpu_ticks p \<le> sp_cpu_ticks current
            \<and> m_value m = Some (VReal (of_int (sp_cpu_ticks current - sp_cpu_ticks p) / e * 100 / of_int t))"
    if n: "m_name m = ''process_cpu_percent''" and v: "m_value m \<noteq> None"
  proof -
    have "m_value m = map_option VReal (cpu_percent delta t)" using m n by (auto simp: optional_ints_def)
    then obtain x where x: "cpu_percent delta t = Some x" "m_value m = Some (VReal x)" using v by auto
    then obtain a where a: "(if b then None else map_option sp_cpu_ticks previous) = Some a" "0 < elapsed_or_0 elapsed"
        "a \<le> sp_cpu_ticks current" "0 < t" "x = of_int (sp_cpu_ticks current - a) / elapsed_or_0 elapsed * 100 / of_int t"
      unfolding delta_def cpu_percent_Some by blast
    obtain p where p: "previous = Some p" "sp_cpu_ticks p = a" "\<not> b" using a(1) by (auto split: if_splits)
    obtain e where "elapsed = Some e" using a(2) by (cases elapsed) auto
    then show ?thesis using a p x(2) by (auto simp: b_def)
  qed
  with reset show ?thesis by simp
qed

definition sample_service :: "int \<Rightarrow> service_process_snapshot" where
  "sample_service ticks =
     \<lparr>sp_identity = [(4, 7)], process_count = 1, sp_cpu_ticks = ticks, sp_rss_bytes = 0, sp_rss_anon_bytes = None, sp_rss_file_bytes = None,
      sp_threads = 1, sp_fd_count = None, sp_fd_soft_limit = None, sp_fd_hard_limit = None\<rparr>"

theorem service_cpu_same_processes_witness:
  "\<exists>ms. service_process_metrics ''gost'' (sample_service 30) (Some (sample_service 10)) (Some 10) 100 None True ''exact'' = Inr ms
     \<and> (\<exists>m \<in> set ms. m_name m = ''process_cpu_percent'' \<and> m_value m = Some (VReal 2))"
proof -
  obtain ms where ms: "service_process_metrics ''gost'' (sample_service 30) (Some (sample_service 10)) (Some 10) 100 None True ''exact'' = Inr ms"
    using service_process_metrics_honest [of 100 "''exact''"] by fastforce
  then obtain m where m: "m \<in> set ms" "m_name m = ''process_cpu_percent''" "m_value m \<noteq> None"
    using process_metric_list_has [OF ms [unfolded service_process_metrics_def Let_def], of "''process_cpu_percent''" "Some (VReal 2)"
        "(''percent'', ''derived'')"]
    by (auto simp: sample_service_def counter_delta_def cpu_percent_def)
  then show ?thesis using service_cpu_same_processes [OF ms m(1)] ms by (auto simp: sample_service_def)
qed

end
