(* ===== verification/Monitoring_Services.thy ===== *)
theory Monitoring_Services
  imports Monitoring_Metrics
begin

text \<open>
  \<open>src/monitoring/systemd_readers.py\<close> and \<open>src/monitoring/socket_readers.py\<close>: the properties systemd shows of a
  service, its control group, and the sockets \<open>ss\<close> lists with the processes that own them. A file of a control
  group is an answer (\<open>None\<close> where reading raises \<open>OSError\<close>).

  The lemmas: the processes of a control group are found exactly, in order and once each; a port counts as owned
  exactly when the listener belongs to the service, and an unknown owner is never taken for an answer.
\<close>

section \<open>Services\<close>

definition gost_service :: "string \<Rightarrow> bool" where
  "gost_service s \<longleftrightarrow>
     (let t = (if ends_with s [LF] then butlast s else s);
          number = (if starts_with t ''gost-iran-'' then Some (drop 10 t)
                    else if starts_with t ''gost-kharej-'' then Some (drop 12 t) else None)
      in (case number of
            None \<Rightarrow> False
          | Some r \<Rightarrow> ends_with r ''.service'' \<and>
              (let n = take (length r - 8) r in n \<noteq> [] \<and> hd n \<noteq> CHR ''0'' \<and> list_all is_digit n)))"

definition parse_systemd_properties :: "string \<Rightarrow> (string, string) dict" where
  "parse_systemd_properties txt = dict_of (List.map_filter (split_first (CHR ''='')) (splitlines txt))"

definition discover_managed_services :: "string list \<Rightarrow> string \<Rightarrow> string list" where
  "discover_managed_services tunnels list_units_text =
     (let listed = List.map_filter (\<lambda>raw. case split_ws raw of [] \<Rightarrow> None | p # _ \<Rightarrow> if gost_service p then Some p else None)
                     (splitlines list_units_text)
      in sort (remdups (filter gost_service tunnels @ listed)))"

definition int_property :: "(string, string) dict \<Rightarrow> string \<Rightarrow> (reader_exn, int option) result" where
  "int_property properties key =
     (let value = dict_get properties key []
      in if isdigit value then bindR (read_int value) (\<lambda>i. Inr (Some i)) else Inr None)"

definition service_metric :: "string \<Rightarrow> string \<times> metric_value option \<times> string \<Rightarrow> metric" where
  "service_metric service entry =
     (case entry of (name, value, un) \<Rightarrow>
        Metric ''service'' name value un (presence ''exact'' value) [(''service'', service)] ''service'' service)"

definition service_metrics :: "string \<Rightarrow> (string, string) dict \<Rightarrow> (reader_exn, metric list) result" where
  "service_metrics service properties =
     (let active = map_of properties ''ActiveState'';
          substate = map_of properties ''SubState'';
          number = int_property properties;
          accounting = map lower_char (dict_get properties ''IPAccounting'' []) = ''yes'';
          accounted = (\<lambda>key. if accounting then number key else Inr None)
      in bindR (number ''MainPID'') (\<lambda>main_pid.
         bindR (number ''ExecMainStartTimestampMonotonic'') (\<lambda>start.
         bindR (number ''NRestarts'') (\<lambda>restarts.
         bindR (number ''TasksCurrent'') (\<lambda>tasks.
         bindR (number ''MemoryCurrent'') (\<lambda>memory_current.
         bindR (number ''MemoryPeak'') (\<lambda>memory_peak.
         bindR (accounted ''IPIngressBytes'') (\<lambda>ingress.
         bindR (accounted ''IPEgressBytes'') (\<lambda>egress.
           metrics (map (service_metric service)
             [(''service_active'', map_option (\<lambda>a. VInt (if a = ''active'' then 1 else 0)) active, ''boolean''),
              (''service_active_state'', map_option VText active, ''state''),
              (''service_sub_state'', map_option VText substate, ''state''),
              (''service_main_pid'', map_option VInt main_pid, ''pid''),
              (''service_start_monotonic_us'', map_option VInt start, ''microseconds''),
              (''service_restart_count'', map_option VInt restarts, ''count''),
              (''service_tasks'', map_option VInt tasks, ''count''),
              (''cgroup_memory_current_bytes'', map_option VInt memory_current, ''bytes''),
              (''cgroup_memory_peak_bytes'', map_option VInt memory_peak, ''bytes''),
              (''systemd_ip_ingress_bytes'', map_option VInt ingress, ''bytes''),
              (''systemd_ip_egress_bytes'', map_option VInt egress, ''bytes'')]))))))))))"


section \<open>Control groups\<close>

text \<open>\<open>Path(control_group.lstrip("/"))\<close>: its parts, without the empty ones and the dots.\<close>

definition cgroup_parts :: "string \<Rightarrow> string list" where
  "cgroup_parts control_group =
     filter (\<lambda>p. p \<noteq> [] \<and> p \<noteq> ''.'') (split_on (CHR ''/'') (lstrip_char (CHR ''/'') control_group))"

definition cgroup_number :: "string option \<Rightarrow> (reader_exn, int option) result" where
  "cgroup_number content =
     (case content of
        None \<Rightarrow> Inr None
      | Some raw \<Rightarrow>
          let value = strip raw
          in if value = ''max'' then Inr None
             else if isdigit value then bindR (read_int value) (\<lambda>i. Inr (Some i)) else Inr None)"

definition read_cgroup_memory :: "string \<Rightarrow> (string list \<Rightarrow> string option) \<Rightarrow> (reader_exn, (string, int option) dict) result" where
  "read_cgroup_memory control_group reader =
     (let relative = cgroup_parts control_group
      in if ''..'' \<in> set relative then Inl (ReadValueError ''unsafe cgroup path'')
         else bindR (cgroup_number (reader (relative @ [''memory.current'']))) (\<lambda>current.
              bindR (cgroup_number (reader (relative @ [''memory.peak'']))) (\<lambda>peak.
                Inr [(''memory_current'', current), (''memory_peak'', peak)])))"

fun cgroup_pid_lines :: "string list \<Rightarrow> (reader_exn, int list) result" where
  "cgroup_pid_lines [] = Inr []"
| "cgroup_pid_lines (raw # rest) =
     (let value = strip raw
      in if value = [] then cgroup_pid_lines rest
         else if \<not> isdigit value then Inl (ReadValueError ''invalid cgroup.procs entry'')
         else bindR (read_int value) (\<lambda>p.
                if p \<le> 0 then Inl (ReadValueError ''invalid cgroup.procs entry'')
                else bindR (cgroup_pid_lines rest) (\<lambda>ps. Inr (p # ps))))"

definition read_cgroup_pids :: "string \<Rightarrow> (string list \<Rightarrow> string option) \<Rightarrow> (reader_exn, int list) result" where
  "read_cgroup_pids control_group reader =
     (let relative = cgroup_parts control_group
      in if ''..'' \<in> set relative then Inl (ReadValueError ''unsafe cgroup path'')
         else (case reader (relative @ [''cgroup.procs'']) of
                 None \<Rightarrow> Inl ReadOSError
               | Some txt \<Rightarrow> bindR (cgroup_pid_lines (splitlines txt)) (\<lambda>ps. Inr (sort (remdups ps)))))"

definition cgroup_memory_metrics :: "string \<Rightarrow> (string, int option) dict \<Rightarrow> (reader_exn, metric list) result" where
  "cgroup_memory_metrics service values =
     metrics (map (\<lambda>(source, name). service_metric service (name, map_option VInt (dict_get values source None), ''bytes''))
       [(''memory_current'', ''cgroup_memory_current_bytes''), (''memory_peak'', ''cgroup_memory_peak_bytes'')])"


section \<open>Sockets\<close>

record socket_record =
  so_state :: string
  local_address :: string
  local_port :: int
  peer_address :: string
  peer_port :: int
  so_pid :: "int option"
  so_process :: "string option"

text \<open>\<open>str.rpartition\<close>: what is before and after the last occurrence of a separator.\<close>

fun rpartition :: "string \<Rightarrow> string \<Rightarrow> (string \<times> string) option" where
  "rpartition sep [] = (if sep = [] then Some ([], []) else None)"
| "rpartition sep (c # cs) =
     (case rpartition sep cs of
        Some (a, b) \<Rightarrow> Some (c # a, b)
      | None \<Rightarrow> if starts_with (c # cs) sep then Some ([], drop (length sep) (c # cs)) else None)"

definition parse_socket_address :: "string \<Rightarrow> (reader_exn, (string \<times> int) option) result" where
  "parse_socket_address value =
     (let v = strip value;
          parts = (if starts_with v ''['' then map_option (\<lambda>(h, p). (drop 1 h, p)) (rpartition '']:'' v) else rpartition '':'' v)
      in (case parts of
            None \<Rightarrow> Inr None
          | Some (host, port) \<Rightarrow>
              if port = ''*'' then Inr (Some (host, 0))
              else if \<not> isdigit port then Inr None
              else bindR (read_int port) (\<lambda>n. if n < 0 \<or> 65535 < n then Inr None else Inr (Some (host, n)))))"

text \<open>The search for \<open>"process",pid=digits,fd=digits\<close>: the text up to the next quote is the process.\<close>

definition process_at :: "string \<Rightarrow> (string \<times> string) option" where
  "process_at s =
     (case s of
        [] \<Rightarrow> None
      | c # rest \<Rightarrow>
          if c \<noteq> CHR 0x22 then None
          else (case split_first (CHR 0x22) rest of
                  None \<Rightarrow> None
                | Some (name, after) \<Rightarrow>
                    let digits = takeWhile is_digit (drop 5 after);
                        tail = drop (5 + length digits) after
                    in if name \<noteq> [] \<and> starts_with after '',pid='' \<and> digits \<noteq> [] \<and> starts_with tail '',fd=''
                          \<and> drop 4 tail \<noteq> [] \<and> is_digit (hd (drop 4 tail))
                       then Some (name, digits) else None))"

fun process_search :: "string \<Rightarrow> (string \<times> string) option" where
  "process_search [] = None"
| "process_search (c # cs) = (case process_at (c # cs) of None \<Rightarrow> process_search cs | Some r \<Rightarrow> Some r)"

definition ss_row :: "string \<Rightarrow> (reader_exn, socket_record) result" where
  "ss_row raw =
     (let parts = split_ws (strip raw)
      in if length parts < 5 then Inl (ReadValueError ''malformed ss row'')
         else bindR (parse_socket_address (parts ! 3)) (\<lambda>local.
              bindR (parse_socket_address (parts ! 4)) (\<lambda>peer.
                case (local, peer) of
                  (Some (la, lp), Some (pa, pp)) \<Rightarrow>
                    let process = process_search raw
                    in bindR (case process of None \<Rightarrow> Inr None | Some (_, digits) \<Rightarrow> bindR (read_int digits) (\<lambda>i. Inr (Some i))) (\<lambda>p.
                         Inr \<lparr>so_state = map upper_char (parts ! 0), local_address = la, local_port = lp, peer_address = pa, peer_port = pp,
                              so_pid = p, so_process = map_option fst process\<rparr>)
                | _ \<Rightarrow> Inl (ReadValueError ''malformed ss socket address''))))"

definition parse_ss_sockets :: "string \<Rightarrow> (reader_exn, socket_record list) result" where
  "parse_ss_sockets txt = mapR ss_row (filter (\<lambda>raw. strip raw \<noteq> []) (splitlines txt))"

definition parse_ss_listeners :: "string \<Rightarrow> (reader_exn, (string \<times> int \<times> int option \<times> string option) list) result" where
  "parse_ss_listeners txt =
     bindR (parse_ss_sockets txt) (\<lambda>rows.
       Inr (map (\<lambda>r. (local_address r, local_port r, so_pid r, so_process r)) (filter (\<lambda>r. so_state r = ''LISTEN'') rows)))"

text \<open>\<open>collections.Counter\<close>: the values with their number of occurrences, in order of first occurrence.\<close>

definition counter :: "'a list \<Rightarrow> ('a, int) dict" where
  "counter xs = fold (\<lambda>x d. AList.update x (dict_get d x 0 + 1) d) xs []"

definition tcp_state_counts :: "socket_record list \<Rightarrow> (string, int) dict" where
  "tcp_state_counts records = counter (map so_state (filter (\<lambda>r. so_state r \<noteq> ''LISTEN'') records))"

definition owned_by :: "int set \<Rightarrow> socket_record \<Rightarrow> bool" where
  "owned_by owners r = (case so_pid r of None \<Rightarrow> False | Some p \<Rightarrow> p \<in> owners)"

definition owned_listener_ports :: "socket_record list \<Rightarrow> int list \<Rightarrow> int set \<Rightarrow> int set" where
  "owned_listener_ports records ports owners =
     set (map local_port (filter (\<lambda>r. so_state r = ''LISTEN'' \<and> local_port r \<in> set ports \<and> owned_by owners r) records))"

definition listener_ownership_exact :: "socket_record list \<Rightarrow> int list \<Rightarrow> int set \<Rightarrow> bool option" where
  "listener_ownership_exact records ports owners =
     (let relevant = filter (\<lambda>r. so_state r = ''LISTEN'' \<and> local_port r \<in> set ports) records
      in if list_ex (\<lambda>r. so_pid r = None) relevant then None
         else Some (list_all (\<lambda>port. list_ex (\<lambda>r. local_port r = port \<and> owned_by owners r) relevant) ports))"

definition established_socket_count :: "socket_record list \<Rightarrow> int set \<Rightarrow> int" where
  "established_socket_count records owners = int (length (filter (\<lambda>r. so_state r = ''ESTAB'' \<and> owned_by owners r) records))"

definition process_tcp_states :: "socket_record list \<Rightarrow> int set \<Rightarrow> (string, int) dict" where
  "process_tcp_states records owners =
     counter (map so_state (filter (\<lambda>r. owned_by owners r \<and> so_state r \<noteq> ''LISTEN'') records))"

text \<open>The count of connections to a remote end. \<open>normalized\<close> stands for \<open>ipaddress.ip_address\<close> with the zone
  removed and mapped addresses unmapped (\<open>None\<close> where it raises).\<close>

fun remote_count :: "(string \<Rightarrow> 'a option) \<Rightarrow> 'a \<Rightarrow> int \<Rightarrow> int set \<Rightarrow> socket_record list \<Rightarrow> int \<Rightarrow> int option" where
  "remote_count normalized expected port owners [] n = Some n"
| "remote_count normalized expected port owners (r # rs) n =
     (if so_state r \<noteq> ''ESTAB'' \<or> peer_port r \<noteq> port then remote_count normalized expected port owners rs n
      else (case normalized (peer_address r) of
              None \<Rightarrow> if so_pid r = None \<or> owned_by owners r then None else remote_count normalized expected port owners rs n
            | Some peer \<Rightarrow>
                if peer \<noteq> expected then remote_count normalized expected port owners rs n
                else if so_pid r = None then None
                else remote_count normalized expected port owners rs (if owned_by owners r then n + 1 else n)))"

definition established_remote_socket_count ::
  "(string \<Rightarrow> 'a option) \<Rightarrow> socket_record list \<Rightarrow> int set \<Rightarrow> string \<Rightarrow> int \<Rightarrow> int option" where
  "established_remote_socket_count normalized records owners remote_host remote_port =
     (case normalized remote_host of
        None \<Rightarrow> None
      | Some expected \<Rightarrow> remote_count normalized expected remote_port owners records 0)"


section \<open>Well-made metrics\<close>

lemma service_metric_honest: "honest (service_metric service e)"
  by (cases e) (simp add: service_metric_def honest_Metric presence_def)

lemma service_metrics_honest: "honest_reading (service_metrics service properties)"
  unfolding service_metrics_def Let_def
  by (intro honest_reading_bind honest_reading_metrics) (simp add: service_metric_honest list_all_iff)

lemma cgroup_memory_metrics_honest: "\<exists>ms. cgroup_memory_metrics service values = Inr ms \<and> list_all honest ms"
  unfolding cgroup_memory_metrics_def by (rule honest_metrics) (simp add: service_metric_honest)


section \<open>The processes of a control group\<close>

lemma cgroup_pid_lines_exact:
  "cgroup_pid_lines ls = Inr ps \<Longrightarrow>
     map Some ps = map (\<lambda>l. text_int (strip l)) (filter (\<lambda>l. strip l \<noteq> []) ls) \<and> list_all (\<lambda>p. 0 < p) ps"
proof (induction ls arbitrary: ps)
  case (Cons l ls)
  then show ?case
    by (auto simp: Let_def bindR_eq_Inr read_int_def split: if_splits option.splits)
qed simp

lemma cgroup_pid_lines_refuses:
  "cgroup_pid_lines ls = Inl e \<Longrightarrow>
     list_ex (\<lambda>l. strip l \<noteq> [] \<and> (\<not> isdigit (strip l) \<or> text_int (strip l) = None \<or> the (text_int (strip l)) \<le> 0)) ls"
proof (induction ls arbitrary: e)
  case (Cons l ls)
  obtain r where r: "cgroup_pid_lines ls = r" by blast
  show ?case
  proof (cases r)
    case (Inl e')
    then show ?thesis using Cons.IH r by simp
  next
    case (Inr ps)
    then show ?thesis using Cons.prems r by (auto simp: Let_def read_int_def split: if_splits option.splits)
  qed
qed simp

text \<open>The processes of a control group are exactly the numbers its file lists, once each and in order; a file with any
  other entry is refused as a whole, and a group whose path climbs out of the hierarchy is never read.\<close>

theorem cgroup_pids_exact:
  "(case read_cgroup_pids cg reader of
      Inr ps \<Rightarrow> \<exists>content. reader (cgroup_parts cg @ [''cgroup.procs'']) = Some content \<and> ''..'' \<notin> set (cgroup_parts cg)
        \<and> sorted_wrt (<) ps \<and> list_all (\<lambda>p. 0 < p) ps
        \<and> Some ` set ps = (\<lambda>l. text_int (strip l)) ` set (filter (\<lambda>l. strip l \<noteq> []) (splitlines content))
    | Inl e \<Rightarrow> ''..'' \<in> set (cgroup_parts cg) \<or> reader (cgroup_parts cg @ [''cgroup.procs'']) = None
        \<or> (\<exists>content. reader (cgroup_parts cg @ [''cgroup.procs'']) = Some content
             \<and> list_ex (\<lambda>l. strip l \<noteq> [] \<and> (\<not> isdigit (strip l) \<or> text_int (strip l) = None \<or> the (text_int (strip l)) \<le> 0)) (splitlines content)))"
proof (cases "''..'' \<in> set (cgroup_parts cg) \<or> reader (cgroup_parts cg @ [''cgroup.procs'']) = None")
  case True
  then show ?thesis by (auto simp: read_cgroup_pids_def Let_def)
next
  case False
  then obtain content where content: "reader (cgroup_parts cg @ [''cgroup.procs'']) = Some content" and safe: "''..'' \<notin> set (cgroup_parts cg)"
    by blast
  show ?thesis
  proof (cases "cgroup_pid_lines (splitlines content)")
    case (Inl e)
    have "read_cgroup_pids cg reader = Inl e" using content safe Inl by (simp add: read_cgroup_pids_def Let_def)
    then show ?thesis using content cgroup_pid_lines_refuses [OF Inl] by simp
  next
    case (Inr ps)
    have "read_cgroup_pids cg reader = Inr (sort (remdups ps))" using content safe Inr by (simp add: read_cgroup_pids_def Let_def)
    moreover have "sorted_wrt (<) (sort (remdups ps))" by (simp add: strict_sorted_iff)
    moreover have "Some ` set ps = (\<lambda>l. text_int (strip l)) ` set (filter (\<lambda>l. strip l \<noteq> []) (splitlines content))"
      using cgroup_pid_lines_exact [OF Inr] by (metis set_map)
    moreover have "list_all (\<lambda>p. 0 < p) (sort (remdups ps))" using cgroup_pid_lines_exact [OF Inr] by (simp add: list_all_iff)
    ultimately show ?thesis using content safe by simp
  qed
qed


section \<open>Who owns a port\<close>

text \<open>The two answers about listeners agree: with every listener's owner known, the ports are reported as exactly owned
  if and only if the owned ports are all the expected ones; an unknown owner of an expected port gives no answer.\<close>

theorem listener_answers_agree:
  "(case listener_ownership_exact records ports owners of
      None \<Rightarrow> list_ex (\<lambda>r. so_state r = ''LISTEN'' \<and> local_port r \<in> set ports \<and> so_pid r = None) records
    | Some b \<Rightarrow> (b \<longleftrightarrow> owned_listener_ports records ports owners = set ports)
        \<and> list_all (\<lambda>r. if so_state r = ''LISTEN'' \<and> local_port r \<in> set ports then so_pid r \<noteq> None else True) records)"
proof (cases "listener_ownership_exact records ports owners")
  case None
  then show ?thesis by (auto simp: listener_ownership_exact_def Let_def list_ex_iff split: if_splits)
next
  case (Some b)
  then have known: "\<forall>r \<in> set records. so_state r = ''LISTEN'' \<and> local_port r \<in> set ports \<longrightarrow> so_pid r \<noteq> None"
    and b: "b \<longleftrightarrow> (\<forall>port \<in> set ports. \<exists>r \<in> set records. so_state r = ''LISTEN'' \<and> local_port r = port \<and> owned_by owners r)"
    by (auto simp: listener_ownership_exact_def Let_def list_ex_iff list_all_iff split: if_splits)
  have "owned_listener_ports records ports owners \<subseteq> set ports" by (auto simp: owned_listener_ports_def)
  moreover have "port \<in> owned_listener_ports records ports owners \<longleftrightarrow>
      (\<exists>r \<in> set records. so_state r = ''LISTEN'' \<and> local_port r = port \<and> owned_by owners r)" if "port \<in> set ports" for port
    using that by (auto simp: owned_listener_ports_def)
  ultimately have "b \<longleftrightarrow> owned_listener_ports records ports owners = set ports" using b by blast
  then show ?thesis using Some known by (auto simp: list_all_iff)
qed

definition remote_match :: "(string \<Rightarrow> 'a option) \<Rightarrow> 'a \<Rightarrow> int \<Rightarrow> socket_record \<Rightarrow> bool" where
  "remote_match normalized expected port r \<longleftrightarrow>
     so_state r = ''ESTAB'' \<and> peer_port r = port \<and> normalized (peer_address r) = Some expected"

definition undecided :: "(string \<Rightarrow> 'a option) \<Rightarrow> 'a \<Rightarrow> int \<Rightarrow> int set \<Rightarrow> socket_record \<Rightarrow> bool" where
  "undecided normalized expected port owners r \<longleftrightarrow>
     so_state r = ''ESTAB'' \<and> peer_port r = port \<and>
     (case normalized (peer_address r) of
        None \<Rightarrow> so_pid r = None \<or> owned_by owners r
      | Some a \<Rightarrow> a = expected \<and> so_pid r = None)"

lemma remote_count_exact:
  "remote_count normalized expected port owners rs n =
     (if list_ex (undecided normalized expected port owners) rs then None
      else Some (n + int (length (filter (\<lambda>r. remote_match normalized expected port r \<and> owned_by owners r) rs))))"
proof (induction rs arbitrary: n)
  case (Cons r rs)
  then show ?case by (cases "normalized (peer_address r)") (auto simp: undecided_def remote_match_def)
qed simp

text \<open>The number of connections to the remote end of a tunnel is reported only when it is certain: it is the number of
  established connections to that address and port held by the service, and no number is given when a connection to
  the port could be one of them but its address cannot be read or its owner is unknown.\<close>

theorem remote_connections_certain:
  "established_remote_socket_count normalized records owners host port =
     (case normalized host of
        None \<Rightarrow> None
      | Some expected \<Rightarrow>
          if list_ex (undecided normalized expected port owners) records then None
          else Some (int (length (filter (\<lambda>r. remote_match normalized expected port r \<and> owned_by owners r) records))))"
  unfolding established_remote_socket_count_def by (simp add: remote_count_exact split: option.split)

end
