(* ===== verification/Monitoring_Entities.thy ===== *)
theory Monitoring_Entities
  imports Monitoring_Metrics "HOL-Library.Product_Lexorder"
begin

text \<open>
  \<open>src/monitoring/entities.py\<close>: the tunnels the collector finds from the environment files, read without the secrets
  in them. Of the standard library the module uses \<open>ipaddress.ip_network\<close> on IPv4 text, which is written out here:
  an address of four decimal octets without leading zeros, with an optional prefix length, netmask or host mask; an
  IPv6 network is refused by the module whatever it is. Reading a file is an answer, its failure the name of the
  exception's class.

  The lemmas: port mappings that are accepted are valid and are read back as they were written; the canonical form of
  the allowed sources is sorted, without duplicates, and is its own canonical form; discovery accounts for every
  environment file in order, and a malformed one hides no other.
\<close>

section \<open>Environment files\<close>

datatype env_exn = EnvValueError string | EnvReadError string

definition env_key :: "string \<Rightarrow> bool" where
  "env_key k \<longleftrightarrow> k \<noteq> [] \<and> (is_upper (hd k) \<or> is_lower (hd k) \<or> hd k = CHR ''_'')
     \<and> list_all (\<lambda>c. is_alnum c \<or> c = CHR ''_'') k"

fun env_lines :: "(string, string) dict \<Rightarrow> string list \<Rightarrow> (env_exn, (string, string) dict) result" where
  "env_lines values [] = Inr values"
| "env_lines values (line # rest) =
     (if line = [] \<or> hd line = CHR ''#'' then env_lines values rest
      else (case split_first (CHR ''='') line of
              None \<Rightarrow> Inl (EnvValueError ''invalid key'')
            | Some (key, value) \<Rightarrow>
                if \<not> env_key key then Inl (EnvValueError ''invalid key'')
                else if map_of values key \<noteq> None then Inl (EnvValueError ''duplicate key'')
                else env_lines (values @ [(key, value)]) rest))"

definition parse_env_text :: "string \<Rightarrow> (env_exn, (string, string) dict) result" where
  "parse_env_text content =
     (if NUL \<in> set content \<or> CR \<in> set content then Inl (EnvValueError ''env contains an invalid control character'')
      else env_lines [] (splitlines content))"

type_synonym env_reader = "string \<Rightarrow> string + string"

definition parse_env_file :: "env_reader \<Rightarrow> string \<Rightarrow> (env_exn, (string, string) dict) result" where
  "parse_env_file reader path = (case reader path of Inl c \<Rightarrow> Inl (EnvReadError c) | Inr content \<Rightarrow> parse_env_text content)"


section \<open>Ports and labels\<close>

definition parse_port :: "string \<Rightarrow> (env_exn, int) result" where
  "parse_port value =
     (if value = [] \<or> hd value = CHR ''0'' \<or> 5 < length value \<or> \<not> list_all is_digit value then Inl (EnvValueError ''invalid port'')
      else if 65535 < nat_of_text value then Inl (EnvValueError ''invalid port'')
      else Inr (int (nat_of_text value)))"

fun mapping_items :: "int list \<Rightarrow> string list \<Rightarrow> (env_exn, (int \<times> int) list) result" where
  "mapping_items seen [] = Inr []"
| "mapping_items seen (raw # rest) =
     (case split_first (CHR '':'') (strip raw) of
        None \<Rightarrow> Inl (EnvValueError ''invalid mapping'')
      | Some (listen_raw, target_raw) \<Rightarrow>
          if \<not> all_digits listen_raw \<or> \<not> all_digits target_raw then Inl (EnvValueError ''invalid mapping'')
          else bindR (parse_port listen_raw) (\<lambda>listen.
               bindR (parse_port target_raw) (\<lambda>target.
                 if listen \<in> set seen then Inl (EnvValueError ''duplicate listen port'')
                 else bindR (mapping_items (listen # seen) rest) (\<lambda>ms. Inr ((listen, target) # ms)))))"

definition parse_mappings :: "string \<Rightarrow> (env_exn, (int \<times> int) list) result" where
  "parse_mappings value =
     (if value = [] \<or> starts_with value '','' \<or> ends_with value '','' \<or> has_sub '',,'' value
      then Inl (EnvValueError ''MAPPINGS must use listen:target'')
      else mapping_items [] (split_on (CHR '','') value))"

definition SAFE_HOST_RE :: "string \<Rightarrow> bool" where
  "SAFE_HOST_RE s \<longleftrightarrow> s \<noteq> [] \<and> list_all (\<lambda>c. is_alnum c \<or> c \<in> set ''.-'') s"

definition PROFILE_LABEL_RE :: "string \<Rightarrow> bool" where
  "PROFILE_LABEL_RE s \<longleftrightarrow> s \<noteq> [] \<and> is_alnum (hd s) \<and> length s \<le> 64 \<and> list_all (\<lambda>c. is_alnum c \<or> c \<in> set ''._~-'') (tl s)"

definition safe_remote_endpoint :: "(string, string) dict \<Rightarrow> (env_exn, string option) result" where
  "safe_remote_endpoint values =
     (let host = dict_get values ''KHAREJ_IP'' []; port = dict_get values ''TUNNEL_PORT'' []
      in if host = [] \<or> port = [] then Inr None
         else if \<not> SAFE_HOST_RE host then Inl (EnvValueError ''invalid remote host'')
         else bindR (parse_port port) (\<lambda>p. Inr (Some (host @ '':'' @ str_int p))))"

definition safe_profile_label :: "(string, string) dict \<Rightarrow> (env_exn, string option) result" where
  "safe_profile_label values =
     (let label = dict_get values ''PROFILE_LABEL'' []
      in if label = [] then Inr None
         else if \<not> PROFILE_LABEL_RE label then Inl (EnvValueError ''invalid profile label'')
         else Inr (Some label))"


section \<open>IPv4 networks\<close>

text \<open>A network is its address as an integer and its prefix length.\<close>

type_synonym network = "nat \<times> nat"

definition octet :: "string \<Rightarrow> nat option" where
  "octet s = (if \<not> all_digits s \<or> 3 < length s \<or> (s \<noteq> ''0'' \<and> hd s = CHR ''0'') \<or> 255 < nat_of_text s then None else Some (nat_of_text s))"

definition ipv4_address :: "string \<Rightarrow> nat option" where
  "ipv4_address s =
     (case map octet (split_on (CHR ''.'') s) of
        [Some a, Some b, Some c, Some d] \<Rightarrow> Some (((a * 256 + b) * 256 + c) * 256 + d)
      | _ \<Rightarrow> None)"

text \<open>A mask is \<open>p\<close> ones and then zeros; a host mask is its complement.\<close>

definition mask_prefix :: "nat \<Rightarrow> nat option" where
  "mask_prefix m = find (\<lambda>p. m = 2 ^ 32 - 2 ^ (32 - p)) [0..<33]"

definition prefix_length :: "string \<Rightarrow> nat option" where
  "prefix_length s =
     (if all_digits s \<and> length s \<le> 4300 \<and> nat_of_text s \<le> 32 then Some (nat_of_text s)
      else (case ipv4_address s of
              None \<Rightarrow> None
            | Some m \<Rightarrow> (case mask_prefix m of Some p \<Rightarrow> Some p | None \<Rightarrow> mask_prefix (2 ^ 32 - 1 - m))))"

definition host_bits_cleared :: "nat \<Rightarrow> nat \<Rightarrow> nat" where
  "host_bits_cleared a p = a div 2 ^ (32 - p) * 2 ^ (32 - p)"

definition ip_network :: "string \<Rightarrow> network option" where
  "ip_network s =
     (case split_on (CHR ''/'') s of
        [base] \<Rightarrow> map_option (\<lambda>a. (a, 32)) (ipv4_address base)
      | [base, suffix] \<Rightarrow>
          (case (ipv4_address base, prefix_length suffix) of
             (Some a, Some p) \<Rightarrow> Some (host_bits_cleared a p, p)
           | _ \<Rightarrow> None)
      | _ \<Rightarrow> None)"

definition str_network :: "network \<Rightarrow> string" where
  "str_network n =
     (case n of (a, p) \<Rightarrow>
        str_nat (a div 2 ^ 24 mod 256) @ ''.'' @ str_nat (a div 2 ^ 16 mod 256) @ ''.'' @ str_nat (a div 2 ^ 8 mod 256) @ ''.''
          @ str_nat (a mod 256) @ ''/'' @ str_nat p)"

definition source_network :: "string \<Rightarrow> (env_exn, network) result" where
  "source_network part =
     (case ip_network part of
        None \<Rightarrow> Inl (EnvValueError ''invalid or unsafe Iran source'')
      | Some (a, p) \<Rightarrow> if p < 8 then Inl (EnvValueError ''unsafe Iran source'') else Inr (a, p))"

definition canonical_allowed_sources :: "(string, string) dict \<Rightarrow> (env_exn, string list) result" where
  "canonical_allowed_sources values =
     (let legacy = dict_get values ''IRAN_IP'' []; modern = dict_get values ''ALLOWED_IRAN_SOURCES'' []
      in if legacy \<noteq> [] \<and> modern \<noteq> [] then Inl (EnvValueError ''multiple source styles'')
         else let raw = (if modern \<noteq> [] then modern else legacy)
         in if raw = [] then Inr []
            else if list_ex is_space raw then Inl (EnvValueError ''ambiguous source whitespace'')
            else let parts = split_on (CHR '','') raw
            in if 64 < length parts \<or> [] \<in> set parts then Inl (EnvValueError ''invalid source count'')
               else bindR (mapR source_network parts) (\<lambda>networks. Inr (map str_network (sort (remdups networks)))))"


section \<open>Discovery\<close>

record tunnel =
  side :: string
  tunnel_number :: nat
  service_name :: string
  env_path :: string
  listen_ports :: "int list"
  target_ports :: "int list"
  remote_endpoint :: "string option"
  profile_label :: "string option"
  allowed_sources :: "string list"

record parse_event =
  pe_ts :: int
  pe_path :: string
  pe_reason :: string

text \<open>\<open>ENV_RE.match\<close>: the side and the number of an environment file; \<open>$\<close> also matches before a final newline. A file
  name is far below the limit of \<open>int\<close>.\<close>

definition ENV_RE :: "string \<Rightarrow> (string \<times> nat) option" where
  "ENV_RE name =
     (let t = (if ends_with name [LF] then butlast name else name)
      in (case split_first (CHR ''-'') t of
            None \<Rightarrow> None
          | Some (s, rest) \<Rightarrow>
              let n = take (length rest - 4) rest
              in if (s = ''iran'' \<or> s = ''kharej'') \<and> ends_with rest ''.env'' \<and> all_digits n \<and> hd n \<noteq> CHR ''0''
                 then Some (s, nat_of_text n) else None))"

text \<open>A candidate is the text of its path and its name.\<close>

type_synonym candidate = "string \<times> string"

definition tunnel_from_env :: "env_reader \<Rightarrow> candidate \<Rightarrow> (env_exn, tunnel) result" where
  "tunnel_from_env reader file =
     (case file of (path, name) \<Rightarrow>
        (case ENV_RE name of
           None \<Rightarrow> Inl (EnvValueError ''unsupported env name'')
         | Some (sd, number) \<Rightarrow>
             bindR (parse_env_file reader path) (\<lambda>values.
               let service = ''gost-'' @ sd @ ''-'' @ str_nat number @ ''.service''
               in if sd = ''iran''
                  then bindR (parse_mappings (dict_get values ''MAPPINGS'' [])) (\<lambda>mappings.
                       bindR (safe_remote_endpoint values) (\<lambda>endpoint.
                       bindR (safe_profile_label values) (\<lambda>label.
                         Inr \<lparr>side = sd, tunnel_number = number, service_name = service, env_path = path,
                              listen_ports = map fst mappings, target_ports = map snd mappings, remote_endpoint = endpoint,
                              profile_label = label, allowed_sources = []\<rparr>)))
                  else bindR (canonical_allowed_sources values) (\<lambda>sources.
                       bindR (parse_port (dict_get values ''TUNNEL_PORT'' [])) (\<lambda>port.
                       bindR (safe_profile_label values) (\<lambda>label.
                         Inr \<lparr>side = sd, tunnel_number = number, service_name = service, env_path = path,
                              listen_ports = [port], target_ports = [], remote_endpoint = None,
                              profile_label = label, allowed_sources = sources\<rparr>))))))"

definition profile_order :: "candidate \<Rightarrow> nat \<times> nat \<times> string" where
  "profile_order file =
     (case ENV_RE (snd file) of
        None \<Rightarrow> (2, 0, snd file)
      | Some (sd, number) \<Rightarrow> (if sd = ''iran'' then 0 else 1, number, snd file))"

definition class_name :: "env_exn \<Rightarrow> string" where
  "class_name e = (case e of EnvValueError _ \<Rightarrow> ''ValueError'' | EnvReadError c \<Rightarrow> c)"

fun discover_loop :: "env_reader \<Rightarrow> int \<Rightarrow> candidate list \<Rightarrow> tunnel list \<times> parse_event list" where
  "discover_loop reader now [] = ([], [])"
| "discover_loop reader now (file # rest) =
     (case discover_loop reader now rest of (tunnels, events) \<Rightarrow>
        if ENV_RE (snd file) = None then (tunnels, events)
        else (case tunnel_from_env reader file of
                Inr t \<Rightarrow> (t # tunnels, events)
              | Inl e \<Rightarrow> (tunnels, \<lparr>pe_ts = now, pe_path = fst file, pe_reason = class_name e\<rparr> # events)))"

text \<open>The candidates are those given, or the \<open>*.env\<close> files of the directory when it exists.\<close>

definition discover_tunnels :: "env_reader \<Rightarrow> int \<Rightarrow> candidate list option \<Rightarrow> candidate list option \<Rightarrow> tunnel list \<times> parse_event list" where
  "discover_tunnels reader now paths directory =
     (case (case paths of Some fs \<Rightarrow> Some fs | None \<Rightarrow> directory) of
        None \<Rightarrow> ([], [])
      | Some candidates \<Rightarrow> discover_loop reader now (sort_key profile_order candidates))"


section \<open>Joining and splitting\<close>

fun join_on :: "char \<Rightarrow> string list \<Rightarrow> string" where
  "join_on c [] = []"
| "join_on c [x] = x"
| "join_on c (x # y # xs) = x @ c # join_on c (y # xs)"

lemma split_on_Cons: "\<exists>l ls. split_on c s = l # ls"
  by (induction s) (auto split: list.splits)

lemma split_on_append: "split_on c (a @ c # b) = split_on c a @ split_on c b"
proof (induction a)
  case (Cons x a)
  obtain l ls where "split_on c a = l # ls" using split_on_Cons by blast
  then show ?case using Cons by simp
qed simp

lemma split_on_join: "xs \<noteq> [] \<Longrightarrow> list_all (\<lambda>x. c \<notin> set x) xs \<Longrightarrow> split_on c (join_on c xs) = xs"
  by (induction c xs rule: join_on.induct) (simp_all add: split_on_append split_on_none)

lemma join_on_chars: "list_all (list_all P) xs \<Longrightarrow> P c \<Longrightarrow> list_all P (join_on c xs)"
  by (induction c xs rule: join_on.induct) simp_all

text \<open>The four checks on the text of the mappings refuse exactly an empty item.\<close>

lemma no_empty_item:
  assumes "[] \<notin> set (split_on c s)"
  shows "s \<noteq> []" "\<not> starts_with s [c]" "\<not> ends_with s [c]" "\<not> has_sub [c, c] s"
proof -
  show "s \<noteq> []" using assms by auto
  show "\<not> starts_with s [c]" using assms by (cases s) (auto simp: starts_with_def)
  show "\<not> ends_with s [c]"
  proof
    assume "ends_with s [c]"
    then have "s = take (length s - 1) s @ c # []" unfolding ends_with_def by (metis append_take_drop_id length_Cons list.size(3) One_nat_def)
    then show False using assms split_on_append [of c "take (length s - 1) s" "[]"] by simp
  qed
  show "\<not> has_sub [c, c] s"
  proof
    assume "has_sub [c, c] s"
    then obtain i where "take 2 (drop i s) = [c, c]" unfolding has_sub_def starts_with_def list_ex_iff by (auto simp: numeral_2_eq_2)
    then have "s = take i s @ c # c # drop 2 (drop i s)"
      by (metis append_Cons append_Nil append_take_drop_id)
    then show False
      using assms split_on_append [of c "take i s" "c # drop 2 (drop i s)"] by simp
  qed
qed


section \<open>Port mappings\<close>

definition valid_port :: "int \<Rightarrow> bool" where
  "valid_port p \<longleftrightarrow> 1 \<le> p \<and> p \<le> 65535"

definition valid_mappings :: "(int \<times> int) list \<Rightarrow> bool" where
  "valid_mappings ms \<longleftrightarrow> ms \<noteq> [] \<and> distinct (map fst ms) \<and> list_all (\<lambda>(l, t). valid_port l \<and> valid_port t) ms"

definition mapping_text :: "int \<times> int \<Rightarrow> string" where
  "mapping_text m = str_int (fst m) @ '':'' @ str_int (snd m)"

definition render_mappings :: "(int \<times> int) list \<Rightarrow> string" where
  "render_mappings ms = join_on (CHR '','') (map mapping_text ms)"

lemma hd_str_nat: "0 < n \<Longrightarrow> hd (str_nat n) \<noteq> CHR ''0''"
proof (induction n rule: str_nat.induct)
  case (1 n)
  show ?case
  proof (cases "n < 10")
    case True
    then have "n = 1 \<or> n = 2 \<or> n = 3 \<or> n = 4 \<or> n = 5 \<or> n = 6 \<or> n = 7 \<or> n = 8 \<or> n = 9" using "1.prems" by linarith
    then show ?thesis by (auto simp: str_nat.simps [of n] digit_char_def char_of_def)
  next
    case False
    then have "hd (str_nat (n div 10)) \<noteq> CHR ''0''" using "1.IH" by simp
    then show ?thesis using False by (subst str_nat.simps) (simp add: hd_append str_nat_nonempty)
  qed
qed

lemma parse_port_valid: "parse_port s = Inr p \<Longrightarrow> valid_port p"
proof -
  assume a: "parse_port s = Inr p"
  then have s: "s \<noteq> []" "hd s \<noteq> CHR ''0''" "list_all is_digit s" "nat_of_text s \<le> 65535" "p = int (nat_of_text s)"
    by (auto simp: parse_port_def split: if_splits)
  obtain c cs where cs: "s = c # cs" using s(1) by (cases s) auto
  have "of_char c \<noteq> (48 :: nat)"
  proof
    assume "of_char c = (48 :: nat)"
    then have "of_char c = (of_char (CHR ''0'') :: nat)" by simp
    then have "c = CHR ''0''" by (metis char_of_char)
    then show False using s(2) cs by simp
  qed
  then have pos: "0 < digit_value c" using s(3) cs by (auto simp: digit_value_def is_digit_def)
  have mono: "n \<le> foldl (\<lambda>n c. 10 * n + digit_value c) n ds" for n and ds :: string
  proof (induction ds arbitrary: n)
    case (Cons d ds)
    have "n \<le> 10 * n + digit_value d" by simp
    also have "\<dots> \<le> foldl (\<lambda>n c. 10 * n + digit_value c) (10 * n + digit_value d) ds" by (rule Cons.IH)
    finally show ?case by simp
  qed simp
  have "digit_value c \<le> nat_of_text s" unfolding nat_of_text_def cs using mono [of "digit_value c" cs] by simp
  then show "valid_port p" using s(4,5) pos by (simp add: valid_port_def)
qed

lemma parse_port_str: "valid_port p \<Longrightarrow> parse_port (str_int p) = Inr p"
proof -
  assume p: "valid_port p"
  let ?s = "str_nat (nat p)"
  have "nat p < 10 ^ 5" using p by (simp add: valid_port_def nat_less_iff)
  then have "length ?s \<le> 5" by (rule length_str_nat_digits) simp
  moreover have "hd ?s \<noteq> CHR ''0''" using p hd_str_nat by (simp add: valid_port_def)
  moreover have "list_all is_digit ?s" by (simp add: list_all_iff str_nat_digits)
  ultimately show "parse_port (str_int p) = Inr p"
    using p by (simp add: parse_port_def str_int_nonneg valid_port_def str_nat_nonempty nat_of_text_str_nat not_less nat_le_iff)
qed

lemma mapping_items_valid:
  "mapping_items seen items = Inr ms \<Longrightarrow>
     length ms = length items \<and> distinct (map fst ms) \<and> set (map fst ms) \<inter> set seen = {} \<and> list_all (\<lambda>(l, t). valid_port l \<and> valid_port t) ms"
proof (induction items arbitrary: seen ms)
  case (Cons raw rest)
  then obtain lr tr l t ms' where *: "parse_port lr = Inr l" "parse_port tr = Inr t" "l \<notin> set seen"
      "mapping_items (l # seen) rest = Inr ms'" "ms = (l, t) # ms'"
    by (auto simp: bindR_eq_Inr split: option.splits prod.splits if_splits)
  then show ?case using Cons.IH [OF *(4)] parse_port_valid by auto
qed simp

lemma mapping_text_item:
  assumes "valid_port l" and "valid_port t"
  shows "strip (mapping_text (l, t)) = mapping_text (l, t)"
    and "split_first (CHR '':'') (mapping_text (l, t)) = Some (str_int l, str_int t)"
    and "CHR '','' \<notin> set (mapping_text (l, t))" and "mapping_text (l, t) \<noteq> []"
    and "all_digits (str_int l)" and "all_digits (str_int t)"
proof -
  have lt: "str_int l = str_nat (nat l)" "str_int t = str_nat (nat t)" using assms by (simp_all add: valid_port_def str_int_nonneg)
  have digit: "is_digit c" if "c \<in> set (str_nat n)" for c n using that by (rule str_nat_digits)
  have nosep: "CHR '':'' \<notin> set (str_nat n)" "CHR '','' \<notin> set (str_nat n)" for n
    using digit [of "CHR '':''"] digit [of "CHR '',''"] by (auto simp: is_digit_def)
  have first: "\<not> is_space (hd (str_nat n))" and final: "\<not> is_space (last (str_nat n))" for n
    using digit str_nat_nonempty digit_not_space by (meson hd_in_set last_in_set)+
  show "strip (mapping_text (l, t)) = mapping_text (l, t)"
    using first final by (simp add: strip_def mapping_text_def lt strip_left_id hd_append str_nat_nonempty hd_rev)
  show "split_first (CHR '':'') (mapping_text (l, t)) = Some (str_int l, str_int t)"
    using nosep by (simp add: mapping_text_def lt split_first_append)
  show "CHR '','' \<notin> set (mapping_text (l, t))" using nosep by (simp add: mapping_text_def lt)
  show "mapping_text (l, t) \<noteq> []" by (simp add: mapping_text_def)
  show "all_digits (str_int l)" "all_digits (str_int t)" by (simp_all add: lt all_digits_str_nat)
qed

lemma mapping_items_render:
  assumes "list_all (\<lambda>(l, t). valid_port l \<and> valid_port t) ms" and "distinct (map fst ms)" and "set (map fst ms) \<inter> set seen = {}"
  shows "mapping_items seen (map mapping_text ms) = Inr ms"
  using assms
proof (induction ms arbitrary: seen)
  case (Cons m ms)
  obtain l t where m: "m = (l, t)" by (cases m)
  have v: "valid_port l" "valid_port t" using Cons.prems(1) m by auto
  have "mapping_items (l # seen) (map mapping_text ms) = Inr ms" using Cons.prems m by (intro Cons.IH) auto
  then show ?case using Cons.prems m by (simp add: mapping_text_item [OF v] parse_port_str v)
qed simp

text \<open>The port mappings of a tunnel are read back exactly as they were written, and only valid ones are ever accepted:
  at least one, every port between 1 and 65535, no listening port twice.\<close>

theorem mappings_round_trip:
  "(parse_mappings (render_mappings ms) = Inr ms \<longleftrightarrow> valid_mappings ms)
    \<and> (case parse_mappings value of Inl _ \<Rightarrow> True | Inr accepted \<Rightarrow> valid_mappings accepted)"
proof -
  have sound: "valid_mappings accepted" if "parse_mappings w = Inr accepted" for w accepted
  proof -
    have items: "mapping_items [] (split_on (CHR '','') w) = Inr accepted"
      using that by (simp add: parse_mappings_def split: if_splits)
    have "split_on (CHR '','') w \<noteq> []" using split_on_Cons by (metis list.distinct(1))
    then show ?thesis using mapping_items_valid [OF items] by (auto simp: valid_mappings_def)
  qed
  have "parse_mappings (render_mappings ms) = Inr ms" if v: "valid_mappings ms"
  proof -
    have ports: "list_all (\<lambda>(l, t). valid_port l \<and> valid_port t) ms" "distinct (map fst ms)" "ms \<noteq> []"
      using v by (simp_all add: valid_mappings_def)
    have "list_all (\<lambda>x. CHR '','' \<notin> set x) (map mapping_text ms)" and ne: "[] \<notin> set (map mapping_text ms)"
      using ports(1) mapping_text_item(3,4) by (fastforce simp: list_all_iff)+
    then have "split_on (CHR '','') (render_mappings ms) = map mapping_text ms"
      unfolding render_mappings_def using ports(3) by (intro split_on_join) simp_all
    then show ?thesis
      using no_empty_item [of "CHR '',''" "render_mappings ms"] ne mapping_items_render [OF ports(1,2), of "[]"]
      by (simp add: parse_mappings_def)
  qed
  then show ?thesis using sound by (auto split: sum.splits)
qed


section \<open>Canonical sources\<close>

definition cleared :: "network \<Rightarrow> bool" where
  "cleared n \<longleftrightarrow> (case n of (a, p) \<Rightarrow> a < 2 ^ 32 \<and> p \<le> 32 \<and> host_bits_cleared a p = a)"

lemma octet_bound: "octet s = Some n \<Longrightarrow> n \<le> 255"
  by (auto simp: octet_def split: if_splits)

lemma octet_str_nat:
  assumes "n \<le> 255"
  shows "octet (str_nat n) = Some n"
proof -
  have "length (str_nat n) \<le> 3" using assms length_str_nat_digits [of n 3] by simp
  moreover have "str_nat n = ''0'' \<or> hd (str_nat n) \<noteq> CHR ''0''"
    using hd_str_nat [of n] by (cases "n = 0") (simp_all add: str_nat.simps digit_char_def)
  ultimately show ?thesis using assms by (auto simp: octet_def all_digits_str_nat nat_of_text_str_nat)
qed

lemma ipv4_address_bound: "ipv4_address s = Some a \<Longrightarrow> a < 2 ^ 32"
proof -
  assume "ipv4_address s = Some a"
  then obtain u v w x where *: "map octet (split_on (CHR ''.'') s) = [Some u, Some v, Some w, Some x]"
      and a: "a = ((u * 256 + v) * 256 + w) * 256 + x"
    by (auto simp: ipv4_address_def split: list.splits option.splits)
  have "u \<le> 255 \<and> v \<le> 255 \<and> w \<le> 255 \<and> x \<le> 255"
  proof -
    have "y \<le> 255" if "Some y \<in> set [Some u, Some v, Some w, Some x]" for y
      using that octet_bound unfolding * [symmetric] by auto
    then show ?thesis by simp
  qed
  then show "a < 2 ^ 32" unfolding a by simp
qed

lemma host_bits_cleared_idem: "host_bits_cleared (host_bits_cleared a p) p = host_bits_cleared a p"
  by (simp add: host_bits_cleared_def)

lemma host_bits_cleared_le: "host_bits_cleared a p \<le> a"
  by (simp add: host_bits_cleared_def)

lemma mask_prefix_bound: "mask_prefix m = Some p \<Longrightarrow> p \<le> 32"
  by (auto simp: mask_prefix_def find_Some_iff)

lemma prefix_length_bound: "prefix_length s = Some p \<Longrightarrow> p \<le> 32"
  using mask_prefix_bound by (auto simp: prefix_length_def split: if_splits option.splits)

lemma ip_network_cleared: "ip_network s = Some n \<Longrightarrow> cleared n"
proof -
  assume "ip_network s = Some n"
  then consider a where "n = (a, 32)" "a < 2 ^ 32"
    | a p where "n = (host_bits_cleared a p, p)" "a < 2 ^ 32" "p \<le> 32"
    using ipv4_address_bound prefix_length_bound by (auto simp: ip_network_def split: list.splits option.splits)
  then show "cleared n"
  proof cases
    case 1
    then show ?thesis by (simp add: cleared_def host_bits_cleared_def)
  next
    case (2 a p)
    then show ?thesis using order.strict_trans1 [OF host_bits_cleared_le 2(2)] by (simp add: cleared_def host_bits_cleared_idem)
  qed
qed

lemma digits_without: "\<not> is_digit c \<Longrightarrow> c \<notin> set (str_nat n)"
  using str_nat_digits by blast

lemma quad_split: "\<not> is_digit c \<Longrightarrow>
    split_on c (str_nat u @ c # str_nat v @ c # str_nat w @ c # str_nat x) = [str_nat u, str_nat v, str_nat w, str_nat x]"
  by (simp add: split_on_append split_on_none digits_without)

lemma ipv4_address_quad:
  assumes "u \<le> 255" "v \<le> 255" "w \<le> 255" "x \<le> 255"
  shows "ipv4_address (str_nat u @ ''.'' @ str_nat v @ ''.'' @ str_nat w @ ''.'' @ str_nat x) = Some (((u * 256 + v) * 256 + w) * 256 + x)"
proof -
  have "\<not> is_digit (CHR ''.'')" by (simp add: is_digit_def)
  from quad_split [OF this] show ?thesis using assms by (simp add: ipv4_address_def octet_str_nat)
qed

lemma quad_of_address:
  assumes "a < (2 :: nat) ^ 32"
  shows "((a div 2 ^ 24 mod 256 * 256 + a div 2 ^ 16 mod 256) * 256 + a div 2 ^ 8 mod 256) * 256 + a mod 256 = a"
proof -
  have "a div 2 ^ 24 mod 256 = a div 2 ^ 24" using assms by (intro mod_less) (simp add: less_mult_imp_div_less)
  moreover have "a div 2 ^ 24 * 256 + a div 2 ^ 16 mod 256 = a div 2 ^ 16"
    using div_mult_mod_eq [of "a div 2 ^ 16" 256] div_mult2_eq [of a "2 ^ 16" 256] by simp
  moreover have "a div 2 ^ 16 * 256 + a div 2 ^ 8 mod 256 = a div 2 ^ 8"
    using div_mult_mod_eq [of "a div 2 ^ 8" 256] div_mult2_eq [of a "2 ^ 8" 256] by simp
  moreover have "a div 2 ^ 8 * 256 + a mod 256 = a" using div_mult_mod_eq [of a 256] by simp
  ultimately show ?thesis by simp
qed

definition dotted :: "nat \<Rightarrow> string" where
  "dotted a = str_nat (a div 2 ^ 24 mod 256) @ ''.'' @ str_nat (a div 2 ^ 16 mod 256) @ ''.'' @ str_nat (a div 2 ^ 8 mod 256) @ ''.''
     @ str_nat (a mod 256)"

lemma ipv4_address_str:
  assumes "a < 2 ^ 32"
  shows "ipv4_address (dotted a) = Some a"
proof -
  have "k mod 256 \<le> 255" for k :: nat using mod_less_divisor [of 256 k] by linarith
  from ipv4_address_quad [OF this this this this] show ?thesis by (simp only: dotted_def quad_of_address [OF assms])
qed

lemma prefix_length_str: "p \<le> 32 \<Longrightarrow> prefix_length (str_nat p) = Some p"
  using length_str_nat_digits [of p 2] by (simp add: prefix_length_def all_digits_str_nat nat_of_text_str_nat)

lemma ip_network_str:
  assumes "cleared n"
  shows "ip_network (str_network n) = Some n"
proof -
  obtain a p where n: "n = (a, p)" by (cases n)
  have nd: "\<not> is_digit (CHR ''/'')" by (simp add: is_digit_def)
  have "str_network n = dotted a @ CHR ''/'' # str_nat p" by (simp add: n str_network_def dotted_def)
  moreover have "CHR ''/'' \<notin> set (dotted a)" using digits_without [OF nd] by (simp add: dotted_def)
  ultimately have "split_on (CHR ''/'') (str_network n) = [dotted a, str_nat p]"
    by (simp add: split_on_append split_on_none digits_without nd)
  then show ?thesis
    using assms by (simp add: ip_network_def ipv4_address_str prefix_length_str n cleared_def)
qed

lemma str_network_chars: "c \<in> set (str_network n) \<Longrightarrow> is_digit c \<or> c = CHR ''.'' \<or> c = CHR ''/''"
  using str_nat_digits by (cases n) (auto simp: str_network_def)

lemma mapR_source_networks:
  "mapR source_network parts = Inr ns \<Longrightarrow> length ns = length parts \<and> list_all (\<lambda>n. cleared n \<and> 8 \<le> snd n) ns"
proof (induction parts arbitrary: ns)
  case (Cons part parts)
  then show ?case
    by (auto simp: bindR_eq_Inr source_network_def split: option.splits if_splits dest: ip_network_cleared)
qed simp

lemma mapR_source_str:
  "list_all (\<lambda>n. cleared n \<and> 8 \<le> snd n) ns \<Longrightarrow> mapR source_network (map str_network ns) = Inr ns"
  by (induction ns) (auto simp: source_network_def ip_network_str)

text \<open>The allowed sources are brought into a canonical form: at most 64 different networks, none wider than a /8, host bits
  cleared, in the order of their addresses; and the canonical form is its own canonical form, so that writing the sources back
  changes nothing.\<close>

theorem canonical_sources_stable:
  "(case canonical_allowed_sources values of
      Inl _ \<Rightarrow> True
    | Inr sources \<Rightarrow>
        canonical_allowed_sources [(''ALLOWED_IRAN_SOURCES'', join_on (CHR '','') sources)] = Inr sources
        \<and> distinct sources \<and> length sources \<le> 64
        \<and> (\<exists>ns. sources = map str_network ns \<and> sorted_wrt (<) ns \<and> list_all (\<lambda>n. cleared n \<and> 8 \<le> snd n) ns))"
proof (cases "canonical_allowed_sources values")
  case (Inr sources)
  define raw where "raw = (if dict_get values ''ALLOWED_IRAN_SOURCES'' [] \<noteq> [] then dict_get values ''ALLOWED_IRAN_SOURCES'' [] else dict_get values ''IRAN_IP'' [])"
  have "\<exists>ns. sources = map str_network ns \<and> sorted_wrt (<) ns \<and> list_all (\<lambda>n. cleared n \<and> 8 \<le> snd n) ns \<and> length ns \<le> 64"
  proof (cases "raw = []")
    case True
    then show ?thesis using Inr by (intro exI [of _ "[]"]) (auto simp: canonical_allowed_sources_def Let_def raw_def split: if_splits)
  next
    case False
    obtain ns where ns: "mapR source_network (split_on (CHR '','') raw) = Inr ns" "sources = map str_network (sort (remdups ns))"
        "length (split_on (CHR '','') raw) \<le> 64"
      using Inr False unfolding canonical_allowed_sources_def Let_def raw_def [symmetric]
      by (auto simp: bindR_eq_Inr split: if_splits)
    have "length (remdups ns) \<le> length ns" by (rule length_remdups_leq)
    then show ?thesis using mapR_source_networks [OF ns(1)] ns(2,3)
      by (intro exI [of _ "sort (remdups ns)"]) (auto simp: strict_sorted_iff list_all_iff)
  qed
  then obtain ns where ns: "sources = map str_network ns" "sorted_wrt (<) ns" "list_all (\<lambda>n. cleared n \<and> 8 \<le> snd n) ns" "length ns \<le> 64"
    by blast
  have char: "c \<noteq> CHR '','' \<and> \<not> is_space c" if "c \<in> set (str_network n)" for c n
    using str_network_chars [OF that] digit_not_space by (auto simp: is_digit_def is_space_def)
  have sorted: "sort (remdups ns) = ns" using ns(2) by (simp add: strict_sorted_iff distinct_remdups_id sort_key_id_if_sorted)
  have again: "canonical_allowed_sources [(''ALLOWED_IRAN_SOURCES'', join_on (CHR '','') sources)] = Inr sources"
  proof (cases "ns = []")
    case True
    then show ?thesis using ns(1) by (simp add: canonical_allowed_sources_def dict_get_def)
  next
    case False
    let ?raw = "join_on (CHR '','') sources"
    have ne: "str_network n \<noteq> []" for n by (cases n) (simp add: str_network_def)
    have split: "split_on (CHR '','') ?raw = sources"
      using False ns(1) char by (intro split_on_join) (auto simp: list_all_iff)
    then have "?raw \<noteq> []" using False ns(1) ne by (metis hd_map list.sel(1) map_is_Nil_conv split_on.simps(1))
    moreover have "list_all (\<lambda>c. \<not> is_space c) ?raw"
      using char ns(1) by (intro join_on_chars) (auto simp: list_all_iff is_space_def)
    then have "\<not> list_ex is_space ?raw" by (auto simp: list_all_iff list_ex_iff)
    moreover have "[] \<notin> set sources" using ne by (metis imageE list.set_map ns(1))
    moreover have "length sources \<le> 64" using ns(1,4) by simp
    ultimately show ?thesis
      using mapR_source_str [OF ns(3)] ns(1) sorted
      by (simp add: canonical_allowed_sources_def dict_get_def Let_def split [unfolded ns(1)])
  qed
  have "inj_on str_network (set ns)"
    using ns(3) ip_network_str by (intro inj_onI) (metis list_all_iff option.inject)
  then have "distinct sources" using ns(1,2) by (simp add: distinct_map strict_sorted_iff)
  then show ?thesis using Inr again ns by auto
qed simp


section \<open>Discovery\<close>

definition found :: "env_reader \<Rightarrow> candidate list \<Rightarrow> tunnel list" where
  "found reader fs = List.map_filter (\<lambda>f. case tunnel_from_env reader f of Inl _ \<Rightarrow> None | Inr t \<Rightarrow> Some t) fs"

definition malformed :: "env_reader \<Rightarrow> int \<Rightarrow> candidate list \<Rightarrow> parse_event list" where
  "malformed reader now fs =
     List.map_filter (\<lambda>f. case tunnel_from_env reader f of
        Inl e \<Rightarrow> Some \<lparr>pe_ts = now, pe_path = fst f, pe_reason = class_name e\<rparr> | Inr _ \<Rightarrow> None) fs"

abbreviation env_files :: "candidate list \<Rightarrow> candidate list" where
  "env_files fs \<equiv> filter (\<lambda>f. ENV_RE (snd f) \<noteq> None) fs"

lemma discover_loop_parts: "discover_loop reader now fs = (found reader (env_files fs), malformed reader now (env_files fs))"
  by (induction fs) (auto simp: found_def malformed_def map_filter_simps split: sum.splits)

lemma found_malformed_length: "length (found reader fs) + length (malformed reader now fs) = length fs"
  by (induction fs) (auto simp: found_def malformed_def map_filter_simps split: sum.splits)

lemma tunnel_identity:
  "tunnel_from_env reader f = Inr t \<Longrightarrow> ENV_RE (snd f) = Some (side t, tunnel_number t) \<and> env_path t = fst f
     \<and> service_name t = ''gost-'' @ side t @ ''-'' @ str_nat (tunnel_number t) @ ''.service''"
  by (cases f) (auto simp: tunnel_from_env_def Let_def bindR_eq_Inr split: option.splits prod.splits if_splits)

definition tunnel_rank :: "tunnel \<Rightarrow> nat \<times> nat" where
  "tunnel_rank t = (if side t = ''iran'' then 0 else 1, tunnel_number t)"

lemma found_sorted:
  "sorted (map profile_order fs) \<Longrightarrow> sorted (map tunnel_rank (found reader fs))"
proof (induction fs)
  case (Cons f fs)
  have rank: "tunnel_rank t = (fst (profile_order g), fst (snd (profile_order g)))" if "tunnel_from_env reader g = Inr t" for g t
    using tunnel_identity [OF that] by (simp add: tunnel_rank_def profile_order_def)
  have mono: "(fst x, fst (snd x)) \<le> (fst y, fst (snd y))" if "x \<le> y" for x y :: "nat \<times> nat \<times> string"
    using that by (cases x; cases y) (auto simp: less_eq_prod_def)
  show ?case
  proof (cases "tunnel_from_env reader f")
    case (Inl e)
    then show ?thesis using Cons by (simp add: found_def map_filter_simps)
  next
    case (Inr t)
    have "tunnel_rank t \<le> tunnel_rank u" if u: "u \<in> set (found reader fs)" for u
    proof -
      obtain g where g: "g \<in> set fs" "tunnel_from_env reader g = Inr u"
        using u by (auto simp: found_def map_filter_def split: sum.splits)
      then have "profile_order f \<le> profile_order g" using Cons.prems by simp
      then show ?thesis using rank [OF Inr] rank [OF g(2)] mono by metis
    qed
    moreover have "sorted (map tunnel_rank (found reader fs))" using Cons by simp
    moreover have "found reader (f # fs) = t # found reader fs" using Inr by (simp add: found_def map_filter_simps)
    ultimately show ?thesis by simp
  qed
qed (simp add: found_def map_filter_simps)

text \<open>Every environment file is accounted for, and a malformed one hides no other: the files with a proper name are
  either a tunnel or one warning with the class of the error, the tunnels come with the Iran side first and by number, and
  what each file gives does not depend on the others.\<close>

theorem discovery_complete:
  "(case discover_tunnels reader now (Some candidates) directory of (tunnels, events) \<Rightarrow>
      length tunnels + length events = length (env_files candidates)
      \<and> sorted (map tunnel_rank tunnels)
      \<and> mset tunnels = mset (found reader (env_files candidates))
      \<and> mset events = mset (malformed reader now (env_files candidates)))"
proof -
  let ?s = "sort_key profile_order candidates"
  have d: "discover_tunnels reader now (Some candidates) directory = (found reader (env_files ?s), malformed reader now (env_files ?s))"
    by (simp add: discover_tunnels_def discover_loop_parts)
  have ms: "mset (env_files ?s) = mset (env_files candidates)" by (simp add: mset_filter)
  have filt: "mset (List.map_filter f xs) = mset (List.map_filter f ys)" if "mset xs = mset ys" for f :: "candidate \<Rightarrow> 'b option" and xs ys
    using that by (simp add: map_filter_def mset_map mset_filter)
  have "sorted (map profile_order (env_files ?s))" by (intro sorted_filter) simp
  then have "sorted (map tunnel_rank (found reader (env_files ?s)))" by (rule found_sorted)
  moreover have "length (found reader (env_files ?s)) + length (malformed reader now (env_files ?s)) = length (env_files candidates)"
    unfolding found_malformed_length using mset_eq_length [OF ms] .
  moreover have "mset (found reader (env_files ?s)) = mset (found reader (env_files candidates))"
    unfolding found_def by (rule filt [OF ms])
  moreover have "mset (malformed reader now (env_files ?s)) = mset (malformed reader now (env_files candidates))"
    unfolding malformed_def by (rule filt [OF ms])
  ultimately show ?thesis unfolding d by simp
qed

end
