(* ===== verification/Monitoring_Events.thy ===== *)
theory Monitoring_Events
  imports Monitoring_Metrics
begin

text \<open>
  \<open>src/monitoring/event_state.py\<close>: events that are made only when a persisted state changes. The state lives in the
  \<open>collector_state\<close> table of \<open>metrics_db\<close> as JSON text; \<open>json.dumps\<close> and \<open>json.loads\<close> are parameters, and \<open>str\<close> of a JSON
  value that is not a string is one too. The theorems assume of the first two only that what was written is read back.

  The lemmas: over any sequence of observations the events of a source are exactly its changes, an edge event is
  made exactly when a condition begins, and the events of a set are the difference of two observations.
\<close>

section \<open>Events and JSON values\<close>

record json_event =
  ev_ts :: int
  ev_severity :: string
  ev_code :: string
  ev_message :: string
  ev_details :: "(string, json) dict"

definition Event :: "int \<Rightarrow> string \<Rightarrow> string \<Rightarrow> string \<Rightarrow> (string, json) dict \<Rightarrow> json_event" where
  "Event t severity code message details =
     \<lparr>ev_ts = t, ev_severity = severity, ev_code = code, ev_message = message, ev_details = details\<rparr>"

definition set_json_state :: "(json \<Rightarrow> string) \<Rightarrow> string \<Rightarrow> json \<Rightarrow> metrics_db \<Rightarrow> metrics_db" where
  "set_json_state dumps key v db = set_state key (dumps v) db"

text \<open>The value read, with Python's \<open>None\<close> for a missing row, for text that is no JSON and for \<open>null\<close>.\<close>

definition previous_state :: "json_parser \<Rightarrow> metrics_db \<Rightarrow> string \<Rightarrow> json option" where
  "previous_state loads db key = (case get_json_state loads db key of Some JNull \<Rightarrow> None | r \<Rightarrow> r)"

fun truthy :: "json \<Rightarrow> bool" where
  "truthy JNull = False"
| "truthy (JBool b) = b"
| "truthy (JNumber x) = (x \<noteq> 0)"
| "truthy (JString s) = (s \<noteq> [])"
| "truthy (JArray xs) = (xs \<noteq> [])"
| "truthy (JObject kvs) = (kvs \<noteq> [])"

text \<open>Python's equality: a bool is a number, and the order of a dict does not matter.\<close>

fun comparable :: "json \<Rightarrow> json" where
  "comparable (JBool b) = JNumber (if b then 1 else 0)"
| "comparable (JArray xs) = JArray (map comparable xs)"
| "comparable (JObject kvs) = JObject (sort_key fst (map (\<lambda>kv. (fst kv, comparable (snd kv))) kvs))"
| "comparable v = v"

definition json_eq :: "json \<Rightarrow> json \<Rightarrow> bool" where
  "json_eq a b \<longleftrightarrow> comparable a = comparable b"

definition SENSITIVE_KEY_RE :: "string \<Rightarrow> bool" where
  "SENSITIVE_KEY_RE key \<longleftrightarrow>
     list_ex (\<lambda>w. has_sub w (map lower_char key)) [''pass'', ''password'', ''token'', ''secret'', ''credential'', ''auth'', ''user'']"

definition safe_details :: "(string, json) dict \<Rightarrow> (string, json) dict" where
  "safe_details details = filter (\<lambda>(key, _). \<not> SENSITIVE_KEY_RE key) details"


section \<open>Transitions\<close>

definition availability ::
  "json_parser \<Rightarrow> (json \<Rightarrow> string) \<Rightarrow> string \<Rightarrow> bool \<Rightarrow> int \<Rightarrow> metrics_db \<Rightarrow> json_event list \<times> metrics_db" where
  "availability loads dumps source available t db =
     (let key = ''event.source.'' @ source;
          previous = previous_state loads db key;
          quiet = (case previous of None \<Rightarrow> available | Some p \<Rightarrow> truthy p = available)
      in (if quiet then []
          else [Event t (if available then ''info'' else ''warning'')
                  (if available then ''metric_source_available'' else ''metric_source_unavailable'')
                  (''Metric source '' @ source @ '' is '' @ (if available then ''available'' else ''unavailable''))
                  [(''source'', JString source)]],
          set_json_state dumps key (JBool available) db))"

definition OPTIONAL_STATES :: "string list" where
  "OPTIONAL_STATES = [''available'', ''unsupported'', ''failed'']"

datatype event_exn = EventValueError string | EventTypeError

text \<open>Testing membership of a list or a dict in a set raises \<open>TypeError\<close>.\<close>

definition optional_previous :: "json option \<Rightarrow> (event_exn, string option) result" where
  "optional_previous raw =
     (case raw of
        Some (JBool True) \<Rightarrow> Inr (Some ''available'')
      | Some (JBool False) \<Rightarrow> Inr (Some ''failed'')
      | Some (JString s) \<Rightarrow> Inr (if s \<in> set OPTIONAL_STATES then Some s else None)
      | Some (JArray _) \<Rightarrow> Inl EventTypeError
      | Some (JObject _) \<Rightarrow> Inl EventTypeError
      | _ \<Rightarrow> Inr None)"

definition optional_event :: "string \<Rightarrow> string option \<Rightarrow> string \<Rightarrow> int \<Rightarrow> json_event list" where
  "optional_event source previous current t =
     (if previous = Some current \<or> (previous = None \<and> current = ''available'') then []
      else if current = ''unsupported''
      then [Event t ''info'' ''optional_source_unsupported'' (''Optional metric source '' @ source @ '' is unsupported'') [(''source'', JString source)]]
      else if current = ''available'' \<and> previous = Some ''unsupported''
      then [Event t ''info'' ''optional_source_available'' (''Optional metric source '' @ source @ '' is available'') [(''source'', JString source)]]
      else [Event t (if current = ''available'' then ''info'' else ''warning'')
              (if current = ''available'' then ''metric_source_available'' else ''metric_source_unavailable'')
              (''Metric source '' @ source @ '' is '' @ (if current = ''available'' then ''available'' else ''unavailable''))
              [(''source'', JString source)]])"

definition optional_availability ::
  "json_parser \<Rightarrow> (json \<Rightarrow> string) \<Rightarrow> string \<Rightarrow> string \<Rightarrow> int \<Rightarrow> metrics_db \<Rightarrow> (event_exn, json_event list \<times> metrics_db) result" where
  "optional_availability loads dumps source current t db =
     (if current \<notin> set OPTIONAL_STATES then Inl (EventValueError ''invalid optional source state'')
      else let key = ''event.source.'' @ source
           in bindR (optional_previous (previous_state loads db key)) (\<lambda>previous.
                Inr (optional_event source previous current t, set_json_state dumps key (JString current) db)))"

definition value_transition ::
  "json_parser \<Rightarrow> (json \<Rightarrow> string) \<Rightarrow> string \<Rightarrow> json \<Rightarrow> int \<Rightarrow> string \<Rightarrow> string \<Rightarrow> (string, json) dict \<Rightarrow> string \<Rightarrow> bool
     \<Rightarrow> metrics_db \<Rightarrow> json_event list \<times> metrics_db" where
  "value_transition loads dumps key v t code message details severity emit_initial db =
     (let state_key = ''event.value.'' @ key;
          previous = (case get_json_state loads db state_key of None \<Rightarrow> JNull | Some p \<Rightarrow> p);
          quiet = json_eq previous v \<or> (previous = JNull \<and> \<not> emit_initial)
      in (if quiet then []
          else [Event t severity code message
                  (safe_details (AList.update ''current'' v (AList.update ''previous'' previous details)))],
          set_json_state dumps state_key v db))"

definition edge ::
  "json_parser \<Rightarrow> (json \<Rightarrow> string) \<Rightarrow> string \<Rightarrow> bool \<Rightarrow> int \<Rightarrow> string \<Rightarrow> string \<Rightarrow> (string, json) dict \<Rightarrow> string
     \<Rightarrow> metrics_db \<Rightarrow> json_event list \<times> metrics_db" where
  "edge loads dumps key active t code message details severity db =
     (let state_key = ''event.edge.'' @ key;
          previous = get_json_state loads db state_key
      in (if \<not> active \<or> previous = Some (JBool True) then [] else [Event t severity code message (safe_details details)],
          set_json_state dumps state_key (JBool active) db))"

definition str_json :: "(json \<Rightarrow> string) \<Rightarrow> json \<Rightarrow> string" where
  "str_json to_str v = (case v of JString s \<Rightarrow> s | _ \<Rightarrow> to_str v)"

text \<open>A set of strings is a list without duplicates; \<open>sorted\<close> puts it in order.\<close>

definition set_transitions ::
  "json_parser \<Rightarrow> (json \<Rightarrow> string) \<Rightarrow> (json \<Rightarrow> string) \<Rightarrow> string \<Rightarrow> string list \<Rightarrow> int \<Rightarrow> string \<Rightarrow> string \<Rightarrow> string
     \<Rightarrow> metrics_db \<Rightarrow> json_event list \<times> metrics_db" where
  "set_transitions loads dumps to_str key values t added_code removed_code noun db =
     (let state_key = ''event.set.'' @ key;
          db' = set_json_state dumps state_key (JArray (map JString (sort (remdups values)))) db;
          one = (\<lambda>severity code what v. Event t severity code (noun @ what) [(noun, JString v)])
      in (case previous_state loads db state_key of
            None \<Rightarrow> ([], db')
          | Some raw \<Rightarrow>
              let previous = (case raw of JArray xs \<Rightarrow> remdups (map (str_json to_str) xs) | _ \<Rightarrow> [])
              in (map (one ''info'' added_code '' added'') (sort (filter (\<lambda>v. v \<notin> set previous) (remdups values)))
                  @ map (one ''warning'' removed_code '' removed'') (sort (filter (\<lambda>v. v \<notin> set values) previous)), db')))"


section \<open>Sequences of observations\<close>

lemma state_after_set: "loads (dumps v) = Some v \<Longrightarrow> get_json_state loads (set_json_state dumps key v db) key = Some v"
  by (simp add: get_json_state_def set_json_state_def get_state_def set_state_def update_conv')

fun availability_run ::
  "json_parser \<Rightarrow> (json \<Rightarrow> string) \<Rightarrow> string \<Rightarrow> (bool \<times> int) list \<Rightarrow> metrics_db \<Rightarrow> json_event list \<times> metrics_db" where
  "availability_run loads dumps source [] db = ([], db)"
| "availability_run loads dumps source ((b, t) # obs) db =
     (case availability loads dumps source b t db of (es, db1) \<Rightarrow>
        (case availability_run loads dumps source obs db1 of (fs, db2) \<Rightarrow> (es @ fs, db2)))"

fun edge_run ::
  "json_parser \<Rightarrow> (json \<Rightarrow> string) \<Rightarrow> string \<Rightarrow> string \<Rightarrow> (bool \<times> int) list \<Rightarrow> metrics_db \<Rightarrow> json_event list \<times> metrics_db" where
  "edge_run loads dumps key code [] db = ([], db)"
| "edge_run loads dumps key code ((b, t) # obs) db =
     (case edge loads dumps key b t code code [] ''warning'' db of (es, db1) \<Rightarrow>
        (case edge_run loads dumps key code obs db1 of (fs, db2) \<Rightarrow> (es @ fs, db2)))"

text \<open>The observations that differ from the one before, and those that begin a condition.\<close>

fun changes :: "bool \<Rightarrow> (bool \<times> int) list \<Rightarrow> (bool \<times> int) list" where
  "changes previous [] = []"
| "changes previous ((b, t) # obs) = (if b = previous then changes b obs else (b, t) # changes b obs)"

fun rises :: "bool \<Rightarrow> (bool \<times> int) list \<Rightarrow> int list" where
  "rises previous [] = []"
| "rises previous ((b, t) # obs) = (if b \<and> \<not> previous then t # rises b obs else rises b obs)"

definition was_available :: "json_parser \<Rightarrow> metrics_db \<Rightarrow> string \<Rightarrow> bool" where
  "was_available loads db source =
     (case previous_state loads db (''event.source.'' @ source) of None \<Rightarrow> True | Some p \<Rightarrow> truthy p)"

definition was_active :: "json_parser \<Rightarrow> metrics_db \<Rightarrow> string \<Rightarrow> bool" where
  "was_active loads db key \<longleftrightarrow> get_json_state loads db (''event.edge.'' @ key) = Some (JBool True)"

lemma availability_step:
  assumes "loads (dumps (JBool b)) = Some (JBool b)"
  shows "map (\<lambda>e. (ev_code e = ''metric_source_available'', ev_ts e)) (fst (availability loads dumps source b t db))
      = (if b = was_available loads db source then [] else [(b, t)])
    \<and> was_available loads (snd (availability loads dumps source b t db)) source = b"
  using state_after_set [where loads = loads and dumps = dumps and v = "JBool b", OF assms]
  by (cases "previous_state loads db (''event.source.'' @ source)")
    (auto simp: availability_def was_available_def Let_def Event_def previous_state_def)

lemma availability_changes:
  assumes "\<And>b. loads (dumps (JBool b)) = Some (JBool b)"
  shows "map (\<lambda>e. (ev_code e = ''metric_source_available'', ev_ts e)) (fst (availability_run loads dumps source obs db))
    = changes (was_available loads db source) obs"
proof (induction obs arbitrary: db)
  case (Cons ob obs)
  obtain b t where ob: "ob = (b, t)" by (cases ob)
  obtain es db1 where a: "availability loads dumps source b t db = (es, db1)" by fastforce
  obtain fs db2 where r: "availability_run loads dumps source obs db1 = (fs, db2)" by fastforce
  show ?case using availability_step [where loads = loads and dumps = dumps and b = b and source = source and t = t and db = db, OF assms] Cons.IH [of db1] by (auto simp: ob a r)
qed simp

lemma edge_rises:
  assumes "\<And>b. loads (dumps (JBool b)) = Some (JBool b)"
  shows "map ev_ts (fst (edge_run loads dumps key code obs db)) = rises (was_active loads db key) obs"
proof (induction obs arbitrary: db)
  case (Cons ob obs)
  obtain b t where ob: "ob = (b, t)" by (cases ob)
  obtain es db1 where a: "edge loads dumps key b t code code [] ''warning'' db = (es, db1)" by fastforce
  obtain fs db2 where r: "edge_run loads dumps key code obs db1 = (fs, db2)" by fastforce
  have "was_active loads db1 key = b"
    using a state_after_set [where loads = loads and dumps = dumps and v = "JBool b", OF assms]
    by (auto simp: edge_def Let_def was_active_def)
  moreover have "map ev_ts es = (if b \<and> \<not> was_active loads db key then [t] else [])"
    using a by (auto simp: edge_def Let_def was_active_def Event_def)
  ultimately show ?case using Cons.IH [of db1] by (simp add: ob a r)
qed simp

text \<open>C36: events are made exactly when something changes, whatever is observed and however often: a source gives one event for
  each change of its availability (the first observation counts as a change only when the source is missing), and a
  condition gives one event for each time it begins and none while it lasts or when it ends.\<close>

theorem events_are_changes:
  assumes "\<And>b. loads (dumps (JBool b)) = Some (JBool b)"
  shows "map (\<lambda>e. (ev_code e = ''metric_source_available'', ev_ts e)) (fst (availability_run loads dumps source obs db))
      = changes (was_available loads db source) obs
    \<and> map ev_ts (fst (edge_run loads dumps key code obs db)) = rises (was_active loads db key) obs"
  using availability_changes [OF assms] edge_rises [OF assms] by blast

definition bool_dumps :: "json \<Rightarrow> string" where
  "bool_dumps v = (if v = JBool True then ''true'' else ''false'')"

definition bool_loads :: json_parser where
  "bool_loads s = (if s = ''true'' then Some (JBool True) else if s = ''false'' then Some (JBool False) else None)"

definition empty_db :: metrics_db where
  "empty_db = \<lparr>md_version = 4, md_tables = [], md_entities = [], md_points = [], md_rollups = [], md_events = [], md_cycles = [],
     md_samples = [], collector_state = []\<rparr>"

theorem events_are_changes_witness:
  "map ev_ts (fst (edge_run bool_loads bool_dumps ''k'' ''c'' [(True, 1), (True, 2), (False, 3), (True, 4)] empty_db)) = [1, 4]"
  using events_are_changes [where loads = bool_loads and dumps = bool_dumps and obs = "[(True, 1), (True, 2), (False, 3), (True, 4)]"
      and db = empty_db and key = "''k''" and code = "''c''"]
  by (simp add: bool_loads_def bool_dumps_def was_active_def get_json_state_def get_state_def empty_db_def)

text \<open>The events about a set are the difference of two observations: the values whose addition is reported are the new
  ones, those whose removal is reported the missing ones, each once and in order, so that applying them to the old set gives the
  new one; and the first observation gives none.\<close>

theorem set_events_are_difference:
  assumes "loads (dumps (JArray (map JString (sort (remdups old))))) = Some (JArray (map JString (sort (remdups old))))"
    and "added \<noteq> removed"
    and "db1 = snd (set_transitions loads dumps to_str key old t0 added removed noun db)"
    and "es = fst (set_transitions loads dumps to_str key new t1 added removed noun db1)"
  shows "map ev_details (filter (\<lambda>e. ev_code e = added) es) = map (\<lambda>v. [(noun, JString v)]) (sorted_list_of_set (set new - set old))
    \<and> map ev_details (filter (\<lambda>e. ev_code e = removed) es) = map (\<lambda>v. [(noun, JString v)]) (sorted_list_of_set (set old - set new))
    \<and> list_all (\<lambda>e. ev_ts e = t1 \<and> (ev_code e = added \<or> ev_code e = removed)) es"
proof -
  let ?o = "sort (remdups old)"
  have "get_json_state loads db1 (''event.set.'' @ key) = Some (JArray (map JString ?o))"
    unfolding assms(3) set_transitions_def Let_def using state_after_set [where loads = loads and dumps = dumps, OF assms(1)]
    by (simp split: option.split)
  then have prev: "previous_state loads db1 (''event.set.'' @ key) = Some (JArray (map JString ?o))" by (simp add: previous_state_def)
  have texts: "map (str_json to_str) (map JString ?o) = ?o" by (simp add: str_json_def comp_def)
  have es: "es = map (\<lambda>v. Event t1 ''info'' added (noun @ '' added'') [(noun, JString v)]) (sort (filter (\<lambda>v. v \<notin> set old) (remdups new)))
      @ map (\<lambda>v. Event t1 ''warning'' removed (noun @ '' removed'') [(noun, JString v)]) (sort (filter (\<lambda>v. v \<notin> set new) ?o))"
    unfolding assms(4) set_transitions_def Let_def prev by (simp add: texts distinct_remdups_id del: map_map)
  have "sort (filter (\<lambda>v. v \<notin> set old) (remdups new)) = sorted_list_of_set (set new - set old)"
    by (rule sorted_distinct_set_unique) auto
  moreover have "sort (filter (\<lambda>v. v \<notin> set new) ?o) = sorted_list_of_set (set old - set new)"
    by (rule sorted_distinct_set_unique) (auto simp: sorted_filter)
  ultimately show ?thesis using assms(2) by (auto simp: es filter_map comp_def Event_def list_all_iff)
qed

theorem set_events_are_difference_witness:
  "map ev_details (filter (\<lambda>e. ev_code e = ''added'')
      (fst (set_transitions (\<lambda>_. Some (JArray [JString ''lo''])) (\<lambda>_. ''lo'') (\<lambda>_. []) ''if'' [''lo'', ''eth0''] 2 ''added'' ''removed'' ''interface''
         (snd (set_transitions (\<lambda>_. Some (JArray [JString ''lo''])) (\<lambda>_. ''lo'') (\<lambda>_. []) ''if'' [''lo''] 1 ''added'' ''removed'' ''interface'' empty_db)))))
    = [[(''interface'', JString ''eth0'')]]"
proof -
  have "set [''lo'', ''eth0''] - set [''lo''] = {''eth0''}" by auto
  then show ?thesis
    using set_events_are_difference [OF _ _ refl refl, where loads = "\<lambda>_. Some (JArray [JString ''lo''])" and dumps = "\<lambda>_. ''lo''"
        and old = "[''lo'']" and new = "[''lo'', ''eth0'']" and added = "''added''" and removed = "''removed''"]
    by simp
qed

end
