(* ===== verification/Monitoring_Scheduler.thy ===== *)
theory Monitoring_Scheduler
  imports Gost_Prelude Gost_Deadlines
begin

text \<open>
  \<open>src/monitoring/scheduler.py\<close>: the deadlines of the collection daemon and its loop. The catch-up loops
  of the code are a partial function: \<open>None\<close> is a loop that never ends, which is what a non-positive
  interval gives. The clock, the sleep, the stop request, one collection and the recording of an overrun
  are the answers of an environment record over an arbitrary world; the loop takes a number of
  iterations, and its theorem holds for every number.

  The lemmas: the loop that catches up ends, on the first deadline of the grid that is not in the past,
  after exactly the number of missed deadlines that the overrun record reports; so the daemon's
  deadlines satisfy the contract \<open>deadline_grid\<close>, and a run of the daemon keeps to them.
\<close>

section \<open>Deadlines\<close>

partial_function (option) catch_up :: "real \<Rightarrow> real \<Rightarrow> real \<Rightarrow> real option" where
  "catch_up interval current deadline =
     (if deadline < current then catch_up interval current (deadline + interval) else Some deadline)"

definition next_deadline :: "real \<Rightarrow> real \<Rightarrow> real \<Rightarrow> real option" where
  "next_deadline deadline interval current = catch_up interval current (deadline + interval)"

fun ticks_from :: "real \<Rightarrow> real \<Rightarrow> real list \<Rightarrow> real list option" where
  "ticks_from interval deadline [] = Some []"
| "ticks_from interval deadline (duration # durations) =
     (case next_deadline deadline interval (deadline + duration) of
        None \<Rightarrow> None
      | Some d \<Rightarrow> map_option (Cons deadline) (ticks_from interval d durations))"

definition scheduler_ticks :: "real \<Rightarrow> real \<Rightarrow> real list \<Rightarrow> real list option" where
  "scheduler_ticks start interval durations = ticks_from interval start durations"

definition overrun_seconds :: "real \<Rightarrow> real \<Rightarrow> real \<Rightarrow> real" where
  "overrun_seconds finished deadline interval = max 0 (finished - (deadline + interval))"

definition missed_deadlines :: "real \<Rightarrow> real \<Rightarrow> real \<Rightarrow> int" where
  "missed_deadlines finished deadline interval =
     (if 0 < interval then \<lceil>overrun_seconds finished deadline interval / interval\<rceil> else 0)"


section \<open>The daemon\<close>

datatype collected = Collected int | Cycle_error int | Other_error

record 'w collector_env =
  ce_monotonic :: "'w \<Rightarrow> real \<times> 'w"
  ce_sleep :: "real \<Rightarrow> 'w \<Rightarrow> 'w"
  ce_stop :: "'w \<Rightarrow> bool \<times> 'w"
  ce_collect :: "bool \<Rightarrow> 'w \<Rightarrow> collected \<times> 'w"
  ce_overrun :: "int \<Rightarrow> real \<Rightarrow> real \<Rightarrow> real \<Rightarrow> 'w \<Rightarrow> 'w"

text \<open>The loop variables, and for every collection its deadline, the time it began and whether it ran
  maintenance.\<close>

record schedule =
  sc_deadline :: real
  sc_next_maintenance :: real
  sc_log :: "(real \<times> real \<times> bool) list"

text \<open>The overrun is recorded for a collected cycle and for a failed one; an exception from recording it is
  swallowed, as every exception of a collection is.\<close>

definition record_overrun :: "'w collector_env \<Rightarrow> collected \<Rightarrow> real \<Rightarrow> real \<Rightarrow> 'w \<Rightarrow> 'w" where
  "record_overrun E out deadline interval w =
     (case out of
        Collected ts \<Rightarrow> (case ce_monotonic E w of (finished, w') \<Rightarrow> ce_overrun E ts finished deadline interval w')
      | Cycle_error ts \<Rightarrow> (case ce_monotonic E w of (finished, w') \<Rightarrow> ce_overrun E ts finished deadline interval w')
      | Other_error \<Rightarrow> w)"

fun collector_loop :: "nat \<Rightarrow> 'w collector_env \<Rightarrow> real \<Rightarrow> real \<Rightarrow> schedule \<Rightarrow> 'w \<Rightarrow> (bool \<times> schedule \<times> 'w) option" where
  "collector_loop 0 E interval maintenance_interval s w = Some (False, s, w)"
| "collector_loop (Suc n) E interval maintenance_interval s w =
     (let (stop, w1) = ce_stop E w
      in if stop then Some (True, s, w1)
         else let (current, w2) = ce_monotonic E w1
              in if current < sc_deadline s
                 then collector_loop n E interval maintenance_interval s (ce_sleep E (sc_deadline s - current) w2)
                 else let maintenance = sc_next_maintenance s \<le> current;
                          (out, w3) = ce_collect E maintenance w2;
                          (now, w4) = ce_monotonic E (record_overrun E out (sc_deadline s) interval w3)
                      in (case next_deadline (sc_deadline s) interval now of
                            None \<Rightarrow> None
                          | Some d \<Rightarrow>
                              collector_loop n E interval maintenance_interval
                                \<lparr>sc_deadline = d,
                                 sc_next_maintenance = (if maintenance then current + maintenance_interval else sc_next_maintenance s),
                                 sc_log = sc_log s @ [(sc_deadline s, current, maintenance)]\<rparr> w4))"

definition run_collector :: "nat \<Rightarrow> 'w collector_env \<Rightarrow> real \<Rightarrow> real \<Rightarrow> 'w \<Rightarrow> (bool \<times> schedule \<times> 'w) option" where
  "run_collector n E interval maintenance_interval w =
     (case ce_monotonic E w of (deadline, w') \<Rightarrow>
        collector_loop n E interval maintenance_interval
          \<lparr>sc_deadline = deadline, sc_next_maintenance = deadline, sc_log = []\<rparr> w')"


section \<open>Catching up ends\<close>

lemma catch_up_steps:
  assumes "0 < interval"
  shows "catch_up interval current deadline = Some (deadline + real (nat \<lceil>(current - deadline) / interval\<rceil>) * interval)"
proof (induction "nat \<lceil>(current - deadline) / interval\<rceil>" arbitrary: deadline)
  case 0
  then have "(current - deadline) / interval \<le> 0" by linarith
  then have "\<not> deadline < current" using assms by (simp add: divide_le_0_iff)
  then show ?case using 0 by (subst catch_up.simps) simp
next
  case (Suc n)
  have pos: "0 < \<lceil>(current - deadline) / interval\<rceil>" using Suc(2) by linarith
  then have lt: "deadline < current" using assms by (simp add: zero_less_divide_iff)
  have "(current - (deadline + interval)) / interval = (current - deadline) / interval - 1"
    using assms by (simp add: field_simps)
  then have "\<lceil>(current - (deadline + interval)) / interval\<rceil> = \<lceil>(current - deadline) / interval\<rceil> - 1" by simp
  then have n: "n = nat \<lceil>(current - (deadline + interval)) / interval\<rceil>" using Suc(2) by simp
  have "catch_up interval current deadline = catch_up interval current (deadline + interval)"
    using lt by (subst catch_up.simps) simp
  also have "\<dots> = Some (deadline + interval + real n * interval)" using Suc(1) [OF n] n by simp
  also have "\<dots> = Some (deadline + real (Suc n) * interval)" by (simp add: algebra_simps)
  finally show ?case using Suc(2) by simp
qed

lemma missed_eq:
  assumes "0 < interval"
  shows "missed_deadlines c d interval = max 0 \<lceil>(c - (d + interval)) / interval\<rceil>"
proof -
  define x where "x = (c - (d + interval)) / interval"
  have "overrun_seconds c d interval / interval = max 0 x"
    using assms by (simp add: overrun_seconds_def x_def max_def zero_le_divide_iff divide_le_0_iff)
  then have "missed_deadlines c d interval = \<lceil>max 0 x\<rceil>" using assms by (simp add: missed_deadlines_def)
  also have "\<dots> = max 0 \<lceil>x\<rceil>" by (cases "0 \<le> x") (auto simp: max_def, linarith+)
  finally show ?thesis by (simp add: x_def)
qed

lemma missed_count:
  "0 < interval \<Longrightarrow> int (nat \<lceil>(c - (d + interval)) / interval\<rceil>) = missed_deadlines c d interval"
  unfolding missed_eq by (metis int_nat_eq max_def nat_0_iff not_le of_nat_0 order_le_less)

lemma next_deadline_closed:
  assumes "0 < interval"
  shows "next_deadline d interval c = Some (d + (1 + of_int (missed_deadlines c d interval)) * interval)"
proof -
  have "real (nat \<lceil>(c - (d + interval)) / interval\<rceil>) = of_int (missed_deadlines c d interval)"
    using missed_count [OF assms, of c d] by (metis of_int_of_nat_eq)
  then show ?thesis unfolding next_deadline_def catch_up_steps [OF assms] by (simp add: algebra_simps)
qed

lemma catch_up_returns_only:
  assumes "catch_up interval current deadline = Some r"
  shows "interval \<le> 0 \<longrightarrow> \<not> deadline < current"
  using assms
proof (rule catch_up.raw_induct [where P = "\<lambda>i c d r. i \<le> 0 \<longrightarrow> \<not> d < c", rotated])
  fix f :: "real \<Rightarrow> real \<Rightarrow> real \<Rightarrow> real option" and i c d y :: real
  assume ih: "\<And>i c d y. f i c d = Some y \<Longrightarrow> i \<le> 0 \<longrightarrow> \<not> d < c"
    and eq: "(if d < c then f i c (d + i) else Some d) = Some y"
  show "i \<le> 0 \<longrightarrow> \<not> d < c" using ih [of i c "d + i" y] eq by (auto split: if_splits)
qed

lemma missed_nonneg: "0 < interval \<Longrightarrow> 0 \<le> missed_deadlines c d interval"
  by (simp add: missed_eq)

lemma next_deadline_in_time:
  assumes "0 < interval" and "next_deadline d interval c = Some n"
  shows "c \<le> n"
proof -
  have "(c - (d + interval)) / interval \<le> of_int (missed_deadlines c d interval)"
    unfolding missed_eq [OF assms(1)] by linarith
  then have "c - (d + interval) \<le> of_int (missed_deadlines c d interval) * interval" using assms(1) by (simp add: pos_divide_le_eq)
  then show ?thesis using assms next_deadline_closed [OF assms(1), of d c] by (simp add: algebra_simps)
qed

lemma next_deadline_least:
  assumes "0 < interval" and "next_deadline d interval c = Some n" and "1 \<le> k" and "c \<le> d + real k * interval"
  shows "n \<le> d + real k * interval"
proof -
  have "c - (d + interval) \<le> (real k - 1) * interval" using assms(4) by (simp add: algebra_simps)
  then have "(c - (d + interval)) / interval \<le> of_int (int k - 1)" using assms(1) by (simp add: pos_divide_le_eq)
  then have "\<lceil>(c - (d + interval)) / interval\<rceil> \<le> int k - 1" by (simp only: ceiling_le_iff)
  then have "missed_deadlines c d interval \<le> int k - 1" using assms(3) unfolding missed_eq [OF assms(1)] by simp
  then have "1 + of_int (missed_deadlines c d interval) \<le> real k" by linarith
  then have "(1 + of_int (missed_deadlines c d interval)) * interval \<le> real k * interval" using assms(1) by simp
  then show ?thesis using assms(2) next_deadline_closed [OF assms(1), of d c] by simp
qed

text \<open>The daemon's next deadline satisfies the contract of a scheduler; a deadline at the current time is in time.\<close>

interpretation mon: deadline_grid "\<lambda>previous interval current. the (next_deadline previous interval current)" "(<)"
proof
  fix previous interval current :: real and k :: nat assume i: "0 < interval"
  obtain n where n: "next_deadline previous interval current = Some n" using next_deadline_closed [OF i] by blast
  then show "\<not> the (next_deadline previous interval current) < current" using next_deadline_in_time [OF i n] by simp
  let ?k = "Suc (nat (missed_deadlines current previous interval))"
  have k: "1 + of_int (missed_deadlines current previous interval) = real ?k"
    using missed_nonneg [OF i, of current previous] by simp
  have "the (next_deadline previous interval current) = previous + real ?k * interval"
    unfolding next_deadline_closed [OF i] k option.sel by (rule refl)
  moreover have "1 \<le> ?k" by simp
  ultimately show "\<exists>k\<ge>1. the (next_deadline previous interval current) = previous + real k * interval" by blast
  show "the (next_deadline previous interval current) \<le> previous + real k * interval"
    if "1 \<le> k" "\<not> previous + real k * interval < current"
    using next_deadline_least [OF i n that(1)] that(2) n by simp
qed

text \<open>C31: catching up ends for every positive interval and every delay, on the next deadline after exactly as many
  skipped ones as the overrun record counts, and that deadline is not in the past; with an interval that
  is not positive a late loop would never end.\<close>

theorem catch_up_terminates:
  "(if 0 < interval
    then next_deadline d interval c = Some (d + (1 + of_int (missed_deadlines c d interval)) * interval)
      \<and> c \<le> d + (1 + of_int (missed_deadlines c d interval)) * interval
    else if d + interval < c then next_deadline d interval c = None
    else next_deadline d interval c = Some (d + interval))"
proof (cases "0 < interval")
  case True
  then show ?thesis using next_deadline_closed [OF True, of d c] next_deadline_in_time [OF True] by simp
next
  case False
  show ?thesis
  proof (cases "d + interval < c")
    case True
    then have "next_deadline d interval c \<noteq> Some r" for r
      using False catch_up_returns_only [of interval c "d + interval"] by (auto simp: next_deadline_def)
    then show ?thesis using False True by (cases "next_deadline d interval c") auto
  next
    case late: False
    then have "next_deadline d interval c = Some (d + interval)"
      unfolding next_deadline_def by (subst catch_up.simps) simp
    then show ?thesis using False late by simp
  qed
qed


section \<open>A run keeps to its deadlines\<close>

definition kept :: "real \<Rightarrow> real \<Rightarrow> real \<Rightarrow> schedule \<Rightarrow> bool" where
  "kept d0 interval m s \<longleftrightarrow>
     (\<exists>k. sc_deadline s = d0 + real k * interval)
     \<and> list_all (\<lambda>(d, c, mt). d \<le> c \<and> (\<exists>k. d = d0 + real k * interval)) (sc_log s)
     \<and> list_all (\<lambda>(d, c, mt). d + interval \<le> sc_deadline s \<and> (mt \<longrightarrow> c + m \<le> sc_next_maintenance s)) (sc_log s)
     \<and> sorted_wrt (\<lambda>(d, c, mt) (d', c', mt'). d + interval \<le> d' \<and> (mt \<and> mt' \<longrightarrow> c + m \<le> c')) (sc_log s)"

lemma kept_step:
  assumes "kept d0 interval m s" and i: "0 < interval" and m: "0 \<le> m" and c: "sc_deadline s \<le> c"
    and n: "next_deadline (sc_deadline s) interval now = Some d"
  shows "kept d0 interval m \<lparr>sc_deadline = d,
    sc_next_maintenance = (if sc_next_maintenance s \<le> c then c + m else sc_next_maintenance s),
    sc_log = sc_log s @ [(sc_deadline s, c, sc_next_maintenance s \<le> c)]\<rparr>"
proof -
  obtain k where k: "sc_deadline s = d0 + real k * interval" using assms(1) by (auto simp: kept_def)
  obtain j where j: "d = sc_deadline s + real j * interval" "1 \<le> j"
    using mon.on_grid [OF i, of "sc_deadline s" now] n by auto
  define L where "L = sc_log s"
  define nm where "nm = (if sc_next_maintenance s \<le> c then c + m else sc_next_maintenance s)"
  have grid: "d = d0 + real (k + j) * interval" using j(1) k by (simp add: algebra_simps)
  have dl: "sc_deadline s + interval \<le> d" using mon.progress [OF i, of "sc_deadline s" now] n by simp
  have nm: "sc_next_maintenance s \<le> nm" "sc_next_maintenance s \<le> c \<longrightarrow> c + m \<le> nm" using m by (auto simp: nm_def)
  have L: "list_all (\<lambda>(d, c, mt). d \<le> c \<and> (\<exists>k. d = d0 + real k * interval)) L"
      "\<And>x. x \<in> set L \<Longrightarrow> fst x + interval \<le> sc_deadline s \<and> (snd (snd x) \<longrightarrow> fst (snd x) + m \<le> sc_next_maintenance s)"
      "sorted_wrt (\<lambda>(d, c, mt) (d', c', mt'). d + interval \<le> d' \<and> (mt \<and> mt' \<longrightarrow> c + m \<le> c')) L"
    using assms(1) by (auto simp: kept_def L_def list_all_iff)
  have old: "fst x + interval \<le> d \<and> (snd (snd x) \<longrightarrow> fst (snd x) + m \<le> nm)" if "x \<in> set L" for x
    using L(2) [OF that] dl nm(1) i by linarith
  have new: "fst x + interval \<le> sc_deadline s \<and> (snd (snd x) \<and> sc_next_maintenance s \<le> c \<longrightarrow> fst (snd x) + m \<le> c)" if "x \<in> set L" for x
    using L(2) [OF that] by linarith
  show ?thesis
    unfolding kept_def schedule.simps L_def [symmetric] nm_def [symmetric]
  proof (intro conjI)
    show "\<exists>k. d = d0 + real k * interval" using grid by blast
    show "list_all (\<lambda>(d, c, mt). d \<le> c \<and> (\<exists>k. d = d0 + real k * interval)) (L @ [(sc_deadline s, c, sc_next_maintenance s \<le> c)])"
      using L(1) c k by auto
    show "list_all (\<lambda>(da, c, mt). da + interval \<le> d \<and> (mt \<longrightarrow> c + m \<le> nm)) (L @ [(sc_deadline s, c, sc_next_maintenance s \<le> c)])"
      using old dl nm(2) by (simp add: list_all_iff split_beta)
    show "sorted_wrt (\<lambda>(d, c, mt) (d', c', mt'). d + interval \<le> d' \<and> (mt \<and> mt' \<longrightarrow> c + m \<le> c'))
        (L @ [(sc_deadline s, c, sc_next_maintenance s \<le> c)])"
      using L(3) new by (simp add: sorted_wrt_append split_beta)
  qed
qed

lemma collector_loop_kept:
  assumes "0 < interval" and "0 \<le> m" and "kept d0 interval m s"
  shows "\<exists>b s' w'. collector_loop n E interval m s w = Some (b, s', w') \<and> kept d0 interval m s'"
  using assms(3)
proof (induction n arbitrary: s w)
  case (Suc n)
  obtain stop w1 where stop: "ce_stop E w = (stop, w1)" by fastforce
  obtain current w2 where current: "ce_monotonic E w1 = (current, w2)" by fastforce
  obtain out w3 where out: "ce_collect E (sc_next_maintenance s \<le> current) w2 = (out, w3)" by fastforce
  obtain now w4 where now: "ce_monotonic E (record_overrun E out (sc_deadline s) interval w3) = (now, w4)" by fastforce
  obtain d where d: "next_deadline (sc_deadline s) interval now = Some d" using next_deadline_closed [OF assms(1)] by blast
  show ?case
  proof (cases "stop \<or> current < sc_deadline s")
    case True
    then show ?thesis using Suc by (auto simp: stop current)
  next
    case False
    then show ?thesis
      using Suc.IH [OF kept_step [OF Suc.prems assms(1,2) _ d, of current]] by (simp add: stop current out now d Let_def)
  qed
qed auto

text \<open>C32: a run of the collection daemon never hangs in catching up, whatever the clock, the collections and the
  overrun records do, and keeps its schedule: every collection begins at or after its own deadline, every
  deadline lies a whole number of intervals after the first, no deadline is served twice (successive ones
  are at least an interval apart), and two maintenance runs are at least the maintenance interval apart.\<close>

theorem collector_keeps_schedule:
  assumes "0 < interval" and "0 \<le> m" and "ce_monotonic E w = (d0, w0)"
  shows "\<exists>b s' w'. run_collector n E interval m w = Some (b, s', w')
    \<and> list_all (\<lambda>(d, c, mt). d \<le> c \<and> (\<exists>k. d = d0 + real k * interval)) (sc_log s')
    \<and> sorted_wrt (\<lambda>(d, c, mt) (d', c', mt'). d + interval \<le> d' \<and> (mt \<and> mt' \<longrightarrow> c + m \<le> c')) (sc_log s')"
proof -
  have "kept d0 interval m \<lparr>sc_deadline = d0, sc_next_maintenance = d0, sc_log = []\<rparr>"
    by (auto simp: kept_def intro: exI [of _ 0])
  from collector_loop_kept [OF assms(1,2) this, of n E w0] show ?thesis
    unfolding run_collector_def assms(3) by (auto simp: kept_def)
qed

text \<open>An environment whose clock advances by three seconds per reading and whose collections succeed.\<close>

definition ticking :: "real collector_env" where
  "ticking = \<lparr>ce_monotonic = (\<lambda>t. (t, t + 3)), ce_sleep = (\<lambda>x t. t + x), ce_stop = (\<lambda>t. (False, t)),
     ce_collect = (\<lambda>_ t. (Collected 0, t)), ce_overrun = (\<lambda>_ _ _ _ t. t)\<rparr>"

theorem collector_keeps_schedule_witness:
  "\<exists>b s' w'. run_collector 7 ticking 5 20 0 = Some (b, s', w')
     \<and> list_all (\<lambda>(d, c, mt). d \<le> c \<and> (\<exists>k. d = 0 + real k * 5)) (sc_log s')"
  using collector_keeps_schedule [of 5 20 ticking 0 0 3 7] by (auto simp: ticking_def)

end
