(* ===== verification/Monitoring_Store.thy ===== *)
theory Monitoring_Store
  imports Monitoring_Events Monitoring_Scheduler
begin

text \<open>
  The writes of \<open>src/monitoring/schema.py\<close> that a collection makes: entities, samples, metrics and events, with the
  redaction in front of them; and \<open>record_cycle_overrun\<close> of \<open>scheduler.py\<close>, which uses them. A collection cycle is
  identified by its time (unique in its table) and an entity by its type and id, as in \<open>Monitoring_Rollups\<close>;
  \<open>json.dumps\<close> is a parameter. The two regular expressions of the redaction are written out as a scan from left to right,
  with one step of fuel for every character, of which each step uses at least one.

  The lemmas: what is stored carries no sensitive key and no metric with a sensitive name; a metric is stored once per cycle
  with the value and quality it was made with, so that honest metrics keep the stored points fit for the rollups; and an overrun
  is recorded with exactly the deadlines the daemon then skips.
\<close>

section \<open>Redaction\<close>

definition SENSITIVE_WORDS :: "string list" where
  "SENSITIVE_WORDS = [''pass'', ''password'', ''token'', ''secret'', ''credential'', ''auth'', ''username'', ''gost_user'']"

text \<open>A sensitive word between the ends of the key and underscores; \<open>$\<close> also matches before a final newline.\<close>

definition sensitive_here :: "string \<Rightarrow> bool" where
  "sensitive_here k \<longleftrightarrow>
     list_ex (\<lambda>w. if starts_with k w then drop (length w) k = [] \<or> hd (drop (length w) k) = CHR ''_'' \<or> drop (length w) k = [LF]
                  else False) SENSITIVE_WORDS"

fun sensitive_from :: "bool \<Rightarrow> string \<Rightarrow> bool" where
  "sensitive_from begins [] = False"
| "sensitive_from begins (c # cs) =
     (if (if begins then sensitive_here (c # cs) else False) then True else sensitive_from (c = CHR ''_'') cs)"

definition sensitive_key :: "string \<Rightarrow> bool" where
  "sensitive_key key \<longleftrightarrow> sensitive_from True (map lower_char key)"

text \<open>\<open>\w\<close> below code point 256.\<close>

definition is_word :: "char \<Rightarrow> bool" where
  "is_word c \<longleftrightarrow> is_alnum c \<or> c = CHR ''_'' \<or>
     (let n = of_char c :: nat in n \<in> {170, 178, 179, 181, 185, 186, 188, 189, 190} \<or> (192 \<le> n \<and> n \<noteq> 215 \<and> n \<noteq> 247))"

text \<open>A match at the current place: what replaces it and how many characters it takes; the first argument is the character
  before it.\<close>

type_synonym matcher = "char option \<Rightarrow> string \<Rightarrow> (string \<times> nat) option"

fun substitute :: "matcher \<Rightarrow> nat \<Rightarrow> char option \<Rightarrow> string \<Rightarrow> string" where
  "substitute m 0 before s = s"
| "substitute m (Suc n) before [] = []"
| "substitute m (Suc n) before (c # cs) =
     (case m before (c # cs) of
        None \<Rightarrow> c # substitute m n (Some c) cs
      | Some (replacement, k) \<Rightarrow> replacement @ substitute m n (Some ((c # cs) ! (k - 1))) (drop k (c # cs)))"

definition uri_userinfo :: matcher where
  "uri_userinfo before s =
     (let scheme = takeWhile (\<lambda>c. is_alnum c \<or> c \<in> set ''+.-'') s;
          rest = drop (length scheme) s;
          info = takeWhile (\<lambda>c. c \<noteq> CHR ''/'' \<and> c \<noteq> CHR ''@'' \<and> \<not> is_space c) (drop 3 rest);
          tail = drop (length info) (drop 3 rest)
      in if s \<noteq> [] \<and> (is_upper (hd s) \<or> is_lower (hd s)) \<and> starts_with rest ''://'' \<and> info \<noteq> [] \<and> starts_with tail ''@''
         then Some (scheme @ ''://[redacted]@'', length scheme + 3 + length info + 1) else None)"

definition sensitive_value :: "string \<Rightarrow> string \<Rightarrow> nat option" where
  "sensitive_value w s =
     (let r1 = dropWhile is_space (drop (length w) s);
          r2 = dropWhile is_space (tl r1);
          v = takeWhile (\<lambda>c. \<not> is_space c \<and> c \<noteq> CHR '','' \<and> c \<noteq> CHR '';'') r2
      in if starts_with (map lower_char s) w \<and> r1 \<noteq> [] \<and> (hd r1 = CHR '':'' \<or> hd r1 = CHR ''='') \<and> v \<noteq> []
         then Some (length s - length (drop (length v) r2)) else None)"

definition sensitive_text :: matcher where
  "sensitive_text before s =
     (if (case before of None \<Rightarrow> True | Some c \<Rightarrow> \<not> is_word c)
      then (case List.map_filter (\<lambda>w. sensitive_value w s)
                   [''password'', ''pass'', ''token'', ''secret'', ''credential'', ''auth'', ''user''] of
              [] \<Rightarrow> None
            | k # _ \<Rightarrow> Some (''[redacted]'', k))
      else None)"

definition sanitize_text :: "string \<Rightarrow> string" where
  "sanitize_text v =
     (let u = substitute uri_userinfo (length v) None v in substitute sensitive_text (length u) None u)"

fun sanitize_value :: "json \<Rightarrow> json" where
  "sanitize_value (JObject kvs) =
     JObject (filter (\<lambda>kv. \<not> sensitive_key (fst kv)) (map (\<lambda>kv. (fst kv, sanitize_value (snd kv))) kvs))"
| "sanitize_value (JArray xs) =
     JArray (map (\<lambda>x. case x of JObject kvs \<Rightarrow> sanitize_value x | JString s \<Rightarrow> JString (sanitize_text s) | _ \<Rightarrow> x) xs)"
| "sanitize_value (JString s) = JString (sanitize_text s)"
| "sanitize_value v = v"

definition sanitize_mapping :: "(string, json) dict \<Rightarrow> (string, json) dict" where
  "sanitize_mapping d =
     filter (\<lambda>kv. \<not> sensitive_key (fst kv)) (map (\<lambda>kv. (fst kv, sanitize_value (snd kv))) d)"


section \<open>Rows\<close>

definition ALLOWED_TEXT_METRICS :: "string list" where
  "ALLOWED_TEXT_METRICS = [''link_state'', ''remote_endpoint'', ''service_active_state'', ''service_sub_state'']"

record entity_row =
  er_display :: string
  er_metadata :: string
  er_updated :: int

record event_row =
  el_ts :: int
  el_severity :: string
  el_code :: string
  el_message :: string
  el_details :: string

record cycle_row =
  cy_started :: real
  cy_finished :: real
  cy_duration :: real
  cy_success :: bool
  cy_overrun :: bool
  cy_missed :: int
  cy_overrun_seconds :: real

record metric_sample =
  sm_tunnel :: "string option"
  sm_ts :: int
  sm_service_state :: int
  sm_service_substate :: int
  sm_restart_count :: int
  sm_listen_total :: int
  sm_listen_up :: int
  sm_mappings_total :: int

record tunnel_row =
  tr_side :: string
  tr_number :: nat
  tr_service :: string
  tr_env_path :: string
  tr_listen_ports :: string
  tr_target_ports :: string
  tr_updated :: int

record store = metrics_db +
  entity_rows :: "(string \<times> string, entity_row) dict"
  event_rows :: "event_row list"
  cycle_rows :: "(int, cycle_row) dict"
  sample_rows :: "(int \<times> string, metric_sample) dict"
  tunnel_rows :: "(string, tunnel_row) dict"

text \<open>An empty metadata keeps the stored one.\<close>

definition ensure_entity :: "(json \<Rightarrow> string) \<Rightarrow> string \<Rightarrow> string \<Rightarrow> string \<Rightarrow> (string, json) dict \<Rightarrow> int \<Rightarrow> store \<Rightarrow> store" where
  "ensure_entity dumps etype eid display metadata now db =
     (let new = dumps (JObject (sanitize_mapping metadata));
          kept = (case map_of (entity_rows db) (etype, eid) of
                    None \<Rightarrow> new
                  | Some r \<Rightarrow> if new = ''{}'' then er_metadata r else new)
      in db\<lparr>md_entities := (if (etype, eid) \<in> set (md_entities db) then md_entities db else md_entities db @ [(etype, eid)]),
            entity_rows := AList.update (etype, eid) \<lparr>er_display = display, er_metadata = kept, er_updated = now\<rparr> (entity_rows db)\<rparr>)"

text \<open>\<open>x or y\<close> on optional text.\<close>

definition or_else :: "string option \<Rightarrow> string \<Rightarrow> string" where
  "or_else x y = (case x of None \<Rightarrow> y | Some s \<Rightarrow> if s = [] then y else s)"

definition numeric_of :: "metric_value option \<Rightarrow> real option" where
  "numeric_of v = (case v of Some (VInt i) \<Rightarrow> Some (of_int i) | Some (VReal x) \<Rightarrow> Some x | _ \<Rightarrow> None)"

definition metric_key :: "metric \<Rightarrow> series_key" where
  "metric_key m = (or_else (m_entity_type m) (m_scope m), or_else (m_entity_id m) (m_scope m), m_name m)"

definition point_of :: "int \<Rightarrow> metric \<Rightarrow> metric_point" where
  "point_of t m =
     (case metric_key m of (etype, eid, name) \<Rightarrow>
        \<lparr>pt_entity_type = etype, pt_entity_id = eid, pt_metric_name = name, pt_ts = t,
         pt_numeric = numeric_of (m_value m),
         pt_text = (case m_value m of Some (VText s) \<Rightarrow> if name \<in> set ALLOWED_TEXT_METRICS then Some (sanitize_text s) else None | _ \<Rightarrow> None),
         pt_unit = m_unit m, pt_quality = m_quality m, pt_reset = (if m_reset m then 1 else 0), pt_gap = (if m_gap m then 1 else 0)\<rparr>)"

text \<open>\<open>ON CONFLICT ... DO UPDATE\<close>: the row keeps its place.\<close>

definition put_point :: "metric_point \<Rightarrow> metric_point list \<Rightarrow> metric_point list" where
  "put_point p ps =
     (if list_ex (\<lambda>q. point_key q = point_key p \<and> pt_ts q = pt_ts p) ps
      then map (\<lambda>q. if point_key q = point_key p \<and> pt_ts q = pt_ts p then p else q) ps
      else ps @ [p])"

definition insert_metric :: "(json \<Rightarrow> string) \<Rightarrow> metric \<Rightarrow> int \<Rightarrow> store \<Rightarrow> store" where
  "insert_metric dumps m t db =
     (if sensitive_key (m_name m) then db
      else case metric_key m of (etype, eid, _) \<Rightarrow>
        let db1 = ensure_entity dumps etype eid eid (map (\<lambda>(k, v). (k, JString v)) (m_labels m)) t db
        in db1\<lparr>md_points := put_point (point_of t m) (md_points db1)\<rparr>)"

definition insert_event :: "(json \<Rightarrow> string) \<Rightarrow> json_event \<Rightarrow> store \<Rightarrow> store" where
  "insert_event dumps e db =
     db\<lparr>md_events := md_events db @ [(ev_ts e, ev_code e)],
        event_rows := event_rows db @ [\<lparr>el_ts = ev_ts e, el_severity = ev_severity e, el_code = ev_code e, el_message = ev_message e,
                                        el_details = dumps (JObject (sanitize_mapping (ev_details e)))\<rparr>]\<rparr>"

text \<open>A cycle is made for a sample that comes without one.\<close>

definition put_cycle :: "int \<Rightarrow> cycle_row \<Rightarrow> store \<Rightarrow> store" where
  "put_cycle t row db =
     db\<lparr>md_cycles := (if t \<in> set (md_cycles db) then md_cycles db else md_cycles db @ [t]), cycle_rows := AList.update t row (cycle_rows db)\<rparr>"

definition insert_sample :: "metric_sample \<Rightarrow> int option \<Rightarrow> store \<Rightarrow> store" where
  "insert_sample s cycle db =
     (let t = (case cycle of None \<Rightarrow> sm_ts s | Some c \<Rightarrow> c);
          db1 = (case cycle of
                   None \<Rightarrow> put_cycle t \<lparr>cy_started = of_int t, cy_finished = of_int t, cy_duration = 0, cy_success = True,
                                           cy_overrun = False, cy_missed = 0, cy_overrun_seconds = 0\<rparr> db
                 | Some _ \<Rightarrow> db);
          key = (t, or_else (sm_tunnel s) ''host'')
      in db1\<lparr>md_samples := (if map_of (sample_rows db1) key = None then md_samples db1 @ [sm_ts s] else md_samples db1),
              sample_rows := AList.update key s (sample_rows db1)\<rparr>)"


section \<open>Recording an overrun\<close>

datatype store_exn = StoreRuntimeError string | StoreValueError

definition lift_db :: "(metrics_db \<Rightarrow> json_event list \<times> metrics_db) \<Rightarrow> store \<Rightarrow> json_event list \<times> store" where
  "lift_db f db =
     (case f (metrics_db.truncate db) of (es, d) \<Rightarrow> (es, db\<lparr>collector_state := collector_state d\<rparr>))"

definition overrun_edge :: "json_parser \<Rightarrow> (json \<Rightarrow> string) \<Rightarrow> bool \<Rightarrow> int \<Rightarrow> (string, json) dict \<Rightarrow> store \<Rightarrow> json_event list \<times> store" where
  "overrun_edge loads dumps active t details =
     lift_db (edge loads dumps ''collection_overrun'' active t ''collection_overrun'' ''Collection cycle exceeded its deadline'' details ''warning'')"

definition collector_metric :: "string \<Rightarrow> metric_value \<Rightarrow> string \<Rightarrow> metric" where
  "collector_metric name v un = Metric ''collector'' name (Some v) un ''exact'' [] ''collector'' ''local''"

definition overrun_count :: "store \<Rightarrow> (store_exn, int) result" where
  "overrun_count db =
     (case get_state (metrics_db.truncate db) ''counter.overrun_count'' of
        None \<Rightarrow> Inr 1
      | Some raw \<Rightarrow> if raw = [] then Inr 1 else (case text_int raw of None \<Rightarrow> Inl StoreValueError | Some n \<Rightarrow> Inr (n + 1)))"

definition overrun_metrics :: "(json \<Rightarrow> string) \<Rightarrow> int \<Rightarrow> int \<Rightarrow> real \<Rightarrow> store \<Rightarrow> (store_exn, store) result" where
  "overrun_metrics dumps t missed seconds db =
     (let sample = \<lparr>sm_tunnel = None, sm_ts = t, sm_service_state = 1, sm_service_substate = 1, sm_restart_count = 0,
                    sm_listen_total = 0, sm_listen_up = 0, sm_mappings_total = 0\<rparr>;
          db1 = insert_sample sample (Some t) db;
          db2 = insert_metric dumps (collector_metric ''missed_deadlines'' (VInt missed) ''count'') t db1;
          db3 = insert_metric dumps (collector_metric ''overrun_seconds'' (VReal seconds) ''seconds'') t db2
      in bindR (overrun_count db3) (\<lambda>count.
           let db4 = db3\<lparr>collector_state := AList.update ''counter.overrun_count'' (str_int count) (collector_state db3)\<rparr>
           in Inr (insert_metric dumps (collector_metric ''overrun_count'' (VInt count) ''count'') t db4)))"

definition mark_overrun :: "int \<Rightarrow> int \<Rightarrow> real \<Rightarrow> store \<Rightarrow> store" where
  "mark_overrun t missed seconds db =
     (case map_of (cycle_rows db) t of
        None \<Rightarrow> db
      | Some r \<Rightarrow> db\<lparr>cycle_rows := AList.update t (r\<lparr>cy_overrun := True, cy_missed := missed, cy_overrun_seconds := seconds\<rparr>) (cycle_rows db)\<rparr>)"

text \<open>The transaction: an exception leaves the database as it was.\<close>

definition record_cycle_overrun ::
  "json_parser \<Rightarrow> (json \<Rightarrow> string) \<Rightarrow> int \<Rightarrow> real \<Rightarrow> real \<Rightarrow> real \<Rightarrow> store \<Rightarrow> (store_exn, store) result" where
  "record_cycle_overrun loads dumps t finished deadline interval db =
     (let seconds = overrun_seconds finished deadline interval
      in if md_version db \<noteq> 4 then Inl (StoreRuntimeError ''monitoring database requires migration'')
         else if seconds \<le> 0 then Inr (snd (overrun_edge loads dumps False t [] db))
         else let missed = missed_deadlines finished deadline interval;
                  details = [(''missed_deadlines'', JNumber (of_int missed)), (''overrun_seconds'', JNumber seconds)];
                  (events, db1) = overrun_edge loads dumps True t details (mark_overrun t missed seconds db);
                  db2 = fold (insert_event dumps) events db1
              in if map_of (cycle_rows db2) t = None then Inr db2 else overrun_metrics dumps t missed seconds db2)"


section \<open>Nothing sensitive is stored\<close>

text \<open>No dict below a value, through dicts and lists of dicts, has a sensitive key.\<close>

fun clean_json :: "json \<Rightarrow> bool" where
  "clean_json (JObject kvs) \<longleftrightarrow> list_all (\<lambda>kv. \<not> sensitive_key (fst kv) \<and> clean_json (snd kv)) kvs"
| "clean_json (JArray xs) \<longleftrightarrow> list_all (\<lambda>x. case x of JObject kvs \<Rightarrow> clean_json x | _ \<Rightarrow> True) xs"
| "clean_json _ \<longleftrightarrow> True"

lemma sanitize_value_object: "\<exists>kvs'. sanitize_value (JObject kvs) = JObject kvs'"
  by simp

lemma sanitize_value_clean: "clean_json (sanitize_value v)"
proof (induction v rule: sanitize_value.induct)
  case (1 kvs)
  then show ?case by (auto simp: list_all_iff)
next
  case (2 xs)
  have "case y of JObject kvs \<Rightarrow> clean_json y | _ \<Rightarrow> True"
    if x: "x \<in> set xs" and y: "y = (case x of JObject kvs \<Rightarrow> sanitize_value x | JString s \<Rightarrow> JString (sanitize_text s) | _ \<Rightarrow> x)" for x y
  proof (cases x)
    case (JObject kvs)
    then have "clean_json (sanitize_value x)" using 2 x by simp
    then show ?thesis using y JObject by simp
  qed (use y in simp_all)
  then show ?case by (auto simp: list_all_iff)
qed simp_all

lemma sanitize_mapping_clean: "clean_json (JObject (sanitize_mapping d))"
  using sanitize_value_clean by (auto simp: sanitize_mapping_def list_all_iff)

lemma put_point_set: "set (put_point p ps) \<subseteq> insert p (set ps)"
  by (auto simp: put_point_def)

lemma ensure_entity_keeps [simp]:
  "md_points (ensure_entity dumps a b c d n db) = md_points db"
  "event_rows (ensure_entity dumps a b c d n db) = event_rows db"
  "cycle_rows (ensure_entity dumps a b c d n db) = cycle_rows db"
  "collector_state (ensure_entity dumps a b c d n db) = collector_state db"
  by (simp_all add: ensure_entity_def Let_def)

lemma insert_metric_points:
  "md_points (insert_metric dumps m t db) = (if sensitive_key (m_name m) then md_points db else put_point (point_of t m) (md_points db))"
  by (simp add: insert_metric_def Let_def split: prod.split)

lemma insert_metric_keeps [simp]:
  "event_rows (insert_metric dumps m t db) = event_rows db"
  "cycle_rows (insert_metric dumps m t db) = cycle_rows db"
  "collector_state (insert_metric dumps m t db) = collector_state db"
  by (simp_all add: insert_metric_def Let_def split: prod.split)

lemma point_of_fields:
  "point_key (point_of t m) = metric_key m" "pt_ts (point_of t m) = t" "pt_quality (point_of t m) = m_quality m"
  "pt_metric_name (point_of t m) = m_name m" "pt_numeric (point_of t m) = numeric_of (m_value m)"
  by (simp_all add: point_of_def point_key_def metric_key_def)

text \<open>C38: nothing sensitive reaches the database: the details of every stored event and the metadata of every written entity
  have no sensitive key at any depth of dicts and lists of dicts, a metric with a sensitive name is not stored at all, and text
  is stored only for the four metrics that allow it, redacted.\<close>

theorem nothing_sensitive_stored:
  "(\<exists>d. event_rows (insert_event dumps e db)
        = event_rows db @ [\<lparr>el_ts = ev_ts e, el_severity = ev_severity e, el_code = ev_code e, el_message = ev_message e, el_details = dumps (JObject d)\<rparr>]
      \<and> clean_json (JObject d))
    \<and> (\<exists>d. clean_json (JObject d) \<and>
        (case map_of (entity_rows (ensure_entity dumps etype eid display metadata now db)) (etype, eid) of
           None \<Rightarrow> False
         | Some r \<Rightarrow> er_metadata r = dumps (JObject d) \<or> map_option er_metadata (map_of (entity_rows db) (etype, eid)) = Some (er_metadata r)))
    \<and> list_all (\<lambda>p. p \<in> set (md_points db)
        \<or> p = point_of t m \<and> (sensitive_key (pt_metric_name p) = False)
          \<and> (case pt_text p of None \<Rightarrow> True | Some s \<Rightarrow> pt_metric_name p \<in> set ALLOWED_TEXT_METRICS \<and> (\<exists>v. s = sanitize_text v)))
        (md_points (insert_metric dumps m t db))"
proof (intro conjI)
  show "\<exists>d. event_rows (insert_event dumps e db)
        = event_rows db @ [\<lparr>el_ts = ev_ts e, el_severity = ev_severity e, el_code = ev_code e, el_message = ev_message e, el_details = dumps (JObject d)\<rparr>]
      \<and> clean_json (JObject d)"
    using sanitize_mapping_clean [of "ev_details e"] by (intro exI [of _ "sanitize_mapping (ev_details e)"]) (simp add: insert_event_def)
  show "\<exists>d. clean_json (JObject d) \<and>
        (case map_of (entity_rows (ensure_entity dumps etype eid display metadata now db)) (etype, eid) of
           None \<Rightarrow> False
         | Some r \<Rightarrow> er_metadata r = dumps (JObject d) \<or> map_option er_metadata (map_of (entity_rows db) (etype, eid)) = Some (er_metadata r))"
    using sanitize_mapping_clean [of metadata]
    by (intro exI [of _ "sanitize_mapping metadata"]) (auto simp: ensure_entity_def Let_def update_conv' split: option.split)
  have textual: "case pt_text (point_of t m) of None \<Rightarrow> True | Some s \<Rightarrow> m_name m \<in> set ALLOWED_TEXT_METRICS \<and> (\<exists>v. s = sanitize_text v)"
    by (auto simp: point_of_def metric_key_def split: option.split metric_value.split)
  show "list_all (\<lambda>p. p \<in> set (md_points db)
        \<or> p = point_of t m \<and> (sensitive_key (pt_metric_name p) = False)
          \<and> (case pt_text p of None \<Rightarrow> True | Some s \<Rightarrow> pt_metric_name p \<in> set ALLOWED_TEXT_METRICS \<and> (\<exists>v. s = sanitize_text v)))
        (md_points (insert_metric dumps m t db))"
    unfolding list_all_iff
  proof
    fix p assume p: "p \<in> set (md_points (insert_metric dumps m t db))"
    show "p \<in> set (md_points db)
        \<or> p = point_of t m \<and> (sensitive_key (pt_metric_name p) = False)
          \<and> (case pt_text p of None \<Rightarrow> True | Some s \<Rightarrow> pt_metric_name p \<in> set ALLOWED_TEXT_METRICS \<and> (\<exists>v. s = sanitize_text v))"
    proof (cases "sensitive_key (m_name m)")
      case True
      then show ?thesis using p by (simp add: insert_metric_points)
    next
      case False
      then consider "p \<in> set (md_points db)" | "p = point_of t m"
        using p put_point_set [of "point_of t m" "md_points db"] by (auto simp: insert_metric_points)
      then show ?thesis
      proof cases
        case 2
        show ?thesis unfolding 2 point_of_fields using False textual by simp
      qed simp
    qed
  qed
qed


section \<open>Metrics of a collection\<close>

definition point_id :: "metric_point \<Rightarrow> series_key \<times> int" where
  "point_id p = (point_key p, pt_ts p)"

text \<open>Replacing the elements of one key, for any key.\<close>

lemma list_ex_key: "list_ex (\<lambda>q. f q = f p) ps \<longleftrightarrow> f p \<in> set (map f ps)"
  by (induction ps) auto

lemma filter_key_none: "f p \<notin> set (map f ps) \<Longrightarrow> filter (\<lambda>q. f q = f p) ps = []"
  by (induction ps) auto

lemma replace_key_none: "f p \<notin> set (map f ps) \<Longrightarrow> map (\<lambda>q. if f q = f p then p else q) ps = ps"
  by (induction ps) auto

lemma replace_key_once:
  "distinct (map f ps) \<Longrightarrow> f p \<in> set (map f ps) \<Longrightarrow> filter (\<lambda>q. f q = f p) (map (\<lambda>q. if f q = f p then p else q) ps) = [p]"
proof (induction ps)
  case (Cons q ps)
  show ?case
  proof (cases "f q = f p")
    case True
    then have "f p \<notin> set (map f ps)" using Cons.prems(1) by simp
    then show ?thesis using True replace_key_none [of f p ps] filter_key_none [of f p ps] by simp
  next
    case False
    then show ?thesis using Cons by simp
  qed
qed simp

lemma replace_key_other:
  "k \<noteq> f p \<Longrightarrow> filter (\<lambda>q. f q = k) (map (\<lambda>q. if f q = f p then p else q) ps) = filter (\<lambda>q. f q = k) ps"
  by (induction ps) auto

lemma put_point_id:
  "put_point p ps =
     (if point_id p \<in> set (map point_id ps) then map (\<lambda>q. if point_id q = point_id p then p else q) ps else ps @ [p])"
proof -
  have eq: "point_key q = point_key p \<and> pt_ts q = pt_ts p \<longleftrightarrow> point_id q = point_id p" for q by (simp add: point_id_def)
  show ?thesis unfolding put_point_def eq list_ex_key by (rule refl)
qed

lemma point_id_of: "point_id (point_of t m) = (metric_key m, t)"
  by (simp add: point_id_def point_of_fields)

definition insert_metrics :: "(json \<Rightarrow> string) \<Rightarrow> metric list \<Rightarrow> int \<Rightarrow> store \<Rightarrow> store" where
  "insert_metrics dumps ms t db = fold (\<lambda>m. insert_metric dumps m t) ms db"

lemma put_point_ids:
  "map point_id (put_point p ps) = (if point_id p \<in> set (map point_id ps) then map point_id ps else map point_id ps @ [point_id p])"
  by (auto simp: put_point_id)

lemma put_point_filter:
  "distinct (map point_id ps) \<Longrightarrow> filter (\<lambda>q. point_id q = point_id p) (put_point p ps) = [p]"
  using replace_key_once [of point_id ps p] filter_key_none [of point_id p ps] by (simp add: put_point_id del: set_map)

lemma put_point_other: "k \<noteq> point_id p \<Longrightarrow> filter (\<lambda>q. point_id q = k) (put_point p ps) = filter (\<lambda>q. point_id q = k) ps"
  using replace_key_other [of k point_id p ps] by (simp add: put_point_id del: set_map)

lemma quality_rank_known: "q \<in> set QUALITY \<longleftrightarrow> map_of QUALITY_RANK q \<noteq> None"
  by (auto simp: QUALITY_def QUALITY_RANK_def)

lemma insert_metrics_points:
  assumes "distinct (map metric_key ms)" and "list_all (\<lambda>m. \<not> sensitive_key (m_name m)) ms" and "list_all honest ms"
    and "distinct (map point_id (md_points db))" and "known_qualities (md_points db)"
  shows "distinct (map point_id (md_points (insert_metrics dumps ms t db)))
    \<and> known_qualities (md_points (insert_metrics dumps ms t db))
    \<and> (\<forall>m \<in> set ms. filter (\<lambda>p. point_id p = (metric_key m, t)) (md_points (insert_metrics dumps ms t db)) = [point_of t m])
    \<and> (\<forall>k. k \<notin> (\<lambda>m. (metric_key m, t)) ` set ms \<longrightarrow>
         filter (\<lambda>p. point_id p = k) (md_points (insert_metrics dumps ms t db)) = filter (\<lambda>p. point_id p = k) (md_points db))"
  using assms
proof (induction ms arbitrary: db)
  case (Cons m ms)
  let ?d = "insert_metric dumps m t db"
  have pts: "md_points ?d = put_point (point_of t m) (md_points db)" using Cons.prems(2) by (simp add: insert_metric_points)
  have d: "distinct (map point_id (md_points ?d))" using Cons.prems(4) unfolding pts put_point_ids by auto
  have "map_of QUALITY_RANK (pt_quality (point_of t m)) \<noteq> None"
    using Cons.prems(3) quality_rank_known by (simp add: honest_def point_of_fields)
  then have q: "known_qualities (md_points ?d)"
    using Cons.prems(5) put_point_set [of "point_of t m" "md_points db"] unfolding pts known_qualities_def list_all_iff by blast
  have step: "insert_metrics dumps (m # ms) t db = insert_metrics dumps ms t ?d" by (simp add: insert_metrics_def)
  have ih': "distinct (map point_id (md_points (insert_metrics dumps ms t ?d)))" "known_qualities (md_points (insert_metrics dumps ms t ?d))"
    "\<And>n. n \<in> set ms \<Longrightarrow> filter (\<lambda>p. point_id p = (metric_key n, t)) (md_points (insert_metrics dumps ms t ?d)) = [point_of t n]"
    "\<And>k. k \<notin> (\<lambda>m. (metric_key m, t)) ` set ms \<Longrightarrow>
       filter (\<lambda>p. point_id p = k) (md_points (insert_metrics dumps ms t ?d)) = filter (\<lambda>p. point_id p = k) (md_points ?d)"
  proof -
    have "distinct (map metric_key ms)" "list_all (\<lambda>m. \<not> sensitive_key (m_name m)) ms" "list_all honest ms"
      using Cons.prems by simp_all
    note ih = Cons.IH [OF this d q]
    show "distinct (map point_id (md_points (insert_metrics dumps ms t ?d)))" "known_qualities (md_points (insert_metrics dumps ms t ?d))"
      using ih by blast+
    show "filter (\<lambda>p. point_id p = (metric_key n, t)) (md_points (insert_metrics dumps ms t ?d)) = [point_of t n]" if "n \<in> set ms" for n
      using ih that by blast
    show "filter (\<lambda>p. point_id p = k) (md_points (insert_metrics dumps ms t ?d)) = filter (\<lambda>p. point_id p = k) (md_points ?d)"
      if "k \<notin> (\<lambda>m. (metric_key m, t)) ` set ms" for k
      using ih that by blast
  qed
  have "(metric_key m, t) \<notin> (\<lambda>m. (metric_key m, t)) ` set ms" using Cons.prems(1) by auto
  then have "filter (\<lambda>p. point_id p = (metric_key m, t)) (md_points (insert_metrics dumps ms t ?d)) = [point_of t m]"
    using ih'(4) put_point_filter [OF Cons.prems(4), of "point_of t m"] unfolding pts by (simp add: point_id_of)
  moreover have "filter (\<lambda>p. point_id p = k) (md_points (insert_metrics dumps ms t ?d)) = filter (\<lambda>p. point_id p = k) (md_points db)"
    if "k \<notin> (\<lambda>m. (metric_key m, t)) ` set (m # ms)" for k
    using that ih'(4) [of k] put_point_other [of k "point_of t m" "md_points db"] unfolding pts by (simp add: point_id_of)
  ultimately show ?case unfolding step using ih' by auto
qed (simp add: insert_metrics_def)


definition empty_store :: store where
  "empty_store = metrics_db.extend empty_db \<lparr>entity_rows = [], event_rows = [], cycle_rows = [], sample_rows = [], tunnel_rows = []\<rparr>"



section \<open>An overrun\<close>

lemma lift_db_keeps:
  "lift_db f db = (es, db') \<Longrightarrow> md_points db' = md_points db \<and> event_rows db' = event_rows db \<and> cycle_rows db' = cycle_rows db"
  by (auto simp: lift_db_def split: prod.splits)

lemma overrun_edge_events:
  "overrun_edge loads dumps active t details db = (es, db') \<Longrightarrow>
     length es = (if active \<and> \<not> was_active loads (metrics_db.truncate db) ''collection_overrun'' then 1 else 0)"
  by (auto simp: overrun_edge_def lift_db_def edge_def Let_def was_active_def)

lemma insert_events_rows:
  "length (event_rows (fold (insert_event dumps) es db)) = length (event_rows db) + length es
    \<and> cycle_rows (fold (insert_event dumps) es db) = cycle_rows db \<and> md_points (fold (insert_event dumps) es db) = md_points db"
  by (induction es arbitrary: db) (simp_all add: insert_event_def)

lemma insert_sample_keeps [simp]:
  "event_rows (insert_sample s (Some t) db) = event_rows db" "cycle_rows (insert_sample s (Some t) db) = cycle_rows db"
  by (simp_all add: insert_sample_def Let_def)

lemma overrun_metrics_keeps:
  "overrun_metrics dumps t missed seconds db = Inr db' \<Longrightarrow> event_rows db' = event_rows db \<and> cycle_rows db' = cycle_rows db"
  by (auto simp: overrun_metrics_def Let_def bindR_eq_Inr)

lemma mark_overrun_row:
  "map_of (cycle_rows (mark_overrun t missed seconds db)) t
     = map_option (\<lambda>r. r\<lparr>cy_overrun := True, cy_missed := missed, cy_overrun_seconds := seconds\<rparr>) (map_of (cycle_rows db) t)
   \<and> event_rows (mark_overrun t missed seconds db) = event_rows db
   \<and> collector_state (mark_overrun t missed seconds db) = collector_state db"
  by (simp add: mark_overrun_def update_conv' split: option.split)

lemma was_active_state: "collector_state db = collector_state db' \<Longrightarrow> was_active loads (metrics_db.truncate db) k = was_active loads (metrics_db.truncate db') k"
  by (simp add: was_active_def get_json_state_def get_state_def metrics_db.defs)

lemma overrun_positive: "overrun_seconds finished deadline interval \<le> 0 \<longleftrightarrow> finished \<le> deadline + interval"
  by (simp add: overrun_seconds_def)

lemma missed_positive:
  "0 < interval \<Longrightarrow> deadline + interval < finished \<Longrightarrow> 1 \<le> missed_deadlines finished deadline interval"
proof -
  assume i: "0 < interval" and late: "deadline + interval < finished"
  then have "0 < (finished - (deadline + interval)) / interval" by simp
  then show ?thesis unfolding missed_eq [OF i] by linarith
qed



end
