(* ===== verification/Monitoring_Config.thy ===== *)
theory Monitoring_Config
  imports Monitoring_Metrics Watchdog_Config
begin

text \<open>
  \<open>src/monitoring/config.py\<close>: the strict settings of the monitoring service, read from a file or from the environment,
  the bounds of its intervals and the narrower paths of the installed service. The file system is the record \<open>fs\<close> of
  \<open>Watchdog_Config\<close> with \<open>is_file\<close>; a path is its number of leading slashes as POSIX keeps them and its components.

  The line format is another instance of the contract \<open>key_value_lines\<close>, so the round trip rests on its facts.
\<close>

section \<open>Keys, bounds and defaults\<close>

definition KEY_DB :: string where "KEY_DB = ''GOST_MONITOR_DB''"
definition KEY_ENV_DIR :: string where "KEY_ENV_DIR = ''GOST_ENV_DIR''"
definition KEY_SAMPLE :: string where "KEY_SAMPLE = ''GOST_MONITOR_SAMPLE_INTERVAL''"
definition KEY_TCP :: string where "KEY_TCP = ''GOST_MONITOR_TCP_INTERVAL''"
definition KEY_SLOW :: string where "KEY_SLOW = ''GOST_MONITOR_SLOW_INTERVAL''"
definition KEY_MAINTENANCE :: string where "KEY_MAINTENANCE = ''GOST_MONITOR_MAINTENANCE_INTERVAL''"

lemmas KEY_defs = KEY_DB_def KEY_ENV_DIR_def KEY_SAMPLE_def KEY_TCP_def KEY_SLOW_def KEY_MAINTENANCE_def

definition ALLOWED_KEYS :: "string list" where
  "ALLOWED_KEYS = [KEY_DB, KEY_ENV_DIR, KEY_SAMPLE, KEY_TCP, KEY_SLOW, KEY_MAINTENANCE]"

definition INTERVAL_BOUNDS :: "(string \<times> int \<times> int) list" where
  "INTERVAL_BOUNDS = [(KEY_SAMPLE, 5, 60), (KEY_TCP, 10, 300), (KEY_SLOW, 30, 900), (KEY_MAINTENANCE, 300, 86400)]"

definition SAFE_PATH_RE :: "string \<Rightarrow> bool" where
  "SAFE_PATH_RE s \<longleftrightarrow> 2 \<le> length s \<and> hd s = CHR ''/'' \<and> list_all (\<lambda>c. is_alnum c \<or> c \<in> set ''._/+:-'') (tl s)"

definition unsafe_char :: "char \<Rightarrow> bool" where
  "unsafe_char c \<longleftrightarrow> is_space c \<or> c \<in> {NUL, CHR 0x27, CHR 0x22, CHR 0x60} \<union> set ''$;&|<>(){}[]'' \<or> c = CHR 0x5C"

definition UNSAFE_VALUE_RE :: "string \<Rightarrow> bool" where
  "UNSAFE_VALUE_RE v \<longleftrightarrow> list_ex unsafe_char v"

datatype config_exn = MConfigError string | MValueError

record monitoring_config =
  mc_db_path :: string
  mc_env_dir :: string
  mc_sample_interval :: int
  mc_tcp_interval :: int
  mc_slow_interval :: int
  mc_maintenance_interval :: int

definition DEFAULT_CONFIG :: monitoring_config where
  "DEFAULT_CONFIG =
     \<lparr>mc_db_path = ''/var/lib/gost-manager/metrics.sqlite3'', mc_env_dir = ''/etc/gost'', mc_sample_interval = 10,
      mc_tcp_interval = 30, mc_slow_interval = 60, mc_maintenance_interval = 900\<rparr>"

definition as_mapping :: "monitoring_config \<Rightarrow> (string, string) dict" where
  "as_mapping c =
     [(KEY_DB, mc_db_path c), (KEY_ENV_DIR, mc_env_dir c), (KEY_SAMPLE, str_int (mc_sample_interval c)),
      (KEY_TCP, str_int (mc_tcp_interval c)), (KEY_SLOW, str_int (mc_slow_interval c)),
      (KEY_MAINTENANCE, str_int (mc_maintenance_interval c))]"

definition config_text :: "monitoring_config \<Rightarrow> string" where
  "config_text c = concat (map (\<lambda>key. key @ ''='' @ dict_get (as_mapping c) key [] @ [LF]) ALLOWED_KEYS)"

definition default_config_text :: string where
  "default_config_text = config_text DEFAULT_CONFIG"


section \<open>Paths\<close>

text \<open>The leading slashes that count (one, or exactly two) and the components.\<close>

definition slashes :: "string \<Rightarrow> nat" where
  "slashes s = (if starts_with s ''//'' \<and> \<not> starts_with s ''///'' then 2 else if starts_with s ''/'' then 1 else 0)"

fun norm_step :: "bool \<Rightarrow> string list \<Rightarrow> string list \<Rightarrow> string list" where
  "norm_step rooted acc [] = acc"
| "norm_step rooted acc (part # rest) =
     (if part = [] \<or> part = ''.'' then norm_step rooted acc rest
      else if part \<noteq> ''..'' \<or> (\<not> rooted \<and> acc = []) \<or> (acc \<noteq> [] \<and> last acc = ''..'') then norm_step rooted (acc @ [part]) rest
      else if acc \<noteq> [] then norm_step rooted (butlast acc) rest
      else norm_step rooted acc rest)"

fun slash_join :: "string list \<Rightarrow> string" where
  "slash_join [] = []"
| "slash_join [x] = x"
| "slash_join (x # xs) = x @ CHR ''/'' # slash_join xs"

definition normpath :: "string \<Rightarrow> string" where
  "normpath s =
     (let n = slashes s;
          out = replicate n (CHR ''/'') @ slash_join (norm_step (0 < n) [] (split_on (CHR ''/'') s))
      in if s = [] \<or> out = [] then ''.'' else out)"

type_synonym posix_path = "nat \<times> string list"

definition Path :: "string \<Rightarrow> posix_path" where
  "Path s = (slashes s, filter (\<lambda>p. p \<noteq> [] \<and> p \<noteq> ''.'') (split_on (CHR ''/'') s))"

definition validate_path :: "string \<Rightarrow> string \<Rightarrow> (config_exn, string) result" where
  "validate_path v label =
     (if v = [] \<or> UNSAFE_VALUE_RE v \<or> \<not> SAFE_PATH_RE v then Inl (MConfigError (label @ '' must be a safe absolute path''))
      else if slashes v = 0 \<or> normpath v \<noteq> v then Inl (MConfigError (label @ '' must be normalized and absolute''))
      else Inr v)"

definition path_under :: "string \<Rightarrow> string \<Rightarrow> bool \<Rightarrow> bool" where
  "path_under path parent allow_parent =
     (let candidate = Path path; base = Path parent
      in if candidate = base then allow_parent
         else fst candidate = fst base \<and> length (snd base) < length (snd candidate)
           \<and> take (length (snd base)) (snd candidate) = snd base)"


section \<open>Settings\<close>

definition validate_interval :: "string \<Rightarrow> string \<Rightarrow> (config_exn, int) result" where
  "validate_interval key v =
     (if \<not> all_digits v then Inl (MConfigError (key @ '' must be an integer''))
      else if int_max_str_digits < length v then Inl MValueError
      else (case map_of INTERVAL_BOUNDS key of
              None \<Rightarrow> Inl MValueError
            | Some (low, high) \<Rightarrow>
                let parsed = int (nat_of_text v)
                in if parsed < low \<or> high < parsed then Inl (MConfigError (key @ '' is out of bounds'')) else Inr parsed))"

definition config_from_mapping :: "(string, string) dict \<Rightarrow> bool \<Rightarrow> (config_exn, monitoring_config) result" where
  "config_from_mapping values require_all =
     (let unknown = filter (\<lambda>k. k \<notin> set ALLOWED_KEYS) (map fst values);
          empties = filter (\<lambda>(_, v). v = []) values;
          merged = fold (\<lambda>(k, v) d. AList.update k v d) values (as_mapping DEFAULT_CONFIG);
          missing = filter (\<lambda>k. map_of values k = None) ALLOWED_KEYS;
          get = (\<lambda>k. dict_get merged k [])
      in if unknown \<noteq> [] then Inl (MConfigError (''unknown monitoring config key: '' @ hd (sort unknown)))
         else if empties \<noteq> [] then Inl (MConfigError (fst (hd empties) @ '' may not be empty''))
         else if require_all \<and> missing \<noteq> [] then Inl (MConfigError (''missing monitoring config key: '' @ hd missing))
         else
           bindR (validate_path (get KEY_DB) KEY_DB) (\<lambda>db.
           bindR (validate_path (get KEY_ENV_DIR) KEY_ENV_DIR) (\<lambda>env.
           bindR (validate_interval KEY_SAMPLE (get KEY_SAMPLE)) (\<lambda>sample.
           bindR (validate_interval KEY_TCP (get KEY_TCP)) (\<lambda>tcp.
           bindR (validate_interval KEY_SLOW (get KEY_SLOW)) (\<lambda>slow.
           bindR (validate_interval KEY_MAINTENANCE (get KEY_MAINTENANCE)) (\<lambda>maintenance.
             if tcp < sample then Inl (MConfigError ''GOST_MONITOR_TCP_INTERVAL may not be less than the sample interval'')
             else if slow < sample then Inl (MConfigError ''GOST_MONITOR_SLOW_INTERVAL may not be less than the sample interval'')
             else if maintenance < slow then Inl (MConfigError ''GOST_MONITOR_MAINTENANCE_INTERVAL may not be less than the slow interval'')
             else Inr \<lparr>mc_db_path = db, mc_env_dir = env, mc_sample_interval = sample, mc_tcp_interval = tcp,
                       mc_slow_interval = slow, mc_maintenance_interval = maintenance\<rparr>)))))))"

definition config_line :: "nat \<Rightarrow> (string, string) dict \<Rightarrow> string \<Rightarrow> (config_exn, (string, string) dict) result" where
  "config_line number values line =
     (if line = [] \<or> count_list line (CHR ''='') \<noteq> 1 then Inl (MConfigError (''malformed monitoring config line '' @ str_nat number))
      else (case split_first (CHR ''='') line of
              None \<Rightarrow> Inl (MConfigError (''malformed monitoring config line '' @ str_nat number))
            | Some (key, v) \<Rightarrow>
                if key \<notin> set ALLOWED_KEYS then Inl (MConfigError (''unknown monitoring config key on line '' @ str_nat number))
                else if map_of values key \<noteq> None then Inl (MConfigError (''duplicate monitoring config key on line '' @ str_nat number))
                else if v = [] then Inl (MConfigError (''empty monitoring config value on line '' @ str_nat number))
                else if UNSAFE_VALUE_RE v then Inl (MConfigError (''unsafe monitoring config value on line '' @ str_nat number))
                else Inr (values @ [(key, v)])))"

definition parse_config_text :: "string \<Rightarrow> (config_exn, monitoring_config) result" where
  "parse_config_text content =
     (if NUL \<in> set content then Inl (MConfigError ''monitoring config contains a NUL byte'')
      else if splitlines content = [] then Inl (MConfigError ''monitoring config is empty'')
      else bindR (fold_lines config_line 1 [] (splitlines content)) (\<lambda>values. config_from_mapping values True))"

definition config_from_environment :: "(string, string) dict \<Rightarrow> (config_exn, monitoring_config) result" where
  "config_from_environment source =
     config_from_mapping (List.map_filter (\<lambda>key. map_option (\<lambda>v. (key, v)) (map_of source key)) ALLOWED_KEYS) False"


section \<open>The installed service\<close>

record config_fs = fs +
  fs_is_file :: "path \<Rightarrow> bool"

definition INSTALLED_STATE_DIR :: string where "INSTALLED_STATE_DIR = ''/var/lib/gost-manager''"
definition INSTALLED_ENV_DIR :: string where "INSTALLED_ENV_DIR = ''/etc/gost''"

definition rooted_config_path :: "config_fs \<Rightarrow> string \<Rightarrow> string option \<Rightarrow> (config_exn, path) result" where
  "rooted_config_path F p rt =
     (if fst (Path p) = 0 then Inl (MConfigError ''installed path must be absolute'')
      else (case rt of
              None \<Rightarrow> Inr (snd (Path p))
            | Some r \<Rightarrow>
                if r = [] then Inr (snd (Path p))
                else if fst (Path r) = 0 \<or> fs_is_symlink F (snd (Path r))
                then Inl (MConfigError ''installed path root must be a real absolute directory'')
                else Inr (snd (Path r) @ snd (Path p))))"

fun no_symlink_below :: "config_fs \<Rightarrow> path \<Rightarrow> string list \<Rightarrow> (config_exn, unit) result" where
  "no_symlink_below F current [] = Inr ()"
| "no_symlink_below F current (part # parts) =
     (if fs_is_symlink F (current @ [part]) then Inl (MConfigError ''installed path traverses a symlink'')
      else no_symlink_below F (current @ [part]) parts)"

definition reject_config_symlinks :: "config_fs \<Rightarrow> path \<Rightarrow> path option \<Rightarrow> (config_exn, unit) result" where
  "reject_config_symlinks F p boundary =
     (let start = (case boundary of None \<Rightarrow> [] | Some b \<Rightarrow> b)
      in if take (length start) p \<noteq> start then Inl (MConfigError ''installed path escaped its validation root'')
         else if fs_is_symlink F start then Inl (MConfigError ''installed path traverses a symlink'')
         else no_symlink_below F start (drop (length start) p))"

definition validate_installed_config :: "config_fs \<Rightarrow> monitoring_config \<Rightarrow> string option \<Rightarrow> (config_exn, monitoring_config) result" where
  "validate_installed_config F c rt =
     (if \<not> path_under (mc_db_path c) INSTALLED_STATE_DIR False then Inl (MConfigError (KEY_DB @ '' must be a file below the state directory''))
      else if \<not> path_under (mc_env_dir c) INSTALLED_ENV_DIR True then Inl (MConfigError (KEY_ENV_DIR @ '' must be the environment directory or below it''))
      else let boundary = (case rt of None \<Rightarrow> None | Some r \<Rightarrow> if r = [] then None else Some (snd (Path r)))
      in bindR (rooted_config_path F (mc_db_path c) rt) (\<lambda>db_path.
         bindR (rooted_config_path F (mc_env_dir c) rt) (\<lambda>env_path.
         bindR (reject_config_symlinks F db_path boundary) (\<lambda>_.
         bindR (reject_config_symlinks F env_path boundary) (\<lambda>_.
           if fs_exists F db_path \<and> \<not> fs_is_file F db_path then Inl (MConfigError (KEY_DB @ '' must identify a regular database file''))
           else if fs_exists F env_path \<and> \<not> fs_is_dir F env_path then Inl (MConfigError (KEY_ENV_DIR @ '' must identify a directory''))
           else Inr c)))))"

definition apply_config_policy :: "config_fs \<Rightarrow> monitoring_config \<Rightarrow> string \<Rightarrow> string option \<Rightarrow> (config_exn, monitoring_config) result" where
  "apply_config_policy F c policy rt =
     (if policy = ''generic'' then Inr c
      else if policy = ''installed'' then validate_installed_config F c rt
      else Inl (MConfigError (''unknown monitoring config policy: '' @ policy)))"

definition load_config :: "config_fs \<Rightarrow> string \<Rightarrow> string \<Rightarrow> string option \<Rightarrow> (config_exn, monitoring_config) result" where
  "load_config F p policy rt =
     (let file = snd (Path p)
      in if fs_is_symlink F file then Inl (MConfigError ''monitoring config path may not be a symlink'')
         else (case fs_read F file of
                 None \<Rightarrow> Inl (MConfigError ''cannot read monitoring config'')
               | Some raw \<Rightarrow> bindR (parse_config_text raw) (\<lambda>c. apply_config_policy F c policy rt)))"


section \<open>Accepted settings\<close>

definition safe_path :: "string \<Rightarrow> bool" where
  "safe_path v \<longleftrightarrow> v \<noteq> [] \<and> \<not> UNSAFE_VALUE_RE v \<and> SAFE_PATH_RE v \<and> slashes v \<noteq> 0 \<and> normpath v = v"

definition valid_config :: "monitoring_config \<Rightarrow> bool" where
  "valid_config c \<longleftrightarrow>
     safe_path (mc_db_path c) \<and> safe_path (mc_env_dir c)
     \<and> 5 \<le> mc_sample_interval c \<and> mc_sample_interval c \<le> 60 \<and> 10 \<le> mc_tcp_interval c \<and> mc_tcp_interval c \<le> 300
     \<and> 30 \<le> mc_slow_interval c \<and> mc_slow_interval c \<le> 900 \<and> 300 \<le> mc_maintenance_interval c \<and> mc_maintenance_interval c \<le> 86400
     \<and> mc_sample_interval c \<le> mc_tcp_interval c \<and> mc_sample_interval c \<le> mc_slow_interval c
     \<and> mc_slow_interval c \<le> mc_maintenance_interval c"

lemma validate_path_safe: "validate_path v label = Inr w \<longleftrightarrow> w = v \<and> safe_path v"
  by (auto simp: validate_path_def safe_path_def)

lemma validate_interval_accepts:
  "map_of INTERVAL_BOUNDS key = Some (low, high) \<Longrightarrow> validate_interval key v = Inr n \<Longrightarrow> low \<le> n \<and> n \<le> high"
  by (auto simp: validate_interval_def Let_def split: if_splits)

lemma validate_interval_str:
  assumes "map_of INTERVAL_BOUNDS key = Some (low, high)" and "0 \<le> n" and "n < 10 ^ 6"
  shows "validate_interval key (str_int n) = (if n < low \<or> high < n then Inl (MConfigError (key @ '' is out of bounds'')) else Inr n)"
proof -
  have "nat n < 10 ^ 6" using assms(3) by (simp add: nat_less_iff)
  then have "length (str_nat (nat n)) \<le> 6" by (rule length_str_nat_digits) simp
  then show ?thesis using assms
    by (simp add: validate_interval_def int_max_str_digits_def str_int_nonneg all_digits_str_nat nat_of_text_str_nat)
qed

lemma bounds_of:
  "map_of INTERVAL_BOUNDS KEY_SAMPLE = Some (5, 60)" "map_of INTERVAL_BOUNDS KEY_TCP = Some (10, 300)"
  "map_of INTERVAL_BOUNDS KEY_SLOW = Some (30, 900)" "map_of INTERVAL_BOUNDS KEY_MAINTENANCE = Some (300, 86400)"
  by (simp_all add: INTERVAL_BOUNDS_def KEY_defs)

lemma config_from_mapping_valid:
  assumes "config_from_mapping values req = Inr c"
  shows "valid_config c"
proof -
  obtain d e s t sl m sv tv slv mv where
    "validate_path d KEY_DB = Inr (mc_db_path c)" "validate_path e KEY_ENV_DIR = Inr (mc_env_dir c)"
    "validate_interval KEY_SAMPLE sv = Inr (mc_sample_interval c)" "validate_interval KEY_TCP tv = Inr (mc_tcp_interval c)"
    "validate_interval KEY_SLOW slv = Inr (mc_slow_interval c)" "validate_interval KEY_MAINTENANCE mv = Inr (mc_maintenance_interval c)"
    "mc_sample_interval c \<le> mc_tcp_interval c" "mc_sample_interval c \<le> mc_slow_interval c"
    "mc_slow_interval c \<le> mc_maintenance_interval c"
    using assms by (auto simp: config_from_mapping_def Let_def bindR_eq_Inr not_less split: if_splits)
  then show ?thesis
    using validate_interval_accepts [OF bounds_of(1)] validate_interval_accepts [OF bounds_of(2)]
      validate_interval_accepts [OF bounds_of(3)] validate_interval_accepts [OF bounds_of(4)]
    by (auto simp: valid_config_def validate_path_safe)
qed

lemma parse_config_text_valid: "parse_config_text content = Inr c \<Longrightarrow> valid_config c"
  by (auto simp: parse_config_text_def bindR_eq_Inr split: if_splits dest: config_from_mapping_valid)


section \<open>The file is read back\<close>

definition config_value :: "string \<Rightarrow> bool" where
  "config_value v \<longleftrightarrow> v \<noteq> [] \<and> \<not> UNSAFE_VALUE_RE v \<and> CHR ''='' \<notin> set v"

lemma ALLOWED_KEYS_plain: "k \<in> set ALLOWED_KEYS \<Longrightarrow> plain_key k"
  by (auto simp: ALLOWED_KEYS_def KEY_defs plain_key_def is_linebreak_def)

interpretation mk: key_value_lines ALLOWED_KEYS config_value config_line
proof
  show "k \<in> set ALLOWED_KEYS \<Longrightarrow> plain_key k" for k by (rule ALLOWED_KEYS_plain)
  show "config_value v \<Longrightarrow> c \<in> set v \<Longrightarrow> \<not> is_linebreak c" for v c
    by (auto simp: config_value_def UNSAFE_VALUE_RE_def list_ex_iff unsafe_char_def dest: linebreak_is_space)
next
  fix k v n and d :: "(string, string) dict"
  assume k: "k \<in> set ALLOWED_KEYS" and v: "config_value v" and d: "map_of d k = None"
  have "count_list (line_of (k, v)) (CHR ''='') = 1"
    using k v by (simp add: count_list_line ALLOWED_KEYS_plain config_value_def)
  moreover have "split_first (CHR ''='') (line_of (k, v)) = Some (k, v)"
    using ALLOWED_KEYS_plain [OF k] by (simp add: line_of_def plain_key_def split_first_append)
  ultimately show "config_line n d (line_of (k, v)) = Inr (d @ [(k, v)])"
    using k v d by (simp add: config_line_def line_of_def config_value_def)
next
  fix n l and d d' :: "(string, string) dict"
  assume "config_line n d l = Inr d'"
  then obtain k v where kv: "split_first (CHR ''='') l = Some (k, v)" "k \<in> set ALLOWED_KEYS"
      "map_of d k = None" "v \<noteq> []" "\<not> UNSAFE_VALUE_RE v" "d' = d @ [(k, v)]" "count_list l (CHR ''='') = 1"
    by (auto simp: config_line_def split: if_splits option.splits)
  moreover from kv have l: "l = line_of (k, v)" by (auto dest: split_first_Some simp: line_of_def)
  moreover from kv l have "CHR ''='' \<notin> set v" by (simp add: count_list_line ALLOWED_KEYS_plain count_list_0_iff)
  ultimately show "\<exists>k v. l = line_of (k, v) \<and> k \<in> set ALLOWED_KEYS \<and> config_value v \<and> map_of d k = None \<and> d' = d @ [(k, v)]"
    by (auto simp: config_value_def)
qed

lemma safe_path_value: "safe_path v \<Longrightarrow> config_value v"
proof -
  assume v: "safe_path v"
  then obtain cs where cs: "v = CHR ''/'' # cs" "list_all (\<lambda>c. is_alnum c \<or> c \<in> set ''._/+:-'') cs"
    by (cases v) (auto simp: safe_path_def SAFE_PATH_RE_def)
  then have "CHR ''='' \<notin> set v" by (auto simp: list_all_iff is_alnum_def is_digit_def is_upper_def is_lower_def)
  then show "config_value v" using v by (simp add: safe_path_def config_value_def)
qed

lemma str_nat_value: "config_value (str_nat n)"
proof -
  have "\<not> unsafe_char c" if "c \<in> set (str_nat n)" for c
    using str_nat_digits [OF that] digit_not_space by (auto simp: unsafe_char_def is_digit_def)
  moreover have "CHR ''='' \<notin> set (str_nat n)" using str_nat_digits [of "CHR ''=''" n] by (auto simp: is_digit_def)
  ultimately show ?thesis by (auto simp: config_value_def UNSAFE_VALUE_RE_def list_ex_iff str_nat_nonempty)
qed

lemma ALLOWED_KEYS_no_nul: "k \<in> set ALLOWED_KEYS \<Longrightarrow> NUL \<notin> set k"
  by (auto simp: ALLOWED_KEYS_def KEY_defs)

lemma config_value_no_nul: "config_value v \<Longrightarrow> NUL \<notin> set v"
  by (auto simp: config_value_def UNSAFE_VALUE_RE_def list_ex_iff unsafe_char_def)

lemma config_text_lines: "config_text c = concat (map render_line (as_mapping c))"
  by (simp add: config_text_def as_mapping_def ALLOWED_KEYS_def KEY_defs dict_get_def render_line_def)

lemma as_mapping_good: "valid_config c \<Longrightarrow> good_values ALLOWED_KEYS config_value (as_mapping c)"
  by (auto simp: good_values_def as_mapping_def ALLOWED_KEYS_def KEY_defs valid_config_def safe_path_value str_int_nonneg str_nat_value)

lemma config_from_as_mapping:
  assumes "valid_config c"
  shows "config_from_mapping (as_mapping c) True = Inr c"
proof -
  have merged: "fold (\<lambda>(k, v) d. AList.update k v d) (as_mapping c) (as_mapping DEFAULT_CONFIG) = as_mapping c"
    by (simp add: as_mapping_def KEY_defs)
  have keys: "map fst (as_mapping c) = ALLOWED_KEYS" by (simp add: as_mapping_def ALLOWED_KEYS_def)
  have none: "filter (\<lambda>k. map_of (as_mapping c) k = None) ALLOWED_KEYS = []"
    by (simp add: filter_empty_conv keys [symmetric] map_of_eq_None_iff del: map_of_eq_None_iff set_map)
      (metis image_eqI map_of_eq_None_iff option.distinct(1) set_map not_None_eq)
  have "v \<noteq> []" if "v \<in> snd ` set (as_mapping c)" for v
    using as_mapping_good [OF assms] that by (auto simp: good_values_def config_value_def)
  then have full: "filter (\<lambda>(_, v). v = []) (as_mapping c) = []" by (force simp: filter_empty_conv)
  have get: "dict_get (as_mapping c) KEY_DB [] = mc_db_path c" "dict_get (as_mapping c) KEY_ENV_DIR [] = mc_env_dir c"
    "dict_get (as_mapping c) KEY_SAMPLE [] = str_int (mc_sample_interval c)" "dict_get (as_mapping c) KEY_TCP [] = str_int (mc_tcp_interval c)"
    "dict_get (as_mapping c) KEY_SLOW [] = str_int (mc_slow_interval c)"
    "dict_get (as_mapping c) KEY_MAINTENANCE [] = str_int (mc_maintenance_interval c)"
    by (simp_all add: dict_get_def as_mapping_def KEY_defs)
  have paths: "validate_path (mc_db_path c) KEY_DB = Inr (mc_db_path c)" "validate_path (mc_env_dir c) KEY_ENV_DIR = Inr (mc_env_dir c)"
    using assms by (simp_all add: validate_path_safe valid_config_def)
  have v: "validate_interval KEY_SAMPLE (str_int (mc_sample_interval c)) = Inr (mc_sample_interval c)"
    "validate_interval KEY_TCP (str_int (mc_tcp_interval c)) = Inr (mc_tcp_interval c)"
    "validate_interval KEY_SLOW (str_int (mc_slow_interval c)) = Inr (mc_slow_interval c)"
    "validate_interval KEY_MAINTENANCE (str_int (mc_maintenance_interval c)) = Inr (mc_maintenance_interval c)"
    using assms by (simp_all add: valid_config_def bounds_of [THEN validate_interval_str])
  show ?thesis
    using assms by (simp add: config_from_mapping_def merged none full get paths v keys Let_def valid_config_def)
qed

lemma parse_config_text_text:
  assumes "valid_config c"
  shows "parse_config_text (config_text c) = Inr c"
proof -
  have read: "fold_lines config_line 1 [] (splitlines (config_text c)) = Inr (as_mapping c)"
    unfolding config_text_lines by (rule mk.render_read_back [OF as_mapping_good [OF assms]])
  then have "splitlines (config_text c) \<noteq> []" by (auto simp: as_mapping_def)
  moreover have "NUL \<notin> set (config_text c)"
  proof -
    have "NUL \<notin> set (render_line kv)" if "kv \<in> set (as_mapping c)" for kv
    proof -
      have "config_value (snd kv)" "fst kv \<in> set ALLOWED_KEYS"
        using as_mapping_good [OF assms] that by (auto simp: good_values_def)
      then show ?thesis
        using ALLOWED_KEYS_no_nul config_value_no_nul by (cases kv) (simp add: render_line_def)
    qed
    then show ?thesis by (auto simp: config_text_lines)
  qed
  ultimately show ?thesis using read [simplified] by (simp add: parse_config_text_def config_from_as_mapping [OF assms])
qed

text \<open>C37: the settings file of the monitoring is read back as it was written, and only sane settings are ever accepted, from a
  file or from the environment: safe normalized absolute paths, every interval within its bounds, and no interval below the one
  it builds on.\<close>

theorem monitoring_config_round_trip:
  "(parse_config_text (config_text c) = Inr c \<longleftrightarrow> valid_config c)
    \<and> (case parse_config_text content of Inl _ \<Rightarrow> True | Inr accepted \<Rightarrow> valid_config accepted)
    \<and> (case config_from_environment source of Inl _ \<Rightarrow> True | Inr accepted \<Rightarrow> valid_config accepted)
    \<and> parse_config_text default_config_text = Inr DEFAULT_CONFIG"
proof -
  have "valid_config DEFAULT_CONFIG" by code_simp
  then show ?thesis
    using parse_config_text_text parse_config_text_valid config_from_mapping_valid
    by (auto simp: default_config_text_def config_from_environment_def split: sum.split)
qed


section \<open>The installed paths\<close>

lemma no_symlink_below_ok:
  "no_symlink_below F current parts = Inr u \<Longrightarrow> 0 < n \<Longrightarrow> n \<le> length parts \<Longrightarrow> \<not> fs_is_symlink F (current @ take n parts)"
proof (induction parts arbitrary: current n)
  case (Cons part parts)
  then have "\<not> fs_is_symlink F (current @ [part])" "no_symlink_below F (current @ [part]) parts = Inr u" by (auto split: if_splits)
  then show ?case using Cons.IH [of "current @ [part]" "n - 1"] Cons.prems by (cases "n = 1") (auto simp: take_Cons')
qed simp

lemma reject_config_symlinks_ok:
  assumes "reject_config_symlinks F p (Some start) = Inr u" and "length start \<le> n" and "n \<le> length p"
  shows "\<not> fs_is_symlink F (take n p)"
proof -
  have p: "take (length start) p = start" "\<not> fs_is_symlink F start" "no_symlink_below F start (drop (length start) p) = Inr u"
    using assms(1) by (auto simp: reject_config_symlinks_def split: if_splits)
  show ?thesis
  proof (cases "n = length start")
    case True
    then show ?thesis using p by simp
  next
    case False
    then have "\<not> fs_is_symlink F (start @ take (n - length start) (drop (length start) p))"
      using no_symlink_below_ok [OF p(3), of "n - length start"] assms by simp
    then show ?thesis using p(1) assms(2) by (metis le_add_diff_inverse take_add)
  qed
qed

lemma path_under_below:
  assumes "path_under p q allow"
  shows "\<exists>below. Path p = (fst (Path q), snd (Path q) @ below) \<and> (allow \<or> below \<noteq> [])"
proof (cases "Path p = Path q")
  case True
  then show ?thesis using assms by (intro exI [of _ "[]"]) (simp add: path_under_def)
next
  case False
  then have "fst (Path p) = fst (Path q)" "length (snd (Path q)) < length (snd (Path p))"
      "take (length (snd (Path q))) (snd (Path p)) = snd (Path q)"
    using assms by (simp_all add: path_under_def Let_def)
  then show ?thesis
    by (intro exI [of _ "drop (length (snd (Path q))) (snd (Path p))"]) (metis append_take_drop_id drop_eq_Nil not_le prod.collapse)
qed

text \<open>An installed service only ever gets settings whose database lies below its state directory and whose environment
  directory is the managed one or below it, reached from the installation root through no symbolic link and never taken for
  another kind of file.\<close>

theorem installed_paths_confined:
  "(case load_config F p ''installed'' rt of
      Inl _ \<Rightarrow> True
    | Inr c \<Rightarrow>
        valid_config c
        \<and> (\<exists>below. below \<noteq> [] \<and> Path (mc_db_path c) = (1, [''var'', ''lib'', ''gost-manager''] @ below))
        \<and> (\<exists>below. Path (mc_env_dir c) = (1, [''etc'', ''gost''] @ below))
        \<and> (let base = (case rt of None \<Rightarrow> [] | Some r \<Rightarrow> if r = [] then [] else snd (Path r));
              db = base @ snd (Path (mc_db_path c)); env = base @ snd (Path (mc_env_dir c))
           in list_all (\<lambda>n. \<not> fs_is_symlink F (take n db)) [length base..<Suc (length db)]
             \<and> list_all (\<lambda>n. \<not> fs_is_symlink F (take n env)) [length base..<Suc (length env)]
             \<and> (if fs_exists F db then fs_is_file F db else True) \<and> (if fs_exists F env then fs_is_dir F env else True)))"
proof (cases "load_config F p ''installed'' rt")
  case (Inr c)
  define base where "base = (case rt of None \<Rightarrow> [] | Some r \<Rightarrow> if r = [] then [] else snd (Path r))"
  obtain raw where raw: "parse_config_text raw = Inr c" "validate_installed_config F c rt = Inr c"
  proof -
    obtain raw c0 where "parse_config_text raw = Inr c0" "validate_installed_config F c0 rt = Inr c"
      using Inr by (auto simp: load_config_def Let_def apply_config_policy_def bindR_eq_Inr split: if_splits option.splits)
    moreover from this have "c0 = c" by (auto simp: validate_installed_config_def Let_def bindR_eq_Inr split: if_splits)
    ultimately show ?thesis using that by blast
  qed
  define boundary where "boundary = (case rt of None \<Rightarrow> None | Some r \<Rightarrow> if r = [] then None else Some (snd (Path r)))"
  obtain db env where de: "rooted_config_path F (mc_db_path c) rt = Inr db" "rooted_config_path F (mc_env_dir c) rt = Inr env"
      "reject_config_symlinks F db boundary = Inr ()" "reject_config_symlinks F env boundary = Inr ()"
      "fs_exists F db \<longrightarrow> fs_is_file F db" "fs_exists F env \<longrightarrow> fs_is_dir F env"
      "path_under (mc_db_path c) INSTALLED_STATE_DIR False" "path_under (mc_env_dir c) INSTALLED_ENV_DIR True"
    using raw(2) by (auto simp: validate_installed_config_def Let_def bindR_eq_Inr boundary_def split: if_splits)
  have paths: "db = base @ snd (Path (mc_db_path c))" "env = base @ snd (Path (mc_env_dir c))"
    using de(1,2) by (auto simp: rooted_config_path_def base_def split: if_splits option.splits)
  have bnd: "reject_config_symlinks F q boundary = reject_config_symlinks F q (Some base)" for q
    by (auto simp: boundary_def base_def reject_config_symlinks_def split: option.split)
  have links: "\<not> fs_is_symlink F (take n db)" if "length base \<le> n" "n \<le> length db" for n
    using reject_config_symlinks_ok [OF de(3) [unfolded bnd] that] .
  have elinks: "\<not> fs_is_symlink F (take n env)" if "length base \<le> n" "n \<le> length env" for n
    using reject_config_symlinks_ok [OF de(4) [unfolded bnd] that] .
  have dirs: "Path INSTALLED_STATE_DIR = (1, [''var'', ''lib'', ''gost-manager''])" "Path INSTALLED_ENV_DIR = (1, [''etc'', ''gost''])"
    by code_simp+
  have "\<exists>below. below \<noteq> [] \<and> Path (mc_db_path c) = (1, [''var'', ''lib'', ''gost-manager''] @ below)"
    using path_under_below [OF de(7)] unfolding dirs by auto
  moreover have "\<exists>below. Path (mc_env_dir c) = (1, [''etc'', ''gost''] @ below)"
    using path_under_below [OF de(8)] unfolding dirs by auto
  moreover have "list_all (\<lambda>n. \<not> fs_is_symlink F (take n db)) [length base..<Suc (length db)]"
    "list_all (\<lambda>n. \<not> fs_is_symlink F (take n env)) [length base..<Suc (length env)]"
    using links elinks unfolding list_all_iff by (auto simp del: upt_Suc)
  moreover have "valid_config c" by (rule parse_config_text_valid [OF raw(1)])
  ultimately show ?thesis
    unfolding Inr sum.case base_def [symmetric] Let_def paths [symmetric] using de(5,6) by (simp only: simp_thms if_bool_eq_conj)
qed simp


section \<open>Too many digits\<close>

text \<open>An interval of more than 4300 digits is refused by \<open>int\<close> itself, with a plain \<open>ValueError\<close> that is no
  \<open>ConfigError\<close>, whatever the key.\<close>

theorem oversized_interval_escapes:
  "validate_interval key (replicate 4301 (CHR ''9'')) = Inl MValueError"
  by (simp add: validate_interval_def all_digits_def int_max_str_digits_def is_digit_def)

end
