(* ===== verification/Monitoring_Capture.thy ===== *)
theory Monitoring_Capture
  imports Monitoring_Network Monitoring_Proc Monitoring_Services Monitoring_Entities Monitoring_Store
begin

text \<open>
  \<open>src/monitoring/collector.py\<close>, its first half: the observations of one collection cycle. \<open>collector_sources\<close> is
  \<open>CollectorSources\<close>: every answer of the system (commands, files, directories, clocks) is one of its functions, and so are
  the answers of the standard library that are not modelled (\<open>json\<close>, \<open>float\<close>, \<open>ipaddress\<close>). A cycle asks for a file at most
  once, so an answer is a function of what is asked. \<open>capture\<close> is \<open>Capture\<close>: the values read, the errors, and the states of
  the sources; a \<open>captured\<close> value has one constructor for each type the code tests with \<open>isinstance\<close>.

  The lemmas: every source read is accounted for as available, failed or unsupported, and none of the readers can stop the
  others.
\<close>

section \<open>Failures\<close>

text \<open>An exception, as far as the collector tells exceptions apart: a failed command, the two \<open>OSError\<close>s it names, another
  \<open>OSError\<close>, and any other class.\<close>

datatype fault = Command_failed string | File_missing | Permission_denied | Os_error string | Raised string

definition error_kind :: "fault \<Rightarrow> string" where
  "error_kind f =
     (case f of
        Command_failed kind \<Rightarrow> kind
      | File_missing \<Rightarrow> ''missing_file''
      | Permission_denied \<Rightarrow> ''permission_denied''
      | Os_error c \<Rightarrow> c
      | Raised c \<Rightarrow> c)"

definition is_os_error :: "fault \<Rightarrow> bool" where
  "is_os_error f = (case f of File_missing \<Rightarrow> True | Permission_denied \<Rightarrow> True | Os_error _ \<Rightarrow> True | _ \<Rightarrow> False)"

text \<open>The exception of a reader; the first argument is what reading raised, where it raised.\<close>

definition reader_fault :: "fault \<Rightarrow> reader_exn \<Rightarrow> fault" where
  "reader_fault os e = (case e of ReadValueError _ \<Rightarrow> Raised ''ValueError'' | ReadKeyError \<Rightarrow> Raised ''KeyError'' | ReadOSError \<Rightarrow> os)"

definition read_result :: "fault \<Rightarrow> (reader_exn, 'a) result \<Rightarrow> (fault, 'a) result" where
  "read_result os r = (case r of Inl e \<Rightarrow> Inl (reader_fault os e) | Inr x \<Rightarrow> Inr x)"

abbreviation parsed :: "(reader_exn, 'a) result \<Rightarrow> (fault, 'a) result" where
  "parsed \<equiv> read_result (Os_error ''OSError'')"

text \<open>What \<open>subprocess.run\<close> answers.\<close>

datatype run_outcome = Completed string string int | Missing_binary | Not_permitted | Timed_out | Run_raised fault

record command_result =
  stdout :: string
  stderr :: string
  returncode :: int

definition run_command :: "run_outcome \<Rightarrow> (fault, command_result) result" where
  "run_command outcome =
     (case outcome of
        Completed out err code \<Rightarrow> Inr \<lparr>stdout = out, stderr = err, returncode = code\<rparr>
      | Missing_binary \<Rightarrow> Inl (Command_failed ''missing_binary'')
      | Not_permitted \<Rightarrow> Inl (Command_failed ''permission_denied'')
      | Timed_out \<Rightarrow> Inl (Command_failed ''timeout'')
      | Run_raised f \<Rightarrow> Inl f)"

definition command_stdout :: "command_result \<Rightarrow> (fault, string) result" where
  "command_stdout r =
     (if returncode r = 0 then Inr (stdout r)
      else Inl (Command_failed (if has_sub ''permission denied'' (map lower_char (stderr r)) then ''permission_denied'' else ''nonzero_exit'')))"


section \<open>Sources and settings\<close>

text \<open>\<open>int\<close> of a float.\<close>

definition truncated :: "real \<Rightarrow> int" where
  "truncated x = (if 0 \<le> x then floor x else ceiling x)"

record collector_sources =
  cs_wall :: real
  cs_monotonic :: "nat \<Rightarrow> real"
  cs_run :: "string list \<Rightarrow> run_outcome"
  cs_read_text :: "string \<Rightarrow> (fault, string) result"
  cs_list_dir :: "string \<Rightarrow> (fault, string list) result"
  cs_glob :: "string \<Rightarrow> string \<Rightarrow> (fault, candidate list) result"
  cs_exists :: "string \<Rightarrow> (fault, bool) result"
  cs_statvfs :: "string \<Rightarrow> statvfs option"
  cs_file_size :: "string \<Rightarrow> file_size"
  cs_proc_root :: string
  cs_sys_root :: string
  cs_cgroup_root :: string
  cs_unit_root :: string
  cs_ticks :: int
  cs_page_size :: int
  cs_loads :: json_parser
  cs_dumps :: "json \<Rightarrow> string"
  cs_str :: "json \<Rightarrow> string"
  cs_float :: "string \<Rightarrow> real option"
  cs_address :: "string \<Rightarrow> string option"

record collector_config =
  cc_sample :: real
  cc_tcp :: real
  cc_slow :: real
  cc_multiplier :: real
  cc_paths :: "string list"

definition CollectorConfig :: collector_config where
  "CollectorConfig =
     \<lparr>cc_sample = 10, cc_tcp = 30, cc_slow = 60, cc_multiplier = 5 / 2,
      cc_paths = [''/'', ''/etc/gost-manager'', ''/var/lib/gost-manager'']\<rparr>"

definition max_gap :: "collector_config \<Rightarrow> real" where
  "max_gap c = cc_sample c * cc_multiplier c"

definition TCP_SOCKET_STATES :: "string list" where
  "TCP_SOCKET_STATES = [''ESTAB'', ''SYN-SENT'', ''SYN-RECV'', ''FIN-WAIT-1'', ''FIN-WAIT-2'', ''CLOSE-WAIT'', ''TIME-WAIT'']"

definition slash :: "string \<Rightarrow> string \<Rightarrow> string" where
  "slash base name = base @ ''/'' @ name"

text \<open>A reader that catches \<open>OSError\<close> and \<open>ValueError\<close>, and one that lets the caller see only whether the text was read.\<close>

definition text_option :: "collector_sources \<Rightarrow> string \<Rightarrow> string option" where
  "text_option S path = (case cs_read_text S path of Inl _ \<Rightarrow> None | Inr t \<Rightarrow> Some t)"

text \<open>A reader that catches only \<open>OSError\<close>.\<close>

definition os_text :: "collector_sources \<Rightarrow> string \<Rightarrow> (fault, string option) result" where
  "os_text S path = (case cs_read_text S path of Inr t \<Rightarrow> Inr (Some t) | Inl f \<Rightarrow> if is_os_error f then Inr None else Inl f)"

definition command_text :: "collector_sources \<Rightarrow> string list \<Rightarrow> (fault, string) result" where
  "command_text S argv = bindR (run_command (cs_run S argv)) command_stdout"


section \<open>The capture\<close>

datatype captured =
    Got_paths "candidate list"
  | Got_cpu cpu_counters
  | Got_text string
  | Got_interfaces "(string, interface_counters) dict"
  | Got_link link_info
  | Got_table protocol_table
  | Got_disks "(string, disk_counters) dict"
  | Got_pair string string
  | Got_sockets "socket_record list"
  | Got_properties "(string, string) dict"
  | Got_pids "int list"
  | Got_pid_set "int list" bool
  | Got_process process_snapshot
  | Got_slow process_slow_snapshot
  | Got_memory "(string, int option) dict"
  | Got_metrics "metric list"
  | Got_true

record capture =
  cap_values :: "(string, captured) dict"
  cap_errors :: "(string, string) dict"
  cap_states :: "(string, string) dict"

definition Capture :: capture where
  "Capture = \<lparr>cap_values = [], cap_errors = [], cap_states = []\<rparr>"

definition record_error :: "string \<Rightarrow> string \<Rightarrow> capture \<Rightarrow> capture" where
  "record_error code kind c =
     c\<lparr>cap_errors := AList.update code kind (cap_errors c), cap_states := AList.update code ''failed'' (cap_states c)\<rparr>"

definition record_unsupported :: "string \<Rightarrow> capture \<Rightarrow> capture" where
  "record_unsupported code c =
     c\<lparr>cap_values := AList.delete code (cap_values c), cap_errors := AList.delete code (cap_errors c),
       cap_states := AList.update code ''unsupported'' (cap_states c)\<rparr>"

text \<open>\<open>None\<close> where the code raises \<open>KeyError\<close>.\<close>

definition source_state :: "capture \<Rightarrow> string \<Rightarrow> string option" where
  "source_state c code =
     (if map_of (cap_errors c) code \<noteq> None then Some ''failed''
      else (case map_of (cap_states c) code of
              Some s \<Rightarrow> Some s
            | None \<Rightarrow> if map_of (cap_values c) code \<noteq> None then Some ''available'' else None))"

definition set_value :: "string \<Rightarrow> captured \<Rightarrow> capture \<Rightarrow> capture" where
  "set_value code v c = c\<lparr>cap_values := AList.update code v (cap_values c)\<rparr>"

definition capture_read :: "string \<Rightarrow> (fault, captured) result \<Rightarrow> capture \<Rightarrow> capture" where
  "capture_read code r c =
     (case r of
        Inl f \<Rightarrow> record_error code (error_kind f) c
      | Inr v \<Rightarrow> (set_value code v c)
          \<lparr>cap_errors := AList.delete code (cap_errors c), cap_states := AList.update code ''available'' (cap_states c)\<rparr>)"

text \<open>\<open>re.sub(r"[^a-zA-Z0-9]+", "_", source)\<close>.\<close>

fun squash :: "string \<Rightarrow> string" where
  "squash [] = []"
| "squash (c # cs) = (if is_alnum c then c # squash cs else if (case cs of [] \<Rightarrow> False | d # _ \<Rightarrow> \<not> is_alnum d) then squash cs else CHR ''_'' # squash cs)"

definition source_metric_name :: "string \<Rightarrow> string" where
  "source_metric_name source =
     ''source_'' @ map lower_char (rstrip_char (CHR ''_'') (lstrip_char (CHR ''_'') (squash source))) @ ''_available''"


section \<open>Observing the host\<close>

definition got :: "('a \<Rightarrow> captured) \<Rightarrow> (fault, 'a) result \<Rightarrow> (fault, captured) result" where
  "got con r = bindR r (\<lambda>v. Inr (con v))"

definition capture_conntrack :: "collector_sources \<Rightarrow> string \<Rightarrow> capture \<Rightarrow> capture" where
  "capture_conntrack S proc c =
     (let count_path = slash proc ''sys/net/netfilter/nf_conntrack_count'';
          maximum_path = slash proc ''sys/net/netfilter/nf_conntrack_max''
      in case bindR (cs_exists S count_path) (\<lambda>a. bindR (cs_exists S maximum_path) (\<lambda>b. Inr (a, b))) of
           Inl f \<Rightarrow> record_error ''conntrack'' (error_kind f) c
         | Inr (count_exists, maximum_exists) \<Rightarrow>
             if \<not> count_exists \<and> \<not> maximum_exists then record_unsupported ''conntrack'' c
             else capture_read ''conntrack''
                    (bindR (cs_read_text S count_path) (\<lambda>a. bindR (cs_read_text S maximum_path) (\<lambda>b. Inr (Got_pair a b)))) c)"

definition interface_link :: "collector_sources \<Rightarrow> string \<Rightarrow> (fault, link_info) result" where
  "interface_link S name =
     parsed (read_interface_link (\<lambda>relative. text_option S (slash (slash (slash (cs_sys_root S) ''class/net'') name) relative)))"

definition capture_interfaces :: "collector_sources \<Rightarrow> string \<Rightarrow> capture \<Rightarrow> capture" where
  "capture_interfaces S proc c =
     (let r = bindR (cs_read_text S (slash proc ''net/dev'')) (\<lambda>t. parsed (parse_net_dev t));
          c1 = capture_read ''proc_net_dev'' (got Got_interfaces r) c
      in case r of
           Inl _ \<Rightarrow> c1
         | Inr interfaces \<Rightarrow>
             fold (\<lambda>i. capture_read (''sysfs_net:'' @ i) (got Got_link (interface_link S i))) (map fst interfaces) c1)"

definition capture_host :: "collector_sources \<Rightarrow> capture \<Rightarrow> capture" where
  "capture_host S c =
     (let proc = cs_proc_root S;
          txt = (\<lambda>p. cs_read_text S (slash proc p));
          c1 = capture_read ''proc_stat'' (got Got_cpu (bindR (txt ''stat'') (\<lambda>t. parsed (parse_proc_stat t)))) c;
          c2 = capture_read ''proc_loadavg'' (got Got_text (txt ''loadavg'')) c1;
          c3 = capture_read ''proc_meminfo'' (got Got_text (txt ''meminfo'')) c2;
          c4 = capture_interfaces S proc c3;
          c5 = capture_read ''proc_net_snmp'' (got Got_table (bindR (txt ''net/snmp'') (\<lambda>t. parsed (parse_required_protocol_table t ''Tcp'')))) c4;
          c6 = capture_read ''proc_net_netstat'' (got Got_table (bindR (txt ''net/netstat'') (\<lambda>t. parsed (parse_required_protocol_table t ''TcpExt'')))) c5;
          c7 = capture_read ''proc_diskstats'' (bindR (txt ''diskstats'') (\<lambda>t. Inr (Got_disks (parse_diskstats t)))) c6;
          c8 = capture_conntrack S proc c7
      in capture_read ''file_handles'' (bindR (txt ''sys/fs/file-nr'') (\<lambda>a. bindR (txt ''sys/fs/file-max'') (\<lambda>b. Inr (Got_pair a b)))) c8)"

definition sockets :: "collector_sources \<Rightarrow> string \<Rightarrow> (fault, captured) result" where
  "sockets S flags = got Got_sockets (bindR (command_text S [''ss'', ''-H'', flags]) (\<lambda>t. parsed (parse_ss_sockets t)))"


section \<open>Observing the services\<close>

definition SYSTEMD_PROPERTIES :: string where
  "SYSTEMD_PROPERTIES =
     ''ActiveState,SubState,MainPID,ExecMainStartTimestampMonotonic,NRestarts,TasksCurrent,MemoryCurrent,MemoryPeak,ControlGroup,IPAccounting,IPIngressBytes,IPEgressBytes''"

definition read_properties :: "collector_sources \<Rightarrow> string \<Rightarrow> (fault, (string, string) dict) result" where
  "read_properties S service =
     bindR (command_text S [''systemctl'', ''--no-pager'', ''show'', service, ''--property='' @ SYSTEMD_PROPERTIES]) (\<lambda>t.
       let properties = parse_systemd_properties t
       in if properties = [] then Inl (Os_error ''OSError'') else Inr properties)"

definition main_pid :: "(string, string) dict \<Rightarrow> (fault, int) result" where
  "main_pid properties =
     (let raw = dict_get properties ''MainPID'' [] in if isdigit raw then parsed (read_int raw) else Inr 0)"

definition cgroup_path :: "collector_sources \<Rightarrow> string list \<Rightarrow> string" where
  "cgroup_path S parts = fold (\<lambda>p base. slash base p) parts (cs_cgroup_root S)"

text \<open>What reading a file raised.\<close>

definition fault_at :: "collector_sources \<Rightarrow> string \<Rightarrow> fault" where
  "fault_at S path = (case cs_read_text S path of Inl f \<Rightarrow> f | Inr _ \<Rightarrow> Os_error ''OSError'')"

definition cgroup_pids :: "collector_sources \<Rightarrow> string \<Rightarrow> string \<Rightarrow> int \<Rightarrow> capture \<Rightarrow> (int list \<times> bool) \<times> capture" where
  "cgroup_pids S service control_group main c =
     (let source = ''cgroup_pids:'' @ service
      in if control_group = [] then (([], False), c)
         else (case read_result (fault_at S (cgroup_path S (cgroup_parts control_group @ [''cgroup.procs''])))
                      (read_cgroup_pids control_group (\<lambda>parts. text_option S (cgroup_path S parts))) of
                 Inl f \<Rightarrow> (([], False), record_error source (error_kind f) c)
               | Inr pids \<Rightarrow>
                   if pids = [] \<and> 0 < main then (([], False), record_error source ''OSError'' c)
                   else ((pids, True), set_value source (Got_pids pids) c)))"

definition process_root :: "collector_sources \<Rightarrow> int \<Rightarrow> string" where
  "process_root S p = slash (cs_proc_root S) (str_int p)"

definition fast_process :: "collector_sources \<Rightarrow> int \<Rightarrow> (fault, process_snapshot) result" where
  "fast_process S p =
     read_result (fault_at S (slash (process_root S p) ''stat''))
       (read_process_fast_snapshot (\<lambda>name. text_option S (slash (process_root S p) name)) (cs_page_size S))"

definition slow_process :: "collector_sources \<Rightarrow> int \<Rightarrow> (fault, process_slow_snapshot) result" where
  "slow_process S p =
     (let fds = cs_list_dir S (slash (process_root S p) ''fd'')
      in bindR (cs_read_text S (slash (process_root S p) ''status'')) (\<lambda>_.
         bindR (cs_read_text S (slash (process_root S p) ''limits'')) (\<lambda>_.
           read_result (case fds of Inl f \<Rightarrow> f | Inr _ \<Rightarrow> Os_error ''OSError'')
             (read_process_slow_snapshot p (\<lambda>name. text_option S (slash (process_root S p) name))
                (case fds of Inl _ \<Rightarrow> None | Inr names \<Rightarrow> Some names)))))"

definition capture_process :: "collector_sources \<Rightarrow> string \<Rightarrow> bool \<Rightarrow> int \<Rightarrow> capture \<Rightarrow> capture" where
  "capture_process S service slow_due p c =
     (let name = service @ '':'' @ str_int p;
          c1 = capture_read (''process_fast:'' @ name) (got Got_process (fast_process S p)) c
      in if slow_due then capture_read (''process_slow:'' @ name) (got Got_slow (slow_process S p)) c1 else c1)"

definition cgroup_memory :: "collector_sources \<Rightarrow> string \<Rightarrow> (fault, (string, int option) dict) result" where
  "cgroup_memory S control_group =
     (let parts = cgroup_parts control_group
      in if ''..'' \<in> set parts then Inl (Raised ''ValueError'')
         else bindR (os_text S (cgroup_path S (parts @ [''memory.current'']))) (\<lambda>current.
              bindR (parsed (cgroup_number current)) (\<lambda>_.
              bindR (os_text S (cgroup_path S (parts @ [''memory.peak'']))) (\<lambda>_.
              bindR (parsed (read_cgroup_memory control_group (\<lambda>ps. text_option S (cgroup_path S ps)))) (\<lambda>values.
                if list_all (\<lambda>v. snd v = None) values then Inl (Os_error ''OSError'') else Inr values)))))"

definition capture_service :: "collector_sources \<Rightarrow> bool \<Rightarrow> string \<Rightarrow> capture \<Rightarrow> (fault, capture) result" where
  "capture_service S slow_due service c =
     (let r = read_properties S service;
          c1 = capture_read (''systemd:'' @ service) (got Got_properties r) c
      in case r of
           Inl _ \<Rightarrow> Inr c1
         | Inr properties \<Rightarrow>
             bindR (main_pid properties) (\<lambda>main.
               let control_group = dict_get properties ''ControlGroup'' [];
                   ((found_pids, authoritative), c2) = cgroup_pids S service control_group main c1;
                   pids = (if found_pids = [] \<and> 0 < main then [main] else found_pids);
                   c3 = set_value (''process_pids:'' @ service) (Got_pid_set pids authoritative) c2;
                   c4 = fold (capture_process S service slow_due) pids c3
               in Inr (if control_group \<noteq> [] \<and> slow_due
                       then capture_read (''cgroup_memory:'' @ service) (got Got_memory (cgroup_memory S control_group)) c4 else c4)))"

fun capture_services :: "collector_sources \<Rightarrow> bool \<Rightarrow> string list \<Rightarrow> capture \<Rightarrow> (fault, capture) result" where
  "capture_services S slow_due [] c = Inr c"
| "capture_services S slow_due (service # rest) c = bindR (capture_service S slow_due service c) (capture_services S slow_due rest)"

text \<open>The class of an exception, which the discovery of tunnels reports.\<close>

definition fault_class :: "fault \<Rightarrow> string" where
  "fault_class f =
     (case f of
        Command_failed _ \<Rightarrow> ''CommandExecutionError''
      | File_missing \<Rightarrow> ''FileNotFoundError''
      | Permission_denied \<Rightarrow> ''PermissionError''
      | Os_error c \<Rightarrow> c
      | Raised c \<Rightarrow> c)"

definition env_text :: "collector_sources \<Rightarrow> env_reader" where
  "env_text S path = (case cs_read_text S path of Inl f \<Rightarrow> Inl (fault_class f) | Inr t \<Rightarrow> Inr t)"

definition capture_raw ::
  "string \<Rightarrow> string \<Rightarrow> collector_sources \<Rightarrow> bool \<Rightarrow> bool \<Rightarrow> (fault, capture \<times> tunnel list \<times> parse_event list \<times> string list) result" where
  "capture_raw db_path env_dir S full_socket_due slow_due =
     (let env_paths = cs_glob S env_dir ''*.env'';
          c1 = capture_read ''tunnel_env_directory'' (got Got_paths env_paths) Capture;
          paths = (case env_paths of Inl _ \<Rightarrow> [] | Inr ps \<Rightarrow> ps);
          (tunnels, env_events) = discover_tunnels (env_text S) (truncated (cs_wall S)) (Some paths) None;
          c2 = capture_read ''ss_listeners'' (sockets S ''-lntp'') (capture_host S c1);
          c3 = (if full_socket_due then capture_read ''ss_connections'' (sockets S ''-tanp'') c2 else c2);
          unit_paths = cs_glob S (cs_unit_root S) ''gost-*.service'';
          c4 = capture_read ''systemd_unit_directory'' (got Got_paths unit_paths) c3;
          names = map service_name tunnels @ (case unit_paths of Inl _ \<Rightarrow> [] | Inr ps \<Rightarrow> map snd ps);
          services = discover_managed_services names []
      in bindR (capture_services S slow_due services c4) (\<lambda>c5.
           let c6 = (if slow_due
                     then capture_read ''db_size_metrics'' (got Got_metrics (parsed (database_size_metrics db_path (cs_file_size S)))) c5 else c5)
           in Inr (c6, tunnels, env_events, services)))"

end
