(* ===== verification/Monitoring_Readings.thy ===== *)
theory Monitoring_Readings
  imports Monitoring_Capture
begin

text \<open>
  \<open>src/monitoring/collector.py\<close>: how a cycle turns what it captured into metrics and events of the host, the disks and the
  network. The state of a cycle is the database and the capture; a step is an action (\<open>act\<close> of the prelude), so an
  exception keeps what was stored before it. Counters of the cycle before come from \<open>collector_state\<close> as JSON.

  The lemmas: the counters that are saved are read back, a JSON value that is no such counter is ignored, the steps over the
  host, the disks and the network never raise on a state the collector wrote, and the metrics of a cycle are made unique by
  series, the best quality winning.
\<close>

section \<open>The state of a cycle\<close>

record collecting =
  cl_store :: store
  cl_capture :: capture
  cl_clock :: nat

type_synonym 'a collect = "(collecting, fault, 'a) act"

definition json_state :: "collector_sources \<Rightarrow> string \<Rightarrow> json option collect" where
  "json_state S key = gets (\<lambda>s. get_json_state (cs_loads S) (metrics_db.truncate (cl_store s)) key)"

definition set_text :: "string \<Rightarrow> string \<Rightarrow> store \<Rightarrow> store" where
  "set_text key v db = db\<lparr>collector_state := AList.update key v (collector_state db)\<rparr>"

definition text_of :: "store \<Rightarrow> string \<Rightarrow> string option" where
  "text_of db key = map_of (collector_state db) key"

definition text_state :: "string \<Rightarrow> string option collect" where
  "text_state key = gets (\<lambda>s. text_of (cl_store s) key)"

definition on_store :: "(store \<Rightarrow> store) \<Rightarrow> unit collect" where
  "on_store f = modify (\<lambda>s. s\<lparr>cl_store := f (cl_store s)\<rparr>)"

definition save_text :: "string \<Rightarrow> string \<Rightarrow> unit collect" where
  "save_text key v = on_store (set_text key v)"

definition save_json :: "collector_sources \<Rightarrow> string \<Rightarrow> json \<Rightarrow> unit collect" where
  "save_json S key v = save_text key (cs_dumps S v)"

definition emits :: "(metrics_db \<Rightarrow> json_event list \<times> metrics_db) \<Rightarrow> json_event list collect" where
  "emits f = (\<lambda>s. case lift_db f (cl_store s) of (es, db) \<Rightarrow> (Inr es, s\<lparr>cl_store := db\<rparr>))"

definition on_capture :: "(capture \<Rightarrow> capture) \<Rightarrow> unit collect" where
  "on_capture f = modify (\<lambda>s. s\<lparr>cl_capture := f (cl_capture s)\<rparr>)"

definition captured_value :: "string \<Rightarrow> captured option collect" where
  "captured_value code = gets (\<lambda>s. map_of (cap_values (cl_capture s)) code)"

text \<open>\<open>clock.monotonic()\<close>: the answers are numbered.\<close>

definition read_clock :: "collector_sources \<Rightarrow> real collect" where
  "read_clock S = (\<lambda>s. (Inr (cs_monotonic S (cl_clock s)), s\<lparr>cl_clock := Suc (cl_clock s)\<rparr>))"

text \<open>The metrics and the events of the items of a list, one item after the other.\<close>

type_synonym reading = "metric list \<times> json_event list"

fun gather :: "'x list \<Rightarrow> ('x \<Rightarrow> reading collect) \<Rightarrow> reading collect" where
  "gather [] f = ret ([], [])"
| "gather (x # xs) f = bindE (f x) (\<lambda>(ms, es). bindE (gather xs f) (\<lambda>(ms', es'). ret (ms @ ms', es @ es')))"

definition unavailable_metrics ::
  "string \<Rightarrow> (string \<times> string) list \<Rightarrow> string \<Rightarrow> string \<Rightarrow> (string, string) dict \<Rightarrow> metric list" where
  "unavailable_metrics scope names etype eid labels =
     map (\<lambda>(name, un). Metric scope name None un ''unavailable'' labels etype eid) names"

definition timed_state :: "collector_sources \<Rightarrow> string \<Rightarrow> (real option \<times> json option) collect" where
  "timed_state S key =
     bindE (json_state S key) (\<lambda>state. ret
       (case state of
          Some (JObject d) \<Rightarrow> (Option.bind (map_of d ''monotonic'') number_of, map_of d ''value'')
        | _ \<Rightarrow> (None, None)))"

definition save_timed_state :: "collector_sources \<Rightarrow> string \<Rightarrow> real \<Rightarrow> json \<Rightarrow> unit collect" where
  "save_timed_state S key monotonic v = save_json S key (JObject [(''monotonic'', JNumber monotonic), (''value'', v)])"

definition elapsed_since :: "real \<Rightarrow> real option \<Rightarrow> real option" where
  "elapsed_since monotonic previous = map_option (\<lambda>p. monotonic - p) previous"

text \<open>\<open>"counter_reset"\<close> becomes \<open>"Counter reset"\<close>.\<close>

definition capitalized :: "string \<Rightarrow> string" where
  "capitalized code =
     (case map (\<lambda>c. if c = CHR ''_'' then CHR '' '' else c) code of [] \<Rightarrow> [] | c # cs \<Rightarrow> upper_char c # map lower_char cs)"

definition record_flag_event ::
  "collector_sources \<Rightarrow> string \<Rightarrow> bool \<Rightarrow> int \<Rightarrow> string \<Rightarrow> (string, json) dict \<Rightarrow> json_event list collect" where
  "record_flag_event S key active t code details =
     emits (edge (cs_loads S) (cs_dumps S) key active t code (capitalized code) details ''warning'')"

text \<open>The two events every source of counters can give.\<close>

definition counter_events ::
  "collector_sources \<Rightarrow> string \<Rightarrow> metric list \<Rightarrow> int \<Rightarrow> (string, json) dict \<Rightarrow> json_event list collect" where
  "counter_events S key ms t details =
     bindE (record_flag_event S (key @ ''.reset'') (list_ex m_reset ms) t ''counter_reset'' details) (\<lambda>resets.
     bindE (record_flag_event S (key @ ''.gap'') (list_ex m_gap ms) t ''sampling_gap'' details) (\<lambda>gaps.
       ret (resets @ gaps)))"


section \<open>Counters as JSON\<close>

text \<open>\<open>int\<close> of a JSON value. A whole number and the float equal to it are not told apart.\<close>

definition json_int :: "json \<Rightarrow> (fault, int) result" where
  "json_int v =
     (case v of
        JNumber x \<Rightarrow> Inr (truncated x)
      | JBool b \<Rightarrow> Inr (if b then 1 else 0)
      | JString s \<Rightarrow> (case text_int s of None \<Rightarrow> Inl (Raised ''ValueError'') | Some i \<Rightarrow> Inr i)
      | _ \<Rightarrow> Inl (Raised ''TypeError''))"

definition int_of :: "json \<Rightarrow> int option" where
  "int_of v = (case json_int v of Inl _ \<Rightarrow> None | Inr i \<Rightarrow> Some i)"

abbreviation JInt :: "int \<Rightarrow> json" where
  "JInt i \<equiv> JNumber (of_int i)"

text \<open>The keyword arguments of a constructor: exactly its fields, every one a number.\<close>

definition json_ints :: "string list \<Rightarrow> (string, json) dict \<Rightarrow> int list option" where
  "json_ints keys d =
     (if set (map fst d) = set keys then those (map (\<lambda>k. Option.bind (map_of d k) int_of) keys) else None)"

definition named_ints :: "(json \<Rightarrow> string) \<Rightarrow> string list \<Rightarrow> (string, json) dict \<Rightarrow> (string \<times> int list) option" where
  "named_ints to_str keys d =
     (case map_of d ''name'' of
        None \<Rightarrow> None
      | Some n \<Rightarrow> map_option (\<lambda>ns. (str_json to_str n, ns)) (json_ints keys (AList.delete ''name'' d)))"

definition CPU_KEYS :: "string list" where
  "CPU_KEYS = [''user'', ''nice'', ''system'', ''idle'', ''iowait'', ''irq'', ''softirq'', ''steal'', ''logical_cpus'']"

definition cpu_from_state :: "json option \<Rightarrow> cpu_counters option" where
  "cpu_from_state v =
     (case v of
        Some (JObject d) \<Rightarrow>
          map_option (\<lambda>ns. \<lparr>user = ns ! 0, nice = ns ! 1, system_time = ns ! 2, idle = ns ! 3, iowait = ns ! 4, irq = ns ! 5,
                            softirq = ns ! 6, steal = ns ! 7, logical_cpus = ns ! 8\<rparr>) (json_ints CPU_KEYS d)
      | _ \<Rightarrow> None)"

definition cpu_json :: "cpu_counters \<Rightarrow> json" where
  "cpu_json c =
     JObject (zip CPU_KEYS (map JInt [user c, nice c, system_time c, idle c, iowait c, irq c, softirq c, steal c, logical_cpus c]))"

definition INTERFACE_KEYS :: "string list" where
  "INTERFACE_KEYS = [''rx_bytes'', ''rx_packets'', ''rx_errors'', ''rx_drops'', ''tx_bytes'', ''tx_packets'', ''tx_errors'', ''tx_drops'']"

definition interface_from :: "(json \<Rightarrow> string) \<Rightarrow> json \<Rightarrow> interface_counters option" where
  "interface_from to_str v =
     (case v of
        JObject d \<Rightarrow>
          map_option (\<lambda>(n, ns). \<lparr>if_name = n, rx_bytes = ns ! 0, rx_packets = ns ! 1, rx_errors = ns ! 2, rx_drops = ns ! 3,
                                 tx_bytes = ns ! 4, tx_packets = ns ! 5, tx_errors = ns ! 6, tx_drops = ns ! 7\<rparr>)
            (named_ints to_str INTERFACE_KEYS d)
      | _ \<Rightarrow> None)"

text \<open>A dict of counters: the entries that are none are left out.\<close>

definition counters_from_state :: "(json \<Rightarrow> 'c option) \<Rightarrow> json option \<Rightarrow> (string, 'c) dict" where
  "counters_from_state con v =
     (case v of
        Some (JObject d) \<Rightarrow> List.map_filter (\<lambda>(n, raw). map_option (\<lambda>c. (n, c)) (con raw)) d
      | _ \<Rightarrow> [])"

definition interfaces_from_state :: "(json \<Rightarrow> string) \<Rightarrow> json option \<Rightarrow> (string, interface_counters) dict" where
  "interfaces_from_state to_str v = counters_from_state (interface_from to_str) v"

definition interface_json :: "interface_counters \<Rightarrow> json" where
  "interface_json i =
     JObject ((''name'', JString (if_name i)) #
       zip INTERFACE_KEYS (map JInt [rx_bytes i, rx_packets i, rx_errors i, rx_drops i, tx_bytes i, tx_packets i, tx_errors i, tx_drops i]))"

definition DISK_KEYS :: "string list" where
  "DISK_KEYS = [''major'', ''minor'', ''reads_completed'', ''sectors_read'', ''writes_completed'', ''sectors_written'', ''io_ms'']"

definition disk_from :: "(json \<Rightarrow> string) \<Rightarrow> json \<Rightarrow> disk_counters option" where
  "disk_from to_str v =
     (case v of
        JObject d \<Rightarrow>
          map_option (\<lambda>(n, ns). \<lparr>major = ns ! 0, minor = ns ! 1, dk_name = n, reads_completed = ns ! 2, sectors_read = ns ! 3,
                                 writes_completed = ns ! 4, sectors_written = ns ! 5, io_ms = ns ! 6\<rparr>)
            (named_ints to_str DISK_KEYS d)
      | _ \<Rightarrow> None)"

definition disks_from_state :: "(json \<Rightarrow> string) \<Rightarrow> json option \<Rightarrow> (string, disk_counters) dict" where
  "disks_from_state to_str v = counters_from_state (disk_from to_str) v"

definition disk_json :: "disk_counters \<Rightarrow> json" where
  "disk_json d =
     JObject ((''name'', JString (dk_name d)) #
       zip DISK_KEYS (map JInt [major d, minor d, reads_completed d, sectors_read d, writes_completed d, sectors_written d, io_ms d]))"


section \<open>One metric for each series\<close>

definition deduplicate_metrics :: "metric list \<Rightarrow> metric list" where
  "deduplicate_metrics ms =
     map snd (fold (\<lambda>m unique.
       case map_of unique (metric_key m) of
         None \<Rightarrow> AList.update (metric_key m) m unique
       | Some previous \<Rightarrow>
           if quality_rank (m_quality m) \<le> quality_rank (m_quality previous) then AList.update (metric_key m) m unique else unique)
       ms [])"


section \<open>The host\<close>

definition host_unavailable :: "(string \<times> string) list \<Rightarrow> metric list" where
  "host_unavailable names = unavailable_metrics ''host'' names ''host'' ''local'' []"

definition CPU_UNAVAILABLE :: "(string \<times> string) list" where
  "CPU_UNAVAILABLE =
     map (\<lambda>f. (''cpu_'' @ fst f @ ''_jiffies'', ''jiffies'')) cpu_fields
     @ map (\<lambda>f. (''cpu_'' @ fst f @ ''_percent'', ''percent'')) cpu_fields
     @ [(''cpu_jiffies_total'', ''jiffies''), (''cpu_utilization_percent'', ''percent''), (''cpu_logical_count'', ''count'')]"

definition cpu_reading :: "collector_sources \<Rightarrow> collector_config \<Rightarrow> real \<Rightarrow> int \<Rightarrow> reading collect" where
  "cpu_reading S cfg monotonic t =
     bindE (captured_value ''proc_stat'') (\<lambda>v.
     bindE (timed_state S ''counter.cpu'') (\<lambda>(previous_mono, previous_raw).
       case v of
         Some (Got_cpu cpu) \<Rightarrow>
           bindE (liftR (parsed (cpu_metrics cpu (cpu_from_state previous_raw) (elapsed_since monotonic previous_mono) (Some (max_gap cfg)))))
             (\<lambda>ms.
           bindE (counter_events S ''cpu'' ms t [(''source'', JString ''proc_stat''), (''entity'', JString ''host'')]) (\<lambda>es.
             seqE (save_timed_state S ''counter.cpu'' monotonic (cpu_json cpu)) (ret (ms, es))))
       | _ \<Rightarrow> ret (host_unavailable CPU_UNAVAILABLE, [])))"

text \<open>The metrics of a text, or their absence when it has none: the error is recorded under the source.\<close>

definition metrics_or_error :: "string \<Rightarrow> (reader_exn \<Rightarrow> string) \<Rightarrow> (reader_exn, metric list) result \<Rightarrow> metric list \<Rightarrow> metric list collect" where
  "metrics_or_error code kind r fallback =
     (case r of
        Inr ms \<Rightarrow> ret ms
      | Inl e \<Rightarrow> seqE (on_capture (record_error code (kind e))) (ret fallback))"

definition exn_kind :: "reader_exn \<Rightarrow> string" where
  "exn_kind e = error_kind (reader_fault (Os_error ''OSError'') e)"

definition load_reading :: "collector_sources \<Rightarrow> metric list collect" where
  "load_reading S =
     (let missing = host_unavailable [(''load1'', ''load''), (''load5'', ''load''), (''load15'', ''load'')]
      in bindE (captured_value ''proc_loadavg'') (\<lambda>v.
           case v of
             Some (Got_text t) \<Rightarrow> metrics_or_error ''proc_loadavg'' exn_kind (load_metrics (cs_float S) t) missing
           | _ \<Rightarrow> ret missing))"

definition MEMORY_UNAVAILABLE :: "string list" where
  "MEMORY_UNAVAILABLE =
     [''memory_total_bytes'', ''memory_available_bytes'', ''memory_used_bytes'', ''memory_used_percent'', ''memory_buffers_bytes'',
      ''memory_cache_bytes'', ''swap_total_bytes'', ''swap_free_bytes'', ''swap_used_bytes'', ''swap_used_percent'',
      ''memory_dirty_bytes'', ''memory_writeback_bytes'']"

definition memory_reading :: "metric list collect" where
  "memory_reading =
     (let missing = host_unavailable (map (\<lambda>n. (n, if ends_with n ''percent'' then ''percent'' else ''bytes'')) MEMORY_UNAVAILABLE)
      in bindE (captured_value ''proc_meminfo'') (\<lambda>v.
           case v of
             Some (Got_text t) \<Rightarrow> metrics_or_error ''proc_meminfo'' exn_kind (memory_metrics t) missing
           | _ \<Rightarrow> ret missing))"

definition conntrack_reading :: "metric list collect" where
  "conntrack_reading =
     (let missing = host_unavailable
            [(''conntrack_count'', ''count''), (''conntrack_max'', ''count''), (''conntrack_utilization_percent'', ''percent'')]
      in bindE (captured_value ''conntrack'') (\<lambda>v.
           case v of
             Some (Got_pair a b) \<Rightarrow> metrics_or_error ''conntrack'' (\<lambda>_. ''parse_error'') (conntrack_metrics a b) missing
           | _ \<Rightarrow> ret missing))"

definition file_handle_reading :: "metric list collect" where
  "file_handle_reading =
     (let missing = host_unavailable
            [(''file_handles_allocated'', ''count''), (''file_handles_max'', ''count''), (''file_handles_utilization_percent'', ''percent'')]
      in bindE (captured_value ''file_handles'') (\<lambda>v.
           case v of
             Some (Got_pair a b) \<Rightarrow> metrics_or_error ''file_handles'' exn_kind (file_handle_metrics a b) missing
           | _ \<Rightarrow> ret missing))"

definition host_metrics :: "collector_sources \<Rightarrow> collector_config \<Rightarrow> real \<Rightarrow> int \<Rightarrow> reading collect" where
  "host_metrics S cfg monotonic t =
     bindE (cpu_reading S cfg monotonic t) (\<lambda>(cpu, es).
     bindE (load_reading S) (\<lambda>load.
     bindE memory_reading (\<lambda>memory.
     bindE conntrack_reading (\<lambda>conntrack.
     bindE file_handle_reading (\<lambda>handles.
       ret (cpu @ load @ memory @ conntrack @ handles, es))))))"


section \<open>The network\<close>

definition NO_LINK :: link_info where
  "NO_LINK = \<lparr>link_state = None, link_up = None, link_mtu = None, link_speed = None\<rparr>"

definition interface_reading ::
  "collector_sources \<Rightarrow> collector_config \<Rightarrow> (string, interface_counters) dict \<Rightarrow> real option \<Rightarrow> int \<Rightarrow> string \<times> interface_counters
     \<Rightarrow> reading collect" where
  "interface_reading S cfg previous elapsed t entry =
     (case entry of (name, counters) \<Rightarrow>
        bindE (captured_value (''sysfs_net:'' @ name)) (\<lambda>link_raw.
          let link = (case link_raw of Some (Got_link l) \<Rightarrow> l | _ \<Rightarrow> NO_LINK)
          in bindE (liftR (parsed (interface_metrics counters (map_of previous name) elapsed (Some link) (Some (max_gap cfg))))) (\<lambda>ms.
             bindE (counter_events S (''interface.'' @ name) ms t
                      [(''source'', JString ''proc_net_dev''), (''interface'', JString name)]) (\<lambda>es. ret (ms, es)))))"

definition INTERFACE_UNAVAILABLE :: "(string \<times> string) list" where
  "INTERFACE_UNAVAILABLE =
     concat (map (\<lambda>f. [(f, if has_sub ''bytes'' f then ''bytes'' else ''packets''),
                       (f @ ''_per_second'', if has_sub ''bytes'' f then ''B/s'' else ''pps'')]) INTERFACE_KEYS)"

definition interfaces_reading :: "collector_sources \<Rightarrow> collector_config \<Rightarrow> real \<Rightarrow> int \<Rightarrow> reading collect" where
  "interfaces_reading S cfg monotonic t =
     bindE (captured_value ''proc_net_dev'') (\<lambda>v.
     bindE (timed_state S ''counter.interfaces'') (\<lambda>(previous_mono, previous_raw).
       case v of
         Some (Got_interfaces current) \<Rightarrow>
           let previous = interfaces_from_state (cs_str S) previous_raw;
               elapsed = elapsed_since monotonic previous_mono
           in bindE (emits (set_transitions (cs_loads S) (cs_dumps S) (cs_str S) ''interfaces'' (map fst current) t
                              ''interface_added'' ''interface_removed'' ''interface'')) (\<lambda>changes.
              bindE (gather (sort_key fst current) (interface_reading S cfg previous elapsed t)) (\<lambda>(ms, es).
              bindE (liftR (parsed (interface_metrics (aggregate_external current)
                              (if previous = [] then None else Some (aggregate_external previous)) elapsed None (Some (max_gap cfg))))) (\<lambda>whole.
                seqE (save_timed_state S ''counter.interfaces'' monotonic (JObject (map (\<lambda>(n, c). (n, interface_json c)) current)))
                  (ret (ms @ whole, changes @ es)))))
       | _ \<Rightarrow>
           ret (unavailable_metrics ''net.external'' INTERFACE_UNAVAILABLE ''interface'' ''interface:external-total''
                  [(''interface'', ''external-total'')], [])))"

definition table_of :: "captured option \<Rightarrow> protocol_table" where
  "table_of v = (case v of Some (Got_table t) \<Rightarrow> t | _ \<Rightarrow> [])"

definition previous_tcp :: "json option \<Rightarrow> (fault, (string, int) dict option) result" where
  "previous_tcp v =
     (case v of
        Some (JObject d) \<Rightarrow> bindR (mapR (\<lambda>(k, x). bindR (json_int x) (\<lambda>i. Inr (k, i))) d) (\<lambda>kvs. Inr (Some kvs))
      | _ \<Rightarrow> Inr None)"

definition missing_tcp_metrics :: "(string, int) dict \<Rightarrow> metric list" where
  "missing_tcp_metrics current =
     concat (map (\<lambda>name.
       Metric ''tcp'' name None ''count'' ''unavailable'' [] ''host'' ''local'' #
       (if name = ''tcp_current_established'' then []
        else [Metric ''tcp'' (name @ ''_per_second'') None ''events/s'' ''unavailable'' [] ''host'' ''local'']))
       (sort (filter (\<lambda>n. map_of current n = None) (map snd TCP_COUNTERS @ map snd TCPEXT_COUNTERS))))"

definition tcp_reading :: "collector_sources \<Rightarrow> collector_config \<Rightarrow> real \<Rightarrow> int \<Rightarrow> reading collect" where
  "tcp_reading S cfg monotonic t =
     bindE (captured_value ''proc_net_snmp'') (\<lambda>snmp.
     bindE (captured_value ''proc_net_netstat'') (\<lambda>netstat.
       let current = selected_tcp_counters_from_tables (table_of snmp) (table_of netstat)
       in bindE (timed_state S ''counter.tcp'') (\<lambda>(tcp_mono, tcp_raw).
          bindE (liftR (previous_tcp tcp_raw)) (\<lambda>previous.
          bindE (liftR (parsed (tcp_counter_metrics current previous (elapsed_since monotonic tcp_mono) (Some (max_gap cfg))))) (\<lambda>counted.
            let ms = counted @ missing_tcp_metrics current
            in seqE (whenE (current \<noteq> []) (save_timed_state S ''counter.tcp'' monotonic (JObject (map (\<lambda>(k, i). (k, JInt i)) current))))
               (bindE (counter_events S ''tcp'' ms t [(''source'', JString ''tcp''), (''entity'', JString ''host'')]) (\<lambda>es.
                  ret (ms, es)))))))) "

definition state_metric_name :: "string \<Rightarrow> string" where
  "state_metric_name state = ''tcp_state_'' @ map (\<lambda>c. if c = CHR ''-'' then CHR ''_'' else lower_char c) state"

definition tcp_state_reading :: "int \<Rightarrow> metric list collect" where
  "tcp_state_reading t =
     (let host = (\<lambda>name v q. Metric ''tcp'' name (map_option VInt v) ''count'' q [] ''host'' ''local'');
          orphan = host ''tcp_state_orphan'' None ''unavailable''
      in bindE (captured_value ''ss_connections'') (\<lambda>v.
           case v of
             Some (Got_sockets records) \<Rightarrow>
               let counts = tcp_state_counts records
               in seqE (save_text ''tcp_snapshot_last_success_ts'' (str_int t))
                    (ret (map (\<lambda>st. host (state_metric_name st) (Some (dict_get counts st 0)) ''exact'') TCP_SOCKET_STATES @ [orphan]))
           | _ \<Rightarrow> ret (map (\<lambda>st. host (state_metric_name st) None ''unavailable'') TCP_SOCKET_STATES @ [orphan])))"

definition network_metrics :: "collector_sources \<Rightarrow> collector_config \<Rightarrow> real \<Rightarrow> int \<Rightarrow> bool \<Rightarrow> reading collect" where
  "network_metrics S cfg monotonic t full_socket_due =
     bindE (interfaces_reading S cfg monotonic t) (\<lambda>(interfaces, es1).
     bindE (tcp_reading S cfg monotonic t) (\<lambda>(tcp, es2).
     bindE (if full_socket_due then tcp_state_reading t else ret []) (\<lambda>states.
       ret (interfaces @ tcp @ states, es1 @ es2))))"


section \<open>File systems and disks\<close>

definition FILESYSTEM_UNAVAILABLE :: "(string \<times> string) list" where
  "FILESYSTEM_UNAVAILABLE =
     [(''filesystem_total_bytes'', ''bytes''), (''filesystem_used_bytes'', ''bytes''), (''filesystem_free_bytes'', ''bytes''),
      (''filesystem_available_bytes'', ''bytes''), (''filesystem_used_percent'', ''percent''), (''filesystem_inode_total'', ''count''),
      (''filesystem_inode_used'', ''count''), (''filesystem_inode_free'', ''count''), (''filesystem_inode_available'', ''count''),
      (''filesystem_inode_used_percent'', ''percent'')]"

definition filesystem_reading :: "collector_sources \<Rightarrow> int \<Rightarrow> string \<Rightarrow> reading collect" where
  "filesystem_reading S t path =
     (let source = ''filesystem:'' @ path;
          available = (\<lambda>b. emits (availability (cs_loads S) (cs_dumps S) source b t))
      in case filesystem_metrics path (cs_statvfs S) of
           Inr ms \<Rightarrow> seqE (on_capture (set_value source Got_true)) (bindE (available True) (\<lambda>es. ret (ms, es)))
         | Inl _ \<Rightarrow>
             seqE (on_capture (record_error source ''statvfs_failure''))
               (bindE (available False) (\<lambda>es.
                  ret (unavailable_metrics ''fs'' FILESYSTEM_UNAVAILABLE ''filesystem'' (''fs:'' @ path) [(''path'', path)], es))))"

definition disk_reading ::
  "collector_sources \<Rightarrow> collector_config \<Rightarrow> (string, disk_counters) dict \<Rightarrow> real option \<Rightarrow> int \<Rightarrow> string \<times> disk_counters \<Rightarrow> reading collect" where
  "disk_reading S cfg previous elapsed t entry =
     (case entry of (name, disk) \<Rightarrow>
        bindE (liftR (parsed (disk_metrics disk (map_of previous name) elapsed (Some (max_gap cfg))))) (\<lambda>ms.
        bindE (counter_events S (''disk.'' @ name) ms t [(''source'', JString ''diskstats''), (''device'', JString name)]) (\<lambda>es.
          ret (ms, es))))"

definition disks_reading :: "collector_sources \<Rightarrow> collector_config \<Rightarrow> real \<Rightarrow> int \<Rightarrow> reading collect" where
  "disks_reading S cfg monotonic t =
     bindE (captured_value ''proc_diskstats'') (\<lambda>v.
     bindE (timed_state S ''counter.disks'') (\<lambda>(previous_mono, previous_raw).
       case v of
         Some (Got_disks current) \<Rightarrow>
           bindE (gather (sort_key fst current)
                    (disk_reading S cfg (disks_from_state (cs_str S) previous_raw) (elapsed_since monotonic previous_mono) t)) (\<lambda>(ms, es).
             seqE (save_timed_state S ''counter.disks'' monotonic (JObject (map (\<lambda>(n, d). (n, disk_json d)) current))) (ret (ms, es)))
       | _ \<Rightarrow> ret ([], [])))"

definition storage_metrics :: "collector_sources \<Rightarrow> collector_config \<Rightarrow> real \<Rightarrow> int \<Rightarrow> bool \<Rightarrow> reading collect" where
  "storage_metrics S cfg monotonic t slow_due =
     bindE (if slow_due
            then bindE (gather (cc_paths cfg) (filesystem_reading S t)) (\<lambda>(ms, es).
                 bindE (captured_value ''db_size_metrics'') (\<lambda>v.
                   ret (ms @ (case v of Some (Got_metrics sizes) \<Rightarrow> sizes | _ \<Rightarrow> []), es)))
            else ret ([], [])) (\<lambda>(files, es1).
     bindE (disks_reading S cfg monotonic t) (\<lambda>(disks, es2).
       ret (files @ disks, es1 @ es2)))"

section \<open>What a step keeps\<close>

text \<open>From any database with \<open>J\<close> a step leaves one with \<open>J\<close>, its value satisfies \<open>Q\<close>, and it raises only where \<open>X\<close> allows it. The
  capture may hold metrics of its own, the sizes of the database, which stay honest; every source it lists has one of the three
  states.\<close>

definition sound_capture :: "capture \<Rightarrow> bool" where
  "sound_capture c \<longleftrightarrow>
     (case map_of (cap_values c) ''db_size_metrics'' of Some (Got_metrics ms) \<Rightarrow> list_all honest ms | _ \<Rightarrow> True)
     \<and> list_all (\<lambda>s. snd s \<in> set OPTIONAL_STATES) (cap_states c)"

lemma list_all_update: "list_all P xs \<Longrightarrow> P (k, v) \<Longrightarrow> list_all P (AList.update k v xs)"
  by (induction xs) auto

lemma sound_record_error [simp]: "sound_capture c \<Longrightarrow> sound_capture (record_error code kind c)"
  by (auto simp: sound_capture_def record_error_def OPTIONAL_STATES_def intro!: list_all_update)

lemma sound_record_unsupported [simp]: "sound_capture c \<Longrightarrow> sound_capture (record_unsupported code c)"
  by (auto simp: sound_capture_def record_unsupported_def OPTIONAL_STATES_def delete_conv' intro!: list_all_update split: option.splits)

lemma sound_set_value: "sound_capture c \<Longrightarrow> (case v of Got_metrics ms \<Rightarrow> list_all honest ms | _ \<Rightarrow> True) \<Longrightarrow> sound_capture (set_value code v c)"
  by (simp add: sound_capture_def set_value_def update_conv')

lemma sound_capture_read:
  "sound_capture c \<Longrightarrow> (case r of Inr (Got_metrics ms) \<Rightarrow> list_all honest ms | _ \<Rightarrow> True) \<Longrightarrow> sound_capture (capture_read code r c)"
  by (auto simp: capture_read_def sound_capture_def set_value_def update_conv' record_error_def OPTIONAL_STATES_def
      intro!: list_all_update split: sum.splits)

definition holds :: "(store \<Rightarrow> bool) \<Rightarrow> collecting \<Rightarrow> bool" where
  "holds J s \<longleftrightarrow> J (cl_store s) \<and> sound_capture (cl_capture s)"

definition runs :: "(store \<Rightarrow> bool) \<Rightarrow> bool \<Rightarrow> ('a \<Rightarrow> bool) \<Rightarrow> 'a collect \<Rightarrow> bool" where
  "runs J X Q m \<longleftrightarrow> (\<forall>s. holds J s \<longrightarrow> wp m (\<lambda>x s'. holds J s' \<and> Q x) (\<lambda>_ s'. X \<and> holds J s') s)"

named_theorems run_rules \<open>the rules of \<open>runs\<close> for the building blocks of a step\<close>

lemma runs_ret [run_rules]: "Q x \<Longrightarrow> runs J X Q (ret x)"
  by (simp add: runs_def wp_ret)

lemma runs_bind: "runs J X P m \<Longrightarrow> (\<And>x. P x \<Longrightarrow> runs J X Q (f x)) \<Longrightarrow> runs J X Q (bindE m f)"
  by (fastforce simp: runs_def wp_bindE elim!: wp_weaken)

lemma runs_seq: "runs J X P m \<Longrightarrow> runs J X Q n \<Longrightarrow> runs J X Q (seqE m n)"
  unfolding seqE_def by (rule runs_bind)

lemma runs_weaken: "runs J X P m \<Longrightarrow> (\<And>x. P x \<Longrightarrow> Q x) \<Longrightarrow> runs J X Q m"
  by (fastforce simp: runs_def elim!: wp_weaken)

lemma runs_may_raise: "runs J False Q m \<Longrightarrow> runs J X Q m"
  by (fastforce simp: runs_def elim!: wp_weaken)

lemma runs_gets [run_rules]: "(\<And>s. Q (f s)) \<Longrightarrow> runs J X Q (gets f)"
  by (simp add: runs_def wp_gets)

lemma runs_liftR: "(case r of Inl _ \<Rightarrow> X | Inr x \<Rightarrow> Q x) \<Longrightarrow> runs J X Q (liftR r)"
  by (simp add: runs_def wp_liftR split: sum.splits)

lemma runs_raise: "X \<Longrightarrow> runs J X Q (raise f)"
  by (simp add: runs_def wp_raise)

lemma runs_on_store: "(\<And>db. J db \<Longrightarrow> J (f db)) \<Longrightarrow> runs J X (\<lambda>_. True) (on_store f)"
  by (simp add: runs_def on_store_def wp_modify holds_def)

lemma runs_on_capture: "(\<And>c. sound_capture c \<Longrightarrow> sound_capture (f c)) \<Longrightarrow> runs J X (\<lambda>_. True) (on_capture f)"
  by (simp add: runs_def on_capture_def wp_modify holds_def)

lemma runs_record_error [run_rules]: "runs J X (\<lambda>_. True) (on_capture (record_error code kind))"
  and runs_set_true [run_rules]: "runs J X (\<lambda>_. True) (on_capture (set_value code Got_true))"
  by (rule runs_on_capture; simp add: sound_set_value)+

lemma runs_captured [run_rules]: "runs J X (\<lambda>_. True) (captured_value code)"
  and runs_json_state [run_rules]: "runs J X (\<lambda>_. True) (json_state S key)"
  and runs_text_state [run_rules]: "runs J X (\<lambda>_. True) (text_state key)"
  by (simp_all add: captured_value_def json_state_def text_state_def runs_gets)

lemma runs_read_clock [run_rules]: "runs J X (\<lambda>_. True) (read_clock S)"
  by (simp add: runs_def wp_def read_clock_def holds_def)

lemma runs_timed_state [run_rules]: "runs J X (\<lambda>_. True) (timed_state S key)"
  unfolding timed_state_def by (rule runs_bind [OF runs_json_state]) (simp add: runs_ret)

lemma runs_handle: "runs J True Q m \<Longrightarrow> (\<And>f. runs J X Q (h f)) \<Longrightarrow> runs J X Q (handle m h)"
  by (fastforce simp: runs_def wp_handle elim!: wp_weaken)

lemma runs_whenE: "runs J X (\<lambda>_. True) m \<Longrightarrow> runs J X (\<lambda>_. True) (whenE b m)"
  by (simp add: whenE_def runs_ret)

text \<open>A reading whose metrics are all honest.\<close>

definition honest_metrics_of :: "reading \<Rightarrow> bool" where
  "honest_metrics_of r \<longleftrightarrow> list_all honest (fst r)"

lemma honest_metrics_of_pair [simp]: "honest_metrics_of (ms, es) \<longleftrightarrow> list_all honest ms"
  by (simp add: honest_metrics_of_def)

lemma runs_gather:
  "(\<And>x. x \<in> set xs \<Longrightarrow> runs J X honest_metrics_of (f x)) \<Longrightarrow> runs J X honest_metrics_of (gather xs f)"
proof (induction xs)
  case Nil
  show ?case by (simp add: runs_ret)
next
  case (Cons x xs)
  have "runs J X honest_metrics_of (case r of (ms, es) \<Rightarrow> bindE (gather xs f) (\<lambda>(ms', es'). ret (ms @ ms', es @ es')))"
    if "honest_metrics_of r" for r
    using that by (cases r) (auto intro!: runs_bind [OF Cons.IH] runs_ret simp: Cons.prems)
  then show ?case using Cons.prems by (auto intro: runs_bind [of J X honest_metrics_of "f x"])
qed

lemma unavailable_honest [simp]: "list_all honest (unavailable_metrics scope names etype eid labels)"
  by (auto simp: unavailable_metrics_def honest_Metric list_all_iff)

lemma host_unavailable_honest [simp]: "list_all honest (host_unavailable names)"
  by (simp add: host_unavailable_def)

lemma parsed_total: "(\<exists>ms. r = Inr ms \<and> P ms) \<Longrightarrow> runs J X P (liftR (parsed r))"
  by (auto simp: read_result_def intro: runs_liftR)

lemma lift_db_set_json:
  "lift_db (\<lambda>d. (es d, set_json_state dumps key v d)) db = (es (metrics_db.truncate db), set_text key (dumps v) db)"
  by (simp add: lift_db_def set_json_state_def set_state_def set_text_def metrics_db.defs)

text \<open>The keys of \<open>collector_state\<close> that no reading writes.\<close>

definition PROTECTED_KEYS :: "string list" where
  "PROTECTED_KEYS =
     [''tcp_snapshot_last_attempt_ts'', ''tcp_snapshot_last_ts'', ''slow_sources_last_attempt_ts'', ''counter.overrun_count'',
      ''counter.source_errors_total'', ''event.source.conntrack'', ''event.cycle_health'', ''last_successful_cycle_timestamp'']"

text \<open>What the readings rely on: a property of the database that storing a text under another key keeps.\<close>

locale stored_state =
  fixes J :: "store \<Rightarrow> bool"
  assumes keeps_text: "J db \<Longrightarrow> k \<notin> set PROTECTED_KEYS \<Longrightarrow> J (set_text k v db)"
begin

lemma save_text: "k \<notin> set PROTECTED_KEYS \<Longrightarrow> runs J X (\<lambda>_. True) (save_text k v)"
  unfolding save_text_def by (rule runs_on_store) (rule keeps_text)

lemma save_json: "k \<notin> set PROTECTED_KEYS \<Longrightarrow> runs J X (\<lambda>_. True) (save_json S k v)"
  unfolding save_json_def by (rule save_text)

lemma save_timed: "k \<notin> set PROTECTED_KEYS \<Longrightarrow> runs J X (\<lambda>_. True) (save_timed_state S k m v)"
  unfolding save_timed_state_def by (rule save_json)

lemma emits_set:
  assumes "\<And>d. f d = (es d, set_json_state dumps k v d)" and "k \<notin> set PROTECTED_KEYS"
  shows "runs J X (\<lambda>_. True) (emits f)"
proof -
  have "f = (\<lambda>d. (es d, set_json_state dumps k v d))" using assms(1) by blast
  then show ?thesis using keeps_text [OF _ assms(2)] by (simp add: runs_def wp_def emits_def lift_db_set_json holds_def)
qed

lemma flag_event: "runs J X (\<lambda>_. True) (record_flag_event S key active t code details)"
  unfolding record_flag_event_def
  by (rule emits_set) (auto simp: edge_def Let_def PROTECTED_KEYS_def)

lemma counter_events: "runs J X (\<lambda>_. True) (counter_events S key ms t details)"
  unfolding counter_events_def by (intro runs_bind [OF flag_event] runs_ret) simp

lemma availability_event: "source \<noteq> ''conntrack'' \<Longrightarrow> runs J X (\<lambda>_. True) (emits (availability loads dumps source b t))"
  by (rule emits_set [where k = "''event.source.'' @ source"]) (auto simp: availability_def Let_def PROTECTED_KEYS_def)

lemma set_events: "runs J X (\<lambda>_. True) (emits (set_transitions loads dumps to_str key values t added removed noun))"
proof (rule emits_set [where k = "''event.set.'' @ key"])
  show "set_transitions loads dumps to_str key values t added removed noun d
      = (fst (set_transitions loads dumps to_str key values t added removed noun d),
         set_json_state dumps (''event.set.'' @ key) (JArray (map JString (sort (remdups values)))) d)" for d
    by (simp add: set_transitions_def Let_def split: option.split)
qed (simp add: PROTECTED_KEYS_def)

lemma value_event: "runs J X (\<lambda>_. True) (emits (value_transition loads dumps key v t code message details severity initial))"
  by (rule emits_set [where k = "''event.value.'' @ key"]) (auto simp: value_transition_def Let_def PROTECTED_KEYS_def)

lemma host: "runs J X honest_metrics_of (host_metrics S cfg monotonic t)"
proof -
  have cpu: "runs J X honest_metrics_of (cpu_reading S cfg monotonic t)"
    unfolding cpu_reading_def
    by (auto intro!: runs_bind [OF runs_captured] runs_bind [OF runs_timed_state] runs_ret runs_seq [OF save_timed]
        runs_bind [OF parsed_total [OF cpu_metrics_list]] runs_bind [OF counter_events] simp: PROTECTED_KEYS_def
        split: option.split captured.split)
  have texts: "runs J X (list_all honest) (metrics_or_error code kind r missing)"
    if "honest_reading r" "list_all honest missing" for code kind r missing
    using that by (auto simp: metrics_or_error_def honest_reading_def intro!: runs_ret runs_seq [OF runs_record_error] runs_seq [OF runs_set_true] split: sum.splits)
  have load: "runs J X (list_all honest) (load_reading S)"
    unfolding load_reading_def Let_def
    by (auto intro!: runs_bind [OF runs_captured] runs_ret texts load_metrics_honest split: option.split captured.split)
  have "honest_reading (memory_metrics x)" for x using memory_metrics_honest [of x] by (auto simp: honest_reading_def)
  then have memory: "runs J X (list_all honest) memory_reading"
    unfolding memory_reading_def Let_def
    by (auto intro!: runs_bind [OF runs_captured] runs_ret texts split: option.split captured.split)
  have conntrack: "runs J X (list_all honest) conntrack_reading"
    unfolding conntrack_reading_def Let_def
    by (auto intro!: runs_bind [OF runs_captured] runs_ret texts conntrack_metrics_honest split: option.split captured.split)
  have handles: "runs J X (list_all honest) file_handle_reading"
    unfolding file_handle_reading_def Let_def
    by (auto intro!: runs_bind [OF runs_captured] runs_ret texts file_handle_metrics_honest split: option.split captured.split)
  show ?thesis
    unfolding host_metrics_def
    by (auto intro!: runs_bind [OF cpu] runs_bind [OF load] runs_bind [OF memory] runs_bind [OF conntrack] runs_bind [OF handles] runs_ret)
qed

lemma interfaces: "runs J X honest_metrics_of (interfaces_reading S cfg monotonic t)"
proof -
  have one: "runs J X honest_metrics_of (interface_reading S cfg previous elapsed t entry)" for previous elapsed entry
    unfolding interface_reading_def Let_def
    by (auto intro!: runs_bind [OF runs_captured] runs_bind [OF parsed_total [OF interface_metrics_honest]] runs_bind [OF counter_events]
        runs_ret split: prod.split)
  show ?thesis
    unfolding interfaces_reading_def Let_def
    by (auto intro!: runs_bind [OF runs_captured] runs_bind [OF runs_timed_state] runs_bind [OF set_events] runs_bind [OF runs_gather [OF one]]
        runs_bind [OF parsed_total [OF interface_metrics_honest]] runs_seq [OF save_timed] runs_ret
        simp: PROTECTED_KEYS_def split: option.split captured.split prod.split)
qed

lemma missing_tcp_honest: "list_all honest (missing_tcp_metrics current)"
  unfolding missing_tcp_metrics_def by (intro list_all_concat_map) (simp add: honest_Metric)

lemma tcp: "runs J True honest_metrics_of (tcp_reading S cfg monotonic t)"
proof -
  have "runs J True (\<lambda>_. True) (liftR (previous_tcp v))" for v by (rule runs_liftR) (simp split: sum.split)
  then show ?thesis
    unfolding tcp_reading_def Let_def
    by (auto intro!: runs_bind [OF runs_captured] runs_bind [OF runs_timed_state] runs_bind [OF parsed_total [OF tcp_counter_metrics_honest]]
        runs_bind [of J True "\<lambda>_. True" "liftR (previous_tcp _)"] runs_seq [OF runs_whenE [OF save_timed]] runs_bind [OF counter_events] runs_ret
        missing_tcp_honest simp: PROTECTED_KEYS_def split: prod.split)
qed

lemma tcp_states: "runs J X (list_all honest) (tcp_state_reading t)"
  unfolding tcp_state_reading_def Let_def
  by (auto intro!: runs_bind [OF runs_captured] runs_seq [OF save_text] runs_ret simp: PROTECTED_KEYS_def honest_Metric list_all_iff
      split: option.split captured.split)

lemma network: "runs J True honest_metrics_of (network_metrics S cfg monotonic t full_socket_due)"
  unfolding network_metrics_def
  by (auto intro!: runs_bind [OF interfaces] runs_bind [OF tcp] runs_bind [OF tcp_states] runs_ret
      intro: runs_bind [of J True "list_all honest" "ret []"])

lemma storage: "runs J X (\<lambda>r. honest_metrics_of r) (storage_metrics S cfg monotonic t slow_due)"
proof -
  have path: "runs J X honest_metrics_of (filesystem_reading S t path)" for path
    using filesystem_metrics_honest [of path "cs_statvfs S"]
    unfolding filesystem_reading_def Let_def
    by (auto intro!: runs_seq [OF runs_record_error] runs_seq [OF runs_set_true] runs_bind [OF availability_event] runs_ret simp: honest_reading_def split: sum.split)
  have one: "runs J X honest_metrics_of (disk_reading S cfg previous elapsed t entry)" for previous elapsed entry
    unfolding disk_reading_def
    by (auto intro!: runs_bind [OF parsed_total [OF disk_metrics_honest]] runs_bind [OF counter_events] runs_ret split: prod.split)
  have disks: "runs J X honest_metrics_of (disks_reading S cfg monotonic t)"
    unfolding disks_reading_def
    by (auto intro!: runs_bind [OF runs_captured] runs_bind [OF runs_timed_state] runs_bind [OF runs_gather [OF one]] runs_seq [OF save_timed]
        runs_ret simp: PROTECTED_KEYS_def split: option.split captured.split prod.split)
  have sizes: "runs J X (\<lambda>v. case v of Some (Got_metrics ms) \<Rightarrow> list_all honest ms | _ \<Rightarrow> True) (captured_value ''db_size_metrics'')"
    by (simp add: runs_def captured_value_def wp_gets holds_def sound_capture_def)
  show ?thesis
    unfolding storage_metrics_def
    by (auto intro!: runs_bind [OF runs_gather [OF path]] runs_bind [OF sizes] runs_bind [OF disks] runs_ret
        intro: runs_bind [of J X honest_metrics_of] split: option.splits captured.splits)
qed

end

end
