(* ===== verification/Monitoring_Service_Cycle.thy ===== *)
theory Monitoring_Service_Cycle
  imports Monitoring_Readings
begin

text \<open>
  \<open>src/monitoring/collector.py\<close>: the services and the tunnels of a cycle, with the caches of what is sampled more slowly, and
  \<open>upsert_tunnel\<close> of \<open>schema.py\<close>. Every service and every tunnel is processed in a savepoint: what it stored is undone when it
  raises. The caches hold what the collector wrote.

  The lemmas: a cached value is used only for the processes it was measured on and is then marked as estimated, a service or
  a tunnel that fails leaves the database as it was and does not stop the others, and no step raises.
\<close>

section \<open>Services that could not be read\<close>

definition PROCESS_METRIC_SPECS :: "(string \<times> string) list" where
  "PROCESS_METRIC_SPECS =
     [(''process_count'', ''count''), (''process_cpu_ticks'', ''ticks''), (''process_cpu_percent'', ''percent''),
      (''process_rss_bytes'', ''bytes''), (''process_rss_anon_bytes'', ''bytes''), (''process_rss_file_bytes'', ''bytes''),
      (''process_threads'', ''count''), (''process_open_fds'', ''count''), (''process_fd_soft_limit'', ''count''),
      (''process_fd_hard_limit'', ''count'')]"

definition SERVICE_METRIC_SPECS :: "(string \<times> string) list" where
  "SERVICE_METRIC_SPECS =
     [(''service_active'', ''boolean''), (''service_active_state'', ''state''), (''service_sub_state'', ''state''),
      (''service_main_pid'', ''pid''), (''service_start_monotonic_us'', ''microseconds''), (''service_restart_count'', ''count''),
      (''service_tasks'', ''count''), (''cgroup_memory_current_bytes'', ''bytes''), (''cgroup_memory_peak_bytes'', ''bytes''),
      (''systemd_ip_ingress_bytes'', ''bytes''), (''systemd_ip_egress_bytes'', ''bytes'')]
     @ PROCESS_METRIC_SPECS @ [(''listener_owned_count'', ''count''), (''established_sockets_total'', ''count'')]
     @ map (\<lambda>st. (state_metric_name st, ''count'')) TCP_SOCKET_STATES"

definition service_unavailable :: "string \<Rightarrow> metric list" where
  "service_unavailable service = unavailable_metrics ''service'' SERVICE_METRIC_SPECS ''service'' service [(''service'', service)]"

definition process_unavailable :: "string \<Rightarrow> metric list" where
  "process_unavailable service = unavailable_metrics ''service'' PROCESS_METRIC_SPECS ''service'' service [(''service'', service)]"


section \<open>Caches\<close>

text \<open>\<open>isinstance(v, int)\<close>, with its value.\<close>

definition json_whole :: "json \<Rightarrow> int option" where
  "json_whole v =
     (case v of
        JNumber x \<Rightarrow> if x = of_int (floor x) then Some (floor x) else None
      | JBool b \<Rightarrow> Some (if b then 1 else 0)
      | _ \<Rightarrow> None)"

definition json_of_option :: "int option \<Rightarrow> json" where
  "json_of_option v = (case v of None \<Rightarrow> JNull | Some i \<Rightarrow> JInt i)"

text \<open>The fields of a cached object, when it was made for this identity.\<close>

definition cached_for :: "(string \<times> json) list \<Rightarrow> json option \<Rightarrow> (string, json) dict option" where
  "cached_for keys cached =
     (case cached of
        Some (JObject d) \<Rightarrow> if list_all (\<lambda>(k, v). case map_of d k of None \<Rightarrow> False | Some w \<Rightarrow> json_eq w v) keys then Some d else None
      | _ \<Rightarrow> None)"

definition counted_state :: "socket_record list \<Rightarrow> int list \<Rightarrow> string \<Rightarrow> int option \<times> string" where
  "counted_state records pids state =
     (let rs = filter (\<lambda>r. so_state r = state) records
      in if list_ex (\<lambda>r. so_pid r = None) rs then (None, ''unavailable'')
         else (Some (int (length (filter (owned_by (set pids)) rs))), ''exact''))"

definition cached_count :: "(string, json) dict \<Rightarrow> string \<Rightarrow> int option \<times> string" where
  "cached_count d key =
     (case Option.bind (map_of d key) json_whole of None \<Rightarrow> (None, ''unavailable'') | Some i \<Rightarrow> (Some i, ''estimated''))"

type_synonym socket_counts = "(int option \<times> string) \<times> (string \<times> int option \<times> string) list"

definition NO_COUNTS :: socket_counts where
  "NO_COUNTS = ((None, ''unavailable''), map (\<lambda>st. (st, None, ''unavailable'')) TCP_SOCKET_STATES)"

definition service_sockets ::
  "collector_sources \<Rightarrow> string \<Rightarrow> int list \<Rightarrow> bool \<Rightarrow> string option \<Rightarrow> bool \<Rightarrow> socket_record list option \<Rightarrow> socket_counts collect" where
  "service_sockets S service pids authoritative process_identity full_socket_due full_records =
     (let cache_key = ''socket_cache.service.'' @ service
      in if pids = [] \<or> \<not> authoritative then ret NO_COUNTS
         else (case (if full_socket_due then full_records else None) of
                 Some records \<Rightarrow>
                   let states = map (\<lambda>st. (st, counted_state records pids st)) TCP_SOCKET_STATES;
                       established = counted_state records pids ''ESTAB''
                   in (case process_identity of
                         None \<Rightarrow> ret (established, states)
                       | Some i \<Rightarrow>
                           seqE (save_json S cache_key (JObject
                                   [(''identity'', JString i), (''established'', json_of_option (fst established)),
                                    (''states'', JObject (map (\<lambda>(st, v, _). (st, json_of_option v)) states))]))
                             (ret (established, states)))
               | None \<Rightarrow>
                   (case process_identity of
                      None \<Rightarrow> ret NO_COUNTS
                    | Some i \<Rightarrow>
                        bindE (json_state S cache_key) (\<lambda>cached. ret
                          (case cached_for [(''identity'', JString i)] cached of
                             None \<Rightarrow> NO_COUNTS
                           | Some d \<Rightarrow>
                               (case map_of d ''states'' of
                                  Some (JObject states) \<Rightarrow>
                                    (cached_count d ''established'', map (\<lambda>st. (st, cached_count states st)) TCP_SOCKET_STATES)
                                | _ \<Rightarrow> NO_COUNTS))))))"

definition service_socket_metrics ::
  "collector_sources \<Rightarrow> string \<Rightarrow> int list \<Rightarrow> bool \<Rightarrow> string option \<Rightarrow> bool \<Rightarrow> socket_record list option \<Rightarrow> metric list collect" where
  "service_socket_metrics S service pids authoritative process_identity full_socket_due full_records =
     bindE (service_sockets S service pids authoritative process_identity full_socket_due full_records) (\<lambda>(established, states).
       ret (map (\<lambda>(name, v, q). Metric ''service'' name (map_option VInt v) ''count'' q [(''service'', service)] ''service'' service)
             ((''established_sockets_total'', established) # map (\<lambda>(st, count). (state_metric_name st, count)) states)))"

definition numeric_remote_endpoint :: "collector_sources \<Rightarrow> string option \<Rightarrow> (fault, (string \<times> int) option) result" where
  "numeric_remote_endpoint S endpoint =
     (case Option.bind endpoint (rpartition '':'') of
        None \<Rightarrow> Inr None
      | Some (host, port_raw) \<Rightarrow>
          if \<not> isdigit port_raw \<or> cs_address S host = None then Inr None
          else bindR (parsed (read_int port_raw)) (\<lambda>port. Inr (if 0 < port \<and> port \<le> 65535 then Some (host, port) else None)))"

definition tunnel_id :: "tunnel \<Rightarrow> string" where
  "tunnel_id tn = side tn @ ''-'' @ str_nat (tunnel_number tn)"

definition tunnel_metric :: "tunnel \<Rightarrow> string \<Rightarrow> metric_value option \<Rightarrow> string \<Rightarrow> string \<Rightarrow> metric" where
  "tunnel_metric tn name v un q = Metric ''tunnel'' name v un q [] ''tunnel'' (tunnel_id tn)"

text \<open>\<open>ipaddress.ip_address(value.split("%", 1)[0])\<close>.\<close>

definition normalized :: "collector_sources \<Rightarrow> string \<Rightarrow> string option" where
  "normalized S v = cs_address S (case split_first (CHR ''%'') v of None \<Rightarrow> v | Some (a, _) \<Rightarrow> a)"

definition endpoint_json :: "tunnel \<Rightarrow> json" where
  "endpoint_json tn = (case remote_endpoint tn of None \<Rightarrow> JNull | Some e \<Rightarrow> JString e)"

definition tunnel_remote_sockets ::
  "collector_sources \<Rightarrow> tunnel \<Rightarrow> int list \<Rightarrow> bool \<Rightarrow> string option \<Rightarrow> bool \<Rightarrow> socket_record list option \<Rightarrow> (int option \<times> string) collect" where
  "tunnel_remote_sockets S tn pids authoritative process_identity full_socket_due full_records =
     (let cache_key = ''socket_cache.tunnel.'' @ tunnel_id tn
      in bindE (liftR (numeric_remote_endpoint S (remote_endpoint tn))) (\<lambda>endpoint.
           if endpoint = None \<or> pids = [] \<or> \<not> authoritative then ret (None, ''unavailable'')
           else (case (if full_socket_due then full_records else None) of
                   Some records \<Rightarrow>
                     (case established_remote_socket_count (normalized S) records (set pids) (fst (the endpoint)) (snd (the endpoint)) of
                        None \<Rightarrow> ret (None, ''unavailable'')
                      | Some n \<Rightarrow>
                          (case process_identity of
                             None \<Rightarrow> ret (Some n, ''exact'')
                           | Some i \<Rightarrow>
                               seqE (save_json S cache_key (JObject
                                       [(''identity'', JString i), (''endpoint'', endpoint_json tn), (''value'', JInt n)]))
                                 (ret (Some n, ''exact''))))
                 | None \<Rightarrow>
                     (case process_identity of
                        None \<Rightarrow> ret (None, ''unavailable'')
                      | Some i \<Rightarrow>
                          bindE (json_state S cache_key) (\<lambda>cached. ret
                            (case cached_for [(''identity'', JString i), (''endpoint'', endpoint_json tn)] cached of
                               None \<Rightarrow> (None, ''unavailable'')
                             | Some d \<Rightarrow> cached_count d ''value''))))))"

definition tunnel_remote_socket_metric ::
  "collector_sources \<Rightarrow> tunnel \<Rightarrow> int list \<Rightarrow> bool \<Rightarrow> string option \<Rightarrow> bool \<Rightarrow> socket_record list option \<Rightarrow> metric collect" where
  "tunnel_remote_socket_metric S tn pids authoritative process_identity full_socket_due full_records =
     bindE (tunnel_remote_sockets S tn pids authoritative process_identity full_socket_due full_records) (\<lambda>(v, q).
       ret (tunnel_metric tn ''established_remote_sockets'' (map_option VInt v) ''count'' q))"

definition configured_listeners :: "tunnel \<Rightarrow> metric" where
  "configured_listeners tn = tunnel_metric tn ''configured_listener_count'' (Some (VInt (int (length (listen_ports tn))))) ''count'' ''exact''"

definition configured_targets :: "tunnel \<Rightarrow> metric" where
  "configured_targets tn = tunnel_metric tn ''target_count'' (Some (VInt (int (length (target_ports tn))))) ''count'' ''exact''"

definition configured_endpoint :: "tunnel \<Rightarrow> metric" where
  "configured_endpoint tn =
     tunnel_metric tn ''remote_endpoint'' (map_option VText (remote_endpoint tn)) ''endpoint''
       (if or_else (remote_endpoint tn) [] = [] then ''unavailable'' else ''exact'')"

definition tunnel_unavailable :: "tunnel \<Rightarrow> metric list" where
  "tunnel_unavailable tn =
     [configured_listeners tn, configured_targets tn, configured_endpoint tn] @ unavailable_metrics ''tunnel''
       [(''observed_listener_count'', ''count''), (''listener_ownership_exact'', ''boolean''), (''established_remote_sockets'', ''count''),
        (''service_active'', ''boolean''), (''service_restart_count'', ''count''), (''process_cpu_percent'', ''percent''),
        (''process_rss_bytes'', ''bytes''), (''process_threads'', ''count''), (''process_open_fds'', ''count'')]
       ''tunnel'' (tunnel_id tn) []"

text \<open>The values of the processes that are read less often: the new ones, or those kept for the same processes.\<close>

definition identity_json :: "(int \<times> int) list \<Rightarrow> json" where
  "identity_json ps = JArray (map (\<lambda>(p, s). JArray [JInt p, JInt s]) ps)"

definition slow_fields :: "service_process_snapshot \<Rightarrow> (string \<times> int option) list" where
  "slow_fields sn =
     [(''rss_anon_bytes'', sp_rss_anon_bytes sn), (''rss_file_bytes'', sp_rss_file_bytes sn), (''fd_count'', sp_fd_count sn),
      (''fd_soft_limit'', sp_fd_soft_limit sn), (''fd_hard_limit'', sp_fd_hard_limit sn)]"

definition cached_field :: "(string, json) dict \<Rightarrow> string \<Rightarrow> (fault, int option) result" where
  "cached_field d k =
     (case map_of d k of None \<Rightarrow> Inr None | Some JNull \<Rightarrow> Inr None | Some v \<Rightarrow> bindR (json_int v) (\<lambda>i. Inr (Some i)))"

definition process_slow_values ::
  "collector_sources \<Rightarrow> string \<Rightarrow> service_process_snapshot \<Rightarrow> bool \<Rightarrow> bool \<Rightarrow> bool \<Rightarrow> (service_process_snapshot \<times> string) collect" where
  "process_slow_values S service current slow_due slow_complete authoritative =
     (let cache_key = ''process_slow_cache.service.'' @ service;
          process_identity = identity_json (sp_identity current)
      in if slow_due
         then (if \<not> slow_complete then ret (current, ''unavailable'')
               else seqE (save_json S cache_key (JObject
                            [(''identity'', process_identity),
                             (''values'', JObject (map (\<lambda>(k, v). (k, json_of_option v)) (slow_fields current)))]))
                      (ret (current, if authoritative then ''exact'' else ''estimated'')))
         else bindE (json_state S cache_key) (\<lambda>cached.
                case cached_for [(''identity'', process_identity)] cached of
                  None \<Rightarrow> ret (current, ''unavailable'')
                | Some d \<Rightarrow>
                    (case map_of d ''values'' of
                       Some (JObject values) \<Rightarrow>
                         bindE (liftR (mapR (\<lambda>(k, _). cached_field values k) (slow_fields current))) (\<lambda>vs. ret
                           (current\<lparr>sp_rss_anon_bytes := vs ! 0, sp_rss_file_bytes := vs ! 1, sp_fd_count := vs ! 2,
                                    sp_fd_soft_limit := vs ! 3, sp_fd_hard_limit := vs ! 4\<rparr>, ''estimated''))
                     | _ \<Rightarrow> ret (current, ''unavailable''))))"

definition process_identity_text :: "string \<Rightarrow> service_process_snapshot \<Rightarrow> string" where
  "process_identity_text start_identity sn =
     start_identity @ ''|'' @ join_on (CHR '','') (map (\<lambda>(p, s). str_int p @ '':'' @ str_int s) (sp_identity sn))"

definition cgroup_memory_values ::
  "collector_sources \<Rightarrow> string \<Rightarrow> string \<Rightarrow> string option \<Rightarrow> bool \<Rightarrow> captured option \<Rightarrow> metric list collect" where
  "cgroup_memory_values S service control_group process_identity slow_due memory =
     (let cache_key = ''cgroup_memory_cache.service.'' @ service
      in if slow_due
         then (case memory of
                 Some (Got_memory values) \<Rightarrow>
                   seqE (case process_identity of
                           None \<Rightarrow> ret ()
                         | Some i \<Rightarrow>
                             save_json S cache_key (JObject
                               [(''control_group'', JString control_group), (''identity'', JString i),
                                (''values'', JObject (map (\<lambda>(k, v). (k, json_of_option v)) values))]))
                     (liftR (parsed (cgroup_memory_metrics service values)))
               | _ \<Rightarrow> ret [])
         else (case process_identity of
                 None \<Rightarrow> ret []
               | Some i \<Rightarrow>
                   bindE (json_state S cache_key) (\<lambda>cached.
                     case cached_for [(''control_group'', JString control_group), (''identity'', JString i)] cached of
                       None \<Rightarrow> ret []
                     | Some d \<Rightarrow>
                         (case map_of d ''values'' of
                            Some (JObject values) \<Rightarrow>
                              bindE (liftR (parsed (cgroup_memory_metrics service (map (\<lambda>(k, v). (k, json_whole v)) values)))) (\<lambda>ms.
                                ret (map (\<lambda>m. m\<lparr>m_quality := ''estimated''\<rparr>) (filter (\<lambda>m. m_value m \<noteq> None) ms)))
                          | _ \<Rightarrow> ret []))))"


section \<open>One service\<close>

text \<open>What undoes the changes of the database: a savepoint that is rolled back.\<close>

definition savepoint :: "'a collect \<Rightarrow> (fault \<Rightarrow> 'a collect) \<Rightarrow> 'a collect" where
  "savepoint m h = (\<lambda>s. case m s of (Inr x, s') \<Rightarrow> (Inr x, s') | (Inl f, s') \<Rightarrow> h f (s'\<lparr>cl_store := cl_store s\<rparr>))"

text \<open>What a cycle learns of a service, for the tunnels that use it.\<close>

record service_facts =
  sf_properties :: "(string, string) dict"
  sf_pids :: "int list"
  sf_authoritative :: bool
  sf_identity :: "string option"
  sf_metrics :: "metric list"

definition NO_FACTS :: service_facts where
  "NO_FACTS = \<lparr>sf_properties = [], sf_pids = [], sf_authoritative = False, sf_identity = None, sf_metrics = []\<rparr>"

text \<open>The processes of a service, summed when every one of them could be read, with the quality of the slow values.\<close>

definition service_snapshot ::
  "collector_sources \<Rightarrow> string \<Rightarrow> int list \<Rightarrow> bool \<Rightarrow> bool \<Rightarrow> (service_process_snapshot \<times> string) option collect" where
  "service_snapshot S service pids authoritative slow_due =
     bindE (gets (\<lambda>s. cap_values (cl_capture s))) (\<lambda>values.
       let look = (\<lambda>kind p. map_of values (kind @ service @ '':'' @ str_int p));
           fast = List.map_filter (\<lambda>p. case look ''process_fast:'' p of Some (Got_process sn) \<Rightarrow> Some sn | _ \<Rightarrow> None) pids;
           slow = List.map_filter (\<lambda>p. case look ''process_slow:'' p of Some (Got_slow sn) \<Rightarrow> Some (p, sn) | _ \<Rightarrow> None) pids;
           slow_complete = (slow_due \<and> length slow = length pids)
       in if pids = [] \<or> length fast \<noteq> length pids then ret None
          else bindE (liftR (parsed (aggregate_service_processes fast (if slow_complete then slow else [])))) (\<lambda>sn.
               bindE (process_slow_values S service sn slow_due slow_complete authoritative) (\<lambda>r. ret (Some r))))"

definition process_json :: "service_process_snapshot \<Rightarrow> json" where
  "process_json sn =
     JObject ([(''identity'', identity_json (sp_identity sn)), (''process_count'', JInt (process_count sn)), (''cpu_ticks'', JInt (sp_cpu_ticks sn)),
               (''rss_bytes'', JInt (sp_rss_bytes sn)), (''threads'', JInt (sp_threads sn))]
              @ map (\<lambda>(k, v). (k, json_of_option v)) (slow_fields sn))"

text \<open>\<open>(int(item[0]), int(item[1]))\<close>, also of a text of two digits.\<close>

definition identity_item :: "json \<Rightarrow> (int \<times> int) option" where
  "identity_item v =
     (case v of
        JArray (a # b # _) \<Rightarrow> (case (int_of a, int_of b) of (Some x, Some y) \<Rightarrow> Some (x, y) | _ \<Rightarrow> None)
      | JString (a # b # _) \<Rightarrow> (case (text_int [a], text_int [b]) of (Some x, Some y) \<Rightarrow> Some (x, y) | _ \<Rightarrow> None)
      | _ \<Rightarrow> None)"

definition optional_field :: "(string, json) dict \<Rightarrow> string \<Rightarrow> int option option" where
  "optional_field d k = (case cached_field d k of Inl _ \<Rightarrow> None | Inr v \<Rightarrow> Some v)"

definition service_process_from_state :: "json option \<Rightarrow> service_process_snapshot option" where
  "service_process_from_state v =
     (case v of
        Some (JObject d) \<Rightarrow>
          (case map_of d ''identity'' of
             Some (JArray items) \<Rightarrow>
               (case (those (map identity_item items),
                      those (map (\<lambda>k. Option.bind (map_of d k) int_of) [''process_count'', ''cpu_ticks'', ''rss_bytes'', ''threads'']),
                      those (map (optional_field d) [''rss_anon_bytes'', ''rss_file_bytes'', ''fd_count'', ''fd_soft_limit'', ''fd_hard_limit''])) of
                  (Some ident, Some ns, Some os) \<Rightarrow>
                    Some \<lparr>sp_identity = ident, process_count = ns ! 0, sp_cpu_ticks = ns ! 1, sp_rss_bytes = ns ! 2,
                          sp_rss_anon_bytes = os ! 0, sp_rss_file_bytes = os ! 1, sp_threads = ns ! 3, sp_fd_count = os ! 2,
                          sp_fd_soft_limit = os ! 3, sp_fd_hard_limit = os ! 4\<rparr>
                | _ \<Rightarrow> None)
           | _ \<Rightarrow> None)
      | _ \<Rightarrow> None)"

definition process_reading ::
  "collector_sources \<Rightarrow> collector_config \<Rightarrow> real \<Rightarrow> int \<Rightarrow> string \<Rightarrow> bool \<Rightarrow> (service_process_snapshot \<times> string) option \<Rightarrow> reading collect" where
  "process_reading S cfg monotonic t service authoritative snapshot =
     (let key = ''counter.process.'' @ service
      in case snapshot of
           None \<Rightarrow> ret (process_unavailable service, [])
         | Some (sn, slow_quality) \<Rightarrow>
             bindE (timed_state S key) (\<lambda>(previous_mono, previous_raw).
             bindE (liftR (parsed (service_process_metrics service sn (service_process_from_state previous_raw)
                             (elapsed_since monotonic previous_mono) (cs_ticks S) (Some (max_gap cfg)) authoritative slow_quality))) (\<lambda>ms.
             bindE (record_flag_event S (''process.'' @ service @ ''.reset'') (list_ex m_reset ms) t ''counter_reset''
                      [(''source'', JString ''process''), (''service'', JString service)]) (\<lambda>es.
               seqE (save_timed_state S key monotonic (process_json sn)) (ret (ms, es))))))"

definition listener_reading :: "string \<Rightarrow> int list \<Rightarrow> bool \<Rightarrow> socket_record list option \<Rightarrow> metric list" where
  "listener_reading service pids authoritative listeners =
     (let labels = [(''service'', service)];
          missing = unavailable_metrics ''service'' [(''listener_owned_count'', ''count'')] ''service'' service labels
      in case listeners of
           None \<Rightarrow> missing
         | Some records \<Rightarrow>
             let listening = filter (\<lambda>r. so_state r = ''LISTEN'') records
             in if pids \<noteq> [] \<and> authoritative \<and> list_all (\<lambda>r. so_pid r \<noteq> None) listening
                then [Metric ''service'' ''listener_owned_count''
                        (Some (VInt (int (card (owned_listener_ports records (map local_port listening) (set pids)))))) ''count'' ''exact''
                        labels ''service'' service]
                else missing)"

definition socket_rows :: "captured option \<Rightarrow> socket_record list option" where
  "socket_rows v = (case v of Some (Got_sockets rs) \<Rightarrow> Some rs | _ \<Rightarrow> None)"

text \<open>The event of a service whose processes were replaced, when the list of its processes can be trusted.\<close>

definition process_set_event :: "collector_sources \<Rightarrow> string \<Rightarrow> int list \<Rightarrow> int \<Rightarrow> string option \<Rightarrow> json_event list collect" where
  "process_set_event S service pids t process_identity =
     (case process_identity of
        None \<Rightarrow> ret []
      | Some i \<Rightarrow>
          emits (value_transition (cs_loads S) (cs_dumps S) (''service.pid_identity.'' @ service) (JString i) t
            ''pid_replaced'' ''Managed service process set changed''
            [(''service'', JString service), (''process_count'', JInt (int (length pids)))] ''info'' False))"

definition known_service ::
  "collector_sources \<Rightarrow> collector_config \<Rightarrow> real \<Rightarrow> int \<Rightarrow> bool \<Rightarrow> bool \<Rightarrow> string \<Rightarrow> (string, string) dict \<Rightarrow> int list \<Rightarrow> bool
     \<Rightarrow> captured option \<Rightarrow> captured option \<Rightarrow> captured option \<Rightarrow> (reading \<times> service_facts) collect" where
  "known_service S cfg monotonic t full_socket_due slow_due service props pids authoritative listeners connections memory =
     (let active_state = dict_get props ''ActiveState'' ''unavailable'';
          control_group = dict_get props ''ControlGroup'' [];
          identify = (\<lambda>(sn, _). process_identity_text (dict_get props ''ExecMainStartTimestampMonotonic'' []) sn)
      in bindE (liftR (parsed (service_metrics service props))) (\<lambda>ms1.
         bindE (emits (value_transition (cs_loads S) (cs_dumps S) (''service.state.'' @ service) (JString active_state) t
                  ''service_state_changed'' ''Managed service state changed'' [(''service'', JString service)]
                  (if active_state \<in> {''failed'', ''inactive''} then ''warning'' else ''info'') False)) (\<lambda>es1.
         bindE (service_snapshot S service pids authoritative slow_due) (\<lambda>snapshot.
         bindE (process_set_event S service pids t (if authoritative then map_option identify snapshot else None)) (\<lambda>es2.
         bindE (process_reading S cfg monotonic t service authoritative snapshot) (\<lambda>(ms2, es3).
         bindE (if control_group = [] then ret []
                else cgroup_memory_values S service control_group (map_option identify snapshot) slow_due memory) (\<lambda>ms3.
         bindE (service_socket_metrics S service pids authoritative (map_option identify snapshot) full_socket_due (socket_rows connections)) (\<lambda>ms4.
           ret ((ms1 @ ms2 @ ms3 @ listener_reading service pids authoritative (socket_rows listeners) @ ms4, es1 @ es2 @ es3),
                \<lparr>sf_properties = props, sf_pids = pids, sf_authoritative = authoritative, sf_identity = map_option identify snapshot,
                 sf_metrics = (if snapshot = None then [] else ms2)\<rparr>)))))))))"

definition service_body ::
  "collector_sources \<Rightarrow> collector_config \<Rightarrow> real \<Rightarrow> int \<Rightarrow> bool \<Rightarrow> bool \<Rightarrow> string \<Rightarrow> (reading \<times> service_facts) collect" where
  "service_body S cfg monotonic t full_socket_due slow_due service =
     bindE (captured_value (''systemd:'' @ service)) (\<lambda>props_raw.
     bindE (captured_value (''process_pids:'' @ service)) (\<lambda>pid_set_raw.
     bindE (captured_value ''ss_listeners'') (\<lambda>listeners.
     bindE (captured_value ''ss_connections'') (\<lambda>connections.
     bindE (captured_value (''cgroup_memory:'' @ service)) (\<lambda>memory.
       case props_raw of
         Some (Got_properties props) \<Rightarrow>
           (case (case pid_set_raw of Some (Got_pid_set ps a) \<Rightarrow> (ps, a) | _ \<Rightarrow> ([], False)) of (pids, authoritative) \<Rightarrow>
              known_service S cfg monotonic t full_socket_due slow_due service props pids authoritative listeners connections memory)
       | _ \<Rightarrow> ret ((service_unavailable service, []), NO_FACTS))))))"

definition service_step ::
  "collector_sources \<Rightarrow> collector_config \<Rightarrow> real \<Rightarrow> int \<Rightarrow> bool \<Rightarrow> bool \<Rightarrow> string \<Rightarrow> (reading \<times> service_facts) collect" where
  "service_step S cfg monotonic t full_socket_due slow_due service =
     savepoint
       (bindE (service_body S cfg monotonic t full_socket_due slow_due service) (\<lambda>r.
          seqE (on_capture (set_value (''service_processing:'' @ service) Got_true)) (ret r)))
       (\<lambda>f. seqE (on_capture (record_error (''service_processing:'' @ service) (error_kind f)))
              (ret ((service_unavailable service, []), NO_FACTS)))"


section \<open>One tunnel\<close>

definition upsert_tunnel :: "(json \<Rightarrow> string) \<Rightarrow> tunnel \<Rightarrow> int \<Rightarrow> store \<Rightarrow> store" where
  "upsert_tunnel dumps tn now db =
     (let metadata =
            [(''service'', JString (service_name tn)), (''side'', JString (side tn)), (''profile_number'', JInt (int (tunnel_number tn))),
             (''allowed_source_count'', JInt (int (length (allowed_sources tn))))]
            @ (case remote_endpoint tn of None \<Rightarrow> [] | Some e \<Rightarrow> if e = [] then [] else [(''remote_endpoint'', JString e)])
            @ (case profile_label tn of None \<Rightarrow> [] | Some l \<Rightarrow> if l = [] then [] else [(''profile_label'', JString l)])
            @ (if allowed_sources tn = [] then [] else [(''allowed_sources'', JArray (map JString (allowed_sources tn)))]);
          db1 = ensure_entity dumps ''tunnel'' (tunnel_id tn) (or_else (profile_label tn) (tunnel_id tn)) metadata now db;
          ports = (\<lambda>ps. dumps (JArray (map JInt ps)));
          row = (case map_of (tunnel_rows db1) (tunnel_id tn) of
                   None \<Rightarrow> \<lparr>tr_side = side tn, tr_number = tunnel_number tn, tr_service = service_name tn, tr_env_path = env_path tn,
                           tr_listen_ports = ports (listen_ports tn), tr_target_ports = ports (target_ports tn), tr_updated = now\<rparr>
                 | Some r \<Rightarrow> r\<lparr>tr_env_path := env_path tn, tr_listen_ports := ports (listen_ports tn),
                               tr_target_ports := ports (target_ports tn), tr_updated := now\<rparr>)
      in db1\<lparr>tunnel_rows := AList.update (tunnel_id tn) row (tunnel_rows db1)\<rparr>)"

definition TUNNEL_PROCESS_METRICS :: "(string \<times> string) list" where
  "TUNNEL_PROCESS_METRICS =
     [(''process_cpu_percent'', ''percent''), (''process_rss_bytes'', ''bytes''), (''process_threads'', ''count''), (''process_open_fds'', ''count'')]"

definition tunnel_process_metric :: "tunnel \<Rightarrow> metric list \<Rightarrow> string \<times> string \<Rightarrow> metric" where
  "tunnel_process_metric tn ms spec =
     (case spec of (name, un) \<Rightarrow>
        (case map_of (dict_of (map (\<lambda>m. (m_name m, m)) ms)) name of
           None \<Rightarrow> tunnel_metric tn name None un ''unavailable''
         | Some m \<Rightarrow> (tunnel_metric tn name (m_value m) un (m_quality m))\<lparr>m_reset := m_reset m, m_gap := m_gap m\<rparr>))"

definition listener_change :: "collector_sources \<Rightarrow> tunnel \<Rightarrow> int \<Rightarrow> bool option \<Rightarrow> json_event list collect" where
  "listener_change S tn t ownership =
     (case ownership of
        None \<Rightarrow> ret []
      | Some owned \<Rightarrow>
          let key = ''event.value.tunnel.listener_missing.'' @ tunnel_id tn; missing = \<not> owned
          in bindE (json_state S key) (\<lambda>previous.
             seqE (save_json S key (JBool missing)) (ret
               (case (case previous of Some JNull \<Rightarrow> None | p \<Rightarrow> p) of
                  None \<Rightarrow> []
                | Some p \<Rightarrow>
                    if truthy p = missing then []
                    else [Event t (if missing then ''warning'' else ''info'') (if missing then ''listener_disappeared'' else ''listener_returned'')
                            ''Tunnel listener state changed'' [(''tunnel_id'', JString (tunnel_id tn))]]))))"

text \<open>The number of times the service was restarted.\<close>

definition restarts_of :: "(string, string) dict \<Rightarrow> (fault, int) result" where
  "restarts_of props = (let raw = dict_get props ''NRestarts'' [] in if isdigit raw then parsed (read_int raw) else Inr 0)"

definition is_state :: "(string, string) dict \<Rightarrow> string \<Rightarrow> string \<Rightarrow> int" where
  "is_state props key state = (if map_of props key = Some state then 1 else 0)"

definition tunnel_body ::
  "collector_sources \<Rightarrow> int \<Rightarrow> bool \<Rightarrow> (string, service_facts) dict \<Rightarrow> tunnel \<Rightarrow> reading collect" where
  "tunnel_body S t full_socket_due facts tn =
     (let known = dict_get facts (service_name tn) NO_FACTS;
          props = sf_properties known; pids = sf_pids known
      in seqE (on_store (upsert_tunnel (cs_dumps S) tn t))
         (bindE (captured_value ''ss_listeners'') (\<lambda>listeners.
          bindE (captured_value ''ss_connections'') (\<lambda>connections.
          bindE (liftR (restarts_of props)) (\<lambda>restarts.
            let usable = (if props \<noteq> [] \<and> pids \<noteq> [] \<and> sf_authoritative known then socket_rows listeners else None);
                owned = (case usable of None \<Rightarrow> {} | Some rs \<Rightarrow> owned_listener_ports rs (listen_ports tn) (set pids));
                ownership = Option.bind usable (\<lambda>rs. listener_ownership_exact rs (listen_ports tn) (set pids));
                active = is_state props ''ActiveState'' ''active'';
                quality = (if ownership = None then ''unavailable'' else ''exact'');
                sample = \<lparr>sm_tunnel = Some (tunnel_id tn), sm_ts = t, sm_service_state = active,
                          sm_service_substate = is_state props ''SubState'' ''running'', sm_restart_count = restarts,
                          sm_listen_total = int (length (listen_ports tn)), sm_listen_up = int (card owned),
                          sm_mappings_total = int (length (target_ports tn))\<rparr>
            in seqE (on_store (insert_sample sample (Some t)))
               (bindE (tunnel_remote_socket_metric S tn pids (sf_authoritative known) (sf_identity known) full_socket_due (socket_rows connections))
                  (\<lambda>remote.
                bindE (listener_change S tn t ownership) (\<lambda>es. ret
                  ([configured_listeners tn,
                      tunnel_metric tn ''observed_listener_count'' (map_option (\<lambda>_. VInt (int (card owned))) ownership) ''count'' quality,
                      tunnel_metric tn ''listener_ownership_exact'' (map_option (\<lambda>b. VInt (if b then 1 else 0)) ownership) ''boolean'' quality,
                      configured_targets tn, configured_endpoint tn, remote,
                      tunnel_metric tn ''service_active'' (if props = [] then None else Some (VInt active)) ''boolean''
                        (if props = [] then ''unavailable'' else ''exact''),
                      tunnel_metric tn ''service_restart_count'' (if props = [] then None else Some (VInt restarts)) ''count''
                        (if props = [] then ''unavailable'' else ''exact'')]
                   @ map (tunnel_process_metric tn (sf_metrics known)) TUNNEL_PROCESS_METRICS, es)))))))))"

text \<open>A tunnel that was processed has a sample.\<close>

definition tunnel_step ::
  "collector_sources \<Rightarrow> int \<Rightarrow> bool \<Rightarrow> (string, service_facts) dict \<Rightarrow> tunnel \<Rightarrow> (reading \<times> bool) collect" where
  "tunnel_step S t full_socket_due facts tn =
     savepoint
       (bindE (tunnel_body S t full_socket_due facts tn) (\<lambda>r.
          seqE (on_capture (set_value (''tunnel_processing:'' @ tunnel_id tn) Got_true)) (ret (r, True))))
       (\<lambda>f. seqE (on_capture (record_error (''tunnel_processing:'' @ tunnel_id tn) (error_kind f)))
              (ret ((tunnel_unavailable tn, []), False)))"

fun service_steps ::
  "collector_sources \<Rightarrow> collector_config \<Rightarrow> real \<Rightarrow> int \<Rightarrow> bool \<Rightarrow> bool \<Rightarrow> string list \<Rightarrow> (reading \<times> (string, service_facts) dict) collect" where
  "service_steps S cfg monotonic t full_socket_due slow_due [] = ret (([], []), [])"
| "service_steps S cfg monotonic t full_socket_due slow_due (service # rest) =
     bindE (service_step S cfg monotonic t full_socket_due slow_due service) (\<lambda>((ms, es), known).
     bindE (service_steps S cfg monotonic t full_socket_due slow_due rest) (\<lambda>((ms', es'), facts).
       ret ((ms @ ms', es @ es'), (service, known) # facts)))"

fun tunnel_steps ::
  "collector_sources \<Rightarrow> int \<Rightarrow> bool \<Rightarrow> (string, service_facts) dict \<Rightarrow> tunnel list \<Rightarrow> (reading \<times> int) collect" where
  "tunnel_steps S t full_socket_due facts [] = ret (([], []), 0)"
| "tunnel_steps S t full_socket_due facts (tn # rest) =
     bindE (tunnel_step S t full_socket_due facts tn) (\<lambda>((ms, es), sampled).
     bindE (tunnel_steps S t full_socket_due facts rest) (\<lambda>((ms', es'), n).
       ret ((ms @ ms', es @ es'), (if sampled then n + 1 else n))))"

definition service_and_tunnel_metrics ::
  "collector_sources \<Rightarrow> collector_config \<Rightarrow> tunnel list \<Rightarrow> string list \<Rightarrow> real \<Rightarrow> int \<Rightarrow> bool \<Rightarrow> bool \<Rightarrow> (reading \<times> int) collect" where
  "service_and_tunnel_metrics S cfg tunnels services monotonic t full_socket_due slow_due =
     bindE (service_steps S cfg monotonic t full_socket_due slow_due services) (\<lambda>((ms, es), facts).
     bindE (tunnel_steps S t full_socket_due facts tunnels) (\<lambda>((ms', es'), samples).
       ret ((ms @ ms', es @ es'), samples)))"


section \<open>What the services and tunnels keep\<close>

lemma runs_savepoint:
  assumes "runs J True Q m" and "\<And>f. runs J X Q (h f)"
  shows "runs J X Q (savepoint m h)"
  unfolding runs_def
proof (intro allI impI)
  fix s assume s: "holds J s"
  then have w: "wp m (\<lambda>x s'. holds J s' \<and> Q x) (\<lambda>_ s'. True \<and> holds J s') s" using assms(1) unfolding runs_def by blast
  obtain r s' where m: "m s = (r, s')" by fastforce
  show "wp (savepoint m h) (\<lambda>x s'. holds J s' \<and> Q x) (\<lambda>_ s'. X \<and> holds J s') s"
  proof (cases r)
    case (Inl f)
    have "holds J (s'\<lparr>cl_store := cl_store s\<rparr>)" using w s by (simp add: wp_def holds_def m Inl)
    then have "wp (h f) (\<lambda>x s'. holds J s' \<and> Q x) (\<lambda>_ s'. X \<and> holds J s') (s'\<lparr>cl_store := cl_store s\<rparr>)"
      using assms(2) unfolding runs_def by blast
    then show ?thesis by (simp add: wp_def savepoint_def m Inl)
  next
    case (Inr x)
    then show ?thesis using w by (simp add: wp_def savepoint_def m)
  qed
qed

lemma runs_parsed: "(case r of Inl _ \<Rightarrow> True | Inr x \<Rightarrow> Q x) \<Longrightarrow> runs J True Q (liftR (parsed r))"
  by (rule runs_liftR) (simp add: read_result_def split: sum.splits)

text \<open>A count with its quality.\<close>

definition honest_count :: "int option \<times> string \<Rightarrow> bool" where
  "honest_count c \<longleftrightarrow> snd c \<in> set QUALITY \<and> (if fst c = None then snd c = ''unavailable'' else True)"

lemma honest_counts [simp]:
  "honest_count (None, ''unavailable'')" "honest_count (Some n, ''exact'')" "honest_count (Some n, ''estimated'')"
  "honest_count (counted_state records pids st)" "honest_count (cached_count d k)"
  by (simp_all add: honest_count_def QUALITY_def counted_state_def cached_count_def Let_def split: option.split)

definition honest_sockets :: "socket_counts \<Rightarrow> bool" where
  "honest_sockets c \<longleftrightarrow> honest_count (fst c) \<and> list_all (\<lambda>e. honest_count (snd e)) (snd c)"

lemma honest_sockets_intro:
  "honest_sockets NO_COUNTS"
  "honest_sockets (counted_state records pids x, map (\<lambda>st. (st, counted_state records pids st)) sts)"
  "honest_sockets (cached_count d x, map (\<lambda>st. (st, cached_count states st)) sts)"
  by (simp_all add: honest_sockets_def NO_COUNTS_def list_all_iff)

text \<open>What the cycle of the services and tunnels relies on: texts and the rows of this cycle can be stored.\<close>

locale stored_tables = stored_state J for J +
  fixes S :: collector_sources and t :: int
  assumes keeps_tunnel: "J db \<Longrightarrow> J (upsert_tunnel (cs_dumps S) tn t db)"
    and keeps_sample: "J db \<Longrightarrow> sm_ts sample = t \<Longrightarrow> J (insert_sample sample (Some t) db)"
    and ticks: "J db \<Longrightarrow> 0 < cs_ticks S"
begin

lemma runs_ticking: "(0 < cs_ticks S \<Longrightarrow> runs J X Q m) \<Longrightarrow> runs J X Q m"
  using ticks by (auto simp: runs_def holds_def)

lemma sockets: "runs J X honest_sockets (service_sockets S service pids authoritative i full records)"
  unfolding service_sockets_def Let_def
  by (auto intro!: runs_ret runs_seq [OF save_json] runs_bind [OF runs_json_state] honest_sockets_intro simp: PROTECTED_KEYS_def
      split: option.split json.split)

lemma socket_metrics: "runs J X (list_all honest) (service_socket_metrics S service pids authoritative i full records)"
  unfolding service_socket_metrics_def
proof (rule runs_bind [OF sockets])
  fix c assume c: "honest_sockets c"
  obtain e sts where e: "c = (e, sts)" by fastforce
  have "list_all (\<lambda>x. honest_count (snd x)) ((''established_sockets_total'', e) # map (\<lambda>(st, count). (state_metric_name st, count)) sts)"
    using c by (auto simp: e honest_sockets_def list_all_iff)
  then have "list_all honest (map (\<lambda>(name, v, q). Metric ''service'' name (map_option VInt v) ''count'' q [(''service'', service)] ''service'' service)
      ((''established_sockets_total'', e) # map (\<lambda>(st, count). (state_metric_name st, count)) sts))"
    by (simp only: list_all_iff set_map) (auto simp: honest_count_def honest_Metric split_beta)
  then show "runs J X (list_all honest) (case c of (established, states) \<Rightarrow>
       ret (map (\<lambda>(name, v, q). Metric ''service'' name (map_option VInt v) ''count'' q [(''service'', service)] ''service'' service)
             ((''established_sockets_total'', established) # map (\<lambda>(st, count). (state_metric_name st, count)) states)))"
    unfolding e prod.case by (rule runs_ret)
qed

lemma remote_sockets: "runs J True honest_count (tunnel_remote_sockets S tn pids authoritative i full records)"
proof -
  have "runs J True (\<lambda>_. True) (liftR r)" for r :: "(fault, (string \<times> int) option) result"
    by (rule runs_liftR) (simp split: sum.split)
  then show ?thesis
    unfolding tunnel_remote_sockets_def Let_def
    by (auto intro!: runs_bind [of J True "\<lambda>_. True" "liftR _"] runs_ret runs_seq [OF save_json] runs_bind [OF runs_json_state]
        simp: PROTECTED_KEYS_def split: option.split)
qed

lemma remote_metric: "runs J True honest (tunnel_remote_socket_metric S tn pids authoritative i full records)"
  unfolding tunnel_remote_socket_metric_def
  by (auto intro!: runs_bind [OF remote_sockets] runs_ret simp: tunnel_metric_def honest_count_def honest_Metric)

lemma slow_values: "runs J True (\<lambda>r. snd r \<in> set QUALITY) (process_slow_values S service sn slow_due slow_complete authoritative)"
proof -
  have "runs J True (\<lambda>_. True) (liftR r)" for r :: "(fault, int option list) result" by (rule runs_liftR) (simp split: sum.split)
  then show ?thesis
    unfolding process_slow_values_def Let_def
    by (auto intro!: runs_bind [of J True "\<lambda>_. True" "liftR _"] runs_ret runs_seq [OF save_json] runs_bind [OF runs_json_state]
        simp: PROTECTED_KEYS_def QUALITY_def split: option.split json.split)
qed

lemma snapshot: "runs J True (\<lambda>r. case r of None \<Rightarrow> True | Some (_, q) \<Rightarrow> q \<in> set QUALITY) (service_snapshot S service pids authoritative slow_due)"
  unfolding service_snapshot_def Let_def
  by (auto intro!: runs_bind [OF runs_gets [of "\<lambda>_. True"]] runs_ret runs_bind [OF runs_parsed [where Q = "\<lambda>_. True"]] runs_bind [OF slow_values]
      split: sum.split)

lemma process:
  assumes "case snapshot of None \<Rightarrow> True | Some (_, q) \<Rightarrow> q \<in> set QUALITY"
  shows "runs J True honest_metrics_of (process_reading S cfg monotonic t service authoritative snapshot)"
proof (rule runs_ticking)
  assume "0 < cs_ticks S"
  then show ?thesis
    using assms service_process_metrics_honest
    unfolding process_reading_def Let_def process_unavailable_def
    by (auto intro!: runs_ret runs_bind [OF runs_timed_state] runs_bind [OF parsed_total [of _ "list_all honest"]] runs_bind [OF flag_event]
        runs_seq [OF save_timed] simp: PROTECTED_KEYS_def split: option.split prod.split)
qed

lemma cgroup: "runs J True (list_all honest) (cgroup_memory_values S service control i slow_due memory)"
proof -
  have total: "runs J True (list_all honest) (liftR (parsed (cgroup_memory_metrics service kept_values)))" for kept_values
    by (rule parsed_total [OF cgroup_memory_metrics_honest])
  have save: "runs J True (\<lambda>_. True) (case i of None \<Rightarrow> ret () | Some j \<Rightarrow> save_json S (''cgroup_memory_cache.service.'' @ service) (f j))" for f
    by (auto intro!: runs_ret save_json simp: PROTECTED_KEYS_def split: option.split)
  have kept: "list_all honest (map (\<lambda>m. m\<lparr>m_quality := ''estimated''\<rparr>) (filter (\<lambda>m. m_value m \<noteq> None) ms))" for ms
    by (auto simp: list_all_iff honest_def QUALITY_def)
  have read_now: "runs J True (list_all honest)
      (case memory of Some (Got_memory vs) \<Rightarrow> seqE (case i of None \<Rightarrow> ret () | Some j \<Rightarrow> save_json S (''cgroup_memory_cache.service.'' @ service) (f j vs))
           (liftR (parsed (cgroup_memory_metrics service vs))) | _ \<Rightarrow> ret [])" for f
    by (simp add: runs_ret runs_seq [OF save] total split: option.split captured.split)
  have of_cache: "runs J True (list_all honest)
      (bindE (liftR (parsed (cgroup_memory_metrics service vs))) (\<lambda>ms. ret (map (\<lambda>m. m\<lparr>m_quality := ''estimated''\<rparr>) (filter (\<lambda>m. m_value m \<noteq> None) ms))))"
    for vs by (rule runs_bind [OF total]) (rule runs_ret, rule kept)
  show ?thesis
  proof (cases slow_due)
    case True
    then show ?thesis unfolding cgroup_memory_values_def Let_def by (simp only: if_True) (rule read_now)
  next
    case False
    then show ?thesis
      unfolding cgroup_memory_values_def Let_def
      by (cases i) (simp_all add: runs_ret, rule runs_bind [OF runs_json_state], simp add: runs_ret of_cache del: not_None_eq split: option.split json.split)
  qed
qed

lemma listener_honest: "list_all honest (listener_reading service pids authoritative listeners)"
  by (auto simp: listener_reading_def Let_def honest_Metric split: option.split)

lemma process_set_event: "runs J X (\<lambda>_. True) (process_set_event S service pids t' i)"
  unfolding process_set_event_def by (cases i) (simp_all add: runs_ret value_event PROTECTED_KEYS_def)

lemma known_service:
  "runs J True (\<lambda>r. honest_metrics_of (fst r) \<and> list_all honest (sf_metrics (snd r)))
     (known_service S cfg monotonic t full slow_due service props pids authoritative listeners connections memory)"
proof -
  have ms1: "runs J True (list_all honest) (liftR (parsed (service_metrics service props)))"
    using service_metrics_honest [of service props] by (intro runs_parsed) (simp add: honest_reading_def split: sum.split)
  have group_memory: "runs J True (list_all honest) (if b then ret [] else cgroup_memory_values S service control i slow_due memory)"
    for b control i by (auto intro: runs_ret cgroup)
  have last_step: "runs J True (\<lambda>r. honest_metrics_of (fst r) \<and> list_all honest (sf_metrics (snd r)))
      (bindE (service_socket_metrics S service pids authoritative i full records) (\<lambda>ms4.
         ret ((ms1 @ ms2 @ ms3 @ listener_reading service pids authoritative rows @ ms4, es),
              \<lparr>sf_properties = props, sf_pids = pids, sf_authoritative = authoritative, sf_identity = i, sf_metrics = (if b then [] else ms2)\<rparr>)))"
    if "list_all honest ms1" "list_all honest ms2" "list_all honest ms3" for i records ms1 ms2 ms3 rows es b
    using that by (intro runs_bind [OF socket_metrics] runs_ret) (simp add: listener_honest)
  have counted_cases: "runs J True Q (case r of (ms, es) \<Rightarrow> f ms es)"
    if "honest_metrics_of r" "\<And>ms es. list_all honest ms \<Longrightarrow> runs J True Q (f ms es)" for r :: reading and Q and f
    using that by (cases r) simp
  show ?thesis
    unfolding known_service_def Let_def
    apply (rule runs_bind [OF ms1])
    apply (rule runs_bind [OF value_event], simp add: PROTECTED_KEYS_def)
    apply (rule runs_bind [OF snapshot])
    apply (rule runs_bind [OF process_set_event])
    apply (rule runs_bind [OF process], assumption)
    apply (rule counted_cases, assumption)
    apply (rule runs_bind [OF group_memory])
    apply (rule last_step; assumption)
    done
qed

lemma service_body:
  "runs J True (\<lambda>r. honest_metrics_of (fst r) \<and> list_all honest (sf_metrics (snd r))) (service_body S cfg monotonic t full slow_due service)"
  unfolding service_body_def
  by (intro runs_bind [OF runs_captured])
    (auto intro!: known_service runs_ret simp: NO_FACTS_def service_unavailable_def split: option.split captured.split prod.split)

lemma service_step:
  "runs J X (\<lambda>r. honest_metrics_of (fst r) \<and> list_all honest (sf_metrics (snd r))) (service_step S cfg monotonic t full slow_due service)"
  unfolding service_step_def
  by (intro runs_savepoint runs_bind [OF service_body] runs_seq [OF runs_set_true] runs_seq [OF runs_record_error] runs_ret)
    (simp_all add: NO_FACTS_def service_unavailable_def)

lemma services:
  "runs J X (\<lambda>r. honest_metrics_of (fst r) \<and> list_all (\<lambda>f. list_all honest (sf_metrics (snd f))) (snd r))
     (service_steps S cfg monotonic t full slow_due names)"
proof (induction names)
  case (Cons n names)
  show ?case
    by (auto intro!: runs_bind [OF service_step] runs_bind [OF Cons.IH] runs_ret)
qed (simp add: runs_ret)

lemma tunnel_metric_honest [simp]:
  "honest (tunnel_metric tn name v un q) \<longleftrightarrow> q \<in> set QUALITY \<and> (if v = None then q = ''unavailable'' else True)"
  by (simp add: tunnel_metric_def honest_Metric)

lemma tunnel_process_honest: "list_all honest ms \<Longrightarrow> honest (tunnel_process_metric tn ms spec)"
proof -
  assume ms: "list_all honest ms"
  have "honest m" if "map_of (dict_of (map (\<lambda>m. (m_name m, m)) ms)) name = Some m" for name m
  proof -
    have "m \<in> set ms" using that map_of_SomeD [of "rev (map (\<lambda>m. (m_name m, m)) ms)" name m] by (auto simp: map_of_dict_of)
    then show ?thesis using ms by (simp add: list_all_iff)
  qed
  then show ?thesis
    by (auto simp: tunnel_process_metric_def tunnel_metric_def honest_def Metric_def QUALITY_def split: prod.split option.split)
qed

lemma listener_change: "runs J X (\<lambda>_. True) (listener_change S tn t' ownership)"
  unfolding listener_change_def Let_def
  by (auto intro!: runs_ret runs_bind [OF runs_json_state] runs_seq [OF save_json] simp: PROTECTED_KEYS_def split: option.split)

lemma tunnel_body:
  assumes "list_all (\<lambda>f. list_all honest (sf_metrics (snd f))) facts"
  shows "runs J True honest_metrics_of (tunnel_body S t full facts tn)"
proof -
  have known: "list_all honest (sf_metrics (dict_get facts name NO_FACTS))" for name
    using assms map_of_SomeD [of facts name] by (fastforce simp: dict_get_def NO_FACTS_def list_all_iff split: option.split)
  have stored_tunnel: "runs J True (\<lambda>_. True) (on_store (upsert_tunnel (cs_dumps S) tn t))"
    by (rule runs_on_store) (rule keeps_tunnel)
  have stored_sample: "runs J True (\<lambda>_. True) (on_store (insert_sample sample (Some t)))" if "sm_ts sample = t" for sample
    by (rule runs_on_store) (rule keeps_sample [OF _ that])
  have restarts: "runs J True (\<lambda>_. True) (liftR (restarts_of props))" for props by (rule runs_liftR) (simp split: sum.split)
  show ?thesis
    unfolding tunnel_body_def Let_def
    by (intro runs_seq [OF stored_tunnel] runs_bind [OF runs_captured] runs_bind [OF restarts]
        runs_seq [OF stored_sample] runs_bind [OF remote_metric] runs_bind [OF listener_change] runs_ret)
      (use known in \<open>auto simp: configured_listeners_def configured_targets_def configured_endpoint_def QUALITY_def or_else_def
          list_all_iff tunnel_process_honest\<close>)
qed

lemma tunnels:
  assumes "list_all (\<lambda>f. list_all honest (sf_metrics (snd f))) facts"
  shows "runs J X (\<lambda>r. honest_metrics_of (fst r)) (tunnel_steps S t full facts tns)"
proof (induction tns)
  case (Cons tn tns)
  have missing: "list_all honest (tunnel_unavailable tn)"
    by (simp add: tunnel_unavailable_def configured_listeners_def configured_targets_def configured_endpoint_def QUALITY_def or_else_def)
  have step: "runs J X (\<lambda>r. honest_metrics_of (fst r)) (tunnel_step S t full facts tn)"
    unfolding tunnel_step_def
    by (intro runs_savepoint runs_bind [OF tunnel_body [OF assms]] runs_seq [OF runs_set_true] runs_seq [OF runs_record_error] runs_ret)
      (simp_all add: missing)
  show ?case by (auto intro!: runs_bind [OF step] runs_bind [OF Cons.IH] runs_ret)
qed (simp add: runs_ret)

lemma services_and_tunnels:
  "runs J X (\<lambda>r. honest_metrics_of (fst r)) (service_and_tunnel_metrics S cfg tns names monotonic t full slow_due)"
  unfolding service_and_tunnel_metrics_def
  by (auto intro!: runs_bind [OF services] runs_bind [OF tunnels] runs_ret)

end

end
