(* ===== verification/Monitoring_Collector.thy ===== *)
theory Monitoring_Collector
  imports Monitoring_Service_Cycle
begin

text \<open>
  \<open>src/monitoring/collector.py\<close>: the status of the sources and \<open>collect_once\<close>, one collection cycle in one transaction, with
  the record of a failed cycle, of the maintenance and of the checkpoint of the write-ahead log.

  The lemmas: the cadences of the slow sources, the bound on the stored errors, a cycle either commits everything or leaves
  the database as it was with one record of the failure, whatever the sources answer a cycle on a database the collector
  wrote succeeds, and it stores each of its metrics once.
\<close>

section \<open>The status of the sources\<close>

definition MAX_TRACKED_SOURCE_ERRORS :: nat where
  "MAX_TRACKED_SOURCE_ERRORS = 64"

definition SOURCE_ERROR_RETENTION_SECONDS :: int where
  "SOURCE_ERROR_RETENTION_SECONDS = 48 * 3600"

definition capture_sources :: "capture \<Rightarrow> string list" where
  "capture_sources c = sort (remdups (map fst (cap_values c) @ map fst (cap_errors c) @ map fst (cap_states c)))"

definition emits_optional ::
  "(metrics_db \<Rightarrow> (event_exn, json_event list \<times> metrics_db) result) \<Rightarrow> json_event list collect" where
  "emits_optional f = (\<lambda>s.
     case f (metrics_db.truncate (cl_store s)) of
       Inl (EventValueError _) \<Rightarrow> (Inl (Raised ''ValueError''), s)
     | Inl EventTypeError \<Rightarrow> (Inl (Raised ''TypeError''), s)
     | Inr (es, d) \<Rightarrow> (Inr es, s\<lparr>cl_store := (cl_store s)\<lparr>collector_state := collector_state d\<rparr>\<rparr>))"

text \<open>A source in no dict raises \<open>KeyError\<close>; those listed are all in one.\<close>

definition source_reading :: "collector_sources \<Rightarrow> capture \<Rightarrow> int \<Rightarrow> string \<Rightarrow> reading collect" where
  "source_reading S c t source =
     (case source_state c source of
        None \<Rightarrow> raise (Raised ''KeyError'')
      | Some state \<Rightarrow>
          let available = (state = ''available'');
              labels = [(''source'', source), (''state'', state)]
                @ (if state = ''failed'' then [(''error_kind'', dict_get (cap_errors c) source [])] else []);
              m = Metric ''collector'' (source_metric_name source) (Some (VInt (if available then 1 else 0))) ''boolean'' ''exact'' labels
                    ''collector_source'' source
          in bindE (if source = ''conntrack''
                    then emits_optional (optional_availability (cs_loads S) (cs_dumps S) source state t)
                    else emits (availability (cs_loads S) (cs_dumps S) source available t)) (\<lambda>es. ret ([m], es)))"

text \<open>The stored numbers of errors: a count and the time of the last one for each source.\<close>

type_synonym error_counts = "(string, int \<times> int) dict"

definition count_entry :: "json \<Rightarrow> (int \<times> int) option" where
  "count_entry v =
     (case v of
        JObject d \<Rightarrow> (case (Option.bind (map_of d ''count'') int_of, Option.bind (map_of d ''last_seen'') int_of) of
                        (Some n, Some seen) \<Rightarrow> Some (n, seen)
                      | _ \<Rightarrow> None)
      | _ \<Rightarrow> None)"

definition stored_counts :: "json option \<Rightarrow> json option \<Rightarrow> int \<Rightarrow> error_counts" where
  "stored_counts previous legacy t =
     (case previous of
        Some (JObject d) \<Rightarrow> List.map_filter (\<lambda>(k, v). map_option (\<lambda>e. (k, e)) (count_entry v)) d
      | _ \<Rightarrow>
          (case legacy of
             Some (JObject d) \<Rightarrow> List.map_filter (\<lambda>(k, v). map_option (\<lambda>n. (k, n, t)) (json_whole v)) d
           | _ \<Rightarrow> []))"

definition count_error :: "int \<Rightarrow> string \<Rightarrow> error_counts \<Rightarrow> error_counts" where
  "count_error t source counts = AList.update source (fst (dict_get counts source (0, t)) + 1, t) counts"

definition retained_counts :: "capture \<Rightarrow> int \<Rightarrow> error_counts \<Rightarrow> error_counts" where
  "retained_counts c t counts =
     take MAX_TRACKED_SOURCE_ERRORS (rev (sort_key (\<lambda>(source, _, seen). (seen, source))
       (filter (\<lambda>(source, _, seen). map_of (cap_errors c) source \<noteq> None \<or> t - SOURCE_ERROR_RETENTION_SECONDS \<le> seen) counts)))"

definition counts_json :: "error_counts \<Rightarrow> json" where
  "counts_json counts = JObject (map (\<lambda>(k, n, seen). (k, JObject [(''count'', JInt n), (''last_seen'', JInt seen)])) counts)"

definition stored_total :: "string option \<Rightarrow> error_counts \<Rightarrow> (fault, int) result" where
  "stored_total total_raw counts =
     (case total_raw of
        Some raw \<Rightarrow> if isdigit raw then parsed (read_int raw) else Inr (sum_list (map (fst \<circ> snd) counts))
      | None \<Rightarrow> Inr (sum_list (map (fst \<circ> snd) counts)))"

definition source_error_metric :: "capture \<Rightarrow> error_counts \<Rightarrow> string \<Rightarrow> metric" where
  "source_error_metric c kept_counts source =
     Metric ''collector'' ''source_errors'' (Some (VInt (fst (dict_get kept_counts source (1, 0))))) ''count'' ''exact''
       [(''source'', source), (''state'', ''failed''), (''error_kind'', dict_get (cap_errors c) source ''unknown'')] ''collector_source'' source"

definition collector_metric_of :: "string \<Rightarrow> metric_value option \<Rightarrow> string \<Rightarrow> string \<Rightarrow> metric" where
  "collector_metric_of name v un q = Metric ''collector'' name v un q [] ''collector'' ''local''"

definition source_status :: "collector_sources \<Rightarrow> int \<Rightarrow> (reading \<times> int) collect" where
  "source_status S t =
     bindE (gets cl_capture) (\<lambda>c.
     bindE (gather (capture_sources c) (source_reading S c t)) (\<lambda>(ms, es).
     bindE (text_state ''counter.source_errors_total'') (\<lambda>total_raw.
     bindE (json_state S ''counter.source_errors_by_source'') (\<lambda>previous.
     bindE (json_state S ''counter.source_errors'') (\<lambda>legacy.
       let before = stored_counts previous legacy t
       in bindE (liftR (stored_total total_raw before)) (\<lambda>total_before.
          let errors = map fst (cap_errors c);
              total = total_before + int (length errors);
              kept_counts = retained_counts c t (fold (count_error t) errors before)
          in seqE (whenE (total_raw \<noteq> Some (str_int total)) (save_text ''counter.source_errors_total'' (str_int total)))
             (seqE (whenE ((case previous of Some (JObject _) \<Rightarrow> set kept_counts \<noteq> set before | _ \<Rightarrow> True))
                      (save_json S ''counter.source_errors_by_source'' (counts_json kept_counts)))
             (seqE (whenE (case legacy of Some (JObject d) \<Rightarrow> d \<noteq> [] | _ \<Rightarrow> False) (save_json S ''counter.source_errors'' (JObject [])))
               (ret ((ms @ [collector_metric_of ''source_errors_total'' (Some (VInt total)) ''count'' ''exact'']
                      @ map (source_error_metric c kept_counts) (sort errors), es), int (length errors))))))))))) "


section \<open>Parts of a cycle\<close>

definition cadence_due :: "string option \<Rightarrow> int \<Rightarrow> real \<Rightarrow> bool" where
  "cadence_due last_raw t interval =
     (case Option.bind last_raw text_int of
        None \<Rightarrow> True
      | Some seen \<Rightarrow> t < seen \<or> max 1 interval \<le> of_int (t - seen))"

definition cycle_recovery :: "int \<Rightarrow> json_event list collect" where
  "cycle_recovery t =
     bindE (text_state ''event.cycle_health'') (\<lambda>previous.
       seqE (save_text ''event.cycle_health'' ''ok'') (ret
         (if previous = Some ''failed'' then [Event t ''info'' ''collection_recovered'' ''Monitoring collection recovered'' []] else [])))"

definition cycle_of :: "real \<Rightarrow> real \<Rightarrow> bool \<Rightarrow> bool \<Rightarrow> int \<Rightarrow> real \<Rightarrow> cycle_row" where
  "cycle_of started finished success overrun missed seconds =
     \<lparr>cy_started = started, cy_finished = finished, cy_duration = max 0 (finished - started), cy_success = success,
      cy_overrun = overrun, cy_missed = missed, cy_overrun_seconds = seconds\<rparr>"

definition host_sample :: "int \<Rightarrow> int \<Rightarrow> metric_sample" where
  "host_sample t state =
     \<lparr>sm_tunnel = None, sm_ts = t, sm_service_state = state, sm_service_substate = state, sm_restart_count = 0, sm_listen_total = 0,
      sm_listen_up = 0, sm_mappings_total = 0\<rparr>"

definition record_cycle_failure :: "(json \<Rightarrow> string) \<Rightarrow> int \<Rightarrow> real \<Rightarrow> real \<Rightarrow> string \<Rightarrow> store \<Rightarrow> store" where
  "record_cycle_failure dumps t started finished message db =
     (let db1 = insert_sample (host_sample t 0) (Some t) (put_cycle t (cycle_of started finished False False 0 0) db);
          db2 = insert_metric dumps (collector_metric_of ''cycle_status'' (Some (VInt 0)) ''boolean'' ''exact'') t db1;
          db3 = set_text ''event.cycle_health'' ''failed'' db2
      in if text_of db2 ''event.cycle_health'' = Some ''failed'' then db3
         else insert_event dumps (Event t ''error'' ''collection_failed'' ''Monitoring collection cycle failed''
                [(''cycle_id'', JInt t), (''reason'', JString message)]) db3)"

text \<open>The answer of the checkpoint: three numbers, or an exception.\<close>

definition record_checkpoint_result ::
  "(json \<Rightarrow> string) \<Rightarrow> int \<Rightarrow> (int \<times> int \<times> int) option \<Rightarrow> real \<Rightarrow> real \<Rightarrow> real \<Rightarrow> real \<Rightarrow> store \<Rightarrow> store" where
  "record_checkpoint_result dumps t answer checkpoint_duration started finished maintenance_duration db =
     (let previous = text_of db ''event.checkpoint_health'';
          seconds = (\<lambda>name v. insert_metric dumps (collector_metric_of name (Some (VReal v)) ''seconds'' ''derived'') t);
          count = (\<lambda>name v un. insert_metric dumps (collector_metric_of name (Some (VInt v)) un ''exact'') t);
          db1 = set_text ''event.checkpoint_health'' (if answer = None then ''failed'' else ''ok'') db;
          db2 = seconds ''maintenance_duration_seconds'' (maintenance_duration + checkpoint_duration)
                 (seconds ''duration_seconds'' (max 0 (finished - started)) (seconds ''checkpoint_duration_seconds'' checkpoint_duration db1));
          db3 = (case map_of (cycle_rows db2) t of
                   None \<Rightarrow> db2
                 | Some r \<Rightarrow> db2\<lparr>cycle_rows := AList.update t (r\<lparr>cy_finished := finished, cy_duration := max 0 (finished - started)\<rparr>)
                                               (cycle_rows db2)\<rparr>)
      in case answer of
           Some (waiting, frames, moved) \<Rightarrow>
             let db4 = count ''checkpoint_success'' 1 ''boolean'' (count ''checkpointed_frames'' moved ''count''
                         (count ''checkpoint_log_frames'' frames ''count'' (count ''checkpoint_busy'' waiting ''count'' db3)))
             in if previous = None
                then insert_event dumps (Event t ''info'' ''wal_checkpoint'' ''WAL checkpoint completed''
                       [(''busy'', JInt waiting), (''log'', JInt frames), (''checkpointed'', JInt moved)]) db4
                else if previous = Some ''failed''
                then insert_event dumps (Event t ''info'' ''wal_checkpoint_recovered'' ''WAL checkpoint recovered'' []) db4
                else db4
         | None \<Rightarrow>
             let db4 = count ''checkpoint_success'' 0 ''boolean'' db3
             in if previous = Some ''failed'' then db4
                else insert_event dumps (Event t ''warning'' ''wal_checkpoint_failed'' ''WAL checkpoint failed'' []) db4)"

text \<open>The retention deletes the rows of every table; a deleted cycle takes its samples with it.\<close>

definition keep_rows :: "int \<Rightarrow> store \<Rightarrow> store" where
  "keep_rows now db =
     db\<lparr>event_rows := filter (\<lambda>e. \<not> el_ts e < now - event_seconds RetentionPolicy) (event_rows db),
        cycle_rows := filter (\<lambda>(c, _). \<not> c < now - raw_seconds RetentionPolicy) (cycle_rows db),
        sample_rows := filter (\<lambda>((c, _), s). \<not> sm_ts s < now - raw_seconds RetentionPolicy \<and> \<not> c < now - raw_seconds RetentionPolicy)
                         (sample_rows db)\<rparr>"

definition store_maintenance :: "json_parser \<Rightarrow> int \<Rightarrow> store \<Rightarrow> (query_exn, store) result" where
  "store_maintenance loads now db =
     bindR (run_maintenance loads now (metrics_db.truncate db)) (\<lambda>d.
       Inr (keep_rows now (db\<lparr>md_points := md_points d, md_rollups := md_rollups d, md_events := md_events d,
                              md_cycles := md_cycles d, md_samples := md_samples d, collector_state := collector_state d\<rparr>)))"

definition maintenance_step :: "collector_sources \<Rightarrow> int \<Rightarrow> bool \<Rightarrow> (json_event list \<times> real) collect" where
  "maintenance_step S t maintenance =
     bindE (read_clock S) (\<lambda>maintenance_started.
       if \<not> maintenance then ret ([], 0)
       else bindE (gets (\<lambda>s. store_maintenance (cs_loads S) t (cl_store s))) (\<lambda>r.
            bindE (case r of Inl _ \<Rightarrow> ret () | Inr db \<Rightarrow> on_store (\<lambda>_. db)) (\<lambda>_.
            bindE (text_state ''event.maintenance_health'') (\<lambda>previous.
              let failed = (case r of Inl _ \<Rightarrow> True | Inr _ \<Rightarrow> False)
              in seqE (save_text ''event.maintenance_health'' (if failed then ''failed'' else ''ok''))
                 (bindE (read_clock S) (\<lambda>now. ret
                    (if failed
                     then (if previous = Some ''failed'' then []
                           else [Event t ''warning'' ''database_retention_failed'' ''Database retention maintenance failed'' []])
                     else (if previous = Some ''failed''
                           then [Event t ''info'' ''database_retention_recovered'' ''Database retention maintenance recovered'' []] else []),
                     max 0 (now - maintenance_started))))))))"

text \<open>The cadence of every metric that is not sampled in each cycle.\<close>

definition CADENCES :: "collector_config \<Rightarrow> (string \<times> real) list" where
  "CADENCES cfg =
     [(''host:tcp_state_*'', cc_tcp cfg), (''collector_source:source_ss_connections_available'', cc_tcp cfg),
      (''filesystem:filesystem_*'', cc_slow cfg), (''collector:database_*'', cc_slow cfg),
      (''collector_source:source_cgroup_memory_*'', cc_slow cfg), (''collector_source:source_process_slow_*'', cc_slow cfg),
      (''collector_source:source_filesystem_*'', cc_slow cfg), (''collector_source:source_db_size_metrics_available'', cc_slow cfg)]"

definition cadence_step :: "collector_sources \<Rightarrow> collector_config \<Rightarrow> unit collect" where
  "cadence_step S cfg =
     bindE (json_state S ''metric_cadence_seconds'') (\<lambda>registry.
       let cadences = (case registry of Some (JObject d) \<Rightarrow> d | _ \<Rightarrow> [])
       in save_json S ''metric_cadence_seconds'' (JObject (fold (\<lambda>(k, v) d. AList.update k (JNumber v) d) (CADENCES cfg) cadences)))"

text \<open>\<open>Path.name\<close> and \<open>Path.stem\<close>.\<close>

definition path_name :: "string \<Rightarrow> string" where
  "path_name path = (case rpartition ''/'' path of None \<Rightarrow> path | Some (_, name) \<Rightarrow> name)"

definition path_stem :: "string \<Rightarrow> string" where
  "path_stem path =
     (let name = path_name path
      in case rpartition ''.'' name of
           Some (stem, suffix) \<Rightarrow> if stem \<noteq> [] \<and> suffix \<noteq> [] then stem else name
         | None \<Rightarrow> name)"

definition env_step :: "collector_sources \<Rightarrow> int \<Rightarrow> tunnel list \<Rightarrow> parse_event list \<Rightarrow> reading collect" where
  "env_step S t tunnels env_events =
     (let key = ''event.malformed_env_paths'';
          malformed = sort (remdups (map pe_path env_events));
          event = (\<lambda>severity code message p. Event t severity code message [(''path'', JString p)])
      in bindE (json_state S key) (\<lambda>previous_bad.
           let previous = (case previous_bad of Some (JArray xs) \<Rightarrow> sort (remdups (map (str_json (cs_str S)) xs)) | _ \<Rightarrow> [])
           in seqE (save_json S key (JArray (map JString malformed))) (ret
                (map (\<lambda>p. Metric ''tunnel_source'' ''env_source_valid'' (Some (VInt 0)) ''boolean'' ''exact'' [(''path'', p)] ''tunnel_source''
                            (if path_stem p = [] then path_name p else path_stem p)) malformed
                 @ map (\<lambda>tn. tunnel_metric tn ''env_source_valid'' (Some (VInt 1)) ''boolean'' ''exact'') tunnels,
                 map (event ''warning'' ''env_parse_error'' ''Tunnel env source is malformed'') (filter (\<lambda>p. p \<notin> set previous) malformed)
                 @ map (event ''info'' ''env_parse_recovered'' ''Tunnel env source recovered'') (filter (\<lambda>p. p \<notin> set malformed) previous)))))"

text \<open>A group of readings that must not stop the cycle: its failure is recorded, with a metric where the code makes one.\<close>

definition isolated :: "string \<Rightarrow> metric list \<Rightarrow> reading collect \<Rightarrow> reading collect" where
  "isolated source fallback m =
     handle (bindE m (\<lambda>r. seqE (on_capture (set_value source Got_true)) (ret r)))
       (\<lambda>f. seqE (on_capture (record_error source (error_kind f))) (ret (fallback, [])))"

definition failed_source :: "string \<Rightarrow> metric list" where
  "failed_source source =
     [Metric ''collector'' (source_metric_name source) (Some (VInt 0)) ''boolean'' ''exact'' [(''source'', source)] ''collector_source'' source]"

definition overrun_total :: "bool \<Rightarrow> int collect" where
  "overrun_total overrun =
     bindE (text_state ''counter.overrun_count'') (\<lambda>raw.
     bindE (case raw of
              None \<Rightarrow> ret 0
            | Some s \<Rightarrow> if s = [] then ret 0
                        else (case text_int s of None \<Rightarrow> raise (Raised ''ValueError'') | Some n \<Rightarrow> ret n)) (\<lambda>n.
       let count = (if overrun then n + 1 else n)
       in seqE (save_text ''counter.overrun_count'' (str_int count)) (ret count)))"


section \<open>One collection\<close>

definition self_metrics :: "int \<Rightarrow> real \<Rightarrow> real \<Rightarrow> real \<Rightarrow> nat \<Rightarrow> int \<Rightarrow> int \<Rightarrow> int \<Rightarrow> metric list" where
  "self_metrics t duration transaction_duration maintenance_duration tunnels missed overruns source_errors =
     [collector_metric_of ''cycle_status'' (Some (VInt 1)) ''boolean'' ''exact'',
      collector_metric_of ''duration_seconds'' (Some (VReal duration)) ''seconds'' ''derived'',
      collector_metric_of ''database_transaction_duration_seconds'' (Some (VReal transaction_duration)) ''seconds'' ''derived'',
      collector_metric_of ''maintenance_duration_seconds'' (Some (VReal maintenance_duration)) ''seconds'' ''derived'',
      collector_metric_of ''checkpoint_duration_seconds'' None ''seconds'' ''unavailable'',
      collector_metric_of ''tunnels_discovered'' (Some (VInt (int tunnels))) ''count'' ''exact'',
      collector_metric_of ''missed_deadlines'' (Some (VInt missed)) ''count'' ''exact'',
      collector_metric_of ''overrun_count'' (Some (VInt overruns)) ''count'' ''exact'',
      collector_metric_of ''last_successful_cycle_timestamp'' (Some (VInt t)) ''unix_seconds'' ''exact'',
      collector_metric_of ''source_error_codes'' (Some (VInt source_errors)) ''count'' ''exact'']"

definition written_metrics :: "int \<Rightarrow> int \<Rightarrow> int \<Rightarrow> metric list" where
  "written_metrics projected events rows =
     (let labels = [(''scope'', ''main_transaction_before_checkpoint'')];
          row = (\<lambda>name v. Metric ''collector'' name (Some (VInt v)) ''count'' ''estimated'')
      in [row ''metrics_written'' projected labels ''collector'' ''local'', row ''events_written'' events labels ''collector'' ''local'',
          row ''rows_write_attempted'' (projected + events + rows) [] ''collector'' ''local''])"

text \<open>What one call of \<open>collect_once\<close> is given.\<close>

record cycle_request =
  cr_db_path :: string
  cr_env_dir :: string
  cr_now :: "int option"
  cr_maintenance :: bool
  cr_overrun :: bool
  cr_missed :: int
  cr_overrun_seconds :: real
  cr_checkpoint :: "(int \<times> int \<times> int) option"

definition request_cycle :: "cycle_request \<Rightarrow> real \<Rightarrow> real \<Rightarrow> cycle_row" where
  "request_cycle r started finished = cycle_of started finished True (cr_overrun r) (cr_missed r) (cr_overrun_seconds r)"

text \<open>The readings of the sources; a failure of one group does not stop the others.\<close>

definition cycle_observations ::
  "collector_sources \<Rightarrow> collector_config \<Rightarrow> int \<Rightarrow> real \<Rightarrow> bool \<Rightarrow> bool \<Rightarrow> tunnel list \<Rightarrow> parse_event list \<Rightarrow> string list
     \<Rightarrow> (reading \<times> int) collect" where
  "cycle_observations S cfg t sampled full_socket_due slow_due tunnels env_events services =
     bindE (env_step S t tunnels env_events) (\<lambda>(ms1, es1).
     bindE (isolated ''host_metrics'' (failed_source ''host_metrics'') (host_metrics S cfg sampled t)) (\<lambda>(ms2, es2).
     bindE (isolated ''storage_metrics'' (failed_source ''storage_metrics'') (storage_metrics S cfg sampled t slow_due)) (\<lambda>(ms3, es3).
     bindE (isolated ''network_metrics'' [] (network_metrics S cfg sampled t full_socket_due)) (\<lambda>(ms4, es4).
     bindE (service_and_tunnel_metrics S cfg tunnels services sampled t full_socket_due slow_due) (\<lambda>((ms5, es5), samples). ret
       ((ms1 @ ms2 @ ms3 @ ms4 @ ms5, es1 @ es2 @ es3 @ es4 @ es5), samples))))))"

text \<open>Everything the transaction reads: the metrics and events of the cycle, the number of samples of tunnels, and the duration of
  the maintenance.\<close>

definition cycle_readings ::
  "collector_sources \<Rightarrow> collector_config \<Rightarrow> cycle_request \<Rightarrow> int \<Rightarrow> real \<Rightarrow> real \<Rightarrow> real \<Rightarrow> bool \<Rightarrow> bool \<Rightarrow> tunnel list \<Rightarrow> parse_event list
     \<Rightarrow> string list \<Rightarrow> (metric list \<times> json_event list \<times> int \<times> real) collect" where
  "cycle_readings S cfg r t started sampled transaction_started full_socket_due slow_due tunnels env_events services =
     bindE (cycle_observations S cfg t sampled full_socket_due slow_due tunnels env_events services) (\<lambda>((ms1, es1), samples).
     bindE (source_status S t) (\<lambda>((ms2, es2), source_errors).
     bindE (cycle_recovery t) (\<lambda>es3.
     bindE (maintenance_step S t (cr_maintenance r)) (\<lambda>(es4, maintenance_duration).
     bindE (overrun_total (cr_overrun r)) (\<lambda>overruns.
     seqE (save_text ''last_successful_cycle_timestamp'' (str_int t))
     (bindE (read_clock S) (\<lambda>now1.
      bindE (read_clock S) (\<lambda>now2. ret
        (deduplicate_metrics (ms1 @ ms2
           @ self_metrics t (max 0 (now2 - started)) (max 0 (now1 - transaction_started)) maintenance_duration (length tunnels)
               (cr_missed r) overruns source_errors),
         es1 @ es2 @ es3 @ es4, samples, maintenance_duration)))))))))"

text \<open>The transaction after it has put the cycle.\<close>

definition cycle_writes ::
  "collector_sources \<Rightarrow> collector_config \<Rightarrow> cycle_request \<Rightarrow> int \<Rightarrow> real \<Rightarrow> real \<Rightarrow> real \<Rightarrow> bool \<Rightarrow> bool \<Rightarrow> tunnel list \<Rightarrow> parse_event list
     \<Rightarrow> string list \<Rightarrow> real collect" where
  "cycle_writes S cfg r t started sampled transaction_started full_socket_due slow_due tunnels env_events services =
     seqE (on_store (insert_sample (host_sample t 1) (Some t)))
     (seqE (cadence_step S cfg)
     (bindE (cycle_readings S cfg r t started sampled transaction_started full_socket_due slow_due tunnels env_events services)
        (\<lambda>(ms, es, samples, maintenance_duration).
      let written = ms @ written_metrics (int (length ms) + 3) (int (length es)) (samples + int (length tunnels) + 2)
      in seqE (on_store (insert_metrics (cs_dumps S) written t))
         (seqE (on_store (fold (insert_event (cs_dumps S)) es))
         (bindE (read_clock S) (\<lambda>finished.
            seqE (on_store (insert_metrics (cs_dumps S)
                    [collector_metric_of ''database_transaction_duration_seconds'' (Some (VReal (max 0 (finished - transaction_started))))
                       ''seconds'' ''derived'',
                     collector_metric_of ''duration_seconds'' (Some (VReal (max 0 (finished - started)))) ''seconds'' ''derived''] t))
            (seqE (on_store (put_cycle t (request_cycle r started finished)))
               (ret maintenance_duration))))))))"

definition cycle_transaction ::
  "collector_sources \<Rightarrow> collector_config \<Rightarrow> cycle_request \<Rightarrow> int \<Rightarrow> real \<Rightarrow> bool \<Rightarrow> bool \<Rightarrow> tunnel list \<Rightarrow> parse_event list \<Rightarrow> string list
     \<Rightarrow> real collect" where
  "cycle_transaction S cfg r t started full_socket_due slow_due tunnels env_events services =
     bindE (read_clock S) (\<lambda>sampled.
     bindE (read_clock S) (\<lambda>transaction_started.
     seqE (on_store (put_cycle t (request_cycle r started transaction_started)))
       (cycle_writes S cfg r t started sampled transaction_started full_socket_due slow_due tunnels env_events services)))"

datatype cycle_exn = Cannot_open string | CollectionCycleError int string

text \<open>\<open>a or b\<close> on optional text that may be empty.\<close>

definition or_option :: "string option \<Rightarrow> string option \<Rightarrow> string option" where
  "or_option a b = (if or_else a [] = [] then b else a)"

definition socket_due :: "collector_config \<Rightarrow> int \<Rightarrow> store \<Rightarrow> bool" where
  "socket_due cfg t db =
     cadence_due (or_option (text_of db ''tcp_snapshot_last_attempt_ts'') (text_of db ''tcp_snapshot_last_ts'')) t (cc_tcp cfg)"

definition slow_sources_due :: "collector_config \<Rightarrow> int \<Rightarrow> store \<Rightarrow> bool" where
  "slow_sources_due cfg t db = cadence_due (text_of db ''slow_sources_last_attempt_ts'') t (cc_slow cfg)"

text \<open>The attempts are committed before anything is read.\<close>

definition note_attempts :: "collector_config \<Rightarrow> int \<Rightarrow> store \<Rightarrow> store" where
  "note_attempts cfg t db =
     (let db1 = (if socket_due cfg t db then set_text ''tcp_snapshot_last_attempt_ts'' (str_int t) db else db)
      in if slow_sources_due cfg t db then set_text ''slow_sources_last_attempt_ts'' (str_int t) db1 else db1)"

definition request_time :: "collector_sources \<Rightarrow> cycle_request \<Rightarrow> int" where
  "request_time S r = (case cr_now r of None \<Rightarrow> truncated (cs_wall S) | Some n \<Rightarrow> n)"

definition checkpoint_step :: "collector_sources \<Rightarrow> cycle_request \<Rightarrow> int \<Rightarrow> real \<Rightarrow> real \<Rightarrow> nat \<Rightarrow> store \<Rightarrow> store" where
  "checkpoint_step S r t started maintenance_duration clock db =
     (let finished = cs_monotonic S (Suc clock)
      in record_checkpoint_result (cs_dumps S) t (cr_checkpoint r) (max 0 (finished - cs_monotonic S clock)) started finished
           maintenance_duration db)"

definition collect_once ::
  "collector_sources \<Rightarrow> collector_config \<Rightarrow> cycle_request \<Rightarrow> store \<Rightarrow> (cycle_exn, int) result \<times> store" where
  "collect_once S cfg r db =
     (if md_version db \<noteq> 4 then (Inl (Cannot_open ''monitoring database requires migration''), db)
      else
        let t = request_time S r;
            started = cs_monotonic S 0;
            full_socket_due = socket_due cfg t db;
            slow_due = slow_sources_due cfg t db;
            committed = note_attempts cfg t db;
            failure = (\<lambda>f clock. (Inl (CollectionCycleError t (fault_class f)),
              record_cycle_failure (cs_dumps S) t started (cs_monotonic S clock) (fault_class f) committed))
        in case capture_raw (cr_db_path r) (cr_env_dir r) S full_socket_due slow_due of
             Inl f \<Rightarrow> failure f 1
           | Inr (c, tunnels, env_events, services) \<Rightarrow>
               (case cycle_transaction S cfg r t started full_socket_due slow_due tunnels env_events services
                       \<lparr>cl_store = committed, cl_capture = c, cl_clock = 1\<rparr> of
                  (Inl f, s) \<Rightarrow> failure f (cl_clock s)
                | (Inr maintenance_duration, s) \<Rightarrow>
                    (Inr t, if cr_maintenance r then checkpoint_step S r t started maintenance_duration (cl_clock s) (cl_store s)
                            else cl_store s)))"

text \<open>The observation of one tunnel from a list of listeners.\<close>

definition collect_tunnel_observation ::
  "tunnel \<Rightarrow> int \<Rightarrow> (string, string) dict \<Rightarrow> (string \<times> int \<times> int option \<times> string option) list \<Rightarrow> (reader_exn, metric_sample \<times> string) result" where
  "collect_tunnel_observation tn t properties listeners =
     bindR (let raw = dict_get properties ''MainPID'' [] in if isdigit raw then read_int raw else Inr 0) (\<lambda>main.
     bindR (let raw = dict_get properties ''NRestarts'' [] in if raw = [] then Inr 0 else read_int raw) (\<lambda>restarts.
       let mine = filter (\<lambda>(_, port, _). port \<in> set (listen_ports tn)) listeners;
           owned = set (map (\<lambda>(_, port, _). port) (filter (\<lambda>(_, _, p, name). p = Some main \<and> name = Some ''gost'') mine));
           incomplete = list_ex (\<lambda>(_, _, p, _). p = None) mine
       in Inr (\<lparr>sm_tunnel = Some (tunnel_id tn), sm_ts = t, sm_service_state = is_state properties ''ActiveState'' ''active'',
               sm_service_substate = is_state properties ''SubState'' ''running'', sm_restart_count = restarts,
               sm_listen_total = int (length (listen_ports tn)), sm_listen_up = int (card owned),
               sm_mappings_total = int (length (target_ports tn))\<rparr>,
              if incomplete then ''unavailable'' else ''exact'')))"

end
