(* ===== verification/Monitoring_Carryover.thy ===== *)
theory Monitoring_Carryover
  imports Monitoring_Service_Cycle
begin

text \<open>
  What a cycle of \<open>src/monitoring/collector.py\<close> keeps for the next one and what it drops: the counters it stores as JSON are
  read back as they were, values of processes are carried over only for the same processes, and of the metrics of one series
  only the best one is kept.
\<close>

section \<open>Counters\<close>

lemma truncated_int [simp]: "Monitoring_Capture.truncated (of_int i) = i"
  by (simp add: truncated_def)

lemma int_of_number [simp]: "int_of (JInt i) = Some i" "json_int (JInt i) = Inr i"
  by (simp_all add: int_of_def json_int_def)

lemma map_filter_read_back:
  "(\<And>c. con (enc c) = Some c) \<Longrightarrow> List.map_filter (\<lambda>(n, raw). map_option (\<lambda>c. (n, c)) (con raw)) (map (\<lambda>(n, c). (n, enc c)) d) = d"
  by (induction d) (simp_all add: List.map_filter_def split_beta)

lemma interface_read_back: "interface_from to_str (interface_json i) = Some i"
  by (simp add: interface_from_def interface_json_def named_ints_def json_ints_def INTERFACE_KEYS_def str_json_def)

lemma disk_read_back: "disk_from to_str (disk_json d) = Some d"
  by (simp add: disk_from_def disk_json_def named_ints_def json_ints_def DISK_KEYS_def str_json_def)

lemma identity_read_back: "those (map identity_item (map (\<lambda>(p, s). JArray [JInt p, JInt s]) ps)) = Some ps"
  by (induction ps) (auto simp: identity_item_def)

lemma optional_read_back: "map_of d k = Some (json_of_option v) \<Longrightarrow> optional_field d k = Some v"
  by (cases v) (simp_all add: optional_field_def cached_field_def json_of_option_def bindR_def)

lemma process_read_back: "service_process_from_state (Some (process_json sn)) = Some sn"
  by (simp add: service_process_from_state_def process_json_def identity_json_def identity_read_back [unfolded map_map] identity_read_back
      optional_read_back slow_fields_def)



section \<open>Values of processes\<close>

definition carried_over :: "service_process_snapshot \<Rightarrow> service_process_snapshot \<Rightarrow> service_process_snapshot" where
  "carried_over old new =
     new\<lparr>sp_rss_anon_bytes := sp_rss_anon_bytes old, sp_rss_file_bytes := sp_rss_file_bytes old, sp_fd_count := sp_fd_count old,
         sp_fd_soft_limit := sp_fd_soft_limit old, sp_fd_hard_limit := sp_fd_hard_limit old\<rparr>"

definition slow_cache :: "service_process_snapshot \<Rightarrow> json" where
  "slow_cache sn =
     JObject [(''identity'', identity_json (sp_identity sn)), (''values'', JObject (map (\<lambda>(k, v). (k, json_of_option v)) (slow_fields sn)))]"

lemma identity_json_inj: "json_eq (identity_json a) (identity_json b) \<longleftrightarrow> a = b"
proof -
  have "map comparable (map (\<lambda>(p, s). JArray [JInt p, JInt s]) a) = map comparable (map (\<lambda>(p, s). JArray [JInt p, JInt s]) b) \<longleftrightarrow> a = b"
  proof (induction a arbitrary: b)
    case (Cons x a)
    then show ?case by (cases b) (auto split: prod.splits)
  qed auto
  then show ?thesis by (simp add: json_eq_def identity_json_def)
qed

lemma cached_field_read_back: "map_of d k = Some (json_of_option v) \<Longrightarrow> cached_field d k = Inr v"
  by (cases v) (simp_all add: cached_field_def json_of_option_def bindR_def)

lemma fields_read_back:
  "mapR (\<lambda>(k, _). cached_field (map (\<lambda>(k, v). (k, json_of_option v)) (slow_fields old)) k) (slow_fields new)
     = Inr [sp_rss_anon_bytes old, sp_rss_file_bytes old, sp_fd_count old, sp_fd_soft_limit old, sp_fd_hard_limit old]"
  by (simp add: slow_fields_def cached_field_read_back bindR_def)

text \<open>C21: the memory and descriptor values that are read only now and then are never those of other processes: a cycle that does
  not read them reports the values of the last complete reading, as estimated, exactly when the processes are the same (by number
  and start time), and reports them as unavailable otherwise, and it changes nothing it keeps.\<close>

theorem slow_values_of_same_processes:
  assumes "cs_loads S (cs_dumps S (slow_cache old)) = Some (slow_cache old)"
    and "process_slow_values S service old True True authoritative s = (result, s1)"
  shows "result = Inr (old, if authoritative then ''exact'' else ''estimated'')
    \<and> process_slow_values S service new False full trusted s1
        = (Inr (if sp_identity new = sp_identity old then (carried_over old new, ''estimated'') else (new, ''unavailable'')), s1)"
proof -
  have first: "result = Inr (old, if authoritative then ''exact'' else ''estimated'')"
    "s1 = s\<lparr>cl_store := set_text (''process_slow_cache.service.'' @ service) (cs_dumps S (slow_cache old)) (cl_store s)\<rparr>"
    using assms(2)
    by (simp_all add: process_slow_values_def Let_def seqE_def bindE_def save_json_def save_text_def on_store_def modify_def ret_def slow_cache_def)
  have cached: "get_json_state (cs_loads S) (metrics_db.truncate (cl_store s1)) (''process_slow_cache.service.'' @ service) = Some (slow_cache old)"
    using assms(1) by (simp add: first(2) get_json_state_def get_state_def set_text_def metrics_db.defs update_conv')
  have same: "cached_for [(''identity'', identity_json (sp_identity new))] (Some (slow_cache old))
      = (if sp_identity new = sp_identity old
         then Some [(''identity'', identity_json (sp_identity old)), (''values'', JObject (map (\<lambda>(k, v). (k, json_of_option v)) (slow_fields old)))]
         else None)"
    using identity_json_inj by (auto simp: cached_for_def slow_cache_def)
  have read: "bindE (json_state S (''process_slow_cache.service.'' @ service)) f s1 = f (Some (slow_cache old)) s1"
    for f :: "json option \<Rightarrow> (service_process_snapshot \<times> string) collect"
    using cached by (simp add: bindE_def json_state_def gets_def)
  have "process_slow_values S service new False full trusted s1
      = (Inr (if sp_identity new = sp_identity old then (carried_over old new, ''estimated'') else (new, ''unavailable'')), s1)"
    unfolding process_slow_values_def Let_def if_False read same
    by (simp add: ret_def bindE_def liftR_def fields_read_back carried_over_def)
  then show ?thesis using first(1) by simp
qed

definition sample_processes :: service_process_snapshot where
  "sample_processes =
     \<lparr>sp_identity = [(40, 7)], process_count = 1, sp_cpu_ticks = 9, sp_rss_bytes = 4096, sp_rss_anon_bytes = Some 1024,
      sp_rss_file_bytes = Some 3072, sp_threads = 2, sp_fd_count = Some 12, sp_fd_soft_limit = Some 1024, sp_fd_hard_limit = None\<rparr>"



section \<open>One metric for each series\<close>

text \<open>One step of the fold of \<open>deduplicate_metrics\<close>.\<close>

definition prefer_metric :: "metric \<Rightarrow> (series_key, metric) dict \<Rightarrow> (series_key, metric) dict" where
  "prefer_metric m unique =
     (if (case map_of unique (metric_key m) of
            None \<Rightarrow> True | Some previous \<Rightarrow> quality_rank (m_quality m) \<le> quality_rank (m_quality previous))
      then AList.update (metric_key m) m unique else unique)"

lemma deduplicate_fold: "deduplicate_metrics ms = map snd (fold prefer_metric ms [])"
proof -
  have "(\<lambda>m unique. case map_of unique (metric_key m) of
        None \<Rightarrow> AList.update (metric_key m) m unique
      | Some previous \<Rightarrow>
          if quality_rank (m_quality m) \<le> quality_rank (m_quality previous) then AList.update (metric_key m) m unique else unique)
    = prefer_metric"
    by (intro ext) (simp add: prefer_metric_def split: option.split)
  then show ?thesis by (simp only: deduplicate_metrics_def)
qed

lemma update_values: "snd ` set (AList.update k m d) \<subseteq> insert m (snd ` set d)"
  by (induction d) auto

lemma deduplicate_subset: "set (deduplicate_metrics ms) \<subseteq> set ms"
proof -
  have step: "snd ` set (prefer_metric m d) \<subseteq> insert m (snd ` set d)" for m d
    using update_values [of "metric_key m" m d] by (simp add: prefer_metric_def subset_insertI)
  have "snd ` set (fold prefer_metric ms d) \<subseteq> set ms \<union> snd ` set d" for d
  proof (induction ms arbitrary: d)
    case (Cons m ms)
    show ?case using Cons.IH [of "prefer_metric m d"] step [of m d] by (simp only: fold_Cons comp_apply list.set) blast
  qed simp
  from this [of "[]"] show ?thesis by (simp add: deduplicate_fold)
qed

text \<open>The metric a series keeps: none of its metrics has a better quality, and of those as good it is the last one.\<close>

definition best_of :: "metric list \<Rightarrow> metric \<Rightarrow> bool" where
  "best_of ms m \<longleftrightarrow>
     (let rivals = filter (\<lambda>n. metric_key n = metric_key m) ms
      in m \<in> set ms
         \<and> list_all (\<lambda>n. quality_rank (m_quality m) \<le> quality_rank (m_quality n)) rivals
         \<and> m = last (filter (\<lambda>n. quality_rank (m_quality n) = quality_rank (m_quality m)) rivals))"

definition kept_best :: "metric list \<Rightarrow> (series_key, metric) dict \<Rightarrow> bool" where
  "kept_best ms d \<longleftrightarrow> distinct (map fst d)
     \<and> (\<forall>k. case map_of d k of None \<Rightarrow> k \<notin> metric_key ` set ms | Some m \<Rightarrow> metric_key m = k \<and> best_of ms m)"

lemma best_of_other: "metric_key x \<noteq> metric_key m \<Longrightarrow> best_of ms m \<Longrightarrow> best_of (ms @ [x]) m"
  by (simp add: best_of_def Let_def)

lemma best_of_new:
  "list_all (\<lambda>n. quality_rank (m_quality x) \<le> quality_rank (m_quality n)) (filter (\<lambda>n. metric_key n = metric_key x) ms) \<Longrightarrow> best_of (ms @ [x]) x"
  by (simp add: best_of_def Let_def)

lemma best_of_kept:
  "best_of ms m \<Longrightarrow> metric_key x = metric_key m \<Longrightarrow> \<not> quality_rank (m_quality x) \<le> quality_rank (m_quality m) \<Longrightarrow> best_of (ms @ [x]) m"
  by (auto simp: best_of_def Let_def)

lemma kept_bestD:
  assumes "kept_best ms d"
  shows "distinct (map fst d)" "map_of d k = None \<Longrightarrow> k \<notin> metric_key ` set ms"
    "map_of d k = Some m \<Longrightarrow> metric_key m = k" "map_of d k = Some m \<Longrightarrow> best_of ms m"
proof -
  have k: "case map_of d k of None \<Rightarrow> k \<notin> metric_key ` set ms | Some m \<Rightarrow> metric_key m = k \<and> best_of ms m"
    using assms unfolding kept_best_def by blast
  show "distinct (map fst d)" using assms unfolding kept_best_def by blast
  show "map_of d k = None \<Longrightarrow> k \<notin> metric_key ` set ms" "map_of d k = Some m \<Longrightarrow> metric_key m = k" "map_of d k = Some m \<Longrightarrow> best_of ms m"
    using k by simp_all
qed

lemma kept_bestI:
  assumes "distinct (map fst d)" and "\<And>k. map_of d k = None \<Longrightarrow> k \<notin> metric_key ` set ms"
    and "\<And>k m. map_of d k = Some m \<Longrightarrow> metric_key m = k" and "\<And>k m. map_of d k = Some m \<Longrightarrow> best_of ms m"
  shows "kept_best ms d"
  unfolding kept_best_def using assms by (auto split: option.split)

lemma kept_best_put:
  assumes d: "kept_best ms d" and x: "best_of (ms @ [x]) x"
  shows "kept_best (ms @ [x]) (AList.update (metric_key x) x d)"
proof (rule kept_bestI)
  show "distinct (map fst (AList.update (metric_key x) x d))" by (rule distinct_update) (rule kept_bestD(1) [OF d])
  fix k m
  show "k \<notin> metric_key ` set (ms @ [x])" if "map_of (AList.update (metric_key x) x d) k = None"
    using that kept_bestD(2) [OF d, of k] by (simp add: update_conv' split: if_splits)
  assume "map_of (AList.update (metric_key x) x d) k = Some m"
  then have "m = x \<and> k = metric_key x \<or> k \<noteq> metric_key x \<and> map_of d k = Some m" by (auto simp: update_conv' split: if_splits)
  then show "metric_key m = k" "best_of (ms @ [x]) m"
    using x kept_bestD(3,4) [OF d, of k m] best_of_other [of x m ms] by auto
qed

lemma kept_best_step:
  assumes d: "kept_best ms d"
  shows "kept_best (ms @ [x]) (prefer_metric x d)"
proof (cases "map_of d (metric_key x)")
  case None
  then have "filter (\<lambda>n. metric_key n = metric_key x) ms = []"
    using kept_bestD(2) [OF d None] by (auto simp: filter_empty_conv image_iff)
  then have "best_of (ms @ [x]) x" by (intro best_of_new) simp
  then show ?thesis using kept_best_put [OF d] None by (simp add: prefer_metric_def)
next
  case (Some m)
  note m = kept_bestD(3,4) [OF d Some]
  show ?thesis
  proof (cases "quality_rank (m_quality x) \<le> quality_rank (m_quality m)")
    case True
    then have "best_of (ms @ [x]) x" using m by (intro best_of_new) (auto simp: best_of_def Let_def list_all_iff)
    then show ?thesis using kept_best_put [OF d] Some True by (simp add: prefer_metric_def)
  next
    case False
    have "kept_best (ms @ [x]) d"
    proof (rule kept_bestI)
      show "distinct (map fst d)" by (rule kept_bestD(1) [OF d])
      fix k n
      show "k \<notin> metric_key ` set (ms @ [x])" if "map_of d k = None" using that Some kept_bestD(2) [OF d that] by auto
      assume n: "map_of d k = Some n"
      show "metric_key n = k" by (rule kept_bestD(3) [OF d n])
      show "best_of (ms @ [x]) n"
      proof (cases "metric_key x = metric_key n")
        case True
        then have "n = m" using Some n kept_bestD(3) [OF d n] by simp
        then show ?thesis using best_of_kept m False by simp
      qed (rule best_of_other, use kept_bestD(4) [OF d n] in auto)
    qed
    then show ?thesis using Some False by (simp add: prefer_metric_def)
  qed
qed

lemma kept_best_fold: "kept_best ms (fold prefer_metric ms [])"
proof (induction ms rule: rev_induct)
  case Nil
  show ?case by (simp add: kept_best_def)
next
  case (snoc x ms)
  then show ?case using kept_best_step by simp
qed

text \<open>C23: of the metrics of a cycle each series keeps exactly one: one of the best quality among them, and of those the last; no
  series is lost and none is made up.\<close>

theorem one_metric_per_series:
  "distinct (map metric_key (deduplicate_metrics ms))
    \<and> set (map metric_key (deduplicate_metrics ms)) = set (map metric_key ms)
    \<and> list_all (best_of ms) (deduplicate_metrics ms)"
proof -
  let ?d = "fold prefer_metric ms []"
  note d = kept_bestD [OF kept_best_fold [of ms]]
  have entry: "metric_key m = k \<and> best_of ms m" if "(k, m) \<in> set ?d" for k m
    using d(3,4) map_of_is_SomeI [OF d(1) that] by blast
  then have keys: "map metric_key (map snd ?d) = map fst ?d" by auto
  have "set (map fst ?d) = metric_key ` set ms"
  proof
    show "set (map fst ?d) \<subseteq> metric_key ` set ms" using entry by (force simp: best_of_def Let_def)
    show "metric_key ` set ms \<subseteq> set (map fst ?d)"
    proof
      fix k assume "k \<in> metric_key ` set ms"
      then have "map_of ?d k \<noteq> None" using d(2) [of k] by blast
      then show "k \<in> set (map fst ?d)" by (auto simp: map_of_eq_None_iff)
    qed
  qed
  then show ?thesis using d(1) entry keys unfolding deduplicate_fold keys by (auto simp: list_all_iff)
qed


section \<open>A host where nothing can be read\<close>

definition quiet_host :: collector_sources where
  "quiet_host =
     \<lparr>cs_wall = 100, cs_monotonic = real, cs_run = (\<lambda>_. Missing_binary), cs_read_text = (\<lambda>_. Inl File_missing),
      cs_list_dir = (\<lambda>_. Inl File_missing), cs_glob = (\<lambda>_ _. Inr []), cs_exists = (\<lambda>_. Inr False), cs_statvfs = (\<lambda>_. None),
      cs_file_size = (\<lambda>_. File_not_found), cs_proc_root = ''/proc'', cs_sys_root = ''/sys'', cs_cgroup_root = ''/sys/fs/cgroup'',
      cs_unit_root = ''/etc/systemd/system'', cs_ticks = 100, cs_page_size = 4096, cs_loads = bool_loads, cs_dumps = bool_dumps,
      cs_str = (\<lambda>_. []), cs_float = (\<lambda>_. None), cs_address = (\<lambda>_. None)\<rparr>"

theorem slow_values_of_same_processes_witness:
  "let S = quiet_host\<lparr>cs_loads := \<lambda>_. Some (slow_cache sample_processes)\<rparr>;
       s = snd (process_slow_values S ''gost'' sample_processes True True True \<lparr>cl_store = empty_store, cl_capture = Capture, cl_clock = 0\<rparr>);
       new = sample_processes\<lparr>sp_identity := [(40, 8)]\<rparr>
   in process_slow_values S ''gost'' new False True True s = (Inr (new, ''unavailable''), s)"
proof -
  let ?S = "quiet_host\<lparr>cs_loads := \<lambda>_. Some (slow_cache sample_processes)\<rparr>"
  let ?p = "process_slow_values ?S ''gost'' sample_processes True True True \<lparr>cl_store = empty_store, cl_capture = Capture, cl_clock = 0\<rparr>"
  have "cs_loads ?S (cs_dumps ?S (slow_cache sample_processes)) = Some (slow_cache sample_processes)" by simp
  from slow_values_of_same_processes [OF this, of "''gost''" True _ "fst ?p" "snd ?p" "sample_processes\<lparr>sp_identity := [(40, 8)]\<rparr>" True True]
  show ?thesis by (simp add: Let_def sample_processes_def)
qed

end
