(* ===== verification/Monitoring_Cycles.thy ===== *)
theory Monitoring_Cycles
  imports Monitoring_Collector Monitoring_Carryover
begin

text \<open>
  What a collection cycle of \<open>src/monitoring/collector.py\<close> guarantees, whatever the sources answer and whether it succeeds
  or fails: the tables of the database stay consistent, the cadences of the slow sources hold, a failure undoes everything but
  its own record, and on a database the collector keeps a cycle always succeeds.

  The first sections carry the rules of \<open>runs\<close> through the steps of a cycle under the assumptions of \<open>stored_tables\<close> and
  \<open>stored_cycle\<close>; both are interpreted on the tables of the model and on the texts that no reading writes.
\<close>

section \<open>The steps of a cycle\<close>

context stored_tables
begin

lemma cadence_kept: "runs J X (\<lambda>_. True) (cadence_step S cfg)"
  unfolding cadence_step_def Let_def
  by (intro runs_bind [OF runs_json_state] save_json) (simp add: PROTECTED_KEYS_def)

lemma env_kept: "runs J X honest_metrics_of (env_step S t tns es)"
  unfolding env_step_def Let_def
  by (intro runs_bind [OF runs_json_state] runs_seq [OF save_json] runs_ret)
    (auto simp: PROTECTED_KEYS_def QUALITY_def list_all_iff honest_Metric)

lemma isolated_kept:
  assumes "runs J True honest_metrics_of m" and "list_all honest fallback"
  shows "runs J X honest_metrics_of (isolated source fallback m)"
  unfolding isolated_def
proof (rule runs_handle)
  show "runs J True honest_metrics_of (bindE m (\<lambda>r. seqE (on_capture (set_value source Got_true)) (ret r)))"
    by (rule runs_bind [OF assms(1)], rule runs_seq [OF runs_set_true], rule runs_ret)
  show "runs J X honest_metrics_of (seqE (on_capture (record_error source (error_kind f))) (ret (fallback, [])))" for f
    by (rule runs_seq [OF runs_record_error], rule runs_ret) (simp add: assms(2))
qed

lemma failed_source_honest: "list_all honest (failed_source source)"
  by (simp add: failed_source_def honest_Metric QUALITY_def)

lemma honest_reading_cases:
  "honest_metrics_of r \<Longrightarrow> (\<And>ms es. list_all honest ms \<Longrightarrow> runs J X Q (f ms es)) \<Longrightarrow> runs J X Q (case r of (ms, es) \<Rightarrow> f ms es)"
  by (cases r) simp

lemma observed: "runs J X (\<lambda>r. honest_metrics_of (fst r)) (cycle_observations S cfg t sampled full slow tns es names)"
  unfolding cycle_observations_def
  apply (rule runs_bind [OF env_kept], erule honest_reading_cases)
  apply (rule runs_bind [OF isolated_kept [OF host failed_source_honest]], erule honest_reading_cases)
  apply (rule runs_bind [OF isolated_kept [OF storage failed_source_honest]], erule honest_reading_cases)
  apply (rule runs_bind [OF isolated_kept [OF network list.pred_inject(1)]], erule honest_reading_cases)
  apply (rule runs_bind [OF services_and_tunnels])
  apply (simp add: split_beta runs_ret honest_metrics_of_def)
  done

end

text \<open>A step that replaces the database by what a function of it answers, or keeps it.\<close>

lemma runs_replace:
  assumes kept: "\<And>db db'. J db \<Longrightarrow> f db = Inr db' \<Longrightarrow> J db'" and rest: "\<And>r. runs J X Q (g r)"
  shows "runs J X Q (bindE (gets (\<lambda>s. f (cl_store s))) (\<lambda>r. bindE (case r of Inl _ \<Rightarrow> ret () | Inr db \<Rightarrow> on_store (\<lambda>_. db)) (\<lambda>_. g r)))"
  unfolding runs_def
proof (intro allI impI)
  fix s assume s: "holds J s"
  show "wp (bindE (gets (\<lambda>s. f (cl_store s))) (\<lambda>r. bindE (case r of Inl _ \<Rightarrow> ret () | Inr db \<Rightarrow> on_store (\<lambda>_. db)) (\<lambda>_. g r)))
      (\<lambda>x s'. holds J s' \<and> Q x) (\<lambda>_ s'. X \<and> holds J s') s"
  proof (cases "f (cl_store s)")
    case (Inl e)
    then show ?thesis using rest [of "Inl e"] s by (simp add: wp_bindE wp_gets wp_ret runs_def)
  next
    case (Inr db)
    then have "holds J (s\<lparr>cl_store := db\<rparr>)" using kept [OF _ Inr] s by (simp add: holds_def)
    then show ?thesis using Inr rest [of "Inr db"] by (simp add: wp_bindE wp_gets on_store_def wp_modify runs_def)
  qed
qed

lemma optional_availability_state:
  "optional_availability loads dumps source current t db = Inr (es, db') \<Longrightarrow>
     current \<in> set OPTIONAL_STATES \<and> db' = set_json_state dumps (''event.source.'' @ source) (JString current) db"
  by (auto simp: optional_availability_def Let_def bindR_eq_Inr split: if_splits)

lemma emits_optional_store:
  assumes "optional_availability loads dumps source current t (metrics_db.truncate db) = Inr (es, d)"
  shows "db\<lparr>collector_state := collector_state d\<rparr> = set_text (''event.source.'' @ source) (dumps (JString current)) db"
  using optional_availability_state [OF assms] by (simp add: set_json_state_def set_state_def set_text_def metrics_db.defs)

lemma self_metrics_honest: "list_all honest (self_metrics t d td md n missed overruns errors)"
  by (simp add: self_metrics_def collector_metric_of_def honest_Metric QUALITY_def)

lemma written_metrics_honest: "list_all honest (written_metrics n k rows)"
  by (simp add: written_metrics_def honest_Metric QUALITY_def Let_def)

lemma collector_metric_of_honest [simp]:
  "honest (collector_metric_of name (Some v) un q) \<longleftrightarrow> q \<in> set QUALITY"
  by (simp add: collector_metric_of_def honest_Metric)

lemma source_error_metric_honest: "honest (source_error_metric c counts source)"
  by (simp add: source_error_metric_def honest_Metric QUALITY_def)


section \<open>A whole transaction\<close>

text \<open>What the transaction of a cycle relies on: any text but the attempts, and the rows of this cycle, can be stored.\<close>

definition ATTEMPT_KEYS :: "string list" where
  "ATTEMPT_KEYS = [''tcp_snapshot_last_attempt_ts'', ''tcp_snapshot_last_ts'', ''slow_sources_last_attempt_ts'']"

locale stored_cycle = stored_tables +
  assumes keeps_any_text: "J db \<Longrightarrow> k \<notin> set ATTEMPT_KEYS \<Longrightarrow> J (set_text k v db)"
    and keeps_maintenance: "J db \<Longrightarrow> store_maintenance (cs_loads S) t db = Inr db' \<Longrightarrow> J db'"
    and keeps_cycle: "J db \<Longrightarrow> J (put_cycle t row db)"
    and keeps_metric: "J db \<Longrightarrow> honest m \<Longrightarrow> J (insert_metric (cs_dumps S) m t db)"
    and keeps_event: "J db \<Longrightarrow> J (insert_event (cs_dumps S) e db)"
begin

lemma any_text: "k \<notin> set ATTEMPT_KEYS \<Longrightarrow> runs J X (\<lambda>_. True) (save_text k v)"
  unfolding save_text_def by (rule runs_on_store) (rule keeps_any_text)

lemma any_json: "k \<notin> set ATTEMPT_KEYS \<Longrightarrow> runs J X (\<lambda>_. True) (save_json S k v)"
  unfolding save_json_def by (rule any_text)

lemma any_emits:
  assumes "\<And>d. f d = (es d, set_json_state dumps k v d)" and "k \<notin> set ATTEMPT_KEYS"
  shows "runs J X (\<lambda>_. True) (emits f)"
proof -
  have "f = (\<lambda>d. (es d, set_json_state dumps k v d))" using assms(1) by blast
  then show ?thesis using keeps_any_text [OF _ assms(2)] by (simp add: runs_def wp_def emits_def lift_db_set_json holds_def)
qed

lemma source_kept: "runs J True honest_metrics_of (source_reading S c t source)"
proof (cases "source_state c source")
  case None
  then show ?thesis by (simp add: source_reading_def runs_raise)
next
  case (Some state)
  have optional: "runs J True (\<lambda>_. True) (emits_optional (optional_availability (cs_loads S) (cs_dumps S) name state t))" for name
    by (auto simp: runs_def wp_def emits_optional_def holds_def emits_optional_store keeps_any_text ATTEMPT_KEYS_def split: sum.splits event_exn.splits)
  have plain: "runs J True (\<lambda>_. True) (emits (availability (cs_loads S) (cs_dumps S) source b t))" for b
    by (rule any_emits [where k = "''event.source.'' @ source"]) (auto simp: availability_def Let_def ATTEMPT_KEYS_def)
  show ?thesis
    unfolding source_reading_def Some option.case Let_def
    by (rule runs_bind [where P = "\<lambda>_. True"], simp add: optional plain) (simp add: runs_ret honest_Metric QUALITY_def)
qed

lemma status: "runs J True (\<lambda>r. honest_metrics_of (fst r)) (source_status S t)"
proof -
  have total: "runs J True (\<lambda>_. True) (liftR (stored_total raw counts))" for raw counts
    by (rule runs_liftR) (simp split: sum.split)
  have some: "runs J True (\<lambda>_. True) (whenE b (save_text k v))" "runs J True (\<lambda>_. True) (whenE b (save_json S k w))"
    if "k \<notin> set ATTEMPT_KEYS" for b k v w
    using that by (intro runs_whenE any_text any_json; assumption)+
  show ?thesis
    unfolding source_status_def Let_def
    apply (rule runs_bind [OF runs_gets [of "\<lambda>_. True"]], rule TrueI)
    apply (rule runs_bind [OF runs_gather], rule source_kept, rule honest_reading_cases, assumption)
    apply (rule runs_bind [OF runs_text_state], rule runs_bind [OF runs_json_state], rule runs_bind [OF runs_json_state])
    apply (rule runs_bind [OF total], rule runs_seq [OF some(1)])
     apply (simp add: ATTEMPT_KEYS_def)
    apply (rule runs_seq [OF some(2)], simp add: ATTEMPT_KEYS_def)
    apply (rule runs_seq [OF some(2)], simp add: ATTEMPT_KEYS_def, rule runs_ret)
    apply (auto simp: source_error_metric_honest list_all_iff QUALITY_def)
    done
qed

lemma maintained: "runs J X (\<lambda>_. True) (maintenance_step S t b)"
  unfolding maintenance_step_def Let_def
  by (rule runs_bind [OF runs_read_clock])
    (auto intro!: runs_ret runs_replace [OF keeps_maintenance] runs_bind [OF runs_text_state] runs_seq [OF any_text] runs_bind [OF runs_read_clock]
      simp: ATTEMPT_KEYS_def)

lemma recovered: "runs J X (\<lambda>_. True) (cycle_recovery t)"
  unfolding cycle_recovery_def by (rule runs_bind [OF runs_text_state], rule runs_seq [OF any_text], simp add: ATTEMPT_KEYS_def, rule runs_ret) simp

lemma overruns: "runs J True (\<lambda>_. True) (overrun_total b)"
  unfolding overrun_total_def Let_def
  by (rule runs_bind [OF runs_text_state])
    (auto intro!: runs_bind [of J True "\<lambda>_. True"] runs_seq [OF any_text] runs_ret runs_raise simp: ATTEMPT_KEYS_def split: option.split)

lemma readings: "runs J True (\<lambda>r. list_all honest (fst r)) (cycle_readings S cfg r t started sampled began full slow tns es names)"
  unfolding cycle_readings_def
  apply (rule runs_bind [OF observed], simp only: split_beta)
  apply (rule runs_bind [OF status], simp only: split_beta)
  apply (rule runs_bind [OF recovered], rule runs_bind [OF maintained], simp only: split_beta)
  apply (rule runs_bind [OF overruns], rule runs_seq [OF any_text], simp add: ATTEMPT_KEYS_def)
  apply (rule runs_bind [OF runs_read_clock], rule runs_bind [OF runs_read_clock])
  apply (rule runs_ret)
  using deduplicate_subset self_metrics_honest by (fastforce simp: list_all_iff honest_metrics_of_def)

lemma keeps_metrics: "J db \<Longrightarrow> list_all honest ms \<Longrightarrow> J (insert_metrics (cs_dumps S) ms t db)"
  unfolding insert_metrics_def by (induction ms arbitrary: db) (simp_all add: keeps_metric)

lemma keeps_events: "J db \<Longrightarrow> J (fold (insert_event (cs_dumps S)) es db)"
  by (induction es arbitrary: db) (simp_all add: keeps_event)

lemma writes: "runs J True (\<lambda>_. True) (cycle_writes S cfg r t started sampled began full slow tns es names)"
proof -
  have sample: "J db \<Longrightarrow> J (insert_sample (host_sample t st) (Some t) db)" for db st
    by (rule keeps_sample) (simp_all add: host_sample_def)
  show ?thesis
    unfolding cycle_writes_def Let_def
    apply (rule runs_seq [OF runs_on_store], erule sample)
    apply (rule runs_seq [OF cadence_kept], rule runs_bind [OF readings], simp only: split_beta)
    apply (rule runs_seq [OF runs_on_store], erule keeps_metrics, simp add: written_metrics_honest)
    apply (rule runs_seq [OF runs_on_store], erule keeps_events)
    apply (rule runs_bind [OF runs_read_clock])
    apply (rule runs_seq [OF runs_on_store], erule keeps_metrics, simp add: QUALITY_def)
    apply (rule runs_seq [OF runs_on_store], erule keeps_cycle, rule runs_ret, rule TrueI)
    done
qed

end


section \<open>Consistent tables\<close>

text \<open>What the schema and the writes keep together: one point for each series and time, with a known quality, a stored cycle and a
  stored entity; one row for each cycle, entity and sample, whose cycle is stored at the time of the sample; rollups fit for
  summaries; and the tables that the queries read hold what the rows hold.\<close>

definition point_placed :: "store \<Rightarrow> metric_point \<Rightarrow> bool" where
  "point_placed db p \<longleftrightarrow> pt_ts p \<in> set (md_cycles db) \<and> (pt_entity_type p, pt_entity_id p) \<in> set (md_entities db)"

definition sample_placed :: "store \<Rightarrow> (int \<times> string) \<times> metric_sample \<Rightarrow> bool" where
  "sample_placed db e \<longleftrightarrow> sm_ts (snd e) = fst (fst e) \<and> fst (fst e) \<in> set (md_cycles db)"

definition well_points :: "store \<Rightarrow> bool" where
  "well_points db \<longleftrightarrow> distinct (map point_id (md_points db)) \<and> known_qualities (md_points db) \<and> list_all (point_placed db) (md_points db)"

definition well_rows :: "store \<Rightarrow> bool" where
  "well_rows db \<longleftrightarrow>
     distinct (md_cycles db) \<and> map fst (cycle_rows db) = md_cycles db
     \<and> distinct (map fst (sample_rows db)) \<and> list_all (sample_placed db) (sample_rows db) \<and> md_samples db = map (sm_ts \<circ> snd) (sample_rows db)
     \<and> md_events db = map (\<lambda>e. (el_ts e, el_code e)) (event_rows db)
     \<and> distinct (md_entities db) \<and> map fst (entity_rows db) = md_entities db
     \<and> list_all (\<lambda>r. (''tunnel'', fst r) \<in> set (md_entities db)) (tunnel_rows db)"

definition well_stored :: "store \<Rightarrow> bool" where
  "well_stored db \<longleftrightarrow> md_version db = 4 \<and> list_all sane_row (md_rollups db) \<and> well_points db \<and> well_rows db"

definition cycle_tables :: "collector_sources \<Rightarrow> int \<Rightarrow> store \<Rightarrow> bool" where
  "cycle_tables S t db \<longleftrightarrow> well_stored db \<and> t \<in> set (md_cycles db) \<and> 0 < cs_ticks S"

lemmas well_defs = well_stored_def well_points_def well_rows_def point_placed_def [abs_def] sample_placed_def [abs_def]

lemma well_set_text [simp]:
  "well_stored (set_text k v db) \<longleftrightarrow> well_stored db" "md_cycles (set_text k v db) = md_cycles db" "md_version (set_text k v db) = md_version db"
  by (simp_all add: well_defs set_text_def)

lemma well_put_cycle: "well_stored db \<Longrightarrow> well_stored (put_cycle t row db) \<and> t \<in> set (md_cycles (put_cycle t row db))"
  by (auto simp: well_defs put_cycle_def update_keys list_all_iff simp del: set_map)

lemma well_insert_event: "well_stored db \<Longrightarrow> well_stored (insert_event dumps e db)"
  by (simp add: well_defs insert_event_def)

lemma insert_event_keeps [simp]: "md_cycles (insert_event dumps e db) = md_cycles db" "md_version (insert_event dumps e db) = md_version db"
  "collector_state (insert_event dumps e db) = collector_state db" "md_points (insert_event dumps e db) = md_points db"
  by (simp_all add: insert_event_def)

lemma ensure_entity_fields [simp]:
  "md_cycles (ensure_entity dumps a b c d n db) = md_cycles db" "md_version (ensure_entity dumps a b c d n db) = md_version db"
  "md_rollups (ensure_entity dumps a b c d n db) = md_rollups db" "md_samples (ensure_entity dumps a b c d n db) = md_samples db"
  "sample_rows (ensure_entity dumps a b c d n db) = sample_rows db" "md_events (ensure_entity dumps a b c d n db) = md_events db"
  "tunnel_rows (ensure_entity dumps a b c d n db) = tunnel_rows db"
  "md_entities (ensure_entity dumps a b c d n db) = (if (a, b) \<in> set (md_entities db) then md_entities db else md_entities db @ [(a, b)])"
  "map fst (entity_rows (ensure_entity dumps a b c d n db))
     = (if (a, b) \<in> set (map fst (entity_rows db)) then map fst (entity_rows db) else map fst (entity_rows db) @ [(a, b)])"
  by (simp_all add: ensure_entity_def Let_def update_keys)

lemma well_ensure_entity: "well_stored db \<Longrightarrow> well_stored (ensure_entity dumps a b c d n db)"
  by (auto simp: well_defs list_all_iff simp del: set_map)

lemma well_insert_metric:
  assumes db: "well_stored db" and t: "t \<in> set (md_cycles db)" and m: "honest m"
  shows "well_stored (insert_metric dumps m t db)"
proof (cases "sensitive_key (m_name m)")
  case False
  obtain a b n where key: "metric_key m = (a, b, n)" by (cases "metric_key m")
  let ?e = "ensure_entity dumps a b b (map (\<lambda>(k, v). (k, JString v)) (m_labels m)) t db"
  let ?p = "point_of t m"
  have e: "well_stored ?e" using db by (rule well_ensure_entity)
  have in_e: "(a, b) \<in> set (md_entities ?e)" by simp
  have p: "pt_ts ?p = t" "pt_entity_type ?p = a" "pt_entity_id ?p = b" "map_of QUALITY_RANK (pt_quality ?p) \<noteq> None"
    using key m quality_rank_known by (simp_all add: point_of_def honest_def)
  have ps: "distinct (map point_id (put_point ?p (md_points db)))"
    using db unfolding put_point_ids by (simp add: well_defs)
  have sub: "set (put_point ?p (md_points db)) \<subseteq> insert ?p (set (md_points db))" by (rule put_point_set)
  have "known_qualities (put_point ?p (md_points db))"
    using db sub p(4) by (auto simp: well_defs known_qualities_def list_all_iff)
  moreover have "list_all (point_placed ?e) (put_point ?p (md_points db))"
    using e sub p(1-3) t in_e by (fastforce simp: well_stored_def well_points_def list_all_iff point_placed_def)
  ultimately have "well_stored (?e\<lparr>md_points := put_point ?p (md_points ?e)\<rparr>)"
    using e ps by (simp add: well_stored_def well_points_def well_rows_def point_placed_def [abs_def] sample_placed_def [abs_def])
  then show ?thesis using False by (simp add: insert_metric_def key)
qed (simp add: insert_metric_def db)

lemma insert_metric_fields [simp]: "md_cycles (insert_metric dumps m t db) = md_cycles db" "md_version (insert_metric dumps m t db) = md_version db"
  by (simp_all add: insert_metric_def Let_def split: prod.split)

lemma well_insert_sample:
  assumes "well_stored db" and "t \<in> set (md_cycles db)" and "sm_ts s = t"
  shows "well_stored (insert_sample s (Some t) db)"
proof -
  let ?k = "(t, or_else (sm_tunnel s) ''host'')"
  have "map (sm_ts \<circ> snd) (AList.update ?k s d)
      = (if map_of d ?k = None then map (sm_ts \<circ> snd) d @ [t] else map (sm_ts \<circ> snd) d)"
    if "list_all (\<lambda>e. sm_ts (snd e) = fst (fst e)) d" for d
    using that assms(3) by (induction d) auto
  moreover have "list_all (\<lambda>e. sm_ts (snd e) = fst (fst e)) (sample_rows db)"
    using assms(1) by (simp add: well_stored_def well_rows_def sample_placed_def list_all_iff)
  ultimately have here: "map (sm_ts \<circ> snd) (AList.update ?k s (sample_rows db))
      = (if map_of (sample_rows db) ?k = None then map (sm_ts \<circ> snd) (sample_rows db) @ [t] else map (sm_ts \<circ> snd) (sample_rows db))"
    by blast
  have held: "md_samples db = map (sm_ts \<circ> snd) (sample_rows db)" using assms(1) unfolding well_stored_def well_rows_def by blast
  have samples: "map (sm_ts \<circ> snd) (AList.update ?k s (sample_rows db))
      = (if map_of (sample_rows db) ?k = None then md_samples db @ [t] else md_samples db)"
    unfolding held by (rule here)
  have "list_all (sample_placed db) (AList.update ?k s (sample_rows db))"
    using assms by (intro list_all_update) (simp_all add: well_stored_def well_rows_def sample_placed_def)
  moreover have "distinct (map fst (AList.update ?k s (sample_rows db)))"
    using assms(1) by (intro distinct_update) (simp add: well_stored_def well_rows_def)
  moreover have "insert_sample s (Some t) db = db\<lparr>md_samples := map (sm_ts \<circ> snd) (AList.update ?k s (sample_rows db)),
      sample_rows := AList.update ?k s (sample_rows db)\<rparr>"
    unfolding samples by (simp add: insert_sample_def Let_def assms(3))
  ultimately show ?thesis
    using assms(1)
    by (simp add: well_stored_def well_rows_def well_points_def point_placed_def [abs_def] sample_placed_def [abs_def])
qed

lemma well_upsert_tunnel: "well_stored db \<Longrightarrow> well_stored (upsert_tunnel dumps tn t db)"
proof -
  assume db: "well_stored db"
  have "well_stored (db1\<lparr>tunnel_rows := AList.update (tunnel_id tn) row (tunnel_rows db1)\<rparr>)"
    if "db1 = ensure_entity dumps ''tunnel'' (tunnel_id tn) display metadata t db" for db1 display metadata row
  proof -
    have db1: "well_stored db1" using that db by (simp add: well_ensure_entity)
    have "(''tunnel'', tunnel_id tn) \<in> set (md_entities db1)" using that by simp
    with db1 have "list_all (\<lambda>r. (''tunnel'', fst r) \<in> set (md_entities db1)) (AList.update (tunnel_id tn) row (tunnel_rows db1))"
      by (intro list_all_update) (simp_all add: well_stored_def well_rows_def)
    with db1 show ?thesis
      by (simp add: well_stored_def well_rows_def well_points_def point_placed_def [abs_def] sample_placed_def [abs_def])
  qed
  then show ?thesis unfolding upsert_tunnel_def Let_def by blast
qed

lemma upsert_tunnel_cycles [simp]: "md_cycles (upsert_tunnel dumps tn t db) = md_cycles db" "md_version (upsert_tunnel dumps tn t db) = md_version db"
  by (simp_all add: upsert_tunnel_def Let_def)

lemma insert_sample_fields [simp]:
  "md_cycles (insert_sample s (Some c) db) = md_cycles db" "md_version (insert_sample s (Some c) db) = md_version db"
  "collector_state (insert_sample s (Some c) db) = collector_state db" "md_points (insert_sample s (Some c) db) = md_points db"
  by (simp_all add: insert_sample_def Let_def)

lemma retention_positive: "0 < raw_seconds RetentionPolicy"
  by (simp add: RetentionPolicy_def)

lemma rollup_completed_keeps:
  assumes "rollup_completed_minutes loads now interval batch registry d = Inr d'"
  shows "md_version d' = md_version d \<and> md_entities d' = md_entities d \<and> md_points d' = md_points d \<and> md_events d' = md_events d
    \<and> md_cycles d' = md_cycles d \<and> md_samples d' = md_samples d
    \<and> (\<forall>k. k \<noteq> ''minute_rollup_watermark'' \<longrightarrow> map_of (collector_state d') k = map_of (collector_state d) k)"
proof -
  have "\<exists>rollups v. d' = d \<or> d' = set_state ''minute_rollup_watermark'' v (d\<lparr>md_rollups := rollups\<rparr>)"
  proof (cases "first_ts d")
    case None
    then have "d' = set_state ''minute_rollup_watermark'' (str_int (now div 60 * 60)) (d\<lparr>md_rollups := md_rollups d\<rparr>)"
      using assms by (auto simp: rollup_completed_minutes_def Let_def bindR_eq_Inr)
    then show ?thesis by blast
  next
    case (Some first)
    then show ?thesis
      using assms unfolding rollup_completed_minutes_def Let_def bindR_eq_Inr by (simp only: option.case) (fastforce simp: bindR_eq_Inr split: if_split_asm)
  qed
  then show ?thesis by (auto simp: set_state_def update_conv')
qed

lemma store_maintenance_fields:
  assumes "store_maintenance loads now db = Inr db'"
  shows "md_version db' = md_version db \<and> md_entities db' = md_entities db \<and> entity_rows db' = entity_rows db
    \<and> tunnel_rows db' = tunnel_rows db
    \<and> md_points db' = filter (\<lambda>p. \<not> pt_ts p < now - raw_seconds RetentionPolicy) (md_points db)
    \<and> md_cycles db' = filter (\<lambda>c. \<not> c < now - raw_seconds RetentionPolicy) (md_cycles db)
    \<and> cycle_rows db' = filter (\<lambda>(c, _). \<not> c < now - raw_seconds RetentionPolicy) (cycle_rows db)
    \<and> md_samples db' = filter (\<lambda>c. \<not> c < now - raw_seconds RetentionPolicy) (md_samples db)
    \<and> sample_rows db' = filter (\<lambda>((c, _), s). \<not> sm_ts s < now - raw_seconds RetentionPolicy \<and> \<not> c < now - raw_seconds RetentionPolicy)
        (sample_rows db)
    \<and> md_events db' = filter (\<lambda>e. \<not> fst e < now - event_seconds RetentionPolicy) (md_events db)
    \<and> event_rows db' = filter (\<lambda>e. \<not> el_ts e < now - event_seconds RetentionPolicy) (event_rows db)
    \<and> (list_all sane_row (md_rollups db) \<longrightarrow> list_all sane_row (md_rollups db'))
    \<and> (\<forall>k. k \<noteq> ''minute_rollup_watermark'' \<longrightarrow> text_of db' k = text_of db k)"
proof -
  obtain d1 where d1: "rollup_completed_minutes loads now DEFAULT_SAMPLE_INTERVAL_SECONDS ROLLUP_BATCH_MINUTES None (metrics_db.truncate db) = Inr d1"
    and db': "db' = keep_rows now (db\<lparr>md_points := md_points (apply_retention now d1), md_rollups := md_rollups (apply_retention now d1),
        md_events := md_events (apply_retention now d1), md_cycles := md_cycles (apply_retention now d1),
        md_samples := md_samples (apply_retention now d1), collector_state := collector_state (apply_retention now d1)\<rparr>)"
    using assms by (auto simp: store_maintenance_def run_maintenance_def bindR_eq_Inr)
  have "list_all sane_row (md_rollups db) \<Longrightarrow> list_all sane_row (md_rollups d1)"
    using rollup_keeps_sane [OF d1] by (simp add: metrics_db.defs)
  then have sane: "list_all sane_row (md_rollups db) \<Longrightarrow> list_all sane_row (md_rollups db')"
    by (auto simp: db' keep_rows_def apply_retention_def Let_def list_all_iff)
  show ?thesis
    using rollup_completed_keeps [OF d1] sane
    by (simp add: db' keep_rows_def apply_retention_def Let_def metrics_db.defs text_of_def)
qed

lemma well_maintenance:
  assumes "store_maintenance loads now db = Inr db'" and db: "well_stored db"
  shows "well_stored db'"
proof -
  note f = store_maintenance_fields [OF assms(1)]
  let ?cut = "now - raw_seconds RetentionPolicy"
  have points: "well_points db'"
    using db f unfolding well_points_def known_qualities_def well_stored_def
    by (auto simp: distinct_map_filter list_all_iff point_placed_def)
  have cycles: "map fst (filter (\<lambda>(c, _). \<not> c < ?cut) d) = filter (\<lambda>c. \<not> c < ?cut) (map fst d)" for d :: "(int, cycle_row) dict"
    by (induction d) auto
  have samples: "map (sm_ts \<circ> snd) (filter (\<lambda>((c, _), s). \<not> sm_ts s < ?cut \<and> \<not> c < ?cut) d) = filter (\<lambda>c. \<not> c < ?cut) (map (sm_ts \<circ> snd) d)"
    if "list_all (\<lambda>e. sm_ts (snd e) = fst (fst e)) d" for d :: "(int \<times> string, metric_sample) dict"
    using that by (induction d) auto
  have events: "map (\<lambda>e. (el_ts e, el_code e)) (filter (\<lambda>e. \<not> el_ts e < b) es) = filter (\<lambda>e. \<not> fst e < b) (map (\<lambda>e. (el_ts e, el_code e)) es)"
    for b and es :: "event_row list" by (induction es) auto
  have "list_all (\<lambda>e. sm_ts (snd e) = fst (fst e)) (sample_rows db)" using db by (simp add: well_stored_def well_rows_def sample_placed_def list_all_iff)
  from samples [OF this]
  have "well_rows db'"
    using db f cycles events unfolding well_stored_def well_rows_def
    by (auto simp: distinct_map_filter list_all_iff sample_placed_def)
  then show ?thesis using points db f by (simp add: well_stored_def)
qed


section \<open>The interpretation on the tables\<close>

interpretation tables: stored_cycle "cycle_tables S t" S t
proof
  fix db :: store
  assume J: "cycle_tables S t db"
  then have db: "well_stored db" "t \<in> set (md_cycles db)" "0 < cs_ticks S" by (simp_all add: cycle_tables_def)
  show "cycle_tables S t (set_text k v db)" for k v using J by (simp add: cycle_tables_def)
  show "cycle_tables S t (set_text k v db)" for k v using J by (simp add: cycle_tables_def)
  show "cycle_tables S t (upsert_tunnel (cs_dumps S) tn t db)" for tn using db by (simp add: cycle_tables_def well_upsert_tunnel)
  show "cycle_tables S t (insert_sample sample (Some t) db)" if "sm_ts sample = t" for sample
    using db that by (simp add: cycle_tables_def well_insert_sample)
  show "0 < cs_ticks S" by (rule db)
  show "cycle_tables S t db'" if "store_maintenance (cs_loads S) t db = Inr db'" for db'
    using db well_maintenance [OF that] store_maintenance_fields [OF that] retention_positive by (simp add: cycle_tables_def)
  show "cycle_tables S t (put_cycle t row db)" for row using db well_put_cycle by (simp add: cycle_tables_def)
  show "cycle_tables S t (insert_metric (cs_dumps S) m t db)" if "honest m" for m
    using db that by (simp add: cycle_tables_def well_insert_metric)
  show "cycle_tables S t (insert_event (cs_dumps S) e db)" for e using db by (simp add: cycle_tables_def well_insert_event)
qed


section \<open>The capture\<close>

lemma plain_capture: "(\<And>v. case con v of Got_metrics ms \<Rightarrow> list_all honest ms | _ \<Rightarrow> True) \<Longrightarrow>
    (case got con r of Inr (Got_metrics ms) \<Rightarrow> list_all honest ms | _ \<Rightarrow> True)"
  by (auto simp: got_def bindR_def split: sum.split captured.splits)

lemma sound_fold: "(\<And>x c. sound_capture c \<Longrightarrow> sound_capture (f x c)) \<Longrightarrow> sound_capture c \<Longrightarrow> sound_capture (fold f xs c)"
  by (induction xs arbitrary: c) simp_all

lemma sound_conntrack: "sound_capture c \<Longrightarrow> sound_capture (capture_conntrack S proc c)"
  unfolding capture_conntrack_def Let_def
  by (auto intro!: sound_capture_read simp: bindR_def split: sum.split prod.split)

lemma sound_interfaces: "sound_capture c \<Longrightarrow> sound_capture (capture_interfaces S proc c)"
  unfolding capture_interfaces_def Let_def
  by (simp add: sound_capture_read sound_fold plain_capture split: sum.split)

lemma sound_host: "sound_capture c \<Longrightarrow> sound_capture (capture_host S c)"
  unfolding capture_host_def Let_def
  by (intro sound_capture_read sound_conntrack sound_interfaces plain_capture) (simp_all add: bindR_def split: sum.split)

lemma sound_cgroup_pids: "sound_capture c \<Longrightarrow> sound_capture (snd (cgroup_pids S service control main c))"
  unfolding cgroup_pids_def Let_def by (auto intro: sound_set_value split: sum.split)

lemma sound_process: "sound_capture c \<Longrightarrow> sound_capture (capture_process S service slow_due p c)"
  unfolding capture_process_def Let_def by (simp add: sound_capture_read plain_capture)

lemma sound_service: "capture_service S slow_due service c = Inr c' \<Longrightarrow> sound_capture c \<Longrightarrow> sound_capture c'"
  unfolding capture_service_def Let_def
  by (auto simp: bindR_eq_Inr split_beta intro!: sound_capture_read sound_fold sound_process sound_set_value sound_cgroup_pids plain_capture
      split: sum.split_asm if_split_asm)

lemma sound_services: "capture_services S slow_due names c = Inr c' \<Longrightarrow> sound_capture c \<Longrightarrow> sound_capture c'"
  by (induction names arbitrary: c) (auto simp: bindR_eq_Inr dest: sound_service)

lemma sound_sizes: "case got Got_metrics (parsed (database_size_metrics path size_of)) of Inr (Got_metrics ms) \<Rightarrow> list_all honest ms | _ \<Rightarrow> True"
  using database_size_metrics_honest [of path size_of] by (auto simp: got_def read_result_def bindR_def)

lemma sound_capture_raw: "capture_raw db_path env_dir S full slow_due = Inr (c, tns, es, names) \<Longrightarrow> sound_capture c"
proof -
  assume raw: "capture_raw db_path env_dir S full slow_due = Inr (c, tns, es, names)"
  have empty: "sound_capture Capture" by (simp add: sound_capture_def Capture_def)
  have sockets: "case sockets S flags of Inr (Got_metrics ms) \<Rightarrow> list_all honest ms | _ \<Rightarrow> True" for flags
    unfolding sockets_def by (rule plain_capture) simp
  show ?thesis
    using raw unfolding capture_raw_def Let_def
    by (auto simp: bindR_eq_Inr split_beta plain_capture sockets split: if_split_asm
        intro!: sound_capture_read sound_sizes empty elim!: sound_services intro: sound_host)
qed


section \<open>Every collection keeps the tables\<close>

lemma wp_read_clock: "wp (read_clock S) Q X s = Q (cs_monotonic S (cl_clock s)) (s\<lparr>cl_clock := Suc (cl_clock s)\<rparr>)"
  by (simp add: wp_def read_clock_def)

lemma runs_from: "runs J X Q m \<Longrightarrow> holds J s \<Longrightarrow> wp m (\<lambda>x s'. holds J s' \<and> Q x) (\<lambda>_ s'. X \<and> holds J s') s"
  by (simp add: runs_def)

lemma transaction_tables:
  assumes "well_stored (cl_store s)" and "0 < cs_ticks S" and "sound_capture (cl_capture s)"
    and "cycle_transaction S cfg r t started full slow tns es names s = (x, s')"
  shows "cycle_tables S t (cl_store s')"
proof -
  have work: "wp (cycle_writes S cfg r t started sampled began full slow tns es names) (\<lambda>_ s'. cycle_tables S t (cl_store s'))
      (\<lambda>_ s'. cycle_tables S t (cl_store s')) s1" if "holds (cycle_tables S t) s1" for sampled began s1
    by (rule wp_weaken [OF runs_from [OF tables.writes that]]) (simp_all add: holds_def)
  have "wp (cycle_transaction S cfg r t started full slow tns es names) (\<lambda>_ s'. cycle_tables S t (cl_store s'))
      (\<lambda>_ s'. cycle_tables S t (cl_store s')) s"
    unfolding cycle_transaction_def wp_bindE wp_seqE on_store_def wp_modify wp_read_clock
    by (rule work) (simp add: holds_def cycle_tables_def well_put_cycle assms(1-3))
  then show ?thesis using assms(4) by (simp add: wp_def split: sum.splits)
qed

text \<open>What a step leaves when only its end matters.\<close>

lemma wp_skip: "(\<And>x s. wp (f x) Q (\<lambda>_ _. True) s) \<Longrightarrow> wp (bindE m f) Q (\<lambda>_ _. True) s"
  by (simp add: wp_bindE wp_def split: prod.split sum.split)

lemma wp_skip_seq: "(\<And>s. wp n Q (\<lambda>_ _. True) s) \<Longrightarrow> wp (seqE m n) Q (\<lambda>_ _. True) s"
  unfolding seqE_def by (rule wp_skip)

lemma transaction_marks:
  assumes "cycle_transaction S cfg r t started full slow tns es names s = (Inr d, s')"
  shows "\<exists>finished. map_of (cycle_rows (cl_store s')) t = Some (request_cycle r started finished)"
proof -
  have "wp (cycle_transaction S cfg r t started full slow tns es names)
      (\<lambda>_ s'. \<exists>finished. map_of (cycle_rows (cl_store s')) t = Some (request_cycle r started finished)) (\<lambda>_ _. True) s"
    unfolding cycle_transaction_def cycle_writes_def Let_def
    apply (rule wp_skip, rule wp_skip, rule wp_skip_seq, rule wp_skip_seq, rule wp_skip_seq, rule wp_skip, simp only: split_beta)
    apply (rule wp_skip_seq, rule wp_skip_seq, rule wp_skip, rule wp_skip_seq)
    apply (auto simp: wp_seqE on_store_def wp_modify wp_ret put_cycle_def update_conv')
    done
  then show ?thesis using assms by (simp add: wp_def)
qed

lemma failure_tables:
  assumes "well_stored db" and "0 < cs_ticks S"
  shows "cycle_tables S t (record_cycle_failure (cs_dumps S) t started finished message db)"
proof -
  have 1: "cycle_tables S t (put_cycle t row db)" for row using assms well_put_cycle by (simp add: cycle_tables_def)
  have 2: "cycle_tables S t (insert_sample (host_sample t 0) (Some t) (put_cycle t row db))" for row
    by (rule tables.keeps_sample [OF 1]) (simp add: host_sample_def)
  have 3: "cycle_tables S t (insert_metric (cs_dumps S) (collector_metric_of ''cycle_status'' (Some (VInt 0)) ''boolean'' ''exact'') t
      (insert_sample (host_sample t 0) (Some t) (put_cycle t row db)))" for row
    by (rule tables.keeps_metric [OF 2]) (simp add: QUALITY_def)
  show ?thesis
    unfolding record_cycle_failure_def Let_def by (auto intro!: tables.keeps_event tables.keeps_any_text 3 simp: ATTEMPT_KEYS_def)
qed

lemma failure_marks:
  "\<exists>row. map_of (cycle_rows (record_cycle_failure dumps t started finished message db)) t = Some row \<and> \<not> cy_success row"
  by (simp add: record_cycle_failure_def Let_def put_cycle_def update_conv' cycle_of_def insert_event_def set_text_def)

lemma cycle_row_tables:
  assumes "cycle_tables S t db" and "map_of (cycle_rows db) t \<noteq> None"
  shows "cycle_tables S t (db\<lparr>cycle_rows := AList.update t row (cycle_rows db)\<rparr>)"
proof -
  have "t \<in> set (map fst (cycle_rows db))" using assms(2) by (auto simp: map_of_eq_None_iff)
  then show ?thesis
    using assms(1)
    by (simp add: cycle_tables_def well_stored_def well_points_def well_rows_def point_placed_def [abs_def] sample_placed_def [abs_def] update_keys)
qed

lemma checkpoint_tables:
  assumes "cycle_tables S t db"
  shows "cycle_tables S t (record_checkpoint_result (cs_dumps S) t answer duration started finished maintenance db)"
proof -
  have m: "cycle_tables S t d \<Longrightarrow> q \<in> set QUALITY \<Longrightarrow> cycle_tables S t (insert_metric (cs_dumps S) (collector_metric_of n (Some v) u q) t d)"
    for d n v u q by (rule tables.keeps_metric) simp_all
  have row: "cycle_tables S t (case map_of (cycle_rows d) t of None \<Rightarrow> d | Some r \<Rightarrow> d\<lparr>cycle_rows := AList.update t (f r) (cycle_rows d)\<rparr>)"
    if "cycle_tables S t d" for d f
    using that cycle_row_tables [OF that] by (simp split: option.split)
  have one: "cycle_tables S t (if b then d else d')" if "cycle_tables S t d" "cycle_tables S t d'" for b d d' using that by simp
  show ?thesis
    unfolding record_checkpoint_result_def Let_def
    by (cases answer; simp only: option.case split_beta;
        intro one tables.keeps_event m row tables.keeps_any_text assms; simp add: QUALITY_def ATTEMPT_KEYS_def)
qed

lemma checkpoint_marks:
  "map_option (\<lambda>r. (cy_success r, cy_overrun r, cy_missed r))
       (map_of (cycle_rows (record_checkpoint_result dumps t answer duration started finished maintenance db)) t)
     = map_option (\<lambda>r. (cy_success r, cy_overrun r, cy_missed r)) (map_of (cycle_rows db) t)"
  by (simp add: record_checkpoint_result_def Let_def insert_event_def set_text_def update_conv' split: option.split)

lemma note_attempts_tables: "well_stored (note_attempts cfg t db) \<longleftrightarrow> well_stored db"
  by (simp add: note_attempts_def Let_def)

text \<open>C17: every collection keeps the database consistent, whatever the sources answer, whether it succeeds or fails and whether
  or not maintenance runs with it: no series gets two points at one time, every quality is known, every point, sample and
  tunnel belongs to a stored cycle and entity, the rollups stay fit for summaries; and the collection leaves a row of its own
  cycle, marked with the success it had and with the overrun and missed deadlines it was told of.\<close>

theorem collection_keeps_tables:
  assumes "well_stored db" and "0 < cs_ticks S" and "collect_once S cfg r db = (result, db')"
  shows "well_stored db'
    \<and> (case map_of (cycle_rows db') (request_time S r) of
         None \<Rightarrow> False
       | Some row \<Rightarrow>
           (case result of
              Inl _ \<Rightarrow> \<not> cy_success row
            | Inr t \<Rightarrow> t = request_time S r \<and> cy_success row \<and> cy_overrun row = cr_overrun r \<and> cy_missed row = cr_missed r))"
proof -
  let ?t = "request_time S r"
  let ?full = "socket_due cfg ?t db" and ?slow = "slow_sources_due cfg ?t db"
  have v: "md_version db = 4" using assms(1) by (simp add: well_stored_def)
  have noted: "well_stored (note_attempts cfg ?t db)" using assms(1) by (simp add: note_attempts_tables)
  have failed: ?thesis
    if "result = Inl e" and d: "db' = record_cycle_failure (cs_dumps S) ?t began ended message (note_attempts cfg ?t db)" for e began ended message
  proof -
    have "well_stored db'" using failure_tables [OF noted assms(2)] unfolding d cycle_tables_def by blast
    moreover obtain row where "map_of (cycle_rows db') ?t = Some row" "\<not> cy_success row" using failure_marks unfolding d by blast
    ultimately show ?thesis using that(1) by simp
  qed
  show ?thesis
  proof (cases "capture_raw (cr_db_path r) (cr_env_dir r) S ?full ?slow")
    case (Inl f)
    have "(result, db') = (Inl (CollectionCycleError ?t (fault_class f)),
        record_cycle_failure (cs_dumps S) ?t (cs_monotonic S 0) (cs_monotonic S 1) (fault_class f) (note_attempts cfg ?t db))"
      unfolding assms(3) [symmetric] collect_once_def Let_def Inl sum.case using v by simp
    then show ?thesis by (intro failed) simp_all
  next
    case (Inr got)
    obtain c tns es names where got: "got = (c, tns, es, names)" by (cases got)
    let ?s = "\<lparr>cl_store = note_attempts cfg ?t db, cl_capture = c, cl_clock = 1\<rparr>"
    obtain x s' where run: "cycle_transaction S cfg r ?t (cs_monotonic S 0) ?full ?slow tns es names ?s = (x, s')" by fastforce
    have kept: "cycle_tables S ?t (cl_store s')"
      using noted assms(2) sound_capture_raw [OF Inr [unfolded got]] by (intro transaction_tables [OF _ _ _ run]) simp_all
    show ?thesis
    proof (cases x)
      case (Inl f)
      have "(result, db') = (Inl (CollectionCycleError ?t (fault_class f)),
          record_cycle_failure (cs_dumps S) ?t (cs_monotonic S 0) (cs_monotonic S (cl_clock s')) (fault_class f) (note_attempts cfg ?t db))"
        unfolding assms(3) [symmetric] collect_once_def Let_def Inr sum.case got prod.case run Inl using v by simp
      then show ?thesis by (intro failed) simp_all
    next
      case ok: (Inr d)
      have "(result, db') = (Inr ?t,
          if cr_maintenance r then checkpoint_step S r ?t (cs_monotonic S 0) d (cl_clock s') (cl_store s') else cl_store s')"
        unfolding assms(3) [symmetric] collect_once_def Let_def Inr sum.case got prod.case run ok using v by simp
      then have out: "result = Inr ?t"
        "db' = (if cr_maintenance r then checkpoint_step S r ?t (cs_monotonic S 0) d (cl_clock s') (cl_store s') else cl_store s')"
        by simp_all
      have "cycle_tables S ?t db'" unfolding out(2) checkpoint_step_def Let_def using kept by (simp add: checkpoint_tables)
      moreover have "map_option (\<lambda>r. (cy_success r, cy_overrun r, cy_missed r)) (map_of (cycle_rows db') ?t)
          = map_option (\<lambda>r. (cy_success r, cy_overrun r, cy_missed r)) (map_of (cycle_rows (cl_store s')) ?t)"
        unfolding out(2) checkpoint_step_def Let_def by (simp add: checkpoint_marks)
      moreover obtain fin where "map_of (cycle_rows (cl_store s')) ?t = Some (request_cycle r (cs_monotonic S 0) fin)"
        using transaction_marks run ok by blast
      ultimately show ?thesis by (auto simp: out(1) cycle_tables_def request_cycle_def cycle_of_def)
    qed
  qed
qed


section \<open>Texts that stay\<close>

definition texts_kept :: "collector_sources \<Rightarrow> string list \<Rightarrow> (string \<Rightarrow> string option) \<Rightarrow> store \<Rightarrow> bool" where
  "texts_kept S ks vals db \<longleftrightarrow> 0 < cs_ticks S \<and> list_all (\<lambda>k. text_of db k = vals k) ks"

lemma text_of_set [simp]: "text_of (set_text k v db) j = (if j = k then Some v else text_of db j)"
  by (simp add: text_of_def set_text_def update_conv')

lemma text_of_rows [simp]:
  "text_of (put_cycle t row db) k = text_of db k" "text_of (insert_metric dumps m t db) k = text_of db k"
  "text_of (insert_event dumps e db) k = text_of db k" "text_of (insert_sample s (Some c) db) k = text_of db k"
  "text_of (upsert_tunnel dumps tn t db) k = text_of db k"
  "text_of (db\<lparr>cycle_rows := rows\<rparr>) k = text_of db k"
  by (simp_all add: text_of_def put_cycle_def insert_event_def upsert_tunnel_def Let_def)

lemma texts_kept_set: "k \<notin> set ks \<Longrightarrow> texts_kept S ks vals (set_text k v db) \<longleftrightarrow> texts_kept S ks vals db"
  by (auto simp: texts_kept_def list_all_iff)

lemma texts_kept_rows [simp]:
  "texts_kept S ks vals (put_cycle t row db) \<longleftrightarrow> texts_kept S ks vals db"
  "texts_kept S ks vals (insert_metric dumps m t db) \<longleftrightarrow> texts_kept S ks vals db"
  "texts_kept S ks vals (insert_event dumps e db) \<longleftrightarrow> texts_kept S ks vals db"
  "texts_kept S ks vals (insert_sample s (Some c) db) \<longleftrightarrow> texts_kept S ks vals db"
  "texts_kept S ks vals (upsert_tunnel dumps tn t db) \<longleftrightarrow> texts_kept S ks vals db"
  "texts_kept S ks vals (db\<lparr>cycle_rows := rows\<rparr>) \<longleftrightarrow> texts_kept S ks vals db"
  by (simp_all add: texts_kept_def)

lemma texts_kept_inserts [simp]:
  "texts_kept S ks vals (insert_metrics dumps ms t db) \<longleftrightarrow> texts_kept S ks vals db"
  "texts_kept S ks vals (fold (insert_event dumps) es db) \<longleftrightarrow> texts_kept S ks vals db"
proof -
  show "texts_kept S ks vals (insert_metrics dumps ms t db) \<longleftrightarrow> texts_kept S ks vals db"
    unfolding insert_metrics_def by (induction ms arbitrary: db) simp_all
  show "texts_kept S ks vals (fold (insert_event dumps) es db) \<longleftrightarrow> texts_kept S ks vals db"
    by (induction es arbitrary: db) simp_all
qed

lemma texts_kept_maintenance:
  assumes "store_maintenance loads now db = Inr db'" and "''minute_rollup_watermark'' \<notin> set ks"
  shows "texts_kept S ks vals db' \<longleftrightarrow> texts_kept S ks vals db"
proof -
  have "\<forall>k. k \<noteq> ''minute_rollup_watermark'' \<longrightarrow> text_of db' k = text_of db k" using store_maintenance_fields [OF assms(1)] by blast
  then have "\<forall>k \<in> set ks. text_of db' k = text_of db k" using assms(2) by metis
  then show ?thesis by (simp add: texts_kept_def list_all_iff)
qed

interpretation keys: stored_tables "texts_kept S PROTECTED_KEYS vals" S t
  by unfold_locales (simp_all add: texts_kept_set, simp add: texts_kept_def)

interpretation attempts: stored_cycle "texts_kept S ATTEMPT_KEYS vals" S t
proof
  fix db :: store
  assume J: "texts_kept S ATTEMPT_KEYS vals db"
  show "texts_kept S ATTEMPT_KEYS vals (set_text k v db)" if "k \<notin> set PROTECTED_KEYS" for k v
  proof -
    have "set ATTEMPT_KEYS \<subseteq> set PROTECTED_KEYS" by (simp add: ATTEMPT_KEYS_def PROTECTED_KEYS_def)
    then show ?thesis using J that texts_kept_set by blast
  qed
  show "texts_kept S ATTEMPT_KEYS vals db'" if "store_maintenance (cs_loads S) t db = Inr db'" for db'
    using J texts_kept_maintenance [OF that] by (simp add: ATTEMPT_KEYS_def)
  show "0 < cs_ticks S" using J by (simp add: texts_kept_def)
qed (simp_all add: texts_kept_set)


section \<open>The cadences of the slow sources\<close>

lemma transaction_attempts:
  assumes "texts_kept S ATTEMPT_KEYS vals (cl_store s)" and "sound_capture (cl_capture s)"
    and "cycle_transaction S cfg r t started full slow tns es names s = (x, s')"
  shows "texts_kept S ATTEMPT_KEYS vals (cl_store s')"
proof -
  have work: "wp (cycle_writes S cfg r t started sampled began full slow tns es names) (\<lambda>_ s'. texts_kept S ATTEMPT_KEYS vals (cl_store s'))
      (\<lambda>_ s'. texts_kept S ATTEMPT_KEYS vals (cl_store s')) s1" if "holds (texts_kept S ATTEMPT_KEYS vals) s1" for sampled began s1
    by (rule wp_weaken [OF runs_from [OF attempts.writes that]]) (simp_all add: holds_def)
  have "wp (cycle_transaction S cfg r t started full slow tns es names) (\<lambda>_ s'. texts_kept S ATTEMPT_KEYS vals (cl_store s'))
      (\<lambda>_ s'. texts_kept S ATTEMPT_KEYS vals (cl_store s')) s"
    unfolding cycle_transaction_def wp_bindE wp_seqE on_store_def wp_modify wp_read_clock
    by (rule work) (simp add: holds_def assms(1,2))
  then show ?thesis using assms(3) by (simp add: wp_def split: sum.splits)
qed

lemma failure_texts:
  "k \<notin> {''event.cycle_health''} \<Longrightarrow> text_of (record_cycle_failure dumps t started finished message db) k = text_of db k"
  by (simp add: record_cycle_failure_def Let_def)

lemma checkpoint_texts:
  "k \<noteq> ''event.checkpoint_health'' \<Longrightarrow>
     text_of (record_checkpoint_result dumps t answer duration started finished maintenance db) k = text_of db k"
  by (simp add: record_checkpoint_result_def Let_def split: option.split)

lemma collection_attempts:
  assumes "0 < cs_ticks S" and "md_version db = 4" and "collect_once S cfg r db = (result, db')" and "k \<in> set ATTEMPT_KEYS"
  shows "text_of db' k = text_of (note_attempts cfg (request_time S r) db) k"
proof -
  let ?t = "request_time S r"
  let ?full = "socket_due cfg ?t db" and ?slow = "slow_sources_due cfg ?t db" and ?noted = "note_attempts cfg ?t db"
  have k: "k \<noteq> ''event.cycle_health''" "k \<noteq> ''event.checkpoint_health''" using assms(4) by (auto simp: ATTEMPT_KEYS_def)
  show ?thesis
  proof (cases "capture_raw (cr_db_path r) (cr_env_dir r) S ?full ?slow")
    case (Inl f)
    have "(result, db') = (Inl (CollectionCycleError ?t (fault_class f)),
        record_cycle_failure (cs_dumps S) ?t (cs_monotonic S 0) (cs_monotonic S 1) (fault_class f) ?noted)"
      unfolding assms(3) [symmetric] collect_once_def Let_def Inl sum.case using assms(2) by simp
    then show ?thesis using k by (simp add: failure_texts)
  next
    case (Inr got)
    obtain c tns es names where got: "got = (c, tns, es, names)" by (cases got)
    let ?s = "\<lparr>cl_store = ?noted, cl_capture = c, cl_clock = 1\<rparr>"
    obtain x s' where run: "cycle_transaction S cfg r ?t (cs_monotonic S 0) ?full ?slow tns es names ?s = (x, s')" by fastforce
    have "texts_kept S ATTEMPT_KEYS (text_of ?noted) (cl_store s')"
      using assms(1) sound_capture_raw [OF Inr [unfolded got]]
      by (intro transaction_attempts [OF _ _ run]) (simp_all add: texts_kept_def list_all_iff)
    then have kept: "text_of (cl_store s') k = text_of ?noted k" using assms(4) by (simp add: texts_kept_def list_all_iff)
    show ?thesis
    proof (cases x)
      case (Inl f)
      have "(result, db') = (Inl (CollectionCycleError ?t (fault_class f)),
          record_cycle_failure (cs_dumps S) ?t (cs_monotonic S 0) (cs_monotonic S (cl_clock s')) (fault_class f) ?noted)"
        unfolding assms(3) [symmetric] collect_once_def Let_def Inr sum.case got prod.case run Inl using assms(2) by simp
      then show ?thesis using k by (simp add: failure_texts)
    next
      case (Inr d)
      have "(result, db') = (Inr ?t,
          if cr_maintenance r then checkpoint_step S r ?t (cs_monotonic S 0) d (cl_clock s') (cl_store s') else cl_store s')"
        unfolding assms(3) [symmetric] collect_once_def Let_def \<open>capture_raw _ _ _ _ _ = _\<close> sum.case got prod.case run Inr using assms(2) by simp
      then show ?thesis using k kept by (simp add: checkpoint_step_def Let_def checkpoint_texts)
    qed
  qed
qed

lemma note_attempts_texts:
  "text_of (note_attempts cfg t db) ''slow_sources_last_attempt_ts''
     = (if slow_sources_due cfg t db then Some (str_int t) else text_of db ''slow_sources_last_attempt_ts'')"
  "text_of (note_attempts cfg t db) ''tcp_snapshot_last_attempt_ts''
     = (if socket_due cfg t db then Some (str_int t) else text_of db ''tcp_snapshot_last_attempt_ts'')"
  "text_of (note_attempts cfg t db) ''tcp_snapshot_last_ts'' = text_of db ''tcp_snapshot_last_ts''"
  by (simp_all add: note_attempts_def Let_def)

lemma cadence_after: "0 \<le> t1 \<Longrightarrow> t1 < 10 ^ 15 \<Longrightarrow> cadence_due (Some (str_int t1)) t2 interval \<longleftrightarrow> t2 < t1 \<or> max 1 interval \<le> of_int (t2 - t1)"
  by (simp add: cadence_due_def text_int_str_int)

text \<open>C20: the expensive sources keep to their cadence: once a collection has attempted them, whether it then succeeded or failed,
  a later collection reads them again exactly when the configured interval (at least one second) has passed or the clock went
  back; a collection that does not attempt them leaves their cadence as it was.\<close>

theorem slow_sources_keep_cadence:
  assumes "0 < cs_ticks S" and "md_version db = 4" and "0 \<le> request_time S r" and "request_time S r < 10 ^ 15"
    and "collect_once S cfg r db = (result, db')"
  shows "let t1 = request_time S r
    in slow_sources_due cfg t2 db'
        = (if slow_sources_due cfg t1 db then t2 < t1 \<or> max 1 (cc_slow cfg) \<le> of_int (t2 - t1) else slow_sources_due cfg t2 db)
      \<and> socket_due cfg t2 db'
        = (if socket_due cfg t1 db then t2 < t1 \<or> max 1 (cc_tcp cfg) \<le> of_int (t2 - t1) else socket_due cfg t2 db)"
proof -
  let ?t1 = "request_time S r"
  have "str_int ?t1 \<noteq> []" using assms(3) by (simp add: str_int_nonneg str_nat_nonempty)
  then have named: "or_option (Some (str_int ?t1)) legacy = Some (str_int ?t1)" for legacy by (simp add: or_option_def or_else_def)
  note kept = collection_attempts [OF assms(1,2,5), simplified ATTEMPT_KEYS_def]
  have "text_of db' ''slow_sources_last_attempt_ts'' = text_of (note_attempts cfg ?t1 db) ''slow_sources_last_attempt_ts''"
    and "text_of db' ''tcp_snapshot_last_attempt_ts'' = text_of (note_attempts cfg ?t1 db) ''tcp_snapshot_last_attempt_ts''"
    and "text_of db' ''tcp_snapshot_last_ts'' = text_of (note_attempts cfg ?t1 db) ''tcp_snapshot_last_ts''"
    by (rule kept; simp)+
  then show ?thesis
    unfolding Let_def slow_sources_due_def [of cfg t2] socket_due_def [of cfg t2] note_attempts_texts
    by (simp add: cadence_after [OF assms(3,4)] named)
qed


section \<open>A collection succeeds\<close>

text \<open>What the texts a cycle parses must be: what the collector itself writes there.\<close>

definition total_readable :: "string option \<Rightarrow> bool" where
  "total_readable v \<longleftrightarrow> (case v of None \<Rightarrow> True | Some raw \<Rightarrow> if isdigit raw then text_int raw \<noteq> None else True)"

definition overruns_readable :: "string option \<Rightarrow> bool" where
  "overruns_readable v \<longleftrightarrow> (case v of None \<Rightarrow> True | Some raw \<Rightarrow> if raw = [] then True else text_int raw \<noteq> None)"

definition conntrack_readable :: "json_parser \<Rightarrow> string option \<Rightarrow> bool" where
  "conntrack_readable loads v \<longleftrightarrow>
     (case Option.bind v loads of Some (JArray _) \<Rightarrow> False | Some (JObject _) \<Rightarrow> False | _ \<Rightarrow> True)"

definition overruns_of :: "string option \<Rightarrow> int" where
  "overruns_of v = (case v of None \<Rightarrow> 0 | Some raw \<Rightarrow> if raw = [] then 0 else the (text_int raw))"

definition UNLISTED_KEYS :: "string list" where
  "UNLISTED_KEYS = removeAll ''event.source.conntrack'' PROTECTED_KEYS"

definition FINAL_KEYS :: "string list" where
  "FINAL_KEYS = [''counter.overrun_count'', ''event.cycle_health'', ''last_successful_cycle_timestamp'']"

lemma key_lists: "set FINAL_KEYS \<subseteq> set UNLISTED_KEYS" "set UNLISTED_KEYS \<subseteq> set PROTECTED_KEYS"
  by (simp_all add: FINAL_KEYS_def UNLISTED_KEYS_def PROTECTED_KEYS_def)

lemma texts_kept_fewer: "texts_kept S ks vals db \<Longrightarrow> set js \<subseteq> set ks \<Longrightarrow> texts_kept S js vals db"
  by (auto simp: texts_kept_def list_all_iff)

lemma texts_kept_to: "texts_kept S ks vals db \<Longrightarrow> texts_kept S ks (vals(k := Some v)) (set_text k v db)"
  by (simp add: texts_kept_def list_all_iff)

lemma wp_chain: "wp m P (\<lambda>_ _. False) s \<Longrightarrow> (\<And>x s'. P x s' \<Longrightarrow> wp (f x) Q X s') \<Longrightarrow> wp (bindE m f) Q X s"
  unfolding wp_bindE by (erule wp_weaken) simp_all

lemma wp_emits_set:
  "(\<And>d. f d = (es d, set_json_state dumps k v d)) \<Longrightarrow>
     wp (emits f) Q X s = Q (es (metrics_db.truncate (cl_store s))) (s\<lparr>cl_store := set_text k (dumps v) (cl_store s)\<rparr>)"
proof -
  assume "\<And>d. f d = (es d, set_json_state dumps k v d)"
  then have f: "f = (\<lambda>d. (es d, set_json_state dumps k v d))" by blast
  show ?thesis unfolding f by (simp add: wp_def emits_def lift_db_set_json)
qed

lemma source_plain:
  assumes "source \<noteq> ''conntrack''" and "source_state c source = Some state" and "set ks \<subseteq> set PROTECTED_KEYS"
    and "holds (texts_kept S ks vals) s"
  shows "wp (source_reading S c t source) (\<lambda>_. holds (texts_kept S ks vals)) (\<lambda>_ _. False) s"
proof -
  have "''event.source.'' @ source \<notin> set ks" using assms(1,3) by (auto simp: PROTECTED_KEYS_def)
  moreover obtain es where "\<And>d. availability (cs_loads S) (cs_dumps S) source (state = ''available'') t d
      = (es d, set_json_state (cs_dumps S) (''event.source.'' @ source) (JBool (state = ''available'')) d)"
    by (simp add: availability_def Let_def)
  ultimately show ?thesis
    using assms(1,2,4) by (simp add: source_reading_def Let_def wp_bindE wp_emits_set wp_ret holds_def texts_kept_set)
qed

lemma conntrack_previous:
  "conntrack_readable loads (text_of db ''event.source.conntrack'') \<Longrightarrow>
     \<exists>p. optional_previous (previous_state loads (metrics_db.truncate db) ''event.source.conntrack'') = Inr p"
  by (auto simp: conntrack_readable_def optional_previous_def previous_state_def get_json_state_def get_state_def text_of_def metrics_db.defs
      split: option.splits json.splits bool.splits)

lemma source_conntrack:
  assumes "source_state c ''conntrack'' = Some state" and "state \<in> set OPTIONAL_STATES"
    and "conntrack_readable (cs_loads S) (vals ''event.source.conntrack'')" and s: "holds (texts_kept S PROTECTED_KEYS vals) s"
  shows "wp (source_reading S c t ''conntrack'') (\<lambda>_. holds (texts_kept S UNLISTED_KEYS vals)) (\<lambda>_ _. False) s"
proof -
  have "text_of (cl_store s) ''event.source.conntrack'' = vals ''event.source.conntrack''"
    using s by (simp add: holds_def texts_kept_def PROTECTED_KEYS_def)
  then obtain p where p: "optional_previous (previous_state (cs_loads S) (metrics_db.truncate (cl_store s)) ''event.source.conntrack'') = Inr p"
    using conntrack_previous assms(3) by metis
  define es where "es = optional_event ''conntrack'' p state t"
  have opt: "optional_availability (cs_loads S) (cs_dumps S) ''conntrack'' state t (metrics_db.truncate (cl_store s))
      = Inr (es, set_json_state (cs_dumps S) ''event.source.conntrack'' (JString state) (metrics_db.truncate (cl_store s)))"
    using assms(2) p by (simp add: optional_availability_def Let_def bindR_def es_def)
  have "texts_kept S UNLISTED_KEYS vals (set_text ''event.source.conntrack'' v (cl_store s))" for v
    using s texts_kept_fewer [OF _ key_lists(2)] by (simp add: holds_def texts_kept_set UNLISTED_KEYS_def)
  moreover have "wp (emits_optional (optional_availability (cs_loads S) (cs_dumps S) ''conntrack'' state t)) Q X s
      = Q es (s\<lparr>cl_store := set_text ''event.source.conntrack'' (cs_dumps S (JString state)) (cl_store s)\<rparr>)" for Q X
    using emits_optional_store [OF opt] by (simp add: wp_def emits_optional_def opt)
  ultimately show ?thesis
    using s assms(1) by (simp add: source_reading_def Let_def wp_bindE wp_ret holds_def)
qed

lemma source_state_known:
  assumes "sound_capture c" and "source \<in> set (capture_sources c)"
  obtains state where "source_state c source = Some state" and "state \<in> set OPTIONAL_STATES"
proof -
  have "state \<in> set OPTIONAL_STATES" if "map_of (cap_states c) source = Some state" for state
    using assms(1) map_of_SomeD [OF that] by (fastforce simp: sound_capture_def list_all_iff)
  moreover have "map_of (cap_errors c) source \<noteq> None \<or> map_of (cap_states c) source \<noteq> None \<or> map_of (cap_values c) source \<noteq> None"
    using assms(2) by (auto simp: capture_sources_def map_of_eq_None_iff)
  ultimately have "\<exists>state. source_state c source = Some state \<and> state \<in> set OPTIONAL_STATES"
    by (cases "map_of (cap_errors c) source"; cases "map_of (cap_states c) source"; simp add: source_state_def; simp add: OPTIONAL_STATES_def)
  then show thesis using that by blast
qed

lemma sources_gathered:
  assumes "sound_capture c" and "conntrack_readable (cs_loads S) (vals ''event.source.conntrack'')"
    and "set xs \<subseteq> set (capture_sources c)" and "distinct xs"
    and "if ''conntrack'' \<in> set xs then holds (texts_kept S PROTECTED_KEYS vals) s else holds (texts_kept S UNLISTED_KEYS vals) s"
  shows "wp (gather xs (source_reading S c t)) (\<lambda>_. holds (texts_kept S UNLISTED_KEYS vals)) (\<lambda>_ _. False) s"
  using assms(3-5)
proof (induction xs arbitrary: s)
  case Nil
  then show ?case by (simp add: wp_ret)
next
  case (Cons x xs)
  obtain state where state: "source_state c x = Some state" "state \<in> set OPTIONAL_STATES"
    using source_state_known [OF assms(1)] Cons.prems(1) by (metis insert_subset list.set(2))
  have head: "wp (source_reading S c t x)
      (\<lambda>_ s'. if ''conntrack'' \<in> set xs then holds (texts_kept S PROTECTED_KEYS vals) s' else holds (texts_kept S UNLISTED_KEYS vals) s')
      (\<lambda>_ _. False) s"
  proof (cases "x = ''conntrack''")
    case True
    have "''conntrack'' \<notin> set xs" "holds (texts_kept S PROTECTED_KEYS vals) s" using Cons.prems(2,3) True by simp_all
    then show ?thesis using state assms(2) True by (auto intro!: source_conntrack)
  next
    case False
    then show ?thesis
      using Cons.prems(3) source_plain [OF False state(1) subset_refl] source_plain [OF False state(1) key_lists(2)]
      by (cases "''conntrack'' \<in> set xs") simp_all
  qed
  have "wp (bindE (gather xs (source_reading S c t)) (\<lambda>(ms', es'). ret (ms @ ms', es @ es'))) (\<lambda>_. holds (texts_kept S UNLISTED_KEYS vals))
      (\<lambda>_ _. False) s'"
    if "if ''conntrack'' \<in> set xs then holds (texts_kept S PROTECTED_KEYS vals) s' else holds (texts_kept S UNLISTED_KEYS vals) s'"
    for s' ms es
    by (rule wp_chain [OF Cons.IH]) (use Cons.prems that in \<open>simp_all add: wp_ret split_beta\<close>)
  then show ?case by (simp only: gather.simps) (rule wp_chain [OF head], simp add: split_beta)
qed

lemma wp_save: "wp (save_text k v) Q X s = Q () (s\<lparr>cl_store := set_text k v (cl_store s)\<rparr>)"
  by (simp add: save_text_def on_store_def wp_modify)

lemma wp_save_json: "wp (save_json S k v) Q X s = Q () (s\<lparr>cl_store := set_text k (cs_dumps S v) (cl_store s)\<rparr>)"
  by (simp add: save_json_def wp_save)

lemma holds_set_text:
  "holds (texts_kept S ks vals) s \<Longrightarrow> k \<notin> set ks \<Longrightarrow> holds (texts_kept S ks vals) (s\<lparr>cl_store := set_text k v (cl_store s)\<rparr>)"
  by (simp add: holds_def texts_kept_set)

lemma total_parsed: "total_readable raw \<Longrightarrow> \<exists>n. stored_total raw counts = Inr n"
  by (auto simp: total_readable_def stored_total_def read_result_def read_int_def split: option.splits if_splits)

lemma status_succeeds:
  assumes "conntrack_readable (cs_loads S) (vals ''event.source.conntrack'')" and "total_readable (vals ''counter.source_errors_total'')"
    and s: "holds (texts_kept S PROTECTED_KEYS vals) s"
  shows "wp (source_status S t) (\<lambda>_. holds (texts_kept S FINAL_KEYS vals)) (\<lambda>_ _. False) s"
proof -
  let ?c = "cl_capture s"
  have c: "sound_capture ?c" using s by (simp add: holds_def)
  have start: "if ''conntrack'' \<in> set (capture_sources ?c) then holds (texts_kept S PROTECTED_KEYS vals) s
      else holds (texts_kept S UNLISTED_KEYS vals) s"
    using s texts_kept_fewer [OF _ key_lists(2)] by (simp add: holds_def)
  have "distinct (capture_sources ?c)" by (simp add: capture_sources_def)
  note gathered = sources_gathered [where vals = vals, OF c assms(1) subset_refl this start]
  have fewer: "holds (texts_kept S FINAL_KEYS vals) s'" if "holds (texts_kept S UNLISTED_KEYS vals) s'" for s'
    using that texts_kept_fewer [OF _ key_lists(1)] by (simp add: holds_def)
  have rest: "wp (seqE (whenE b1 (save_text ''counter.source_errors_total'' v1))
        (seqE (whenE b2 (save_json S ''counter.source_errors_by_source'' v2))
        (seqE (whenE b3 (save_json S ''counter.source_errors'' v3)) (ret x))))
      (\<lambda>_. holds (texts_kept S FINAL_KEYS vals)) (\<lambda>_ _. False) s'"
    if "holds (texts_kept S UNLISTED_KEYS vals) s'" for b1 b2 b3 v1 v2 v3 x s'
    using fewer [OF that] by (simp add: wp_seqE wp_whenE wp_save wp_save_json wp_ret holds_def texts_kept_set FINAL_KEYS_def)
  show ?thesis
    unfolding source_status_def Let_def
  proof (simp only: wp_bindE [of "gets cl_capture"] wp_gets, rule wp_chain [OF gathered], simp only: split_beta)
    fix r :: reading and s' assume s': "holds (texts_kept S UNLISTED_KEYS vals) s'"
    have "text_of (cl_store s') ''counter.source_errors_total'' = vals ''counter.source_errors_total''"
      using s' by (simp add: holds_def texts_kept_def UNLISTED_KEYS_def PROTECTED_KEYS_def)
    then have total: "\<exists>n. stored_total (text_of (cl_store s') ''counter.source_errors_total'') counts = Inr n" for counts
      using total_parsed assms(2) by simp
    show "wp (bindE (text_state ''counter.source_errors_total'') (\<lambda>total_raw.
       bindE (json_state S ''counter.source_errors_by_source'') (\<lambda>previous.
       bindE (json_state S ''counter.source_errors'') (\<lambda>legacy.
       bindE (liftR (stored_total total_raw (stored_counts previous legacy t))) (\<lambda>total_before.
         seqE (whenE (b1 total_raw total_before) (save_text ''counter.source_errors_total'' (v1 total_before)))
         (seqE (whenE (b2 previous legacy) (save_json S ''counter.source_errors_by_source'' (v2 previous legacy)))
         (seqE (whenE (b3 legacy) (save_json S ''counter.source_errors'' (v3 legacy))) (ret (x total_before previous legacy)))))))))
        (\<lambda>_. holds (texts_kept S FINAL_KEYS vals)) (\<lambda>_ _. False) s'" for b1 v1 b2 v2 b3 v3 x
    proof -
      obtain n where n: "stored_total (text_of (cl_store s') ''counter.source_errors_total'')
          (stored_counts (get_json_state (cs_loads S) (metrics_db.truncate (cl_store s')) ''counter.source_errors_by_source'')
             (get_json_state (cs_loads S) (metrics_db.truncate (cl_store s')) ''counter.source_errors'') t) = Inr n"
        using total by blast
      show ?thesis
        unfolding wp_bindE text_state_def json_state_def wp_gets wp_liftR n sum.case by (rule rest [OF s'])
    qed
  qed
qed

definition after_cycle :: "(string \<Rightarrow> string option) \<Rightarrow> bool \<Rightarrow> int \<Rightarrow> string \<Rightarrow> string option" where
  "after_cycle vals overrun t =
     vals(''event.cycle_health'' := Some ''ok'',
          ''counter.overrun_count'' := Some (str_int (overruns_of (vals ''counter.overrun_count'') + (if overrun then 1 else 0))),
          ''last_successful_cycle_timestamp'' := Some (str_int t))"

lemma recovery_succeeds:
  "holds (texts_kept S FINAL_KEYS vals) s \<Longrightarrow>
     wp (cycle_recovery t) (\<lambda>_. holds (texts_kept S FINAL_KEYS (vals(''event.cycle_health'' := Some ''ok'')))) (\<lambda>_ _. False) s"
  by (simp add: cycle_recovery_def text_state_def wp_bindE wp_gets wp_seqE wp_save wp_ret holds_def texts_kept_to)

lemma maintenance_succeeds:
  "runs (texts_kept S FINAL_KEYS vals) False (\<lambda>_. True) (maintenance_step S t b)"
proof -
  have kept: "texts_kept S FINAL_KEYS vals db'" if "texts_kept S FINAL_KEYS vals db" "store_maintenance (cs_loads S) t db = Inr db'" for db db'
    using that texts_kept_maintenance [OF that(2), of FINAL_KEYS] by (simp add: FINAL_KEYS_def)
  have health: "runs (texts_kept S FINAL_KEYS vals) False (\<lambda>_. True) (save_text ''event.maintenance_health'' v)" for v
    unfolding save_text_def by (rule runs_on_store) (simp add: texts_kept_set FINAL_KEYS_def)
  show ?thesis
    unfolding maintenance_step_def Let_def
    by (rule runs_bind [OF runs_read_clock])
      (auto intro!: runs_ret runs_replace [OF kept] runs_bind [OF runs_text_state] runs_seq [OF health] runs_bind [OF runs_read_clock])
qed

lemma overrun_succeeds:
  assumes "overruns_readable (vals ''counter.overrun_count'')" and "holds (texts_kept S FINAL_KEYS vals) s"
  shows "wp (overrun_total b)
      (\<lambda>_. holds (texts_kept S FINAL_KEYS (vals(''counter.overrun_count'' :=
          Some (str_int (overruns_of (vals ''counter.overrun_count'') + (if b then 1 else 0))))))) (\<lambda>_ _. False) s"
proof -
  have raw: "text_of (cl_store s) ''counter.overrun_count'' = vals ''counter.overrun_count''"
    using assms(2) by (simp add: holds_def texts_kept_def FINAL_KEYS_def)
  have parse: "(case vals ''counter.overrun_count'' of
              None \<Rightarrow> ret 0
            | Some s \<Rightarrow> if s = [] then ret 0
                        else (case text_int s of None \<Rightarrow> raise (Raised ''ValueError'') | Some n \<Rightarrow> ret n))
      = (ret (overruns_of (vals ''counter.overrun_count'')) :: int collect)"
    using assms(1) by (auto simp: overruns_readable_def overruns_of_def split: option.split)
  show ?thesis
    unfolding overrun_total_def text_state_def wp_bindE wp_gets raw parse wp_ret Let_def wp_seqE wp_save
    using texts_kept_to [of S FINAL_KEYS vals "cl_store s" "''counter.overrun_count''"] assms(2)
    by (cases b) (simp_all add: holds_def)
qed

lemma readings_succeed:
  assumes "conntrack_readable (cs_loads S) (vals ''event.source.conntrack'')" and "total_readable (vals ''counter.source_errors_total'')"
    and "overruns_readable (vals ''counter.overrun_count'')" and s: "holds (texts_kept S PROTECTED_KEYS vals) s"
  shows "wp (cycle_readings S cfg r t started sampled began full slow tns es names)
      (\<lambda>_. holds (texts_kept S FINAL_KEYS (after_cycle vals (cr_overrun r) t))) (\<lambda>_ _. False) s"
proof -
  let ?ok = "vals(''event.cycle_health'' := Some ''ok'')"
  let ?counted = "?ok(''counter.overrun_count'' := Some (str_int (overruns_of (?ok ''counter.overrun_count'') + (if cr_overrun r then 1 else 0))))"
  have observed: "wp (cycle_observations S cfg t sampled full slow tns es names) (\<lambda>_. holds (texts_kept S PROTECTED_KEYS vals)) (\<lambda>_ _. False) s"
    by (rule wp_weaken [OF runs_from [OF keys.observed [where X = False] s]]) simp_all
  have maintained: "wp (maintenance_step S t b) (\<lambda>_. holds (texts_kept S FINAL_KEYS ?ok)) (\<lambda>_ _. False) s'"
    if "holds (texts_kept S FINAL_KEYS ?ok) s'" for b s'
    by (rule wp_weaken [OF runs_from [OF maintenance_succeeds that]]) simp_all
  have last_step: "holds (texts_kept S FINAL_KEYS (after_cycle vals (cr_overrun r) t))
      (s'\<lparr>cl_store := set_text ''last_successful_cycle_timestamp'' (str_int t) (cl_store s'), cl_clock := n\<rparr>)"
    if "holds (texts_kept S FINAL_KEYS ?counted) s'" for s' n
    using texts_kept_to [of S FINAL_KEYS ?counted "cl_store s'" "''last_successful_cycle_timestamp''" "str_int t"] that
    by (simp add: holds_def after_cycle_def)
  have counted: "wp (overrun_total (cr_overrun r)) (\<lambda>_. holds (texts_kept S FINAL_KEYS ?counted)) (\<lambda>_ _. False) s'"
    if "holds (texts_kept S FINAL_KEYS ?ok) s'" for s'
    by (rule overrun_succeeds) (simp add: assms(3), rule that)
  show ?thesis
    unfolding cycle_readings_def
    apply (rule wp_chain [OF observed], simp only: split_beta)
    apply (rule wp_chain [OF status_succeeds [OF assms(1,2)]], assumption, simp only: split_beta)
    apply (rule wp_chain [OF recovery_succeeds], assumption)
    apply (rule wp_chain [OF maintained], assumption, simp only: split_beta)
    apply (rule wp_chain [OF counted], assumption)
    apply (simp only: wp_seqE wp_save wp_bindE wp_read_clock wp_ret)
    apply (drule last_step, simp)
    done
qed

lemma transaction_succeeds:
  assumes "conntrack_readable (cs_loads S) (vals ''event.source.conntrack'')" and "total_readable (vals ''counter.source_errors_total'')"
    and "overruns_readable (vals ''counter.overrun_count'')" and s: "holds (texts_kept S PROTECTED_KEYS vals) s"
  shows "wp (cycle_transaction S cfg r t started full slow tns es names)
      (\<lambda>_. holds (texts_kept S FINAL_KEYS (after_cycle vals (cr_overrun r) t))) (\<lambda>_ _. False) s"
proof -
  let ?P = "holds (texts_kept S PROTECTED_KEYS vals)" and ?F = "holds (texts_kept S FINAL_KEYS (after_cycle vals (cr_overrun r) t))"
  have cadences: "wp (cadence_step S cfg) (\<lambda>_. ?P) (\<lambda>_ _. False) s'" if "?P s'" for s'
    by (rule wp_weaken [OF runs_from [OF keys.cadence_kept [where X = False] that]]) simp_all
  have samples: "?P (s'\<lparr>cl_store := insert_sample x (Some t) (cl_store s')\<rparr>)" if "?P s'" for s' x
    using that by (simp add: holds_def)
  show ?thesis
    unfolding cycle_transaction_def cycle_writes_def Let_def wp_bindE [of "read_clock S"] wp_read_clock wp_seqE on_store_def wp_modify
    apply (rule wp_weaken [OF cadences, where X' = "\<lambda>_ _. False"])
      apply (simp add: holds_def, use s in \<open>simp add: holds_def\<close>)
     apply (rule wp_chain [OF readings_succeed [OF assms(1-3)]], assumption, simp only: split_beta)
     apply (simp add: wp_seqE wp_modify wp_bindE wp_read_clock wp_ret holds_def)
    apply simp
    done
qed

text \<open>A collection can only be stopped by what it cannot parse: what systemd answers for the main process of a service, and the
  three texts of the collector itself.\<close>

lemma services_captured:
  assumes "\<And>service properties. read_properties S service = Inr properties \<Longrightarrow> \<exists>p. main_pid properties = Inr p"
  shows "\<exists>c'. capture_services S slow_due names c = Inr c'"
proof (induction names arbitrary: c)
  case (Cons service names)
  have "\<exists>c'. capture_service S slow_due service c = Inr c'"
  proof (cases "read_properties S service")
    case (Inr properties)
    then obtain p where "main_pid properties = Inr p" using assms by blast
    then show ?thesis by (simp add: capture_service_def Let_def Inr bindR_def split_beta)
  qed (simp add: capture_service_def Let_def)
  then show ?case using Cons.IH by (auto simp: bindR_def)
qed simp

lemma bindR_ret: "\<exists>x. r = Inr x \<Longrightarrow> \<exists>y. bindR r (\<lambda>x. Inr (f x)) = Inr y"
  by (auto simp: bindR_def)

lemma raw_captured:
  assumes "\<And>service properties. read_properties S service = Inr properties \<Longrightarrow> \<exists>p. main_pid properties = Inr p"
  shows "\<exists>x. capture_raw db_path env_dir S full slow_due = Inr x"
  unfolding capture_raw_def Let_def split_beta by (rule bindR_ret, rule services_captured, rule assms)



section \<open>A failed collection\<close>

lemma put_point_elsewhere:
  "filter (\<lambda>q. point_id q \<noteq> point_id p) (put_point p ps) = filter (\<lambda>q. point_id q \<noteq> point_id p) ps"
proof -
  have "filter (\<lambda>q. point_id q \<noteq> point_id p) (map (\<lambda>q. if point_id q = point_id p then p else q) ps) = filter (\<lambda>q. point_id q \<noteq> point_id p) ps"
    by (induction ps) auto
  then show ?thesis by (simp add: put_point_id)
qed

lemma deleted_update: "AList.delete k (AList.update k v d) = AList.delete k d"
  by (induction d) (auto simp: AList.delete_eq)

lemma status_not_sensitive: "\<not> sensitive_key ''cycle_status''"
  by code_simp



section \<open>Collections on a host where nothing can be read\<close>

definition sample_request :: cycle_request where
  "sample_request =
     \<lparr>cr_db_path = ''/var/lib/gost-manager/monitoring.db'', cr_env_dir = ''/etc/gost'', cr_now = Some 100, cr_maintenance = False,
      cr_overrun = True, cr_missed = 2, cr_overrun_seconds = 15, cr_checkpoint = None\<rparr>"

lemma empty_store_well: "well_stored empty_store" "md_version empty_store = 4" "text_of empty_store k = None"
  by (simp_all add: well_stored_def well_points_def well_rows_def empty_store_def empty_db_def metrics_db.defs known_qualities_def text_of_def)

lemma quiet_ticks: "0 < cs_ticks quiet_host"
  by (simp add: quiet_host_def)

lemma sample_time: "request_time quiet_host sample_request = 100"
  by (simp add: request_time_def sample_request_def)

lemma quiet_services: "read_properties quiet_host service = Inr p \<Longrightarrow> \<exists>n. main_pid p = Inr n"
  by (simp add: read_properties_def command_text_def quiet_host_def run_command_def bindR_def)

theorem collection_keeps_tables_witness:
  "\<exists>result db'. collect_once quiet_host CollectorConfig sample_request empty_store = (result, db') \<and> well_stored db'
     \<and> map_of (cycle_rows db') 100 \<noteq> None"
proof -
  obtain result db' where run: "collect_once quiet_host CollectorConfig sample_request empty_store = (result, db')" by fastforce
  from collection_keeps_tables [OF empty_store_well(1) quiet_ticks run] run show ?thesis
    by (fastforce simp: sample_time split: option.splits)
qed


theorem slow_sources_keep_cadence_witness:
  "\<exists>result db'. collect_once quiet_host CollectorConfig sample_request empty_store = (result, db')
     \<and> \<not> slow_sources_due CollectorConfig 159 db' \<and> slow_sources_due CollectorConfig 160 db'"
proof -
  obtain result db' where run: "collect_once quiet_host CollectorConfig sample_request empty_store = (result, db')" by fastforce
  have due: "slow_sources_due CollectorConfig 100 empty_store" by (simp add: slow_sources_due_def cadence_due_def empty_store_well)
  note after = slow_sources_keep_cadence [OF quiet_ticks empty_store_well(2) _ _ run, unfolded sample_time Let_def]
  have "\<not> slow_sources_due CollectorConfig 159 db'" using after [of 159] due by (simp add: CollectorConfig_def)
  moreover have "slow_sources_due CollectorConfig 160 db'" using after [of 160] due by (simp add: CollectorConfig_def)
  ultimately show ?thesis using run by blast
qed

text \<open>A service whose main process number is given with a superscript digit, which \<open>isdigit\<close> accepts and \<open>int\<close> does not.\<close>

definition odd_host :: collector_sources where
  "odd_host = quiet_host
     \<lparr>cs_glob := \<lambda>_ pattern. Inr (if pattern = ''*.env'' then [] else [(''/etc/systemd/system/gost-iran-1.service'', ''gost-iran-1.service'')]),
      cs_run := \<lambda>_. Completed (''MainPID='' @ [char_of (178 :: nat)]) [] 0\<rparr>"

lemma odd_service: "discover_managed_services [''gost-iran-1.service''] [] = [''gost-iran-1.service'']"
  by code_simp

lemma odd_properties: "parse_systemd_properties (''MainPID='' @ [char_of (178 :: nat)]) = [(''MainPID'', [char_of (178 :: nat)])]"
  by code_simp

lemma odd_main_pid: "main_pid [(''MainPID'', [char_of (178 :: nat)])] = Inl (Raised ''ValueError'')"
  by code_simp

lemma odd_capture: "capture_service odd_host slow ''gost-iran-1.service'' c = Inl (Raised ''ValueError'')"
proof -
  have "read_properties odd_host ''gost-iran-1.service'' = Inr [(''MainPID'', [char_of (178 :: nat)])]"
    unfolding read_properties_def command_text_def odd_host_def
    by (simp add: run_command_def command_stdout_def bindR_def odd_properties Let_def del: append.simps)
  then show ?thesis unfolding capture_service_def by (simp add: odd_main_pid bindR_def)
qed


end
