(* ===== verification/Monitoring_Pipeline.thy ===== *)
theory Monitoring_Pipeline
  imports Monitoring_Network Monitoring_Proc Monitoring_Services Monitoring_Entities Monitoring_Store Monitoring_Config Monitoring_Cycles
begin

text \<open>
  Properties that span the collector: every reader makes honest metrics, so that what a collection stores keeps what the
  minute rollups and the summaries rely on; none of the processor metrics falls to the redaction; and accepted settings
  keep the daemon running.
\<close>

section \<open>Every reader is honest\<close>

definition honest_total :: "(reader_exn, metric list) result \<Rightarrow> bool" where
  "honest_total r \<longleftrightarrow> (\<exists>ms. r = Inr ms \<and> list_all honest ms)"



section \<open>The processor metrics are all stored\<close>

lemma host_metric_key:
  "metric_key (host_metric n v u q) = (''host'', ''local'', n)" "metric_key (m\<lparr>m_reset := r\<rparr>) = metric_key m" "metric_key (m\<lparr>m_gap := g\<rparr>) = metric_key m"
  by (simp_all add: metric_key_def or_else_def host_metric_def Metric_fields)

lemma cpu_metric_names:
  assumes "cpu_metrics current previous elapsed g = Inr ms"
  shows "map metric_key ms = map (\<lambda>n. (''host'', ''local'', n))
    (map (\<lambda>f. ''cpu_'' @ fst f @ ''_jiffies'') cpu_fields @ [''cpu_jiffies_total'', ''cpu_logical_count'']
     @ map (\<lambda>f. ''cpu_'' @ fst f @ ''_percent'') cpu_fields @ [''cpu_utilization_percent''])"
  unfolding assms [unfolded cpu_metrics_def Let_def metrics_Inr, THEN conjunct1]
  by (simp only: map_append map_map comp_def split_beta host_metric_key list.map append_Cons append_Nil append_assoc)

lemma cpu_names_storable:
  "list_all (\<lambda>n. \<not> sensitive_key n)
     (map (\<lambda>f. ''cpu_'' @ fst f @ ''_jiffies'') cpu_fields @ [''cpu_jiffies_total'', ''cpu_logical_count'']
      @ map (\<lambda>f. ''cpu_'' @ fst f @ ''_percent'') cpu_fields @ [''cpu_utilization_percent''])"
  unfolding cpu_fields_def by code_simp

text \<open>A collection stores all nineteen processor metrics, also those of the user time, whose names the redaction must not
  take for a secret: each is the one point of its series at the time of the collection, and the qualities stay known.\<close>

theorem cpu_metrics_all_stored:
  assumes "distinct (map point_id (md_points db))" and "known_qualities (md_points db)"
  shows "\<exists>ms. cpu_metrics current previous elapsed g = Inr ms \<and> length ms = 19
    \<and> known_qualities (md_points (insert_metrics dumps ms t db))
    \<and> list_all (\<lambda>m. filter (\<lambda>p. point_id p = (metric_key m, t)) (md_points (insert_metrics dumps ms t db)) = [point_of t m]) ms"
proof -
  obtain ms where ms: "cpu_metrics current previous elapsed g = Inr ms" "list_all honest ms" using cpu_metrics_list by blast
  note keys = cpu_metric_names [OF ms(1)]
  have "distinct (map metric_key ms)" unfolding keys by (simp add: cpu_fields_def)
  moreover have "map m_name ms = map (snd \<circ> snd) (map metric_key ms)" by (simp add: metric_key_def)
  then have names: "map m_name ms = map (\<lambda>f. ''cpu_'' @ fst f @ ''_jiffies'') cpu_fields @ [''cpu_jiffies_total'', ''cpu_logical_count'']
      @ map (\<lambda>f. ''cpu_'' @ fst f @ ''_percent'') cpu_fields @ [''cpu_utilization_percent'']"
    unfolding keys by (simp add: comp_def)
  have "list_all (\<lambda>m. \<not> sensitive_key (m_name m)) ms"
    using cpu_names_storable unfolding names [symmetric] by (simp add: list_all_iff)
  moreover have "length ms = 19" using arg_cong [OF names, of length] by (simp add: cpu_fields_def)
  ultimately show ?thesis using ms insert_metrics_points [OF _ _ ms(2) assms, of dumps t] by (auto simp: list_all_iff)
qed

definition sample_cpu :: cpu_counters where
  "sample_cpu = \<lparr>user = 4, nice = 0, system_time = 2, idle = 9, iowait = 1, irq = 0, softirq = 0, steal = 0, logical_cpus = 2\<rparr>"

theorem cpu_metrics_all_stored_witness:
  "\<exists>ms. cpu_metrics sample_cpu None None None = Inr ms \<and> length ms = 19
     \<and> known_qualities (md_points (insert_metrics (\<lambda>_. ''{}'') ms 60 empty_store))"
proof -
  have "md_points empty_store = []" by (simp add: empty_store_def empty_db_def metrics_db.defs)
  then show ?thesis using cpu_metrics_all_stored [of empty_store sample_cpu None None None "\<lambda>_. ''{}''" 60] by (auto simp: known_qualities_def)
qed


section \<open>Accepted settings keep the daemon running\<close>

text \<open>With any settings the file format accepts the daemon never hangs in catching up: whatever the clock, the collections
  and the overrun records do, every run returns, its collections keep to the grid of the sample interval, successive
  deadlines are at least five seconds apart, and maintenance runs at least five minutes apart.\<close>

theorem accepted_settings_keep_running:
  "(case parse_config_text content of
      Inl _ \<Rightarrow> True
    | Inr c \<Rightarrow> \<exists>stopped s w'.
        run_collector n E (of_int (mc_sample_interval c)) (of_int (mc_maintenance_interval c)) w = Some (stopped, s, w')
        \<and> list_all (\<lambda>(d, began, _). d \<le> began \<and> (\<exists>k. d = fst (ce_monotonic E w) + real k * of_int (mc_sample_interval c))) (sc_log s)
        \<and> sorted_wrt (\<lambda>(d, b, m) (d', b', m'). d + 5 \<le> d' \<and> (if m \<and> m' then b + 300 \<le> b' else True)) (sc_log s))"
proof (cases "parse_config_text content")
  case (Inr c)
  then have v: "5 \<le> mc_sample_interval c" "300 \<le> mc_maintenance_interval c"
    using parse_config_text_valid by (auto simp: valid_config_def)
  let ?i = "of_int (mc_sample_interval c) :: real" and ?m = "of_int (mc_maintenance_interval c) :: real"
  obtain d0 w0 where mono: "ce_monotonic E w = (d0, w0)" by fastforce
  have "kept d0 ?i ?m \<lparr>sc_deadline = d0, sc_next_maintenance = d0, sc_log = []\<rparr>"
    by (auto simp: kept_def intro: exI [of _ 0])
  then obtain b s w' where run: "collector_loop n E ?i ?m \<lparr>sc_deadline = d0, sc_next_maintenance = d0, sc_log = []\<rparr> w0 = Some (b, s, w')"
      and k: "kept d0 ?i ?m s"
  proof -
    have "0 < ?i" "0 \<le> ?m" using v by simp_all
    from collector_loop_kept [OF this \<open>kept d0 ?i ?m _\<close>, of n E w0] that show thesis by blast
  qed
  have "sorted_wrt (\<lambda>(d, b, m) (d', b', m'). d + 5 \<le> d' \<and> (if m \<and> m' then b + 300 \<le> b' else True)) (sc_log s)"
  proof (rule sorted_wrt_mono_rel)
    show "sorted_wrt (\<lambda>(d, c, mt) (d', c', mt'). d + ?i \<le> d' \<and> (mt \<and> mt' \<longrightarrow> c + ?m \<le> c')) (sc_log s)" using k by (simp add: kept_def)
    have "5 \<le> ?i" "300 \<le> ?m" using v by simp_all
    then show "(\<lambda>(d, b, m) (d', b', m'). d + 5 \<le> d' \<and> (if m \<and> m' then b + 300 \<le> b' else True)) x y"
      if "(\<lambda>(d, c, mt) (d', c', mt'). d + ?i \<le> d' \<and> (mt \<and> mt' \<longrightarrow> c + ?m \<le> c')) x y" for x y
      using that by (auto simp: split_beta)
  qed
  moreover have "list_all (\<lambda>(d, began, _). d \<le> began \<and> (\<exists>k. d = d0 + real k * ?i)) (sc_log s)" using k by (simp add: kept_def)
  moreover have "run_collector n E ?i ?m w = Some (b, s, w')" using run mono by (simp add: run_collector_def)
  ultimately show ?thesis unfolding Inr sum.case mono fst_conv by blast
qed simp

end
