(* ===== verification/Spec2Isabelle.thy ===== *)
theory Spec2Isabelle
  imports Watchdog_Health Watchdog_Admin Monitoring_Engine Monitoring_Health Monitoring_Pipeline
begin

text \<open>
  \<^bold>\<open>GOST-Manager: the Watchdog and the monitoring.\<close>

  GOST-Manager installs GOST tunnels on a server. Two Python programs run beside them. The
  \<^emph>\<open>Watchdog\<close> (\<open>src/gost_watchdog\<close>) pings the far end of every tunnel profile, stops the tunnel's
  service after enough consecutive failures and starts it again after a completed recovery; it keeps
  its state in an SQLite database and an administrator changes modes, maintenance and settings with
  a command line tool. The \<^emph>\<open>monitoring\<close> (\<open>src/monitoring\<close>) is a daemon that collects metrics of the host, the
  network, the services and the tunnels at a fixed interval into its own database and rolls them up by the
  minute, and a set of queries on that database: windows, summaries, and a health verdict.

  \<^bold>\<open>Theories and the code they model.\<close>

  \<^item> \<open>Gost_Prelude\<close>: results (\<open>'e + 'a\<close>) and stateful actions (\<open>('s, 'e, 'a) act\<close>: a state and either
    an exception or a value) with their weakest preconditions \<open>wp\<close>; Python strings, decimal text and
    insertion-ordered dicts. \<open>Gost_Deadlines\<close>: the locale \<open>deadline_grid\<close>, what a periodic scheduler relies on.
  \<^item> \<open>Watchdog_Models\<close>: \<open>models.py\<close>. \<open>Watchdog_Config\<close>: \<open>config.py\<close> (the strict key=value files, bounds,
    rendering, file security, the atomic write). \<open>Watchdog_Profiles\<close>: \<open>profiles.py\<close> (discovery).
    \<open>Watchdog_Storage\<close>: \<open>storage.py\<close> (migration, rows, transactions, events, pruning, summary).
    \<open>Watchdog_Commands\<close>: \<open>commands.py\<close> (ping, deduplicated probing, the service manager).
  \<^item> \<open>Watchdog_Engine\<close>: \<open>engine.py\<close>: the durable service actions (intent first, then the command, then
    the outcome), the health state machine of \<open>WatchdogEngine.process\<close>, and the maintenance controller.
    \<open>Watchdog_Daemon\<close>: \<open>daemon.py\<close>. \<open>Watchdog_Admin\<close>: \<open>admin_cli.py\<close>, every command.
  \<^item> Collecting. \<open>Monitoring_Metrics\<close>: \<open>models.py\<close>. \<open>Monitoring_Network\<close>, \<open>Monitoring_Proc\<close>, \<open>Monitoring_Services\<close>:
    \<open>network_readers.py\<close>, \<open>proc_readers.py\<close>, \<open>systemd_readers.py\<close> and \<open>socket_readers.py\<close>, from the text of a file or
    command to metrics. \<open>Monitoring_Entities\<close>: \<open>entities.py\<close> (tunnels from their environment files).
    \<open>Monitoring_Events\<close>: \<open>event_state.py\<close>. \<open>Monitoring_Config\<close>: \<open>config.py\<close>. \<open>Monitoring_Store\<close>: the writes of \<open>schema.py\<close>
    with their redaction. \<open>Monitoring_Scheduler\<close>: \<open>scheduler.py\<close>.
  \<^item> One collection, \<open>collector.py\<close>. \<open>Monitoring_Capture\<close>: \<open>CollectorSources\<close>, \<open>Capture\<close> and \<open>_capture_raw\<close>, everything that is
    read. \<open>Monitoring_Readings\<close>: the host, the disks and the network, with the counters kept as JSON.
    \<open>Monitoring_Service_Cycle\<close>: \<open>_service_and_tunnel_metrics\<close>. \<open>Monitoring_Collector\<close>: \<open>_source_status\<close>, \<open>collect_once\<close> with
    its transaction, failure record, maintenance and checkpoint.
  \<^item> Querying. \<open>Monitoring_Semantics\<close>: \<open>metric_semantics.py\<close>. \<open>Monitoring_Summaries\<close>: the statistics of
    \<open>query_engine.py\<close> (raw, streaming, rollup and hybrid summaries, percentiles). \<open>Monitoring_Query\<close>:
    \<open>query_window.py\<close>, the filters and counts of \<open>query_db.py\<close> and the cost-aware plan of
    \<open>query_engine.py\<close>. \<open>Monitoring_Rollups\<close>: the maintenance of \<open>schema.py\<close>. \<open>Monitoring_Engine\<close>: the reads
    of \<open>query_db.py\<close> and \<open>QueryEngine.summary\<close>. \<open>Monitoring_Health\<close>: \<open>health.py\<close>.

  \<^bold>\<open>State.\<close> The Watchdog operations act on a record \<open>world\<close>: the database, the file system, the services
  as the system reports them, a log of effects, and an arbitrary remainder \<open>'w\<close> that answers clocks,
  pings, random draws and faults through the record \<open>env\<close>. Everything outside the program (systemctl,
  ping, the clock, what SQLite calls raise) is such an answer, so the theorems hold for every behaviour
  of the environment. The monitoring queries read a record \<open>metrics_db\<close>: the rows of its tables. The collection
  writes a record \<open>store\<close> that extends it by the columns no query reads; a running collection is a record
  \<open>collecting\<close> (the store, the capture and a counter of clock answers), its steps are actions on it, and
  \<open>collector_sources\<close> holds what files, commands and the system answer.

  \<^bold>\<open>What the lemmas show.\<close>

  \<^item> \<open>Watchdog_Safety\<close>, \<open>Watchdog_Guards\<close>: invariants of every reachable world (an inductive closure of the
    operations, with any fault at any call): each service command follows a matching durable intent, for
    a managed profile; stored states are well formed; an operation that returns leaves no intent open;
    stops and starts happen only under the code's guards. \<open>Watchdog_Daemon\<close> and \<open>Watchdog_Admin\<close> carry the
    same invariant through whole runs of the daemon and through every administration command.
  \<^item> \<open>Watchdog_Health\<close>: an abstract automaton of failures and recoveries, the refinement of
    \<open>WatchdogEngine.process\<close> to it, and its behaviour over sequences of checks (an outage after exactly the
    threshold, no outage without consecutive failures, recovery that completes and is never early).
  \<^item> \<open>Watchdog_Config\<close>, \<open>Watchdog_Profiles\<close>, \<open>Watchdog_Storage\<close>, \<open>Watchdog_Commands\<close>: round trips of the
    files and rows, exact specifications of discovery, pruning, migration and probing, all-or-nothing writes.
    The locale \<open>key_value_lines\<close> is the contract of the strict file formats.
  \<^item> \<open>Monitoring_Summaries\<close>, \<open>Monitoring_Engine\<close>: streaming computes what holding the rows does, per series
    and for a whole query; percentiles are quantiles; averages lie in their range; queries keep their limits.
    \<open>Monitoring_Query\<close>: a window is the retained part of the request; a plan reads each second once.
    \<open>Monitoring_Rollups\<close>: completed minutes are rolled up exactly, the watermark advances to the last
    completed minute and is one the planner accepts, and stored rows keep the shape the summaries need.
  \<^item> The readers (\<open>Monitoring_Network\<close>, \<open>Monitoring_Proc\<close>, \<open>Monitoring_Services\<close>) make well-formed metrics only
    (\<open>honest\<close>), rates only between comparable readings; \<open>Monitoring_Entities\<close>, \<open>Monitoring_Config\<close>: round trips and
    bounds; \<open>Monitoring_Events\<close>: events are exactly the changes; \<open>Monitoring_Store\<close>: nothing sensitive is stored
    and overruns are recorded as they happened; \<open>Monitoring_Scheduler\<close>: deadlines keep to their grid.
  \<^item> \<open>Monitoring_Readings\<close> states what a step keeps (\<open>runs J X Q m\<close>: the store keeps \<open>J\<close>, the value satisfies \<open>Q\<close>, an
    exception only where \<open>X\<close>), with one rule per building block; the locales \<open>stored_state\<close>, \<open>stored_tables\<close> and
    \<open>stored_cycle\<close> carry any such \<open>J\<close> through the steps, and \<open>Monitoring_Cycles\<close> interprets them on the consistency of
    the tables and on the texts no reading writes: every collection keeps the tables consistent, a failed one
    leaves only its record, the slow sources keep their cadence, and on a database of its own a collection
    always succeeds. \<open>Monitoring_Carryover\<close>: what one collection keeps for the next.
    \<open>Monitoring_Pipeline\<close>: readers, redaction and settings together.
  \<^item> \<open>Monitoring_Health\<close>: the overall verdict is the worst of its parts, a healthy node is characterised,
    and the newest event about a subject decides.

  \<^bold>\<open>Idealisations.\<close> Floats are exact reals, and a JSON number is a real, so a whole float is not told from the
  integer equal to it. SQLite transactions are atomic and a failing call changes nothing outside its
  transaction; the writes of the monitoring do not fail on their own. Rows that tie in every column of an
  ORDER BY keep table order; a collection cycle is identified by its time and an entity by its type and id,
  which are unique in their tables. The iteration order of a Python set and the completion order of the ping
  pool are parameters or the order of the data. Strings are sequences of 8-bit characters. A file or command
  gives one answer in a collection. The caches in \<open>collector_state\<close> hold JSON of the types the collector writes.
  The daemon loops take a number of iterations as fuel; their theorems hold for every number, so no bound is
  needed. \<open>datetime.fromisoformat\<close>, \<open>json.loads\<close>, \<open>json.dumps\<close>, \<open>float\<close> and \<open>ipaddress\<close> are parameters; where a property
  relies on one of them its hypothesis says so.

  \<^bold>\<open>Not modelled.\<close> The connection set-up and the creation and migration of the monitoring schema, exporters,
  renderers and monitoring command lines, the file lock and the capacity estimates of \<open>src/monitoring\<close>; the
  argument parsers and JSON printing of \<open>admin_cli.py\<close>; signal handlers (a stop request is an answer of the
  environment); the shell scripts, packaging and tests.
\<close>

end
